(* ===== verification/Prelude.thy ===== *)
theory Prelude
  imports Main "HOL-Library.Word"
begin

text \<open>
  What every component of the model shares: Go's times, durations and uuids, Go's error
  values with \<open>errors.Is\<close> and \<open>errors.Join\<close>, programs over an explicit world that may
  panic and recover, and the generic lemmas on these.
  Collections: \<open>prog_simps\<close> unfolds the program combinators, \<open>err_simps\<close> unfolds the
  sentinels that \<open>errors.Is\<close> compares.
\<close>

named_theorems prog_simps \<open>equations of the program combinators\<close>
named_theorems err_simps \<open>definitions of the sentinel errors\<close>

section \<open>Times, durations, uuids\<close>

text \<open>
  A \<open>time.Duration\<close> is an int64 count of nanoseconds. A \<open>time.Time\<close> is an instant,
  counted here in nanoseconds from Go's zero time, so \<open>IsZero\<close> is equality with 0; its
  range of hundreds of billions of years is not bounded in the model. A uuid is 16 bytes;
  Postgres compares uuids byte by byte from the left, which is the unsigned order of the
  128-bit word.
\<close>

type_synonym duration = "64 word"
type_synonym time = int
type_synonym uuid = "128 word"

definition uuid_Nil :: uuid where
  "uuid_Nil = 0"

definition time_Add :: "time \<Rightarrow> duration \<Rightarrow> time" where
  "time_Add t d = t + sint d"

definition MaxDuration :: int where
  "MaxDuration = 2 ^ 63 - 1"

definition time_Sub :: "time \<Rightarrow> time \<Rightarrow> duration" where
  \<comment> \<open>\<open>Time.Sub\<close> saturates at the ends of the Duration range.\<close>
  "time_Sub t u = word_of_int (max (- (2 ^ 63)) (min MaxDuration (t - u)))"

lemma sint_duration_bounds:
  "- (2 ^ 63) \<le> sint (d :: duration)" "sint (d :: duration) \<le> MaxDuration"
  using sint_greater_eq [of d] sint_less [of d] by (simp_all add: MaxDuration_def)

lemma sint_word_of_int_duration:
  assumes "- (2 ^ 63) \<le> i" and "i \<le> MaxDuration"
  shows "sint (word_of_int i :: duration) = i"
  using assms
  by (simp add: MaxDuration_def sint_sbintrunc' signed_take_bit_int_eq_self_iff)

lemma time_Add_mono: "sint d \<le> sint e \<Longrightarrow> time_Add t d \<le> time_Add t e"
  by (simp add: time_Add_def)

section \<open>Errors\<close>

text \<open>
  A Go error is a value that may wrap others. \<open>New\<close> is \<open>errors.New\<close>, so a sentinel is a
  \<open>New\<close> with its text; \<open>Errorf\<close> is \<open>fmt.Errorf\<close> with its format, the operands its other
  verbs print and the errors its \<open>%w\<close> verbs wrap, in order; \<open>Join\<close> is the value of
  \<open>errors.Join\<close> on a non-empty list; \<open>PgError\<close> is the driver's \<open>*pgconn.PgError\<close> with its
  SQLSTATE code and message, \<open>ProtoError\<close> is \<open>*textproto.Error\<close>, a reply of a mail server with its
  code and message. The text \<open>Error()\<close> prints is a parameter wherever the code
  stores it.
\<close>

datatype operand = OStr string | OInt int | OUuid uuid | ODuration duration

datatype goerr =
    New string
  | Errorf string "operand list" "goerr list"
  | Join "goerr list"
  | PgError string string
  | ProtoError int string

fun errors_Is :: "goerr \<Rightarrow> goerr \<Rightarrow> bool" where
  "errors_Is (New s) t = (New s = t)"
| "errors_Is (Errorf f xs es) t = (Errorf f xs es = t \<or> list_ex (\<lambda>e. errors_Is e t) es)"
| "errors_Is (Join es) t = (Join es = t \<or> list_ex (\<lambda>e. errors_Is e t) es)"
| "errors_Is (PgError c m) t = (PgError c m = t)"
| "errors_Is (ProtoError k m) t = (ProtoError k m = t)"

text \<open>
  \<open>errors.As\<close> for the two driver types: the code of the first \<open>PgError\<close>, or \<open>ProtoError\<close>, of
  the tree in depth-first order.
\<close>

fun find_first :: "('a \<Rightarrow> 'b option) \<Rightarrow> 'a list \<Rightarrow> 'b option" where
  "find_first f [] = None"
| "find_first f (x # xs) = (case f x of Some y \<Rightarrow> Some y | None \<Rightarrow> find_first f xs)"

lemma find_first_cong [fundef_cong]:
  "xs = ys \<Longrightarrow> (\<And>x. x \<in> set ys \<Longrightarrow> f x = g x) \<Longrightarrow> find_first f xs = find_first g ys"
  by (induction xs arbitrary: ys) (auto split: option.splits)

fun errors_As_pg :: "goerr \<Rightarrow> string option" where
  "errors_As_pg (New s) = None"
| "errors_As_pg (Errorf f xs es) = find_first errors_As_pg es"
| "errors_As_pg (Join es) = find_first errors_As_pg es"
| "errors_As_pg (PgError c m) = Some c"
| "errors_As_pg (ProtoError k m) = None"

fun errors_As_proto :: "goerr \<Rightarrow> int option" where
  "errors_As_proto (New s) = None"
| "errors_As_proto (Errorf f xs es) = find_first errors_As_proto es"
| "errors_As_proto (Join es) = find_first errors_As_proto es"
| "errors_As_proto (PgError c m) = None"
| "errors_As_proto (ProtoError k m) = Some k"

definition errors_Join :: "goerr list \<Rightarrow> goerr option" where
  "errors_Join es = (if es = [] then None else Some (Join es))"

lemma errors_Is_refl [simp]: "errors_Is e e"
  by (cases e) auto

lemma errors_Is_wrapped: "e \<in> set es \<Longrightarrow> errors_Is e t \<Longrightarrow> errors_Is (Errorf f xs es) t"
  by (auto simp: list_ex_iff)

lemma errors_Is_trans: "errors_Is e t \<Longrightarrow> errors_Is t u \<Longrightarrow> errors_Is e u"
proof (induction e t rule: errors_Is.induct)
  case (1 s t)
  then show ?case by simp
next
  case (2 f xs es t)
  then show ?case by (auto simp: list_ex_iff)
next
  case (3 es t)
  then show ?case by (auto simp: list_ex_iff)
next
  case (4 c m t)
  then show ?case by simp
next
  case (5 k m t)
  then show ?case by simp
qed

lemma errors_Join_eq_None [simp]: "errors_Join es = None \<longleftrightarrow> es = []"
  by (simp add: errors_Join_def)

lemma errors_Join_Nil [simp]: "errors_Join [] = None"
  by simp

section \<open>Programs over a world\<close>

text \<open>
  A Go function that touches its environment is a program: from the world before, either
  a returned value or a panic, and the world after. \<open>bindp\<close> is sequencing (a panic skips
  the rest), \<open>recoverp\<close> is a deferred \<open>recover\<close>, \<open>deferp\<close> another deferred call.
\<close>

datatype 'a outcome = Ret 'a | Panics string

type_synonym ('w, 'a) prog = "'w \<Rightarrow> 'a outcome \<times> 'w"

definition retp :: "'a \<Rightarrow> ('w, 'a) prog" where
  [prog_simps]: "retp x = (\<lambda>w. (Ret x, w))"

definition panicp :: "string \<Rightarrow> ('w, 'a) prog" where
  [prog_simps]: "panicp m = (\<lambda>w. (Panics m, w))"

definition bindp :: "('w, 'a) prog \<Rightarrow> ('a \<Rightarrow> ('w, 'b) prog) \<Rightarrow> ('w, 'b) prog" where
  "bindp p f = (\<lambda>w. case p w of (Ret x, w') \<Rightarrow> f x w' | (Panics m, w') \<Rightarrow> (Panics m, w'))"

definition recoverp :: "('w, 'a) prog \<Rightarrow> (string \<Rightarrow> ('w, 'a) prog) \<Rightarrow> ('w, 'a) prog" where
  "recoverp p h = (\<lambda>w. case p w of (Ret x, w') \<Rightarrow> (Ret x, w') | (Panics m, w') \<Rightarrow> h m w')"

definition getp :: "('w, 'w) prog" where
  [prog_simps]: "getp = (\<lambda>w. (Ret w, w))"

definition putp :: "'w \<Rightarrow> ('w, unit) prog" where
  [prog_simps]: "putp w = (\<lambda>_. (Ret (), w))"

definition deferp :: "('w, 'a) prog \<Rightarrow> ('w, 'b) prog \<Rightarrow> ('w, 'a) prog" where
  \<comment> \<open>a deferred call runs whether the body returns or panics\<close>
  "deferp p c =
     (\<lambda>w. case p w of (r, w') \<Rightarrow>
        (case c w' of (Ret _, w'') \<Rightarrow> (r, w'') | (Panics m, w'') \<Rightarrow> (Panics m, w'')))"

lemma bindp_Ret [prog_simps]: "p w = (Ret x, w') \<Longrightarrow> bindp p f w = f x w'"
  by (simp add: bindp_def)

lemma bindp_Panics [prog_simps]: "p w = (Panics m, w') \<Longrightarrow> bindp p f w = (Panics m, w')"
  by (simp add: bindp_def)

lemma recoverp_Ret [prog_simps]: "p w = (Ret x, w') \<Longrightarrow> recoverp p h w = (Ret x, w')"
  by (simp add: recoverp_def)

lemma recoverp_Panics [prog_simps]: "p w = (Panics m, w') \<Longrightarrow> recoverp p h w = h m w'"
  by (simp add: recoverp_def)

lemma retp_apply [simp]: "retp x w = (Ret x, w)"
  by (simp add: retp_def)

lemma panicp_apply [simp]: "panicp m w = (Panics m, w)"
  by (simp add: panicp_def)

lemma bindp_retp [simp]: "bindp (retp x) f = f x"
  by (simp add: bindp_def retp_def)

lemma bindp_panicp [simp]: "bindp (panicp m) f = panicp m"
  by (simp add: bindp_def panicp_def)

lemma recoverp_retp [simp]: "recoverp (retp x) h = retp x"
  by (simp add: recoverp_def retp_def)

lemma recoverp_panicp [simp]: "recoverp (panicp m) h = h m"
  by (simp add: recoverp_def panicp_def)

lemma bindp_eq_Ret:
  "bindp p f w = (Ret y, w'') \<longleftrightarrow> (\<exists>x w'. p w = (Ret x, w') \<and> f x w' = (Ret y, w''))"
  by (auto simp: bindp_def split: prod.splits outcome.splits)

lemma bindp_eq_Panics:
  "bindp p f w = (Panics m, w'') \<longleftrightarrow>
     p w = (Panics m, w'') \<or> (\<exists>x w'. p w = (Ret x, w') \<and> f x w' = (Panics m, w''))"
  by (auto simp: bindp_def split: prod.splits outcome.splits)

section \<open>Generic lemmas on lists\<close>

lemma distinct_map_filter: "distinct (map f xs) \<Longrightarrow> distinct (map f (filter P xs))"
  by (induction xs) auto

lemma distinct_map_eqD:
  "distinct (map f xs) \<Longrightarrow> x \<in> set xs \<Longrightarrow> y \<in> set xs \<Longrightarrow> f x = f y \<Longrightarrow> x = y"
  by (auto simp: distinct_map dest: inj_onD)

lemma distinct_map_take: "distinct (map f xs) \<Longrightarrow> distinct (map f (take n xs))"
  by (simp flip: take_map)

lemma find_map_eq_id:
  "(\<And>x. x \<in> set xs \<Longrightarrow> P (f x) = P x) \<Longrightarrow> find P (map f xs) = map_option f (find P xs)"
  by (induction xs) auto


lemma take_sort_key_le:
  fixes f :: "'a \<Rightarrow> 'b :: linorder"
  assumes "r \<in> set (take n (sort_key f xs))" and "s \<in> set xs" and "s \<notin> set (take n (sort_key f xs))"
  shows "f r \<le> f s"
proof -
  have split: "sort_key f xs = take n (sort_key f xs) @ drop n (sort_key f xs)" by simp
  have "s \<in> set (sort_key f xs)" using assms(2) by simp
  then have "s \<in> set (drop n (sort_key f xs))" using assms(3) split by (metis Un_iff set_append)
  moreover have "sorted (map f (take n (sort_key f xs)) @ map f (drop n (sort_key f xs)))"
    using sorted_sort_key [of f xs] split by (metis map_append)
  ultimately show ?thesis using assms(1) by (auto simp: sorted_append)
qed

lemma set_take_sort_key: "set (take n (sort_key f xs)) \<subseteq> set xs"
  by (metis set_sort set_take_subset)

lemma length_filter_map_ids:
  assumes "distinct (map f xs)" and "distinct is" and "set is \<subseteq> f ` set xs"
  shows "length (filter (\<lambda>x. f x \<in> set is) xs) = length is"
proof -
  have "length (filter (\<lambda>x. f x \<in> set is) xs) = card (f ` set (filter (\<lambda>x. f x \<in> set is) xs))"
    using distinct_map_filter [OF assms(1)] by (metis distinct_card length_map set_map)
  also have "f ` set (filter (\<lambda>x. f x \<in> set is) xs) = set is" using assms(3) by auto
  finally show ?thesis using assms(2) by (simp add: distinct_card)
qed

lemma find_distinct_id:
  "distinct (map f xs) \<Longrightarrow> x \<in> set xs \<Longrightarrow> find (\<lambda>y. f y = f x) xs = Some x"
  by (induction xs) (auto simp: rev_image_eqI)

lemma find_Some_mem: "find P xs = Some x \<Longrightarrow> x \<in> set xs \<and> P x"
  by (auto simp: find_Some_iff)


section \<open>Frames\<close>

text \<open>
  \<open>preserves I obs p\<close>: from a state satisfying \<open>I\<close>, the program \<open>p\<close> ends, by a return
  or by a panic, in one that satisfies it and looks the same through \<open>obs\<close>.
\<close>

definition preserves :: "('w \<Rightarrow> bool) \<Rightarrow> ('w \<Rightarrow> 'b) \<Rightarrow> ('w, 'a) prog \<Rightarrow> bool" where
  "preserves I obs p \<longleftrightarrow> (\<forall>w. I w \<longrightarrow> I (snd (p w)) \<and> obs (snd (p w)) = obs w)"

definition returns :: "('w \<Rightarrow> bool) \<Rightarrow> ('w, 'a) prog \<Rightarrow> bool" where
  "returns I p \<longleftrightarrow> (\<forall>w. I w \<longrightarrow> (\<exists>x w'. p w = (Ret x, w')))"

lemma preservesD:
  "preserves I obs p \<Longrightarrow> I w \<Longrightarrow> p w = (r, w') \<Longrightarrow> I w' \<and> obs w' = obs w"
  unfolding preserves_def by (metis snd_conv)

lemma returnsD: "returns I p \<Longrightarrow> I w \<Longrightarrow> \<exists>x w'. p w = (Ret x, w')"
  by (simp add: returns_def)

lemma preserves_retp [intro, simp]: "preserves I obs (retp x)"
  by (simp add: preserves_def retp_def)

lemma preserves_panicp [intro, simp]: "preserves I obs (panicp m)"
  by (simp add: preserves_def panicp_def)

lemma preserves_bindp [intro]:
  assumes "preserves I obs p" and "\<And>x. preserves I obs (f x)"
  shows "preserves I obs (bindp p f)"
  unfolding preserves_def
proof (intro allI impI)
  fix w assume I: "I w"
  obtain r w1 where p: "p w = (r, w1)" by (cases "p w")
  from preservesD [OF assms(1) I p] have w1: "I w1" "obs w1 = obs w" by simp_all
  show "I (snd (bindp p f w)) \<and> obs (snd (bindp p f w)) = obs w"
  proof (cases r)
    case (Ret x)
    obtain r2 w2 where "f x w1 = (r2, w2)" by (cases "f x w1")
    with preservesD [OF assms(2) w1(1) this] w1 show ?thesis by (simp add: bindp_def p Ret)
  qed (use w1 in \<open>simp add: bindp_def p\<close>)
qed

lemma preserves_recoverp [intro]:
  assumes "preserves I obs p" and "\<And>m. preserves I obs (h m)"
  shows "preserves I obs (recoverp p h)"
  unfolding preserves_def
proof (intro allI impI)
  fix w assume I: "I w"
  obtain r w1 where p: "p w = (r, w1)" by (cases "p w")
  from preservesD [OF assms(1) I p] have w1: "I w1" "obs w1 = obs w" by simp_all
  show "I (snd (recoverp p h w)) \<and> obs (snd (recoverp p h w)) = obs w"
  proof (cases r)
    case (Panics m)
    obtain r2 w2 where "h m w1 = (r2, w2)" by (cases "h m w1")
    with preservesD [OF assms(2) w1(1) this] w1 show ?thesis by (simp add: recoverp_def p Panics)
  qed (use w1 in \<open>simp add: recoverp_def p\<close>)
qed

lemma returns_recoverp:
  assumes "preserves I obs p" and "\<And>m. returns I (h m)"
  shows "returns I (recoverp p h)"
  unfolding returns_def
proof (intro allI impI)
  fix w assume I: "I w"
  obtain r w1 where p: "p w = (r, w1)" by (cases "p w")
  with preservesD [OF assms(1) I p] returnsD [OF assms(2)]
  show "\<exists>x w'. recoverp p h w = (Ret x, w')" by (cases r) (auto simp: recoverp_def)
qed

text \<open>Stepping through a run that returned.\<close>

lemma bindp_RetE:
  assumes "bindp p f w = (Ret y, w'')"
  obtains x w' where "p w = (Ret x, w')" "f x w' = (Ret y, w'')"
  using assms by (auto simp: bindp_eq_Ret)

text \<open>
  \<open>ends A p w\<close>: run from the world \<open>w\<close>, the program ends, by a return or by a panic, in a
  world satisfying \<open>A\<close>.
\<close>

definition ends :: "('w \<Rightarrow> bool) \<Rightarrow> ('w, 'a) prog \<Rightarrow> 'w \<Rightarrow> bool" where
  "ends A p w \<longleftrightarrow> A (snd (p w))"

lemma ends_retp [intro, simp]: "A w \<Longrightarrow> ends A (retp x) w"
  by (simp add: ends_def)

lemma ends_panicp [intro, simp]: "A w \<Longrightarrow> ends A (panicp m) w"
  by (simp add: ends_def)

lemma ends_bindp:
  assumes "ends A p w" and "\<And>x w'. p w = (Ret x, w') \<Longrightarrow> A w' \<Longrightarrow> ends A (f x) w'"
  shows "ends A (bindp p f) w"
proof -
  obtain r w' where p: "p w = (r, w')" by (cases "p w")
  with assms show ?thesis by (cases r) (auto simp: ends_def bindp_def)
qed

lemma ends_deferp:
  assumes "ends A p w" and "\<And>w'. A w' \<Longrightarrow> ends A c w'"
  shows "ends A (deferp p c) w"
proof -
  obtain r w' where p: "p w = (r, w')" by (cases "p w")
  obtain q w'' where c: "c w' = (q, w'')" by (cases "c w'")
  with assms p have "A w''" by (fastforce simp: ends_def)
  with p c show ?thesis by (cases q) (simp_all add: ends_def deferp_def)
qed

lemma endsD: "ends A p w \<Longrightarrow> p w = (r, w') \<Longrightarrow> A w'"
  by (simp add: ends_def)

lemma preserves_ends: "preserves A obs p \<Longrightarrow> A w \<Longrightarrow> ends A p w"
  by (simp add: preserves_def ends_def)

text \<open>The branch a run that returned took.\<close>

lemma case_sum_runE:
  assumes "(case r of Inl e \<Rightarrow> f e | Inr x \<Rightarrow> g x) w = v"
  obtains e where "r = Inl e" "f e w = v" | x where "r = Inr x" "g x w = v"
  using assms by (cases r) auto

lemma case_option_runE:
  assumes "(case r of None \<Rightarrow> f | Some x \<Rightarrow> g x) w = v"
  obtains "r = None" "f w = v" | x where "r = Some x" "g x w = v"
  using assms by (cases r) auto

lemma if_runE:
  assumes "(if b then f else g) w = v"
  obtains "b" "f w = v" | "\<not> b" "g w = v"
  using assms by (cases b) auto

lemma case_prod_runE:
  assumes "(case r of (x, y) \<Rightarrow> f x y) w = v"
  obtains x y where "r = (x, y)" "f x y w = v"
  using assms by (cases r) auto

lemmas runE = bindp_RetE case_sum_runE case_option_runE if_runE case_prod_runE

end
