(* ===== verification/Db.thy ===== *)
theory Db
  imports Prelude
begin

text \<open>
  \<open>internal/db\<close>: the translation of driver errors into sentinels (\<open>errors.go\<close>) and the
  transaction wrapper (\<open>tx.go\<close>).
\<close>

section \<open>Driver errors\<close>

definition sql_ErrNoRows :: goerr where
  "sql_ErrNoRows = New ''sql: no rows in result set''"

definition db_ErrNotFound :: goerr where "db_ErrNotFound = New ''db: not found''"
definition ErrConflict :: goerr where "ErrConflict = New ''db: conflict''"
definition ErrInvalidRef :: goerr where "ErrInvalidRef = New ''db: invalid reference''"
definition ErrNotNull :: goerr where "ErrNotNull = New ''db: missing required value''"
definition ErrCheckViolation :: goerr where
  "ErrCheckViolation = New ''db: check constraint violated''"
definition ErrSerialization :: goerr where
  "ErrSerialization = New ''db: serialization failure''"

lemmas db_sentinels [err_simps] =
  sql_ErrNoRows_def db_ErrNotFound_def ErrConflict_def ErrInvalidRef_def ErrNotNull_def
  ErrCheckViolation_def ErrSerialization_def

definition pgCodeNotNullViolation :: string where "pgCodeNotNullViolation = ''23502''"
definition pgCodeForeignKeyViolation :: string where "pgCodeForeignKeyViolation = ''23503''"
definition pgCodeUniqueViolation :: string where "pgCodeUniqueViolation = ''23505''"
definition pgCodeCheckViolation :: string where "pgCodeCheckViolation = ''23514''"
definition pgCodeSerializationFailure :: string where "pgCodeSerializationFailure = ''40001''"
definition pgCodeDeadlockDetected :: string where "pgCodeDeadlockDetected = ''40P01''"

lemmas pg_codes =
  pgCodeNotNullViolation_def pgCodeForeignKeyViolation_def pgCodeUniqueViolation_def
  pgCodeCheckViolation_def pgCodeSerializationFailure_def pgCodeDeadlockDetected_def

definition joinSentinel :: "goerr \<Rightarrow> goerr \<Rightarrow> goerr" where
  "joinSentinel sentinel cause = Join [sentinel, cause]"

definition code_sentinel :: "string \<Rightarrow> goerr option" where
  \<comment> \<open>the \<open>switch pgErr.Code\<close> of \<open>Translate\<close>\<close>
  "code_sentinel code =
     (if code = pgCodeUniqueViolation then Some ErrConflict
      else if code = pgCodeForeignKeyViolation then Some ErrInvalidRef
      else if code = pgCodeNotNullViolation then Some ErrNotNull
      else if code = pgCodeCheckViolation then Some ErrCheckViolation
      else if code = pgCodeSerializationFailure \<or> code = pgCodeDeadlockDetected
      then Some ErrSerialization
      else None)"

definition Translate_err :: "goerr \<Rightarrow> goerr" where
  "Translate_err err =
     (if errors_Is err sql_ErrNoRows then db_ErrNotFound
      else case errors_As_pg err of
          None \<Rightarrow> err
        | Some code \<Rightarrow>
            (case code_sentinel code of Some s \<Rightarrow> joinSentinel s err | None \<Rightarrow> err))"

definition Translate :: "goerr option \<Rightarrow> goerr option" where
  "Translate err = map_option Translate_err err"

definition IsRetryable :: "goerr option \<Rightarrow> bool" where
  "IsRetryable err = (case err of None \<Rightarrow> False | Some e \<Rightarrow> errors_Is e ErrSerialization)"

lemma Translate_None_iff [simp]: "Translate err = None \<longleftrightarrow> err = None"
  by (simp add: Translate_def)

lemma code_sentinel_some:
  "code_sentinel code = Some s \<Longrightarrow>
     s \<in> {ErrConflict, ErrInvalidRef, ErrNotNull, ErrCheckViolation, ErrSerialization}"
  by (auto simp: code_sentinel_def split: if_splits)

text \<open>The original error stays reachable, except for the one normalised away.\<close>

lemma Translate_err_wraps:
  "\<not> errors_Is err sql_ErrNoRows \<Longrightarrow> errors_Is (Translate_err err) err"
  by (auto simp: Translate_err_def joinSentinel_def split: option.splits)

lemma Translate_err_As_pg:
  "\<not> errors_Is err sql_ErrNoRows \<Longrightarrow> errors_As_pg (Translate_err err) = errors_As_pg err"
proof (cases "errors_As_pg err")
  case (Some code)
  assume *: "\<not> errors_Is err sql_ErrNoRows"
  show ?thesis
  proof (cases "code_sentinel code")
    case (Some s)
    then have "errors_As_pg s = None"
      by (auto dest!: code_sentinel_some simp: db_sentinels)
    with * \<open>errors_As_pg err = Some code\<close> Some show ?thesis
      by (simp add: Translate_err_def joinSentinel_def)
  qed (use * Some in \<open>simp add: Translate_err_def\<close>)
qed (simp add: Translate_err_def)

section \<open>Transactions\<close>

text \<open>
  A transaction is a handle \<open>tx\<close> with the driver's \<open>Commit\<close> and \<open>Rollback\<close>. \<open>Rollback\<close> is
  deferred: it runs after the function returned or panicked and after any \<open>Commit\<close>, and what it
  returns is dropped. What the three calls of the driver do is not decided here.
\<close>

record 'w sql_tx =
  tx_Commit :: "('w, goerr option) prog"
  tx_Rollback :: "('w, goerr option) prog"

definition InTx ::
  "('w, goerr + 'w sql_tx) prog \<Rightarrow> ('w sql_tx \<Rightarrow> ('w, goerr option) prog) \<Rightarrow>
   ('w, goerr option) prog" where
  "InTx BeginTx fn =
     bindp BeginTx (\<lambda>r.
       case r of
         Inl err \<Rightarrow> retp (Some (Errorf ''begin tx: %w'' [] [err]))
       | Inr tx \<Rightarrow>
           deferp
             (bindp (fn tx) (\<lambda>r.
                case r of
                  Some err \<Rightarrow> retp (Some err)
                | None \<Rightarrow>
                    bindp (tx_Commit tx) (\<lambda>r.
                      case r of
                        Some err \<Rightarrow> retp (Some (Errorf ''commit tx: %w'' [] [err]))
                      | None \<Rightarrow> retp None)))
             (tx_Rollback tx))"

text \<open>
  The documented behaviour of \<open>database/sql\<close> over a transactional database, as far as \<open>InTx\<close>
  relies on it. \<open>db\<close> reads the database as this connection sees it; \<open>opened tx d\<close> holds while
  \<open>tx\<close>, begun on the database \<open>d\<close>, is open, and \<open>ended tx\<close> once it is over. \<open>Rollback\<close> of an open
  transaction gives back the database it was begun on. \<open>Commit\<close> ends the transaction even when
  it fails, and a failed one (a connection lost before the answer came) may or may not have
  taken effect, as a whole. \<open>Rollback\<close> after that is \<open>sql.ErrTxDone\<close> and does nothing.
\<close>

definition sql_ErrTxDone :: goerr where
  "sql_ErrTxDone = New ''sql: transaction has already been committed or rolled back''"

definition begin_ok ::
  "('w \<Rightarrow> 'd) \<Rightarrow> ('w sql_tx \<Rightarrow> 'd \<Rightarrow> 'w \<Rightarrow> bool) \<Rightarrow> ('w, goerr + 'w sql_tx) prog \<Rightarrow> bool" where
  "begin_ok db opened BeginTx \<longleftrightarrow>
     (\<forall>w r w'. BeginTx w = (r, w') \<longrightarrow>
        db w' = db w \<and> (\<forall>tx. r = Ret (Inr tx) \<longrightarrow> opened tx (db w) w'))"

definition tx_ok ::
  "('w \<Rightarrow> 'd) \<Rightarrow> ('w sql_tx \<Rightarrow> 'd \<Rightarrow> 'w \<Rightarrow> bool) \<Rightarrow> ('w sql_tx \<Rightarrow> 'w \<Rightarrow> bool) \<Rightarrow> bool" where
  "tx_ok db opened ended \<longleftrightarrow>
     (\<forall>tx d w r w'. opened tx d w \<longrightarrow> tx_Commit tx w = (r, w') \<longrightarrow>
        ended tx w' \<and> (r = Ret None \<longrightarrow> db w' = db w) \<and> db w' \<in> {d, db w}) \<and>
     (\<forall>tx d w r w'. opened tx d w \<longrightarrow> tx_Rollback tx w = (r, w') \<longrightarrow>
        (\<exists>e. r = Ret e) \<and> ended tx w' \<and> db w' = d) \<and>
     (\<forall>tx w. ended tx w \<longrightarrow> tx_Rollback tx w = (Ret (Some sql_ErrTxDone), w))"

text \<open>The function leaves the end of its transaction to \<open>InTx\<close>.\<close>

definition leaves_open ::
  "('w sql_tx \<Rightarrow> 'd \<Rightarrow> 'w \<Rightarrow> bool) \<Rightarrow> ('w sql_tx \<Rightarrow> ('w, 'a) prog) \<Rightarrow> bool" where
  "leaves_open opened fn \<longleftrightarrow>
     (\<forall>tx d w. opened tx d w \<longrightarrow> opened tx d (snd (fn tx w)))"

text \<open>
  What a transaction does on every branch. Nothing of a function that failed or panicked
  stays; what is committed is what the function left, and is not undone by the rollback that
  still runs; a failed commit is reported, and leaves all of the work or none of it.
\<close>

lemma InTx_outcome:
  assumes bg: "begin_ok db opened BeginTx" and tx: "tx_ok db opened ended"
    and fn: "leaves_open opened fn" and run: "InTx BeginTx fn w = (r, w')"
  shows "case BeginTx w of
      (Panics m, w0) \<Rightarrow> r = Panics m \<and> db w' = db w
    | (Ret (Inl err), w0) \<Rightarrow> r = Ret (Some (Errorf ''begin tx: %w'' [] [err])) \<and> db w' = db w
    | (Ret (Inr tx), w0) \<Rightarrow>
        ended tx w' \<and>
        (case fn tx w0 of
           (Panics m, w1) \<Rightarrow> r = Panics m \<and> db w' = db w
         | (Ret (Some err), w1) \<Rightarrow> r = Ret (Some err) \<and> db w' = db w
         | (Ret None, w1) \<Rightarrow>
             w' = snd (tx_Commit tx w1) \<and>
             (case fst (tx_Commit tx w1) of
                Ret None \<Rightarrow> r = Ret None \<and> db w' = db w1
              | Ret (Some err) \<Rightarrow>
                  r = Ret (Some (Errorf ''commit tx: %w'' [] [err])) \<and> db w' \<in> {db w, db w1}
              | Panics m \<Rightarrow> r = Panics m \<and> db w' \<in> {db w, db w1}))"
proof (cases "\<exists>tx w0. BeginTx w = (Ret (Inr tx), w0)")
  case False
  with bg run show ?thesis
    unfolding InTx_def begin_ok_def
    by (auto simp: prog_simps bindp_def split: prod.splits outcome.splits sum.splits)
next
  case True
  then obtain tx w0 where b: "BeginTx w = (Ret (Inr tx), w0)" by blast
  with bg have open0: "opened tx (db w) w0" by (auto simp: begin_ok_def)
  obtain q w1 where q: "fn tx w0 = (q, w1)" by (cases "fn tx w0")
  with fn open0 have open1: "opened tx (db w) w1" unfolding leaves_open_def by (metis snd_conv)
  obtain c w2 where c: "tx_Commit tx w1 = (c, w2)" by (cases "tx_Commit tx w1")
  have c2: "ended tx w2" "c = Ret None \<longrightarrow> db w2 = db w1" "db w2 \<in> {db w, db w1}"
      "tx_Rollback tx w2 = (Ret (Some sql_ErrTxDone), w2)"
    using tx open1 c unfolding tx_ok_def by blast+
  obtain e w3 where rb: "tx_Rollback tx w1 = (Ret e, w3)" "ended tx w3" "db w3 = db w"
    using tx open1 unfolding tx_ok_def by (metis prod.collapse)
  show ?thesis
  proof (cases "q = Ret None")
    case True
    then have "r = (case c of Ret None \<Rightarrow> Ret None | Panics m \<Rightarrow> Panics m
        | Ret (Some err) \<Rightarrow> Ret (Some (Errorf ''commit tx: %w'' [] [err])))" "w' = w2"
      using run b q c c2(4)
      by (auto simp: InTx_def deferp_def bindp_def split: outcome.splits option.splits)
    with True b q c c2 show ?thesis by (auto split: outcome.splits option.splits)
  next
    case False
    with run b q rb(1) have "r = q \<and> w' = w3"
      by (cases q) (auto simp: InTx_def deferp_def bindp_def split: option.splits)
    with False b q rb show ?thesis by (auto split: outcome.splits option.splits)
  qed
qed

text \<open>What every call of a transaction keeps, the transaction keeps.\<close>

lemma ends_InTx:
  assumes "ends A BeginTx w"
    and "\<And>tx w0. BeginTx w = (Ret (Inr tx), w0) \<Longrightarrow> A w0 \<Longrightarrow> ends A (fn tx) w0"
    and "\<And>tx w0 v. BeginTx w = (Ret (Inr tx), w0) \<Longrightarrow> A v \<Longrightarrow> ends A (tx_Commit tx) v"
    and "\<And>tx w0 v. BeginTx w = (Ret (Inr tx), w0) \<Longrightarrow> A v \<Longrightarrow> ends A (tx_Rollback tx) v"
  shows "ends A (InTx BeginTx fn) w"
  unfolding InTx_def
proof (rule ends_bindp [OF assms(1)])
  fix r w0
  assume b: "BeginTx w = (Ret r, w0)" "A w0"
  show "ends A (case r of Inl err \<Rightarrow> retp (Some (Errorf ''begin tx: %w'' [] [err]))
      | Inr tx \<Rightarrow> deferp (bindp (fn tx) (\<lambda>r. case r of Some err \<Rightarrow> retp (Some err)
          | None \<Rightarrow> bindp (tx_Commit tx) (\<lambda>r. case r of
                Some err \<Rightarrow> retp (Some (Errorf ''commit tx: %w'' [] [err])) | None \<Rightarrow> retp None)))
          (tx_Rollback tx)) w0"
    using b assms(2-4)
    by (auto intro!: ends_deferp ends_bindp split: sum.splits option.splits)
qed

end
