(* ===== verification/Sha256.thy ===== *)
theory Sha256
  imports Prelude
begin

text \<open>
  \<open>crypto/sha256.Sum256\<close> (FIPS 180-4) and \<open>encoding/hex.EncodeToString\<close>, as far as
  \<open>HashToken\<close> and the random tokens use them. A byte is an 8-bit word, a Go string is the
  list of its bytes.
\<close>

unbundle bit_operations_syntax

type_synonym byte8 = "8 word"

section \<open>Hexadecimal\<close>

definition hextable :: string where
  "hextable = ''0123456789abcdef''"

definition hex_byte :: "byte8 \<Rightarrow> string" where
  "hex_byte b = [hextable ! unat (drop_bit 4 b), hextable ! unat (b AND 15)]"

definition hex_EncodeToString :: "byte8 list \<Rightarrow> string" where
  "hex_EncodeToString bs = concat (map hex_byte bs)"

definition bytes_of :: "string \<Rightarrow> byte8 list" where
  "bytes_of s = map of_char s"

lemma length_hex [simp]: "length (hex_EncodeToString bs) = 2 * length bs"
  by (induction bs) (auto simp: hex_EncodeToString_def hex_byte_def)

lemma hextable_inj: "i < 16 \<Longrightarrow> j < 16 \<Longrightarrow> hextable ! i = hextable ! j \<longleftrightarrow> i = j"
proof -
  have "distinct hextable" by (simp add: hextable_def)
  moreover assume "i < 16" "j < 16"
  ultimately show ?thesis by (simp add: nth_eq_iff_index_eq hextable_def)
qed

section \<open>SHA-256\<close>

text \<open>The round constants and the initial state, in decimal: the first 32 bits of the
  fractional parts of the cube (square) roots of the first 64 (8) primes.\<close>

definition sha_K :: "32 word list" where
  "sha_K =
    [1116352408, 1899447441, 3049323471, 3921009573, 961987163, 1508970993, 2453635748, 2870763221,
     3624381080, 310598401, 607225278, 1426881987, 1925078388, 2162078206, 2614888103, 3248222580,
     3835390401, 4022224774, 264347078, 604807628, 770255983, 1249150122, 1555081692, 1996064986,
     2554220882, 2821834349, 2952996808, 3210313671, 3336571891, 3584528711, 113926993, 338241895,
     666307205, 773529912, 1294757372, 1396182291, 1695183700, 1986661051, 2177026350, 2456956037,
     2730485921, 2820302411, 3259730800, 3345764771, 3516065817, 3600352804, 4094571909, 275423344,
     430227734, 506948616, 659060556, 883997877, 958139571, 1322822218, 1537002063, 1747873779,
     1955562222, 2024104815, 2227730452, 2361852424, 2428436474, 2756734187, 3204031479, 3329325298]"

datatype sha_state =
  Sha "32 word" "32 word" "32 word" "32 word" "32 word" "32 word" "32 word" "32 word"

definition sha_init :: sha_state where
  "sha_init = Sha 1779033703 3144134277 1013904242 2773480762 1359893119 2600822924 528734635 1541459225"

fun sha_add :: "sha_state \<Rightarrow> sha_state \<Rightarrow> sha_state" where
  "sha_add (Sha a b c d e f g h) (Sha a' b' c' d' e' f' g' h') =
     Sha (a + a') (b + b') (c + c') (d + d') (e + e') (f + f') (g + g') (h + h')"

definition rotr32 :: "nat \<Rightarrow> 32 word \<Rightarrow> 32 word" where
  "rotr32 n x = drop_bit n x OR push_bit (32 - n) x"

definition small_sigma0 :: "32 word \<Rightarrow> 32 word" where
  "small_sigma0 x = rotr32 7 x XOR rotr32 18 x XOR drop_bit 3 x"
definition small_sigma1 :: "32 word \<Rightarrow> 32 word" where
  "small_sigma1 x = rotr32 17 x XOR rotr32 19 x XOR drop_bit 10 x"
definition big_sigma0 :: "32 word \<Rightarrow> 32 word" where
  "big_sigma0 x = rotr32 2 x XOR rotr32 13 x XOR rotr32 22 x"
definition big_sigma1 :: "32 word \<Rightarrow> 32 word" where
  "big_sigma1 x = rotr32 6 x XOR rotr32 11 x XOR rotr32 25 x"

fun sha_round :: "sha_state \<Rightarrow> 32 word \<Rightarrow> 32 word \<Rightarrow> sha_state" where
  "sha_round (Sha a b c d e f g h) k w =
     (let t1 = h + big_sigma1 e + ((e AND f) XOR (NOT e AND g)) + k + w;
          t2 = big_sigma0 a + ((a AND b) XOR (a AND c) XOR (b AND c))
      in Sha (t1 + t2) a b c (d + t1) e f g)"

text \<open>The message schedule, newest word first.\<close>

fun sha_extend :: "nat \<Rightarrow> 32 word list \<Rightarrow> 32 word list" where
  "sha_extend 0 ws = ws"
| "sha_extend (Suc n) ws =
     sha_extend n ((small_sigma1 (ws ! 1) + ws ! 6 + small_sigma0 (ws ! 14) + ws ! 15) # ws)"

definition sha_block :: "sha_state \<Rightarrow> 32 word list \<Rightarrow> sha_state" where
  "sha_block st blk =
     sha_add st (foldl (\<lambda>s (k, w). sha_round s k w) st
       (zip sha_K (rev (sha_extend 48 (rev blk)))))"

fun be_words :: "byte8 list \<Rightarrow> 32 word list" where
  "be_words (a # b # c # d # rest) =
     (push_bit 24 (ucast a) OR push_bit 16 (ucast b) OR push_bit 8 (ucast c) OR ucast d)
     # be_words rest"
| "be_words _ = []"

definition be_bytes :: "32 word \<Rightarrow> byte8 list" where
  "be_bytes w = [ucast (drop_bit 24 w), ucast (drop_bit 16 w), ucast (drop_bit 8 w), ucast w]"

definition sha_pad :: "byte8 list \<Rightarrow> byte8 list" where
  "sha_pad msg =
     (let n = length msg in
      msg @ [0x80] @ replicate ((119 - n mod 64) mod 64) 0 @
      map (\<lambda>i. word_of_int (8 * int n div 256 ^ (7 - i))) [0..<8])"

function sha_blocks :: "sha_state \<Rightarrow> 32 word list \<Rightarrow> sha_state" where
  "sha_blocks st ws = (if ws = [] then st else sha_blocks (sha_block st (take 16 ws)) (drop 16 ws))"
  by pat_completeness auto
termination by (relation "measure (\<lambda>(st, ws). length ws)") auto

fun sha_sum :: "sha_state \<Rightarrow> byte8 list" where
  "sha_sum (Sha a b c d e f g h) = concat (map be_bytes [a, b, c, d, e, f, g, h])"

definition sha256_Sum256 :: "byte8 list \<Rightarrow> byte8 list" where
  "sha256_Sum256 msg = sha_sum (sha_blocks sha_init (be_words (sha_pad msg)))"

lemma length_sha256 [simp]: "length (sha256_Sum256 msg) = 32"
proof -
  have "length (sha_sum st) = 32" for st
    by (cases st) (simp add: be_bytes_def)
  then show ?thesis by (simp add: sha256_Sum256_def)
qed

end
