(* ===== verification/Identity.thy ===== *)
theory Identity
  imports Db Sha256
begin

text \<open>
  The domain of the identity module (\<open>modules/identity/domain\<close>): the login entity with its
  lockout rules, refresh tokens and their families, token classes, and the ports. A method
  with a pointer receiver takes the entity and returns it updated; \<open>time.Now\<close> is a program
  argument, called where the source calls it. The port arguments of type \<open>*User\<close> are non-nil
  (the service passes only users a lookup returned). A nil slice of roles is not told apart
  from an empty one. \<open>FailedLoginAttempts\<close> is unbounded here; its column is an int4.
\<close>

section \<open>The user\<close>

record user =
  u_ID :: uuid
  u_Username :: string
  u_Email :: string
  u_Name :: string
  u_Roles :: "string list"
  u_Permissions :: "string list"
  u_PasswordHash :: string
  u_MFAEnabled :: bool
  u_MFASecret :: string
  u_FailedLoginAttempts :: int
  u_LockedUntil :: "time option"

definition IsLocked :: "('w, time) prog \<Rightarrow> user \<Rightarrow> ('w, bool) prog" where
  "IsLocked Now u =
     (case u_LockedUntil u of
        None \<Rightarrow> retp False
      | Some t \<Rightarrow> bindp Now (\<lambda>now. retp (now < t)))"

definition RecordFailedLogin :: "('w, time) prog \<Rightarrow> int \<Rightarrow> duration \<Rightarrow> user \<Rightarrow> ('w, user) prog" where
  "RecordFailedLogin Now maxAttempts lockDuration u =
     (let u = u\<lparr>u_FailedLoginAttempts := u_FailedLoginAttempts u + 1\<rparr> in
      if maxAttempts \<le> u_FailedLoginAttempts u then
        bindp Now (\<lambda>now. retp (u\<lparr>u_LockedUntil := Some (time_Add now lockDuration)\<rparr>))
      else retp u)"

definition ResetFailedLogins :: "user \<Rightarrow> user" where
  "ResetFailedLogins u = u\<lparr>u_FailedLoginAttempts := 0, u_LockedUntil := None\<rparr>"

text \<open>Lockout at a given instant.\<close>

definition locked_at :: "time \<Rightarrow> user \<Rightarrow> bool" where
  "locked_at now u \<longleftrightarrow> (case u_LockedUntil u of None \<Rightarrow> False | Some t \<Rightarrow> now < t)"

lemma IsLocked_at:
  "Now w = (Ret now, w) \<Longrightarrow> IsLocked Now u w = (Ret (locked_at now u), w)"
  by (simp add: IsLocked_def locked_at_def prog_simps split: option.splits)

lemma RecordFailedLogin_at:
  "Now w = (Ret now, w) \<Longrightarrow>
   RecordFailedLogin Now k d u w =
     (Ret (u\<lparr>u_FailedLoginAttempts := u_FailedLoginAttempts u + 1,
             u_LockedUntil := (if k \<le> u_FailedLoginAttempts u + 1 then Some (time_Add now d)
                               else u_LockedUntil u)\<rparr>), w)"
  by (simp add: RecordFailedLogin_def prog_simps Let_def)

lemma ResetFailedLogins_unlocks [simp]: "\<not> locked_at now (ResetFailedLogins u)"
  by (simp add: locked_at_def ResetFailedLogins_def)

section \<open>Refresh tokens\<close>

record refresh_token =
  rt_UserID :: string
  rt_TokenHash :: string
  rt_ExpiresAt :: time
  rt_FamilyID :: string
  rt_Used :: bool
  rt_Revoked :: bool

definition Expired :: "time \<Rightarrow> refresh_token \<Rightarrow> bool" where
  "Expired now t \<longleftrightarrow> \<not> now < rt_ExpiresAt t"

definition Usable :: "time \<Rightarrow> refresh_token \<Rightarrow> bool" where
  "Usable now t \<longleftrightarrow> \<not> rt_Revoked t \<and> \<not> rt_Used t \<and> \<not> Expired now t"

definition HashToken :: "string \<Rightarrow> string" where
  "HashToken plain = hex_EncodeToString (sha256_Sum256 (bytes_of plain))"

lemma length_HashToken: "length (HashToken plain) = 64"
  by (simp add: HashToken_def)

section \<open>Token classes\<close>

type_synonym token_class = string

definition ClassAccess :: token_class where "ClassAccess = ''access''"
definition ClassMFA :: token_class where "ClassMFA = ''mfa''"
definition ClassID :: token_class where "ClassID = ''id''"

definition ErrWrongTokenClass :: goerr where
  [err_simps]: "ErrWrongTokenClass = New ''token: wrong class''"
definition ErrRefreshTokenAlreadyUsed :: goerr where
  [err_simps]: "ErrRefreshTokenAlreadyUsed = New ''refresh token: already used''"

record claims =
  cl_Subject :: string
  cl_Email :: string
  cl_Name :: string
  cl_Roles :: "string list"
  cl_Permissions :: "string list"
  cl_Scope :: string
  cl_Class :: token_class
  cl_IssuedAt :: int
  cl_ExpiresAt :: int

section \<open>Ports\<close>

record 'w user_repository =
  urp_FindByEmail :: "string \<Rightarrow> ('w, goerr + user) prog"
  urp_FindByID :: "string \<Rightarrow> ('w, goerr + user) prog"
  urp_FindByUsername :: "string \<Rightarrow> ('w, goerr + user) prog"
  urp_Save :: "user \<Rightarrow> ('w, goerr option) prog"

record 'w refresh_token_store =
  rsp_Store :: "refresh_token \<Rightarrow> ('w, goerr option) prog"
  rsp_FindValid :: "string \<Rightarrow> ('w, goerr + refresh_token option) prog"
  rsp_RevokeAllForUser :: "string \<Rightarrow> ('w, goerr option) prog"
  rsp_FindAny :: "string \<Rightarrow> ('w, goerr + refresh_token option) prog"
  rsp_Rotate :: "string \<Rightarrow> refresh_token \<Rightarrow> ('w, goerr option) prog"
  rsp_RevokeFamily :: "string \<Rightarrow> ('w, goerr + int) prog"

record 'w mfa_store =
  msp_StoreBackupCodes :: "string \<Rightarrow> string list \<Rightarrow> ('w, goerr option) prog"
  msp_FindAndUseBackupCode :: "string \<Rightarrow> string \<Rightarrow> ('w, goerr + bool) prog"

record 'w token_issuer =
  tip_IssueAccessToken :: "user \<Rightarrow> duration \<Rightarrow> ('w, goerr + string) prog"
  tip_IssueIDToken :: "user \<Rightarrow> string \<Rightarrow> ('w, string \<times> goerr option) prog"
  tip_IssueMFAToken :: "user \<Rightarrow> ('w, goerr + string) prog"
  tip_Validate :: "string \<Rightarrow> token_class \<Rightarrow> ('w, goerr + claims) prog"

record 'w password_hasher =
  php_Hash :: "string \<Rightarrow> ('w, goerr + string) prog"
  php_Verify :: "string \<Rightarrow> string \<Rightarrow> ('w, bool) prog"

record 'w mfa_service =
  mfp_GenerateSecret :: "string \<Rightarrow> ('w, goerr + string \<times> string) prog"
  mfp_ValidateCode :: "string \<Rightarrow> string \<Rightarrow> ('w, bool) prog"

text \<open>
  \<open>github.com/google/uuid\<close>, as far as the module uses it: \<open>Parse\<close> and \<open>String\<close>. The
  documented law is that a printed uuid parses back.
\<close>

record uuid_pkg =
  uuid_Parse :: "string \<Rightarrow> goerr + uuid"
  uuid_String :: "uuid \<Rightarrow> string"

definition uuid_pkg_ok :: "uuid_pkg \<Rightarrow> bool" where
  "uuid_pkg_ok U \<longleftrightarrow>
     (\<forall>u. uuid_Parse U (uuid_String U u) = Inr u) \<and> (\<forall>u. uuid_String U u \<noteq> [])"

lemma uuid_pkg_okD [simp]:
  "uuid_pkg_ok U \<Longrightarrow> uuid_Parse U (uuid_String U u) = Inr u"
  "uuid_pkg_ok U \<Longrightarrow> uuid_String U u \<noteq> []"
  by (simp_all add: uuid_pkg_ok_def)

lemma uuid_String_inj:
  "uuid_pkg_ok U \<Longrightarrow> uuid_String U u = uuid_String U v \<longleftrightarrow> u = v"
  by (metis Inr_inject uuid_pkg_okD(1))

end
