(* ===== verification/TokenFamily.thy ===== *)
theory TokenFamily
  imports Identity
begin

text \<open>
  What rotation with reuse detection promises, stated over the list of all refresh tokens
  ever issued, and the contract of the \<open>RefreshTokenStore\<close> port in those terms. A move of
  the list is what one call of the store may do: start a new family at a login, retire a
  live token and issue its one successor, or revoke any set of tokens.
\<close>

section \<open>Moves\<close>

definition live :: "refresh_token \<Rightarrow> bool" where
  "live t \<longleftrightarrow> \<not> rt_Revoked t \<and> \<not> rt_Used t"

definition retire :: "string \<Rightarrow> refresh_token \<Rightarrow> refresh_token" where
  "retire h t =
     (if rt_TokenHash t = h \<and> live t then t\<lparr>rt_Used := True, rt_Revoked := True\<rparr> else t)"

definition revoke_if :: "(refresh_token \<Rightarrow> bool) \<Rightarrow> refresh_token \<Rightarrow> refresh_token" where
  "revoke_if P t = (if P t then t\<lparr>rt_Revoked := True\<rparr> else t)"

definition hashes :: "refresh_token list \<Rightarrow> string set" where
  "hashes ts = rt_TokenHash ` set ts"

definition families :: "refresh_token list \<Rightarrow> string set" where
  "families ts = rt_FamilyID ` set ts"

inductive token_move :: "refresh_token list \<Rightarrow> refresh_token list \<Rightarrow> bool" where
  login: "live t \<Longrightarrow> rt_TokenHash t \<notin> hashes ts \<Longrightarrow> rt_FamilyID t \<notin> families ts \<Longrightarrow>
    token_move ts (ts @ [t])"
| rotate: "t \<in> set ts \<Longrightarrow> live t \<Longrightarrow> live n \<Longrightarrow> rt_TokenHash n \<notin> hashes ts \<Longrightarrow>
    rt_FamilyID n = rt_FamilyID t \<Longrightarrow> rt_UserID n = rt_UserID t \<Longrightarrow>
    token_move ts (map (retire (rt_TokenHash t)) ts @ [n])"
| revoke: "token_move ts (map (revoke_if P) ts)"

abbreviation token_moves :: "refresh_token list \<Rightarrow> refresh_token list \<Rightarrow> bool" where
  "token_moves \<equiv> token_move\<^sup>*\<^sup>*"

lemma retire_sel [simp]:
  "rt_TokenHash (retire h t) = rt_TokenHash t" "rt_FamilyID (retire h t) = rt_FamilyID t"
  "rt_UserID (retire h t) = rt_UserID t"
  by (simp_all add: retire_def)

lemma revoke_if_sel [simp]:
  "rt_TokenHash (revoke_if P t) = rt_TokenHash t" "rt_FamilyID (revoke_if P t) = rt_FamilyID t"
  "rt_UserID (revoke_if P t) = rt_UserID t"
  by (simp_all add: revoke_if_def)

lemma live_retire [simp]: "live (retire h t) \<longleftrightarrow> live t \<and> rt_TokenHash t \<noteq> h"
  by (auto simp: retire_def live_def)

lemma live_revoke_if [simp]: "live (revoke_if P t) \<longleftrightarrow> live t \<and> \<not> P t"
  by (auto simp: revoke_if_def live_def)

lemma retire_id: "\<not> live t \<Longrightarrow> retire h t = t" "rt_TokenHash t \<noteq> h \<Longrightarrow> retire h t = t"
  by (simp_all add: retire_def)

lemma filter_live_map:
  assumes "\<And>t. live (f t) \<longleftrightarrow> live t \<and> Q t" and "\<And>t. live (f t) \<Longrightarrow> f t = t"
  shows "filter live (map f ts) = filter (\<lambda>t. live t \<and> Q t) ts"
  by (induction ts) (use assms in auto)

lemma filter_live_retire:
  "filter live (map (retire h) ts) = filter (\<lambda>t. live t \<and> rt_TokenHash t \<noteq> h) ts"
  by (rule filter_live_map) (auto simp: retire_id)

lemma filter_live_revoke:
  "filter live (map (revoke_if P) ts) = filter (\<lambda>t. live t \<and> \<not> P t) ts"
  by (rule filter_live_map) (auto simp: revoke_if_def live_def)

section \<open>The invariant of families\<close>

text \<open>
  Hashes are unique, a family has at most one live token, and all tokens of a family belong
  to one user.
\<close>

definition family_user :: "refresh_token list \<Rightarrow> bool" where
  "family_user ts \<longleftrightarrow>
     (\<forall>t \<in> set ts. \<forall>t' \<in> set ts. rt_FamilyID t = rt_FamilyID t' \<longrightarrow> rt_UserID t = rt_UserID t')"

definition families_ok :: "refresh_token list \<Rightarrow> bool" where
  "families_ok ts \<longleftrightarrow>
     distinct (map rt_TokenHash ts) \<and> distinct (map rt_FamilyID (filter live ts)) \<and> family_user ts"

definition dead_family :: "string \<Rightarrow> refresh_token list \<Rightarrow> bool" where
  "dead_family f ts \<longleftrightarrow> f \<in> families ts \<and> (\<forall>t \<in> set ts. rt_FamilyID t = f \<longrightarrow> \<not> live t)"

lemma families_ok_Nil [simp]: "families_ok []"
  by (simp add: families_ok_def family_user_def)

lemma live_unique:
  assumes "distinct (map rt_FamilyID (filter live ts))"
    and "t \<in> set ts" "live t" "t' \<in> set ts" "live t'" "rt_FamilyID t = rt_FamilyID t'"
  shows "t = t'"
  using assms by (auto simp: distinct_map dest: inj_onD)

lemma distinct_families_filter:
  "distinct (map rt_FamilyID (filter live ts)) \<Longrightarrow>
   distinct (map rt_FamilyID (filter (\<lambda>t. live t \<and> Q t) ts))"
  using distinct_map_filter [of rt_FamilyID "filter live ts" Q]
  by (simp add: filter_filter conj_commute)

lemma families_simps [simp]:
  "families (map (retire h) ts) = families ts" "families (map (revoke_if P) ts) = families ts"
  "families (ts @ us) = families ts \<union> families us" "families (t # ts) = insert (rt_FamilyID t) (families ts)"
  "families [] = {}"
  by (simp_all add: families_def image_image image_Un)

lemma hashes_simps [simp]:
  "hashes (map (retire h) ts) = hashes ts" "hashes (map (revoke_if P) ts) = hashes ts"
  "hashes (ts @ us) = hashes ts \<union> hashes us" "hashes (t # ts) = insert (rt_TokenHash t) (hashes ts)"
  "hashes [] = {}"
  by (simp_all add: hashes_def image_image image_Un)

lemma map_sel_simps [simp]:
  "map rt_TokenHash (map (retire h) ts) = map rt_TokenHash ts"
  "map rt_TokenHash (map (revoke_if P) ts) = map rt_TokenHash ts"
  by simp_all

lemma family_user_map:
  assumes "\<And>t. rt_FamilyID (f t) = rt_FamilyID t" and "\<And>t. rt_UserID (f t) = rt_UserID t"
    and "family_user ts"
  shows "family_user (map f ts)"
  using assms(3) unfolding family_user_def set_map Set.ball_simps(9) assms(1,2) .

lemma family_user_snoc:
  "family_user (ts @ [n]) \<longleftrightarrow>
     family_user ts \<and> (\<forall>t \<in> set ts. rt_FamilyID t = rt_FamilyID n \<longrightarrow> rt_UserID t = rt_UserID n)"
proof -
  have "family_user (ts @ [n]) \<longleftrightarrow>
      (\<forall>t \<in> set ts \<union> {n}. \<forall>t' \<in> set ts \<union> {n}. rt_FamilyID t = rt_FamilyID t' \<longrightarrow> rt_UserID t = rt_UserID t')"
    by (simp only: family_user_def set_append list.set)
  also have "\<dots> \<longleftrightarrow> family_user ts \<and>
      (\<forall>t \<in> set ts. rt_FamilyID t = rt_FamilyID n \<longrightarrow> rt_UserID t = rt_UserID n)"
    unfolding family_user_def ball_Un ball_simps by (intro iffI conjI ballI impI TrueI; metis)
  finally show ?thesis .
qed

lemma distinct_hashes_snoc:
  "distinct (map rt_TokenHash ts) \<Longrightarrow> rt_TokenHash n \<notin> hashes ts \<Longrightarrow>
   distinct (map rt_TokenHash (ts @ [n]))"
  by (simp add: hashes_def)

lemma families_ok_login:
  assumes "families_ok ts" "live t" "rt_TokenHash t \<notin> hashes ts" "rt_FamilyID t \<notin> families ts"
  shows "families_ok (ts @ [t])"
proof -
  have "rt_FamilyID t \<notin> rt_FamilyID ` set (filter live ts)"
    using assms(4) by (auto simp: families_def)
  moreover have "family_user (ts @ [t])"
    using assms(1,4) unfolding family_user_snoc families_ok_def families_def
    by (metis image_eqI)
  ultimately show ?thesis
    using assms distinct_hashes_snoc [of ts t] by (simp add: families_ok_def)
qed

lemma families_ok_rotate:
  assumes "families_ok ts" "t \<in> set ts" "live t" "live n" "rt_TokenHash n \<notin> hashes ts"
    and "rt_FamilyID n = rt_FamilyID t" "rt_UserID n = rt_UserID t"
  shows "families_ok (map (retire (rt_TokenHash t)) ts @ [n])" (is "families_ok (?ts @ [n])")
proof -
  have fams: "distinct (map rt_FamilyID (filter live ts))" and users: "family_user ts"
    using assms(1) by (simp_all add: families_ok_def)
  have "rt_FamilyID n \<notin> rt_FamilyID ` set (filter live ?ts)"
    using live_unique [OF fams assms(2,3)] assms(6) by (auto simp: filter_live_retire)
  moreover have "distinct (map rt_FamilyID (filter live ?ts))"
    unfolding filter_live_retire using fams by (rule distinct_families_filter)
  moreover have "\<forall>x \<in> set ts. rt_FamilyID x = rt_FamilyID t \<longrightarrow> rt_UserID x = rt_UserID t"
    using users assms(2) unfolding family_user_def by blast
  then have "\<forall>x \<in> set ?ts. rt_FamilyID x = rt_FamilyID n \<longrightarrow> rt_UserID x = rt_UserID n"
    unfolding assms(6,7) set_map Set.ball_simps(9) retire_sel .
  then have "family_user (?ts @ [n])"
    unfolding family_user_snoc
    using family_user_map [of "retire (rt_TokenHash t)" ts] users retire_sel by blast
  moreover have "distinct (map rt_TokenHash (?ts @ [n]))"
    using assms(1,5) by (intro distinct_hashes_snoc) (simp_all add: families_ok_def comp_def)
  ultimately show ?thesis using assms(4) by (simp add: families_ok_def)
qed

lemma families_ok_revoke:
  assumes "families_ok ts"
  shows "families_ok (map (revoke_if P) ts)"
  using assms family_user_map [of "revoke_if P" ts]
  unfolding families_ok_def filter_live_revoke map_sel_simps
  by (simp add: distinct_families_filter)

lemma token_move_families_ok: "token_move ts ts' \<Longrightarrow> families_ok ts \<Longrightarrow> families_ok ts'"
  by (induction rule: token_move.induct)
    (simp_all add: families_ok_login families_ok_rotate families_ok_revoke)

lemma token_move_dead: "token_move ts ts' \<Longrightarrow> dead_family f ts \<Longrightarrow> dead_family f ts'"
  by (induction rule: token_move.induct) (auto simp: dead_family_def)

lemma token_moves_families_ok: "token_moves ts ts' \<Longrightarrow> families_ok ts \<Longrightarrow> families_ok ts'"
  by (induction rule: rtranclp_induct) (auto intro: token_move_families_ok)

lemma token_moves_dead: "token_moves ts ts' \<Longrightarrow> dead_family f ts \<Longrightarrow> dead_family f ts'"
  by (induction rule: rtranclp_induct) (auto intro: token_move_dead)

text \<open>A token keeps its hash, family and user for ever, and never comes back to life.\<close>

definition same_token :: "refresh_token \<Rightarrow> refresh_token \<Rightarrow> bool" where
  "same_token t t' \<longleftrightarrow>
     rt_TokenHash t' = rt_TokenHash t \<and> rt_FamilyID t' = rt_FamilyID t \<and>
     rt_UserID t' = rt_UserID t \<and> (live t' \<longrightarrow> live t)"

lemma token_move_keeps:
  assumes "token_move ts ts'" and "t \<in> set ts"
  shows "\<exists>t' \<in> set ts'. same_token t t'"
  using assms by (cases rule: token_move.cases) (auto simp: same_token_def)

lemma same_token_trans: "same_token t u \<Longrightarrow> same_token u v \<Longrightarrow> same_token t v"
  by (auto simp: same_token_def)

lemma token_moves_keeps: "token_moves ts ts' \<Longrightarrow> t \<in> set ts \<Longrightarrow> \<exists>t' \<in> set ts'. same_token t t'"
proof (induction rule: rtranclp_induct)
  case base
  then show ?case by (auto simp: same_token_def)
next
  case (step us vs)
  then obtain u where "u \<in> set us" "same_token t u" by blast
  with token_move_keeps [OF step(2)] show ?case by (blast intro: same_token_trans)
qed

section \<open>The contract of the store\<close>

text \<open>
  \<open>tokens w\<close> is the list of all tokens stored in the world \<open>w\<close>. An operation may also
  panic (\<open>uuid.New\<close> does when the random source fails); then nothing was stored. A failed
  \<open>RevokeFamily\<close> may have revoked, when only the count could not be read.
\<close>

definition new_token :: "refresh_token list \<Rightarrow> refresh_token \<Rightarrow> refresh_token \<Rightarrow> bool" where
  \<comment> \<open>\<open>n'\<close> is the stored form of the token \<open>n\<close> added to \<open>ts\<close>\<close>
  "new_token ts n n' \<longleftrightarrow>
     live n' \<and> rt_TokenHash n' = rt_TokenHash n \<and> rt_ExpiresAt n' = rt_ExpiresAt n \<and>
     rt_TokenHash n \<notin> hashes ts \<and>
     (rt_FamilyID n = [] \<longrightarrow> rt_FamilyID n' \<notin> families ts) \<and>
     (rt_FamilyID n \<in> families ts \<longrightarrow> rt_FamilyID n' = rt_FamilyID n) \<and>
     (rt_UserID n \<in> rt_UserID ` set ts \<longrightarrow> rt_UserID n' = rt_UserID n)"

definition known_family :: "refresh_token list \<Rightarrow> refresh_token \<Rightarrow> bool" where
  \<comment> \<open>what the service passes: a fresh login, or the family of a token it was handed\<close>
  "known_family ts n \<longleftrightarrow> rt_FamilyID n = [] \<or> rt_FamilyID n \<in> families ts"

text \<open>
  What a committed rotation did. A rotation whose commit failed may have done it too: the
  answer can be lost after the database has committed.
\<close>

definition rotated ::
  "string \<Rightarrow> refresh_token \<Rightarrow> refresh_token list \<Rightarrow> refresh_token list \<Rightarrow> bool" where
  "rotated h n ts ts' \<longleftrightarrow>
     (\<exists>t \<in> set ts. rt_TokenHash t = h \<and> live t) \<and>
     (\<exists>n'. ts' = map (retire h) ts @ [n'] \<and> new_token ts n n')"

locale token_store =
  fixes S :: "'w refresh_token_store"
    and I :: "'w \<Rightarrow> bool"
    and tokens :: "'w \<Rightarrow> refresh_token list"
  assumes store_inv: "I w \<Longrightarrow> known_family (tokens w) n \<Longrightarrow> rsp_Store S n w = (r, w') \<Longrightarrow>
      I w' \<and> (r \<noteq> Ret None \<longrightarrow> tokens w' = tokens w)"
    and store_ok: "I w \<Longrightarrow> known_family (tokens w) n \<Longrightarrow> rsp_Store S n w = (Ret None, w') \<Longrightarrow>
      \<exists>n'. tokens w' = tokens w @ [n'] \<and> new_token (tokens w) n n'"
    and find_valid_inv: "I w \<Longrightarrow> rsp_FindValid S h w = (found, w') \<Longrightarrow>
      I w' \<and> tokens w' = tokens w"
    and find_valid_ok: "I w \<Longrightarrow> rsp_FindValid S h w = (Ret (Inr (Some t)), w') \<Longrightarrow>
      t \<in> set (tokens w) \<and> rt_TokenHash t = h \<and> live t"
    and find_any_inv: "I w \<Longrightarrow> rsp_FindAny S h w = (found, w') \<Longrightarrow>
      I w' \<and> tokens w' = tokens w"
    and find_any_ok: "I w \<Longrightarrow> rsp_FindAny S h w = (Ret (Inr (Some t)), w') \<Longrightarrow>
      t \<in> set (tokens w) \<and> rt_TokenHash t = h"
    and rotate_inv: "I w \<Longrightarrow> known_family (tokens w) n \<Longrightarrow> rsp_Rotate S h n w = (r, w') \<Longrightarrow>
      I w' \<and> (tokens w' = tokens w \<or> rotated h n (tokens w) (tokens w'))"
    and rotate_ok: "I w \<Longrightarrow> known_family (tokens w) n \<Longrightarrow> rsp_Rotate S h n w = (Ret None, w') \<Longrightarrow>
      rotated h n (tokens w) (tokens w')"
    and revoke_family_inv: "I w \<Longrightarrow> rsp_RevokeFamily S f w = (count, w') \<Longrightarrow>
      I w' \<and> (tokens w' = tokens w \<or> (\<exists>P. tokens w' = map (revoke_if P) (tokens w)))"
    and revoke_family_ok: "I w \<Longrightarrow> f \<in> families (tokens w) \<Longrightarrow>
      rsp_RevokeFamily S f w = (Ret (Inr k), w') \<Longrightarrow>
      tokens w' = map (revoke_if (\<lambda>t. rt_FamilyID t = f)) (tokens w) \<and>
      k = int (length (filter (\<lambda>t. rt_FamilyID t = f \<and> \<not> rt_Revoked t) (tokens w)))"
    and revoke_all_inv: "I w \<Longrightarrow> rsp_RevokeAllForUser S u w = (r, w') \<Longrightarrow>
      I w' \<and> (tokens w' = tokens w \<or> (\<exists>P. tokens w' = map (revoke_if P) (tokens w)))"
    and revoke_all_ok: "I w \<Longrightarrow> u \<in> rt_UserID ` set (tokens w) \<Longrightarrow>
      rsp_RevokeAllForUser S u w = (Ret None, w') \<Longrightarrow>
      tokens w' = map (revoke_if (\<lambda>t. rt_UserID t = u)) (tokens w)"

section \<open>What every client of the store gets\<close>

context token_store
begin

lemma store_move:
  assumes "I w" and "rt_FamilyID n = []" and "rsp_Store S n w = (r, w')"
  shows "I w'" and "token_moves (tokens w) (tokens w')"
proof -
  have k: "known_family (tokens w) n" using assms(2) by (simp add: known_family_def)
  show "I w'" using store_inv [OF assms(1) k assms(3)] ..
  show "token_moves (tokens w) (tokens w')"
  proof (cases "r = Ret None")
    case True
    from store_ok [OF assms(1) k assms(3) [unfolded True]]
    obtain n' where "tokens w' = tokens w @ [n']" "new_token (tokens w) n n'" by blast
    with assms(2) have "token_move (tokens w) (tokens w')"
      using token_move.login [of n' "tokens w"] by (simp add: new_token_def)
    then show ?thesis by (rule r_into_rtranclp)
  qed (use store_inv [OF assms(1) k assms(3)] in simp)
qed

lemma rotate_move:
  assumes "I w" and "families_ok (tokens w)" and "rsp_Rotate S h n w = (r, w')"
    and t: "t \<in> set (tokens w)" "rt_TokenHash t = h"
    and n: "rt_FamilyID n = rt_FamilyID t" "rt_UserID n = rt_UserID t"
  shows "I w'" and "token_moves (tokens w) (tokens w')"
proof -
  have k: "known_family (tokens w) n" using n t by (auto simp: known_family_def families_def)
  show "I w'" using rotate_inv [OF assms(1) k assms(3)] ..
  show "token_moves (tokens w) (tokens w')"
  proof (cases "tokens w' = tokens w")
    case False
    with rotate_inv [OF assms(1) k assms(3)] obtain t0 n' where t0: "t0 \<in> set (tokens w)" "rt_TokenHash t0 = h" "live t0"
      and n': "tokens w' = map (retire h) (tokens w) @ [n']" "new_token (tokens w) n n'"
      unfolding rotated_def by blast
    have "t0 = t"
      using assms(2) t t0 by (auto simp: families_ok_def distinct_map dest: inj_onD)
    moreover have "rt_FamilyID n' = rt_FamilyID t" "rt_UserID n' = rt_UserID t"
      using n' n t(1) by (auto simp: new_token_def families_def)
    ultimately have "token_move (tokens w) (tokens w')"
      using token_move.rotate [of t "tokens w" n'] t0 t n' by (simp add: new_token_def)
    then show ?thesis by (rule r_into_rtranclp)
  qed simp
qed

lemma revoke_family_move:
  "I w \<Longrightarrow> rsp_RevokeFamily S f w = (r, w') \<Longrightarrow> I w' \<and> token_moves (tokens w) (tokens w')"
  using revoke_family_inv token_move.revoke by (metis r_into_rtranclp rtranclp.rtrancl_refl)

lemma revoke_all_move:
  "I w \<Longrightarrow> rsp_RevokeAllForUser S u w = (r, w') \<Longrightarrow> I w' \<and> token_moves (tokens w) (tokens w')"
  using revoke_all_inv token_move.revoke by (metis r_into_rtranclp rtranclp.rtrancl_refl)

lemma revoked_family_dead:
  assumes "I w" and "f \<in> families (tokens w)" and "rsp_RevokeFamily S f w = (Ret (Inr k), w')"
  shows "dead_family f (tokens w')"
  using revoke_family_ok [OF assms] assms(2) by (auto simp: dead_family_def)

end

end
