(* ===== verification/GoFloat.thy ===== *)
theory GoFloat
  imports Prelude
begin

text \<open>
  The part of IEEE binary64 arithmetic that the retry jitter uses: conversion of a
  non-negative int64, one product, truncation back to int64. Everything is a dyadic
  rational, so rounding to nearest, ties to even, is a function on naturals:
  \<open>round53 n\<close> is the multiple of \<open>2 ^ s\<close> nearest to \<open>n\<close>, where \<open>s\<close> is the number of
  bits of \<open>n\<close> beyond 53. A finite float is a mantissa and an exponent. Infinities and NaN
  are left out, and so is the loss of precision below \<open>2 ^ -1022\<close>, which truncation to an
  integer cannot observe.
\<close>

section \<open>Bit length\<close>

fun bitlen :: "nat \<Rightarrow> nat" where
  "bitlen n = (if n = 0 then 0 else Suc (bitlen (n div 2)))"

declare bitlen.simps [simp del]

lemma bitlen_0 [simp]: "bitlen 0 = 0"
  by (simp add: bitlen.simps)

lemma bitlen_pos [simp]: "0 < bitlen n \<longleftrightarrow> 0 < n"
  by (cases "n = 0") (simp_all add: bitlen.simps [of n])

lemma bitlen_double: "0 < n \<Longrightarrow> bitlen (2 * n) = Suc (bitlen n)"
  by (subst bitlen.simps) simp

lemma bitlen_upper: "n < 2 ^ bitlen n"
proof (induction n rule: bitlen.induct)
  case (1 n)
  show ?case
  proof (cases "n = 0")
    case False
    with 1 have "n div 2 < 2 ^ bitlen (n div 2)" by simp
    with False show ?thesis by (subst bitlen.simps) simp
  qed simp
qed

lemma bitlen_lower: "0 < n \<Longrightarrow> 2 ^ (bitlen n - 1) \<le> n"
proof (induction n rule: bitlen.induct)
  case (1 n)
  show ?case
  proof (cases "n div 2 = 0")
    case True
    with 1 have "n = 1" by simp
    then show ?thesis by (simp add: bitlen.simps)
  next
    case False
    with 1 have "2 ^ (bitlen (n div 2) - 1) \<le> n div 2" by simp
    then have "2 * 2 ^ (bitlen (n div 2) - 1) \<le> n" by simp
    moreover have "0 < bitlen (n div 2)" using False by simp
    ultimately show ?thesis
      using 1(2) by (subst bitlen.simps) (simp flip: power_Suc)
  qed
qed

lemma bitlen_unique:
  assumes "2 ^ k \<le> n" and "n < 2 ^ Suc k"
  shows "bitlen n = Suc k"
proof -
  have "0 < n" using assms(1) by (auto intro: less_le_trans [of 0 "2 ^ k"])
  have "(2 :: nat) ^ k < 2 ^ bitlen n" using assms(1) bitlen_upper by (rule le_less_trans)
  then have "k < bitlen n" by simp
  have "(2 :: nat) ^ (bitlen n - 1) < 2 ^ Suc k"
    using bitlen_lower [OF \<open>0 < n\<close>] assms(2) by (rule le_less_trans)
  then have "bitlen n - 1 < Suc k" by (simp only: power_strict_increasing_iff one_less_numeral_iff semiring_norm)
  with \<open>k < bitlen n\<close> show ?thesis by linarith
qed

lemma bitlen_mono: "m \<le> n \<Longrightarrow> bitlen m \<le> bitlen n"
proof (rule ccontr)
  assume "m \<le> n" and "\<not> bitlen m \<le> bitlen n"
  then have "0 < m" by (cases "m = 0") auto
  have "n < 2 ^ bitlen n" by (rule bitlen_upper)
  also have "(2 :: nat) ^ bitlen n \<le> 2 ^ (bitlen m - 1)"
    using \<open>\<not> bitlen m \<le> bitlen n\<close> by (intro power_increasing) auto
  also have "\<dots> \<le> m" using \<open>0 < m\<close> by (rule bitlen_lower)
  finally show False using \<open>m \<le> n\<close> by simp
qed

section \<open>Rounding to a precision\<close>

text \<open>\<open>p\<close> is the number of mantissa bits, 53 for float64.\<close>

definition round_up :: "nat \<Rightarrow> nat \<Rightarrow> bool" where
  "round_up s n \<longleftrightarrow>
     2 ^ s < 2 * (n mod 2 ^ s) \<or> (2 ^ s = 2 * (n mod 2 ^ s) \<and> odd (n div 2 ^ s))"

definition round_mant :: "nat \<Rightarrow> nat \<Rightarrow> nat" where
  "round_mant s n = n div 2 ^ s + (if round_up s n then 1 else 0)"

definition round_to :: "nat \<Rightarrow> nat \<Rightarrow> nat" where
  "round_to p n = round_mant (bitlen n - p) n * 2 ^ (bitlen n - p)"

lemma round_mant_0 [simp]: "round_mant 0 n = n"
  by (simp add: round_mant_def round_up_def)

lemma round_to_exact: "bitlen n \<le> p \<Longrightarrow> round_to p n = n"
  by (simp add: round_to_def)

lemma round_to_0 [simp]: "round_to p 0 = 0"
  by (simp add: round_to_exact)

lemma round_mant_mono:
  assumes "m \<le> n"
  shows "round_mant s m \<le> round_mant s n"
proof -
  have le: "m div 2 ^ s \<le> n div 2 ^ s" using assms by (rule div_le_mono)
  show ?thesis
  proof (cases "m div 2 ^ s = n div 2 ^ s")
    case True
    have "m mod 2 ^ s \<le> n mod 2 ^ s"
      using assms True by (metis add_le_cancel_left div_mult_mod_eq)
    with True have "round_up s m \<Longrightarrow> round_up s n"
      by (auto simp: round_up_def)
    with True show ?thesis by (simp add: round_mant_def)
  next
    case False
    with le have "m div 2 ^ s + 1 \<le> n div 2 ^ s" by linarith
    then show ?thesis unfolding round_mant_def by (auto intro: le_trans)
  qed
qed

lemma round_to_bitlen_upper: "round_to p n \<le> 2 ^ bitlen n"
proof (cases "bitlen n \<le> p")
  case True
  then show ?thesis using bitlen_upper [of n] by (simp add: round_to_exact)
next
  case False
  let ?s = "bitlen n - p"
  have split: "(2 :: nat) ^ bitlen n = 2 ^ p * 2 ^ ?s" using False by (simp flip: power_add)
  then have "n < 2 ^ p * 2 ^ ?s" using bitlen_upper [of n] by simp
  then have "n div 2 ^ ?s < 2 ^ p" by (rule less_mult_imp_div_less)
  then have "round_mant ?s n \<le> 2 ^ p" by (simp add: round_mant_def)
  then have "round_to p n \<le> 2 ^ p * 2 ^ ?s" unfolding round_to_def by (rule mult_le_mono1)
  then show ?thesis by (simp only: split)
qed

lemma round_to_bitlen_lower:
  assumes "0 < n" and "0 < p"
  shows "2 ^ (bitlen n - 1) \<le> round_to p n"
proof (cases "bitlen n \<le> p")
  case True
  then show ?thesis using bitlen_lower [OF assms(1)] by (simp add: round_to_exact)
next
  case False
  let ?s = "bitlen n - p"
  have split: "(2 :: nat) ^ (bitlen n - 1) = 2 ^ (p - 1) * 2 ^ ?s"
    using False assms(2) by (simp flip: power_add)
  then have "(2 :: nat) ^ (p - 1) * 2 ^ ?s \<le> n" using bitlen_lower [OF assms(1)] by simp
  then have "2 ^ (p - 1) \<le> n div 2 ^ ?s" by (simp add: less_eq_div_iff_mult_less_eq)
  then have "(2 :: nat) ^ (p - 1) * 2 ^ ?s \<le> round_to p n"
    unfolding round_to_def round_mant_def by (intro mult_le_mono1) simp
  then show ?thesis by (simp only: split)
qed

lemma round_to_mono:
  assumes "m \<le> n" and "0 < p"
  shows "round_to p m \<le> round_to p n"
proof -
  have "bitlen m \<le> bitlen n" using assms(1) by (rule bitlen_mono)
  then consider "bitlen m = bitlen n" | "bitlen m < bitlen n" by linarith
  then show ?thesis
  proof cases
    case 1
    with assms(1) show ?thesis by (simp add: round_to_def round_mant_mono)
  next
    case 2
    then have "0 < n" by (metis bitlen_0 gr0I not_less_zero)
    have "round_to p m \<le> 2 ^ bitlen m" by (rule round_to_bitlen_upper)
    also have "\<dots> \<le> 2 ^ (bitlen n - 1)" using 2 by (intro power_increasing) auto
    also have "\<dots> \<le> round_to p n" using \<open>0 < n\<close> assms(2) by (rule round_to_bitlen_lower)
    finally show ?thesis .
  qed
qed

text \<open>Rounding commutes with scaling by a power of two.\<close>

lemma bitlen_shift: "0 < n \<Longrightarrow> bitlen (n * 2 ^ a) = bitlen n + a"
proof (induction a)
  case (Suc a)
  then show ?case using bitlen_double [of "n * 2 ^ a"] by (simp add: mult.left_commute mult.commute)
qed simp

lemma round_mant_shift: "round_mant (s + a) (n * 2 ^ a) = round_mant s n"
proof -
  have q: "n * 2 ^ a div 2 ^ (s + a) = n div 2 ^ s"
    by (simp add: power_add)
  have r: "n * 2 ^ a mod 2 ^ (s + a) = (n mod 2 ^ s) * 2 ^ a"
    by (simp add: power_add mult_mod_left)
  have "round_up (s + a) (n * 2 ^ a) \<longleftrightarrow> round_up s n"
    unfolding round_up_def q r by (simp add: power_add flip: mult.assoc)
  then show ?thesis by (simp add: round_mant_def q)
qed

lemma round_to_shift_up:
  assumes "0 < n" and "p \<le> bitlen n"
  shows "round_to p (n * 2 ^ a) = round_to p n * 2 ^ a"
proof -
  have "bitlen n + a - p = (bitlen n - p) + a" using assms(2) by linarith
  then show ?thesis
    using assms(1) by (simp add: round_to_def bitlen_shift round_mant_shift power_add mult.assoc)
qed

lemma round_to_exact_shift:
  assumes "n < 2 ^ p"
  shows "round_to p (n * 2 ^ a) = n * 2 ^ a"
proof (cases "bitlen (n * 2 ^ a) \<le> p")
  case False
  then have "0 < n" by (cases "n = 0") auto
  have "bitlen n \<le> p"
  proof (rule ccontr)
    assume "\<not> bitlen n \<le> p"
    then have "(2 :: nat) ^ p \<le> 2 ^ (bitlen n - 1)" by (intro power_increasing) auto
    with bitlen_lower [OF \<open>0 < n\<close>] assms show False by linarith
  qed
  let ?s = "bitlen n + a - p"
  obtain b where a: "a = ?s + b"
    using \<open>bitlen n \<le> p\<close> by (metis add_diff_cancel_right' diff_diff_left diff_le_mono le_add_diff_inverse add.commute diff_is_0_eq' le_add2 le_diff_conv2 nat_le_linear)
  have eq: "n * 2 ^ a = n * 2 ^ b * 2 ^ ?s" by (subst a) (simp add: power_add)
  have "round_mant ?s (n * 2 ^ b * 2 ^ ?s) = n * 2 ^ b"
    using round_mant_shift [of 0 ?s "n * 2 ^ b"] by simp
  then have "round_mant ?s (n * 2 ^ a) = n * 2 ^ b" by (simp only: eq)
  with \<open>0 < n\<close> show ?thesis by (simp add: round_to_def bitlen_shift flip: eq)
qed (rule round_to_exact)

lemma round_to_shift:
  assumes "0 < n"
  shows "round_to p (n * 2 ^ a) = round_to p n * 2 ^ a"
proof (cases "p \<le> bitlen n")
  case True
  then show ?thesis using assms by (intro round_to_shift_up)
next
  case False
  then have "n < 2 ^ p"
    using bitlen_upper [of n] by (meson less_le_trans nat_le_linear one_le_numeral power_increasing)
  then show ?thesis using False by (simp add: round_to_exact_shift round_to_exact)
qed

section \<open>A fraction of a rounded integer stays below the integer\<close>

text \<open>
  For a float \<open>m * 2 ^ -j\<close> below 1 and a positive integer \<open>n\<close>, the float product of the
  fraction with \<open>float64(n)\<close> is below \<open>n\<close>, although the conversion may round \<open>n\<close> up.
  The largest such fraction is \<open>1 - 2 ^ -p\<close>; its case is a comparison of mantissas.
\<close>

lemma power_minus_one_pos: "0 < p \<Longrightarrow> 0 < (2 :: nat) ^ p - 1"
  using one_less_power [of "2 :: nat" p] by linarith

lemma round_to_pos:
  assumes "0 < n" and "0 < p"
  shows "0 < round_to p n"
proof -
  have "(0 :: nat) < 2 ^ (bitlen n - 1)" by simp
  then show ?thesis using round_to_bitlen_lower [OF assms] by linarith
qed

lemma round_mant_bounds:
  assumes "bitlen n = p + k" and "0 < p"
  shows "2 ^ (p - 1) \<le> n div 2 ^ k" and "n div 2 ^ k < 2 ^ p"
proof -
  have "0 < n" using assms by (metis bitlen_pos add_pos_nonneg le0)
  then have "(2 :: nat) ^ (p - 1) * 2 ^ k \<le> n"
    using bitlen_lower [of n] assms by (simp flip: power_add)
  then show "2 ^ (p - 1) \<le> n div 2 ^ k" by (simp add: less_eq_div_iff_mult_less_eq)
  have "n < 2 ^ p * 2 ^ k" using bitlen_upper [of n] assms by (simp add: power_add)
  then show "n div 2 ^ k < 2 ^ p" by (rule less_mult_imp_div_less)
qed

lemma round_mant_pred_less:
  assumes "0 < n" and "0 < round_mant k n"
  shows "(round_mant k n - 1) * 2 ^ k < n"
proof (cases "round_up k n")
  case True
  then have "0 < n mod 2 ^ k" by (cases "n mod 2 ^ k = 0") (auto simp: round_up_def)
  then have "n div 2 ^ k * 2 ^ k < n" using div_mult_mod_eq [of n "2 ^ k"] by linarith
  with True show ?thesis by (simp add: round_mant_def)
next
  case False
  with assms(2) have "0 < n div 2 ^ k" by (simp add: round_mant_def)
  then have "(n div 2 ^ k - 1) * 2 ^ k < n div 2 ^ k * 2 ^ k" by simp
  also have "\<dots> \<le> n" by simp
  finally show ?thesis using False by (simp add: round_mant_def)
qed

lemma round_to_pred_times:
  assumes "2 ^ (p - 1) < N" and "N < 2 ^ p" and "0 < p"
  shows "round_to p ((2 ^ p - 1) * N) = (N - 1) * 2 ^ p"
proof -
  obtain M where N: "N = Suc M" using assms(1) by (cases N) auto
  have eq: "(2 ^ p - 1) * N = M * 2 ^ p + (2 ^ p - N)"
    using assms(2) by (simp add: N diff_mult_distrib algebra_simps)
  have r: "2 * (2 ^ p - N) < (2 :: nat) ^ p"
    using assms by (cases p) auto
  have small: "2 ^ p - N < 2 ^ p" by (simp add: N)
  have d: "(2 ^ p - 1) * N div 2 ^ p = M" unfolding eq using small by simp
  have m: "(2 ^ p - 1) * N mod 2 ^ p = 2 ^ p - N" unfolding eq using small by simp
  have "(2 :: nat) ^ (p - 1 + p) \<le> M * 2 ^ p" using assms(1) N by (simp add: power_add)
  then have lo: "2 ^ (p - 1 + p) \<le> (2 ^ p - 1) * N" unfolding eq by (rule trans_le_add1)
  have "(2 ^ p - 1) * N < 2 ^ p * 2 ^ p"
    using assms(2) by (intro mult_less_le_imp_less) (auto simp: N)
  then have hi: "(2 ^ p - 1) * N < 2 ^ Suc (p - 1 + p)" using assms(3) by (simp flip: power_add)
  define X where "X = (2 ^ p - 1) * N"
  have "bitlen X = p + p"
    using bitlen_unique [OF lo hi] assms(3) by (simp add: X_def)
  moreover have "X div 2 ^ p = N - 1" "X mod 2 ^ p = 2 ^ p - N" using d m N by (simp_all add: X_def)
  ultimately have "round_to p X = (N - 1) * 2 ^ p"
    using r by (simp add: round_to_def round_mant_def round_up_def)
  then show ?thesis by (simp only: X_def)
qed

lemma round_to_power_times:
  "round_to p ((2 ^ p - 1) * 2 ^ a) = (2 ^ p - 1) * 2 ^ a"
  by (rule round_to_exact_shift) simp

lemma round_largest_fraction_normal:
  assumes b: "bitlen n = p + k" and p: "0 < p"
  shows "round_to p ((2 ^ p - 1) * round_to p n) < 2 ^ p * n"
proof -
  let ?N = "round_mant k n"
  have "0 < n" using assms by (metis bitlen_pos add_pos_nonneg le0)
  note q = round_mant_bounds [OF b p]
  have N: "2 ^ (p - 1) \<le> ?N" "?N \<le> 2 ^ p" using q by (auto simp: round_mant_def)
  then have "0 < ?N" by (meson less_le_trans zero_less_numeral zero_less_power)
  have F: "round_to p n = ?N * 2 ^ k" using b by (simp add: round_to_def)
  have pos: "0 < (2 ^ p - 1) * ?N"
    using \<open>0 < ?N\<close> p by (intro mult_pos_pos power_minus_one_pos)
  have sh: "round_to p ((2 ^ p - 1) * round_to p n) = round_to p ((2 ^ p - 1) * ?N) * 2 ^ k"
    using round_to_shift [OF pos] by (simp add: F mult.assoc)
  have pred: "2 ^ p * ((?N - 1) * 2 ^ k) < 2 ^ p * n"
    using round_mant_pred_less [OF \<open>0 < n\<close> \<open>0 < ?N\<close>] by simp
  consider "?N = 2 ^ (p - 1)" | "2 ^ (p - 1) < ?N" "?N < 2 ^ p" | "?N = 2 ^ p"
    using N by linarith
  then show ?thesis
  proof cases
    case 1
    then have "\<not> round_up k n" using q(1) by (auto simp: round_mant_def)
    then have "?N * 2 ^ k \<le> n" by (simp add: round_mant_def)
    then have "(2 ^ p - 1) * (?N * 2 ^ k) \<le> (2 ^ p - 1) * n" by simp
    also have "\<dots> < 2 ^ p * n" using \<open>0 < n\<close> by simp
    finally show ?thesis unfolding sh 1 round_to_power_times by (simp add: 1 mult.assoc)
  next
    case 2
    then show ?thesis
      unfolding sh using pred round_to_pred_times [OF 2 p] by (simp add: mult.assoc mult.left_commute)
  next
    case 3
    then show ?thesis
      unfolding sh 3 round_to_power_times using pred by (simp add: 3 mult.assoc mult.left_commute)
  qed
qed

lemma round_largest_fraction:
  assumes n: "0 < n" and p: "0 < p"
  shows "round_to p ((2 ^ p - 1) * round_to p n) < 2 ^ p * n"
proof (cases "p \<le> bitlen n")
  case True
  then show ?thesis using round_largest_fraction_normal [of n p "bitlen n - p"] p by simp
next
  case False
  let ?a = "p - bitlen n"
  have pos: "0 < (2 ^ p - 1) * round_to p n"
    using n p by (intro mult_pos_pos power_minus_one_pos round_to_pos)
  have "bitlen (n * 2 ^ ?a) = p + 0" using n False by (simp add: bitlen_shift)
  then have "round_to p ((2 ^ p - 1) * round_to p (n * 2 ^ ?a)) < 2 ^ p * (n * 2 ^ ?a)"
    using p by (rule round_largest_fraction_normal)
  then have "round_to p ((2 ^ p - 1) * round_to p n * 2 ^ ?a) < (2 ^ p * n) * 2 ^ ?a"
    by (simp only: round_to_shift [OF n] mult.assoc)
  then show ?thesis by (simp only: round_to_shift [OF pos] mult_less_cancel2)
qed

lemma round_fraction_less:
  assumes n: "0 < n" and p: "0 < p" and m: "m < 2 ^ p" "m < 2 ^ j"
  shows "round_to p (m * round_to p n) < n * 2 ^ j"
proof (cases "m = 0")
  case True
  then show ?thesis using n by (simp add: round_to_exact)
next
  case False
  let ?F = "round_to p n"
  have F: "0 < ?F" using n p by (rule round_to_pos)
  have largest: "m * 2 ^ p \<le> (2 ^ p - 1) * 2 ^ j"
  proof (cases "j \<le> p")
    case True
    then have "m * 2 ^ p = (m * 2 ^ (p - j)) * 2 ^ j" by (simp flip: power_add)
    also have "m * 2 ^ (p - j) \<le> (2 ^ j - 1) * 2 ^ (p - j)" using m(2) by (intro mult_le_mono1) simp
    also have "\<dots> = 2 ^ p - 2 ^ (p - j)" using True by (simp add: diff_mult_distrib flip: power_add)
    also have "\<dots> \<le> 2 ^ p - 1" by (simp add: diff_le_mono2)
    finally show ?thesis by simp
  next
    case False
    then have "m * 2 ^ p \<le> (2 ^ p - 1) * 2 ^ p" using m(1) by (intro mult_le_mono1) simp
    also have "\<dots> \<le> (2 ^ p - 1) * 2 ^ j" using False by (intro mult_le_mono2 power_increasing) auto
    finally show ?thesis .
  qed
  have pos: "0 < m * ?F" and pos': "0 < (2 ^ p - 1) * ?F"
    using False by (intro mult_pos_pos power_minus_one_pos F p; simp)+
  have "round_to p (m * ?F) * 2 ^ p = round_to p ((m * ?F) * 2 ^ p)"
    using pos by (simp add: round_to_shift)
  also have "\<dots> \<le> round_to p (((2 ^ p - 1) * ?F) * 2 ^ j)"
    using largest p by (intro round_to_mono) (simp_all add: mult.assoc mult.left_commute [of _ ?F] mult.commute [of ?F])
  also have "\<dots> = round_to p ((2 ^ p - 1) * ?F) * 2 ^ j"
    using pos' by (simp add: round_to_shift)
  also have "\<dots> < (2 ^ p * n) * 2 ^ j"
    using round_largest_fraction [OF n p] by simp
  finally show ?thesis by (simp add: mult.assoc mult.left_commute)
qed

section \<open>Finite float64 values\<close>

text \<open>\<open>Float m e\<close> is \<open>m * 2 ^ e\<close>; a float64 has a mantissa of at most 53 bits.\<close>

datatype float64 = Float int int

fun float_wf :: "float64 \<Rightarrow> bool" where
  "float_wf (Float m e) \<longleftrightarrow> \<bar>m\<bar> < 2 ^ 53"

fun float_neg :: "float64 \<Rightarrow> bool" where
  "float_neg (Float m e) \<longleftrightarrow> m < 0"

fun float_ge_one :: "float64 \<Rightarrow> bool" where
  "float_ge_one (Float m e) \<longleftrightarrow> (if 0 \<le> e then 1 \<le> m else 2 ^ nat (- e) \<le> m)"

definition float_below_one :: float64 where
  \<comment> \<open>\<open>math.Nextafter(1, 0)\<close>\<close>
  "float_below_one = Float (2 ^ 53 - 1) (- 53)"

definition float_of_nat :: "nat \<Rightarrow> nat" where
  \<comment> \<open>\<open>float64(n)\<close> is an integer again\<close>
  "float_of_nat n = round_to 53 n"

fun float_mul_trunc :: "float64 \<Rightarrow> nat \<Rightarrow> nat" where
  \<comment> \<open>\<open>int64(f * x)\<close> for a float \<open>f \<ge> 0\<close> and an integral float \<open>x\<close>\<close>
  "float_mul_trunc (Float m e) x =
     (if 0 \<le> e then round_to 53 (nat m * x) * 2 ^ nat e
      else round_to 53 (nat m * x) div 2 ^ nat (- e))"

lemma float_mul_trunc_less:
  assumes "float_wf f" and "\<not> float_neg f" and "\<not> float_ge_one f" and "0 < n"
  shows "float_mul_trunc f (float_of_nat n) < n"
proof (cases f)
  case (Float m e)
  show ?thesis
  proof (cases "0 \<le> e")
    case True
    with assms Float have "m = 0" by simp
    with True assms Float show ?thesis by (simp add: round_to_exact)
  next
    case False
    with assms Float have m: "0 \<le> m" "m < 2 ^ 53" "m < 2 ^ nat (- e)" by auto
    then have "nat m < 2 ^ 53" "nat m < 2 ^ nat (- e)"
      by (simp_all add: nat_less_iff)
    then have "round_to 53 (nat m * round_to 53 n) < n * 2 ^ nat (- e)"
      using assms(4) by (intro round_fraction_less) auto
    then show ?thesis
      using False Float by (simp add: float_of_nat_def less_mult_imp_div_less)
  qed
qed

end
