(* ===== verification/GoSeconds.thy ===== *)
theory GoSeconds
  imports GoFloat
begin

text \<open>
  \<open>int(d.Seconds())\<close> of a \<open>time.Duration\<close>: the whole seconds and the rest are converted to
  float64, the rest is divided by 1e9, the sum is truncated. Signs are handled by symmetry
  (the two parts have the sign of \<open>d\<close>). A quotient is rounded on a dyadic approximation
  that is exact up to a sticky bit.
\<close>

definition float_quot :: "nat \<Rightarrow> nat \<Rightarrow> nat \<Rightarrow> nat" where
  \<comment> \<open>the float64 nearest to \<open>n / d\<close>, in units of \<open>2 ^ - (s + 1)\<close>\<close>
  "float_quot s n d =
     round_to 53 (2 * (n * 2 ^ s div d) + (if n * 2 ^ s mod d = 0 then 0 else 1))"

definition seconds_shift :: nat where
  \<comment> \<open>enough bits below the point for 55 significant ones of any fraction of a second\<close>
  "seconds_shift = 90"

definition nat_Seconds :: "nat \<Rightarrow> nat" where
  "nat_Seconds n =
     (let sec = n div 1000000000; nsec = n mod 1000000000 in
      round_to 53 (sec * 2 ^ (seconds_shift + 1) + float_quot seconds_shift nsec 1000000000)
        div 2 ^ (seconds_shift + 1))"

definition Seconds_int :: "duration \<Rightarrow> int" where
  "Seconds_int d = sgn (sint d) * int (nat_Seconds (nat \<bar>sint d\<bar>))"

lemma float_quot_le:
  assumes "n < d"
  shows "float_quot s n d \<le> 2 ^ (s + 1)"
proof -
  have "n * 2 ^ s div d < 2 ^ s"
    using assms by (intro div_less_iff_less_mult [THEN iffD2]) (auto simp: mult.commute)
  then have "2 * (n * 2 ^ s div d) + (if n * 2 ^ s mod d = 0 then 0 else 1) \<le> 2 ^ (s + 1)" by simp
  then have "float_quot s n d \<le> round_to 53 (1 * 2 ^ (s + 1))"
    unfolding float_quot_def mult_1 by (rule round_to_mono) simp
  moreover have "round_to 53 (1 * 2 ^ (s + 1)) = 1 * 2 ^ (s + 1)"
    by (rule round_to_exact_shift) simp
  ultimately show ?thesis by simp
qed

lemma few_seconds: "n < 2 ^ 64 \<Longrightarrow> n div 1000000000 + 1 < (2 :: nat) ^ 53"
  by (simp add: less_mult_imp_div_less)

lemma nat_Seconds_bounds:
  assumes "n < 2 ^ 64"
  shows "n div 1000000000 \<le> nat_Seconds n" and "nat_Seconds n \<le> n div 1000000000 + 1"
proof -
  define sec where "sec = n div 1000000000"
  define k where "k = seconds_shift + 1"
  define q where "q = float_quot seconds_shift (n mod 1000000000) 1000000000"
  have q: "q \<le> 2 ^ k" unfolding q_def k_def by (rule float_quot_le) simp
  have sec: "sec < 2 ^ 53" "sec + 1 < 2 ^ 53" using few_seconds [OF assms] by (simp_all add: sec_def)
  have r: "nat_Seconds n = round_to 53 (sec * 2 ^ k + q) div 2 ^ k"
    by (simp add: nat_Seconds_def sec_def q_def k_def Let_def)
  have "round_to 53 (sec * 2 ^ k) \<le> round_to 53 (sec * 2 ^ k + q)" by (rule round_to_mono) simp_all
  then have "sec * 2 ^ k \<le> round_to 53 (sec * 2 ^ k + q)"
    by (simp add: round_to_exact_shift [OF sec(1)])
  then show "sec \<le> nat_Seconds n" unfolding r by (simp add: less_eq_div_iff_mult_less_eq)
  have "round_to 53 (sec * 2 ^ k + q) \<le> round_to 53 ((sec + 1) * 2 ^ k)"
    by (rule round_to_mono) (use q in simp_all)
  then have "round_to 53 (sec * 2 ^ k + q) \<le> (sec + 1) * 2 ^ k"
    using round_to_exact_shift [OF sec(2)] by simp
  then have "round_to 53 (sec * 2 ^ k + q) div 2 ^ k \<le> (sec + 1) * 2 ^ k div 2 ^ k"
    by (rule div_le_mono)
  then show "nat_Seconds n \<le> sec + 1" unfolding r by simp
qed

lemma nat_Seconds_whole:
  assumes "n < 2 ^ 64" and "1000000000 dvd n"
  shows "nat_Seconds n = n div 1000000000"
proof -
  have "n div 1000000000 < 2 ^ 53" using few_seconds [OF assms(1)] by simp
  then have "round_to 53 (n div 1000000000 * 2 ^ (seconds_shift + 1)) =
      n div 1000000000 * 2 ^ (seconds_shift + 1)"
    by (rule round_to_exact_shift)
  moreover have "n mod 1000000000 = 0" using assms(2) by (simp add: mod_eq_0_iff_dvd)
  ultimately show ?thesis by (simp add: nat_Seconds_def float_quot_def Let_def)
qed

lemma Seconds_int_bounds:
  assumes "0 \<le> sint d"
  shows "sint d div 1000000000 \<le> Seconds_int d" and "Seconds_int d \<le> sint d div 1000000000 + 1"
    and "1000000000 dvd sint d \<Longrightarrow> Seconds_int d = sint d div 1000000000"
proof -
  define n where "n = nat (sint d)"
  have n: "sint d = int n" using assms by (simp add: n_def)
  have "sint d \<le> MaxDuration" by (rule sint_duration_bounds)
  then have b: "n < 2 ^ 64" by (simp add: n MaxDuration_def)
  have S: "Seconds_int d = int (nat_Seconds n)"
  proof (cases "n = 0")
    case True
    then show ?thesis using nat_Seconds_whole [of 0] by (simp add: Seconds_int_def n)
  qed (simp add: Seconds_int_def n)
  have d: "sint d div 1000000000 = int (n div 1000000000)" by (simp add: n zdiv_int)
  show "sint d div 1000000000 \<le> Seconds_int d" "Seconds_int d \<le> sint d div 1000000000 + 1"
    unfolding d S using nat_Seconds_bounds [OF b] by linarith+
  show "Seconds_int d = sint d div 1000000000" if "1000000000 dvd sint d"
  proof -
    have "int 1000000000 dvd int n" using that n by simp
    then have "1000000000 dvd n" by (simp only: int_dvd_int_iff)
    then show ?thesis unfolding d S using nat_Seconds_whole [OF b] by simp
  qed
qed

end
