(* ===== verification/Auth.thy ===== *)
theory Auth
  imports TokenFamily GoSeconds
begin

text \<open>
  The use cases of \<open>modules/identity/application\<close> as programs over an abstract world:
  login with lockout, the token pair, refresh with reuse detection, logout and the second
  factor. The ports are records of programs. The runtime record holds what the source calls
  outside the module: \<open>time.Now\<close>, \<open>crypto/rand.Read\<close>, bcrypt's \<open>GenerateFromPassword\<close> and
  the uuid package.
\<close>

section \<open>Ports, configuration and requests\<close>

record 'w runtime =
  rn_Now :: "('w, time) prog"
  rn_RandRead :: "nat \<Rightarrow> ('w, goerr + byte8 list) prog"
  rn_bcrypt :: "string \<Rightarrow> ('w, goerr + string) prog"
  rn_uuid :: uuid_pkg

record 'w auditor =
  au_LoginSucceeded :: "string \<Rightarrow> ('w, unit) prog"
  au_LoginFailed :: "string \<Rightarrow> string \<Rightarrow> ('w, unit) prog"
  au_AccountLocked :: "string \<Rightarrow> ('w, unit) prog"
  au_LogoutSucceeded :: "string \<Rightarrow> ('w, unit) prog"
  au_MFAEnrolled :: "string \<Rightarrow> ('w, unit) prog"
  au_MFAFailed :: "string \<Rightarrow> string \<Rightarrow> ('w, unit) prog"
  au_RefreshReuseDetected :: "string \<Rightarrow> string \<Rightarrow> int \<Rightarrow> goerr option \<Rightarrow> ('w, unit) prog"

record 'w security_notifier =
  sn_AccountLocked :: "string \<Rightarrow> time \<Rightarrow> ('w, unit) prog"
  sn_MFAEnabled :: "string \<Rightarrow> time \<Rightarrow> ('w, unit) prog"

definition NopAuditor :: "'w auditor" where
  "NopAuditor =
     \<lparr>au_LoginSucceeded = (\<lambda>_. retp ()), au_LoginFailed = (\<lambda>_ _. retp ()),
      au_AccountLocked = (\<lambda>_. retp ()), au_LogoutSucceeded = (\<lambda>_. retp ()),
      au_MFAEnrolled = (\<lambda>_. retp ()), au_MFAFailed = (\<lambda>_ _. retp ()),
      au_RefreshReuseDetected = (\<lambda>_ _ _ _. retp ())\<rparr>"

definition NopNotifier :: "'w security_notifier" where
  "NopNotifier = \<lparr>sn_AccountLocked = (\<lambda>_ _. retp ()), sn_MFAEnabled = (\<lambda>_ _. retp ())\<rparr>"

definition ReasonBadPassword :: string where "ReasonBadPassword = ''bad_password''"
definition ReasonUnknownUser :: string where "ReasonUnknownUser = ''unknown_user''"
definition ReasonAccountLocked :: string where "ReasonAccountLocked = ''account_locked''"

record auth_config =
  ac_AccessTokenTTL :: duration
  ac_RefreshTokenTTL :: duration
  ac_MaxFailedAttempts :: int
  ac_LockDuration :: duration
  ac_ClientID :: string
  ac_MFATemporaryTTL :: duration

record 'w auth_service =
  as_userRepo :: "'w user_repository"
  as_passwordHasher :: "'w password_hasher"
  as_tokenIssuer :: "'w token_issuer"
  as_tokenStore :: "'w refresh_token_store"
  as_cfg :: auth_config
  as_mfaService :: "'w mfa_service"
  as_mfaStore :: "'w mfa_store"
  as_audit :: "'w auditor"
  as_notifier :: "'w security_notifier"

definition NewAuthService ::
  "'w user_repository \<Rightarrow> 'w password_hasher \<Rightarrow> 'w token_issuer \<Rightarrow> 'w refresh_token_store \<Rightarrow>
   auth_config \<Rightarrow> 'w mfa_service \<Rightarrow> 'w mfa_store \<Rightarrow> 'w auditor option \<Rightarrow>
   'w security_notifier option \<Rightarrow> 'w auth_service" where
  "NewAuthService userRepo passwordHasher tokenIssuer tokenStore cfg mfaService mfaStore aud notif =
     \<lparr>as_userRepo = userRepo, as_passwordHasher = passwordHasher, as_tokenIssuer = tokenIssuer,
      as_tokenStore = tokenStore, as_cfg = cfg, as_mfaService = mfaService, as_mfaStore = mfaStore,
      as_audit = (case aud of None \<Rightarrow> NopAuditor | Some a \<Rightarrow> a),
      as_notifier = (case notif of None \<Rightarrow> NopNotifier | Some n \<Rightarrow> n)\<rparr>"

record login_request =
  lr_Username :: string
  lr_Password :: string

record token_response =
  tr_AccessToken :: string
  tr_TokenType :: string
  tr_ExpiresIn :: int
  tr_RefreshToken :: string
  tr_IDToken :: string
  tr_Scope :: string

record user_dto =
  ud_ID :: string
  ud_Email :: string
  ud_Name :: string
  ud_Roles :: "string list"
  ud_Permissions :: "string list"

record mfa_verify_request =
  mv_Code :: string
  mv_BackupCode :: string

record mfa_setup_response =
  mr_Secret :: string
  mr_QRCodeURL :: string

definition ErrInvalidCredentials :: goerr where "ErrInvalidCredentials = New ''invalid credentials''"
definition ErrAccountLocked :: goerr where "ErrAccountLocked = New ''account locked''"
definition ErrInvalidMFAToken :: goerr where "ErrInvalidMFAToken = New ''invalid mfa token''"
definition ErrInvalidMFACode :: goerr where "ErrInvalidMFACode = New ''invalid mfa code''"
definition ErrMFANotStarted :: goerr where "ErrMFANotStarted = New ''mfa setup not started''"
definition ErrRefreshTokenInvalid :: goerr where
  "ErrRefreshTokenInvalid = New ''refresh token invalid or expired''"

lemmas auth_sentinels [err_simps] =
  ErrInvalidCredentials_def ErrAccountLocked_def ErrInvalidMFAToken_def ErrInvalidMFACode_def
  ErrMFANotStarted_def ErrRefreshTokenInvalid_def

text \<open>The error of a login is a plain error or the \<open>*MFAError\<close> that asks for the second factor.\<close>

datatype login_error = LoginErr goerr | MFARequired string user_dto

section \<open>Login\<close>

definition toUserDTO :: "'w runtime \<Rightarrow> user \<Rightarrow> user_dto" where
  "toUserDTO rt u =
     \<lparr>ud_ID = uuid_String (rn_uuid rt) (u_ID u), ud_Email = u_Email u, ud_Name = u_Name u,
      ud_Roles = u_Roles u, ud_Permissions = u_Permissions u\<rparr>"

definition generateRandomToken :: "'w runtime \<Rightarrow> ('w, goerr + string) prog" where
  "generateRandomToken rt =
     bindp (rn_RandRead rt 32) (\<lambda>r.
       case r of Inl err \<Rightarrow> retp (Inl err) | Inr b \<Rightarrow> retp (Inr (hex_EncodeToString b)))"

definition token_pair ::
  "auth_config \<Rightarrow> string \<Rightarrow> string \<Rightarrow> string \<Rightarrow> token_response" where
  "token_pair cfg access refreshPlain idToken =
     \<lparr>tr_AccessToken = access, tr_TokenType = ''Bearer'',
      tr_ExpiresIn = Seconds_int (ac_AccessTokenTTL cfg), tr_RefreshToken = refreshPlain,
      tr_IDToken = idToken, tr_Scope = []\<rparr>"

definition issueFullTokens ::
  "'w runtime \<Rightarrow> 'w auth_service \<Rightarrow> user \<Rightarrow> ('w, goerr + token_response) prog" where
  "issueFullTokens rt s user =
     bindp (tip_IssueAccessToken (as_tokenIssuer s) user (ac_AccessTokenTTL (as_cfg s))) (\<lambda>r.
     case r of
       Inl err \<Rightarrow> retp (Inl (Errorf ''access token: %w'' [] [err]))
     | Inr access \<Rightarrow>
     bindp (tip_IssueIDToken (as_tokenIssuer s) user (ac_ClientID (as_cfg s))) (\<lambda>(idToken, _).
     bindp (generateRandomToken rt) (\<lambda>r.
     case r of
       Inl err \<Rightarrow> retp (Inl (Errorf ''random: %w'' [] [err]))
     | Inr refreshPlain \<Rightarrow>
     bindp (rn_Now rt) (\<lambda>now.
     bindp (rsp_Store (as_tokenStore s)
         \<lparr>rt_UserID = uuid_String (rn_uuid rt) (u_ID user), rt_TokenHash = HashToken refreshPlain,
          rt_ExpiresAt = time_Add now (ac_RefreshTokenTTL (as_cfg s)), rt_FamilyID = [],
          rt_Used = False, rt_Revoked = False\<rparr>) (\<lambda>r.
     case r of
       Some err \<Rightarrow> retp (Inl (Errorf ''store refresh: %w'' [] [err]))
     | None \<Rightarrow> retp (Inr (token_pair (as_cfg s) access refreshPlain idToken)))))))"

definition report_lock :: "'w runtime \<Rightarrow> 'w auth_service \<Rightarrow> user \<Rightarrow> ('w, unit) prog" where
  \<comment> \<open>the audit event and the notification of a fresh lockout\<close>
  "report_lock rt s user =
     bindp (au_AccountLocked (as_audit s) (uuid_String (rn_uuid rt) (u_ID user))) (\<lambda>_.
       case u_LockedUntil user of
         None \<Rightarrow> panicp ''nil pointer dereference''
       | Some t \<Rightarrow> sn_AccountLocked (as_notifier s) (uuid_String (rn_uuid rt) (u_ID user)) t)"

definition login_rejected ::
  "'w runtime \<Rightarrow> 'w auth_service \<Rightarrow> login_request \<Rightarrow> user \<Rightarrow>
   ('w, login_error + token_response) prog" where
  \<comment> \<open>the branch of a wrong password\<close>
  "login_rejected rt s req user =
     bindp (IsLocked (rn_Now rt) user) (\<lambda>wasLocked.
     bindp (RecordFailedLogin (rn_Now rt) (ac_MaxFailedAttempts (as_cfg s))
              (ac_LockDuration (as_cfg s)) user) (\<lambda>user.
     bindp (urp_Save (as_userRepo s) user) (\<lambda>_.
     bindp (au_LoginFailed (as_audit s) (lr_Username req) ReasonBadPassword) (\<lambda>_.
     bindp (if wasLocked then retp False else IsLocked (rn_Now rt) user) (\<lambda>justLocked.
     bindp (if justLocked then report_lock rt s user else retp ()) (\<lambda>_.
     retp (Inl (LoginErr ErrInvalidCredentials))))))))"

definition login_accepted ::
  "'w runtime \<Rightarrow> 'w auth_service \<Rightarrow> user \<Rightarrow> ('w, login_error + token_response) prog" where
  \<comment> \<open>the branch of a right password\<close>
  "login_accepted rt s user =
     (let user = ResetFailedLogins user in
      bindp (urp_Save (as_userRepo s) user) (\<lambda>r.
      case r of
        Some err \<Rightarrow> retp (Inl (LoginErr (Errorf ''user save: %w'' [] [err])))
      | None \<Rightarrow>
          (if u_MFAEnabled user then
             bindp (tip_IssueMFAToken (as_tokenIssuer s) user) (\<lambda>r.
               case r of
                 Inl err \<Rightarrow> retp (Inl (LoginErr (Errorf ''mfa token: %w'' [] [err])))
               | Inr mfaToken \<Rightarrow> retp (Inl (MFARequired mfaToken (toUserDTO rt user))))
           else
             bindp (issueFullTokens rt s user) (\<lambda>r.
               case r of
                 Inl err \<Rightarrow> retp (Inl (LoginErr err))
               | Inr resp \<Rightarrow>
                   bindp (au_LoginSucceeded (as_audit s) (uuid_String (rn_uuid rt) (u_ID user)))
                     (\<lambda>_. retp (Inr resp))))))"

definition Login ::
  "'w runtime \<Rightarrow> 'w auth_service \<Rightarrow> login_request \<Rightarrow> ('w, login_error + token_response) prog" where
  "Login rt s req =
     bindp (urp_FindByUsername (as_userRepo s) (lr_Username req)) (\<lambda>r.
     case r of
       Inl err \<Rightarrow>
         bindp (au_LoginFailed (as_audit s) (lr_Username req) ReasonUnknownUser) (\<lambda>_.
           retp (Inl (LoginErr ErrInvalidCredentials)))
     | Inr user \<Rightarrow>
         bindp (IsLocked (rn_Now rt) user) (\<lambda>locked.
         if locked then
           bindp (au_LoginFailed (as_audit s) (lr_Username req) ReasonAccountLocked) (\<lambda>_.
             retp (Inl (LoginErr ErrAccountLocked)))
         else
           bindp (php_Verify (as_passwordHasher s) (lr_Password req) (u_PasswordHash user)) (\<lambda>ok.
             if ok then login_accepted rt s user else login_rejected rt s req user)))"

section \<open>Refresh and logout\<close>

definition revokeFamilyForReuse :: "'w auth_service \<Rightarrow> refresh_token \<Rightarrow> ('w, goerr) prog" where
  "revokeFamilyForReuse s tok =
     bindp (rsp_RevokeFamily (as_tokenStore s) (rt_FamilyID tok)) (\<lambda>r.
     case r of
       Inl err \<Rightarrow>
         bindp (au_RefreshReuseDetected (as_audit s) (rt_UserID tok) (rt_FamilyID tok) 0 (Some err))
           (\<lambda>_. retp ErrRefreshTokenInvalid)
     | Inr revoked \<Rightarrow>
         bindp (au_RefreshReuseDetected (as_audit s) (rt_UserID tok) (rt_FamilyID tok) revoked None)
           (\<lambda>_. retp ErrRefreshTokenInvalid))"

definition handleUnusableRefreshToken :: "'w auth_service \<Rightarrow> string \<Rightarrow> ('w, goerr) prog" where
  "handleUnusableRefreshToken s hash =
     bindp (rsp_FindAny (as_tokenStore s) hash) (\<lambda>r.
     case r of
       Inl err \<Rightarrow> retp ErrRefreshTokenInvalid
     | Inr None \<Rightarrow> retp ErrRefreshTokenInvalid
     | Inr (Some known) \<Rightarrow>
         (if rt_Used known \<or> rt_Revoked known then revokeFamilyForReuse s known
          else retp ErrRefreshTokenInvalid))"

definition refresh_issue ::
  "'w runtime \<Rightarrow> 'w auth_service \<Rightarrow> user \<Rightarrow> string \<Rightarrow> ('w, goerr + token_response) prog" where
  \<comment> \<open>the tail of \<open>Refresh\<close>, once the rotation has landed\<close>
  "refresh_issue rt s user newPlain =
     bindp (tip_IssueAccessToken (as_tokenIssuer s) user (ac_AccessTokenTTL (as_cfg s))) (\<lambda>r.
     case r of
       Inl err \<Rightarrow> retp (Inl (Errorf ''access token: %w'' [] [err]))
     | Inr access \<Rightarrow>
     bindp (tip_IssueIDToken (as_tokenIssuer s) user (ac_ClientID (as_cfg s))) (\<lambda>(idToken, _).
       retp (Inr (token_pair (as_cfg s) access newPlain idToken))))"

definition refresh_rotate ::
  "'w runtime \<Rightarrow> 'w auth_service \<Rightarrow> string \<Rightarrow> refresh_token \<Rightarrow> ('w, goerr + token_response) prog" where
  \<comment> \<open>\<open>Refresh\<close> from the moment a usable token was read\<close>
  "refresh_rotate rt s hash stored =
     bindp (urp_FindByID (as_userRepo s) (rt_UserID stored)) (\<lambda>r.
     case r of
       Inl err \<Rightarrow> retp (Inl ErrRefreshTokenInvalid)
     | Inr user \<Rightarrow>
     bindp (generateRandomToken rt) (\<lambda>r.
     case r of
       Inl err \<Rightarrow> retp (Inl (Errorf ''random: %w'' [] [err]))
     | Inr newPlain \<Rightarrow>
     bindp (rn_Now rt) (\<lambda>now.
     bindp (rsp_Rotate (as_tokenStore s) hash
         \<lparr>rt_UserID = uuid_String (rn_uuid rt) (u_ID user), rt_TokenHash = HashToken newPlain,
          rt_ExpiresAt = time_Add now (ac_RefreshTokenTTL (as_cfg s)),
          rt_FamilyID = rt_FamilyID stored, rt_Used = False, rt_Revoked = False\<rparr>) (\<lambda>r.
     case r of
       Some err \<Rightarrow>
         (if errors_Is err ErrRefreshTokenAlreadyUsed then
            bindp (revokeFamilyForReuse s stored) (\<lambda>e. retp (Inl e))
          else retp (Inl (Errorf ''rotate refresh token: %w'' [] [err])))
     | None \<Rightarrow> refresh_issue rt s user newPlain))))"

definition Refresh ::
  "'w runtime \<Rightarrow> 'w auth_service \<Rightarrow> string \<Rightarrow> ('w, goerr + token_response) prog" where
  "Refresh rt s refreshToken =
     (if refreshToken = [] then retp (Inl ErrRefreshTokenInvalid)
      else
        (let hash = HashToken refreshToken in
         bindp (rsp_FindValid (as_tokenStore s) hash) (\<lambda>r.
         case r of
           Inr (Some stored) \<Rightarrow> refresh_rotate rt s hash stored
         | _ \<Rightarrow> bindp (handleUnusableRefreshToken s hash) (\<lambda>e. retp (Inl e)))))"

definition Logout :: "'w auth_service \<Rightarrow> string \<Rightarrow> ('w, goerr option) prog" where
  "Logout s userID =
     bindp (rsp_RevokeAllForUser (as_tokenStore s) userID) (\<lambda>r.
     case r of
       Some err \<Rightarrow> retp (Some err)
     | None \<Rightarrow> bindp (au_LogoutSucceeded (as_audit s) userID) (\<lambda>_. retp None))"

section \<open>The second factor\<close>

definition SetupMFA :: "'w auth_service \<Rightarrow> string \<Rightarrow> ('w, goerr + mfa_setup_response) prog" where
  "SetupMFA s userID =
     bindp (urp_FindByID (as_userRepo s) userID) (\<lambda>r.
     case r of
       Inl err \<Rightarrow> retp (Inl err)
     | Inr user \<Rightarrow>
     bindp (mfp_GenerateSecret (as_mfaService s) (u_Email user)) (\<lambda>r.
     case r of
       Inl err \<Rightarrow> retp (Inl err)
     | Inr (secret, qr) \<Rightarrow>
     bindp (urp_Save (as_userRepo s) (user\<lparr>u_MFASecret := secret\<rparr>)) (\<lambda>r.
     case r of
       Some err \<Rightarrow> retp (Inl err)
     | None \<Rightarrow> retp (Inr \<lparr>mr_Secret = secret, mr_QRCodeURL = qr\<rparr>))))"

definition second_factor ::
  "'w runtime \<Rightarrow> 'w auth_service \<Rightarrow> user \<Rightarrow> mfa_verify_request \<Rightarrow> ('w, bool) prog" where
  \<comment> \<open>the code-or-backup-code test of \<open>VerifyMFA\<close>\<close>
  "second_factor rt s user req =
     (if mv_Code req \<noteq> [] then
        mfp_ValidateCode (as_mfaService s) (u_MFASecret user) (mv_Code req)
      else if mv_BackupCode req \<noteq> [] then
        bindp (msp_FindAndUseBackupCode (as_mfaStore s) (uuid_String (rn_uuid rt) (u_ID user))
                 (mv_BackupCode req)) (\<lambda>r.
          case r of Inl err \<Rightarrow> retp False | Inr found \<Rightarrow> retp found)
      else retp False)"

definition VerifyMFA ::
  "'w runtime \<Rightarrow> 'w auth_service \<Rightarrow> string \<Rightarrow> mfa_verify_request \<Rightarrow>
   ('w, goerr + token_response) prog" where
  "VerifyMFA rt s mfaToken req =
     bindp (tip_Validate (as_tokenIssuer s) mfaToken ClassMFA) (\<lambda>r.
     case r of
       Inl err \<Rightarrow> retp (Inl ErrInvalidMFAToken)
     | Inr cl \<Rightarrow>
     bindp (urp_FindByID (as_userRepo s) (cl_Subject cl)) (\<lambda>r.
     case r of
       Inl err \<Rightarrow> retp (Inl ErrInvalidMFAToken)
     | Inr user \<Rightarrow>
     bindp (second_factor rt s user req) (\<lambda>ok.
       if ok then issueFullTokens rt s user else retp (Inl ErrInvalidMFACode))))"

text \<open>The loop over the eight backup codes; an error of \<open>rand.Read\<close> is ignored and leaves the
  buffer zero.\<close>

fun backup_codes ::
  "'w runtime \<Rightarrow> nat \<Rightarrow> ('w, goerr + string list \<times> string list) prog" where
  "backup_codes rt 0 = retp (Inr ([], []))"
| "backup_codes rt (Suc k) =
     bindp (rn_RandRead rt 4) (\<lambda>r.
       let b = (case r of Inl err \<Rightarrow> replicate 4 0 | Inr b \<Rightarrow> b);
           code = take 8 (hex_EncodeToString b) in
       bindp (rn_bcrypt rt code) (\<lambda>r.
         case r of
           Inl err \<Rightarrow> retp (Inl (Errorf ''hash backup: %w'' [] [err]))
         | Inr hash \<Rightarrow>
             bindp (backup_codes rt k) (\<lambda>r.
               case r of
                 Inl err \<Rightarrow> retp (Inl err)
               | Inr (codes, codeHashes) \<Rightarrow> retp (Inr (code # codes, hash # codeHashes)))))"

definition VerifyMFASetup ::
  "'w runtime \<Rightarrow> 'w auth_service \<Rightarrow> string \<Rightarrow> string \<Rightarrow> ('w, goerr + string list) prog" where
  "VerifyMFASetup rt s userID code =
     bindp (urp_FindByID (as_userRepo s) userID) (\<lambda>r.
     case r of
       Inl err \<Rightarrow> retp (Inl err)
     | Inr user \<Rightarrow>
     if u_MFASecret user = [] then retp (Inl ErrMFANotStarted)
     else bindp (mfp_ValidateCode (as_mfaService s) (u_MFASecret user) code) (\<lambda>ok.
     if \<not> ok then retp (Inl ErrInvalidMFACode)
     else bindp (backup_codes rt 8) (\<lambda>r.
     case r of
       Inl err \<Rightarrow> retp (Inl err)
     | Inr (backupCodes, codeHashes) \<Rightarrow>
     bindp (msp_StoreBackupCodes (as_mfaStore s) userID codeHashes) (\<lambda>r.
     case r of
       Some err \<Rightarrow> retp (Inl (Errorf ''store backup: %w'' [] [err]))
     | None \<Rightarrow>
     bindp (urp_Save (as_userRepo s) (user\<lparr>u_MFAEnabled := True\<rparr>)) (\<lambda>r.
     case r of
       Some err \<Rightarrow> retp (Inl err)
     | None \<Rightarrow>
     bindp (rn_Now rt) (\<lambda>now.
     bindp (sn_MFAEnabled (as_notifier s) userID now) (\<lambda>_.
       retp (Inr backupCodes))))))))"

section \<open>Adapters of the ports\<close>

text \<open>\<open>TOTPService\<close> over \<open>github.com/pquerna/otp\<close> and \<open>BcryptHasher\<close> over bcrypt, both
  parameters.\<close>

definition TOTP_ValidateCode ::
  "(string \<Rightarrow> string \<Rightarrow> ('w, bool) prog) \<Rightarrow> string \<Rightarrow> string \<Rightarrow> ('w, bool) prog" where
  "TOTP_ValidateCode totp_Validate secret code =
     (if secret = [] then retp False else totp_Validate code secret)"

definition TOTPService ::
  "(string \<Rightarrow> string \<Rightarrow> ('w, goerr + string \<times> string) prog) \<Rightarrow>
   (string \<Rightarrow> string \<Rightarrow> ('w, bool) prog) \<Rightarrow> string \<Rightarrow> 'w mfa_service" where
  "TOTPService totp_Generate totp_Validate Issuer =
     \<lparr>mfp_GenerateSecret = totp_Generate Issuer,
      mfp_ValidateCode = TOTP_ValidateCode totp_Validate\<rparr>"

definition BcryptHasher ::
  "(string \<Rightarrow> ('w, goerr + string) prog) \<Rightarrow> (string \<Rightarrow> string \<Rightarrow> goerr option) \<Rightarrow>
   'w password_hasher" where
  "BcryptHasher bcrypt_Generate bcrypt_Compare =
     \<lparr>php_Hash = bcrypt_Generate,
      php_Verify = (\<lambda>plain hashed. retp (bcrypt_Compare hashed plain = None))\<rparr>"

end
