(* ===== verification/AuthContract.thy ===== *)
theory AuthContract
  imports Auth
begin

text \<open>
  What the use cases do to the tokens, whatever the other ports do: every request is a
  sequence of the moves of \<open>TokenFamily\<close>. The other ports may run anything that itself only
  makes such moves; this covers other sessions that run between two calls of one request.
\<close>

section \<open>Interference\<close>

definition interferes ::
  "('w \<Rightarrow> bool) \<Rightarrow> ('w \<Rightarrow> refresh_token list) \<Rightarrow> ('w, 'a) prog \<Rightarrow> bool" where
  "interferes I tokens p \<longleftrightarrow>
     (\<forall>w. I w \<longrightarrow> I (snd (p w)) \<and> token_moves (tokens w) (tokens (snd (p w))))"

text \<open>The ports outside the module, and the two other stores.\<close>

definition outside_frame ::
  "('w \<Rightarrow> bool) \<Rightarrow> ('w \<Rightarrow> refresh_token list) \<Rightarrow> 'w runtime \<Rightarrow> 'w auth_service \<Rightarrow> bool" where
  "outside_frame I tokens rt s \<longleftrightarrow>
     interferes I tokens (rn_Now rt) \<and>
     (\<forall>n. interferes I tokens (rn_RandRead rt n)) \<and>
     (\<forall>c. interferes I tokens (rn_bcrypt rt c)) \<and>
     (\<forall>p h. interferes I tokens (php_Verify (as_passwordHasher s) p h)) \<and>
     (\<forall>u d. interferes I tokens (tip_IssueAccessToken (as_tokenIssuer s) u d)) \<and>
     (\<forall>u c. interferes I tokens (tip_IssueIDToken (as_tokenIssuer s) u c)) \<and>
     (\<forall>u. interferes I tokens (tip_IssueMFAToken (as_tokenIssuer s) u)) \<and>
     (\<forall>t c. interferes I tokens (tip_Validate (as_tokenIssuer s) t c)) \<and>
     (\<forall>e. interferes I tokens (mfp_GenerateSecret (as_mfaService s) e)) \<and>
     (\<forall>k c. interferes I tokens (mfp_ValidateCode (as_mfaService s) k c)) \<and>
     (\<forall>u. interferes I tokens (au_LoginSucceeded (as_audit s) u)) \<and>
     (\<forall>u r. interferes I tokens (au_LoginFailed (as_audit s) u r)) \<and>
     (\<forall>u. interferes I tokens (au_AccountLocked (as_audit s) u)) \<and>
     (\<forall>u. interferes I tokens (au_LogoutSucceeded (as_audit s) u)) \<and>
     (\<forall>u f k e. interferes I tokens (au_RefreshReuseDetected (as_audit s) u f k e)) \<and>
     (\<forall>u t. interferes I tokens (sn_AccountLocked (as_notifier s) u t)) \<and>
     (\<forall>u t. interferes I tokens (sn_MFAEnabled (as_notifier s) u t))"

definition stores_frame ::
  "('w \<Rightarrow> bool) \<Rightarrow> ('w \<Rightarrow> refresh_token list) \<Rightarrow> 'w user_repository \<Rightarrow> 'w mfa_store \<Rightarrow> bool" where
  "stores_frame I tokens users codes \<longleftrightarrow>
     (\<forall>i. interferes I tokens (urp_FindByID users i)) \<and>
     (\<forall>u. interferes I tokens (urp_FindByUsername users u)) \<and>
     (\<forall>u. interferes I tokens (urp_Save users u)) \<and>
     (\<forall>u c. interferes I tokens (msp_FindAndUseBackupCode codes u c)) \<and>
     (\<forall>u cs. interferes I tokens (msp_StoreBackupCodes codes u cs))"

definition auth_frame ::
  "('w \<Rightarrow> bool) \<Rightarrow> ('w \<Rightarrow> refresh_token list) \<Rightarrow> 'w runtime \<Rightarrow> 'w auth_service \<Rightarrow> bool" where
  "auth_frame I tokens rt s \<longleftrightarrow>
     outside_frame I tokens rt s \<and> stores_frame I tokens (as_userRepo s) (as_mfaStore s)"

text \<open>A user found under a stored user id carries that id.\<close>

definition finds_by_id ::
  "('w \<Rightarrow> bool) \<Rightarrow> ('w \<Rightarrow> refresh_token list) \<Rightarrow> 'w runtime \<Rightarrow> 'w auth_service \<Rightarrow> bool" where
  "finds_by_id I tokens rt s \<longleftrightarrow>
     (\<forall>w i user w'. I w \<longrightarrow> i \<in> rt_UserID ` set (tokens w) \<longrightarrow>
        urp_FindByID (as_userRepo s) i w = (Ret (Inr user), w') \<longrightarrow>
        uuid_String (rn_uuid rt) (u_ID user) = i)"

text \<open>\<open>moved I tokens ts w\<close>: a good world whose tokens descend from \<open>ts\<close>.\<close>

definition moved ::
  "('w \<Rightarrow> bool) \<Rightarrow> ('w \<Rightarrow> refresh_token list) \<Rightarrow> refresh_token list \<Rightarrow> 'w \<Rightarrow> bool" where
  "moved I tokens ts w \<longleftrightarrow> I w \<and> families_ok (tokens w) \<and> token_moves ts (tokens w)"

lemma moved_refl: "I w \<Longrightarrow> families_ok (tokens w) \<Longrightarrow> moved I tokens (tokens w) w"
  by (simp add: moved_def)

lemma moved_step:
  "moved I tokens ts w \<Longrightarrow> I w' \<Longrightarrow> token_moves (tokens w) (tokens w') \<Longrightarrow> moved I tokens ts w'"
  using token_moves_families_ok by (auto simp: moved_def)

lemma interferes_ends:
  "interferes I tokens p \<Longrightarrow> moved I tokens ts w \<Longrightarrow> ends (moved I tokens ts) p w"
  using moved_step [of I tokens ts w "snd (p w)"] by (auto simp: interferes_def ends_def moved_def)

lemma interferes_preserves: "interferes I tokens p \<Longrightarrow> preserves (moved I tokens ts) (\<lambda>_. ()) p"
  using interferes_ends by (auto simp: preserves_def ends_def)

lemma moved_keeps: "moved I tokens ts w \<Longrightarrow> t \<in> set ts \<Longrightarrow> \<exists>t' \<in> set (tokens w). same_token t t'"
  unfolding moved_def using token_moves_keeps by blast

lemma preserves_Pair [simp, intro]: "preserves A obs (Pair r)"
  by (simp add: preserves_def)

lemma auth_frameD:
  assumes "auth_frame I tokens rt s"
  shows "interferes I tokens (rn_Now rt)" "interferes I tokens (rn_RandRead rt n)"
    "interferes I tokens (urp_FindByID (as_userRepo s) i)"
    "interferes I tokens (urp_FindByUsername (as_userRepo s) i)"
    "interferes I tokens (urp_Save (as_userRepo s) u)"
    "interferes I tokens (php_Verify (as_passwordHasher s) i j)"
    "interferes I tokens (tip_IssueAccessToken (as_tokenIssuer s) u d)"
    "interferes I tokens (tip_IssueIDToken (as_tokenIssuer s) u i)"
    "interferes I tokens (tip_IssueMFAToken (as_tokenIssuer s) u)"
    "interferes I tokens (tip_Validate (as_tokenIssuer s) i j)"
    "interferes I tokens (mfp_ValidateCode (as_mfaService s) i j)"
    "interferes I tokens (msp_FindAndUseBackupCode (as_mfaStore s) i j)"
    "interferes I tokens (au_LoginSucceeded (as_audit s) i)"
    "interferes I tokens (au_LoginFailed (as_audit s) i j)"
    "interferes I tokens (au_AccountLocked (as_audit s) i)"
    "interferes I tokens (au_LogoutSucceeded (as_audit s) i)"
    "interferes I tokens (au_RefreshReuseDetected (as_audit s) i j k e)"
    "interferes I tokens (sn_AccountLocked (as_notifier s) i t)"
    "interferes I tokens (rn_bcrypt rt i)"
    "interferes I tokens (mfp_GenerateSecret (as_mfaService s) i)"
    "interferes I tokens (msp_StoreBackupCodes (as_mfaStore s) i cs)"
    "interferes I tokens (sn_MFAEnabled (as_notifier s) i t)"
  using assms by (simp_all add: auth_frame_def outside_frame_def stores_frame_def)

lemmas auth_frame_preserves = auth_frameD [THEN interferes_preserves]

section \<open>Requests\<close>

text \<open>A request to the service, its answer forgotten.\<close>

datatype request =
    LoginRequest login_request
  | RefreshRequest string
  | LogoutRequest string
  | SetupRequest string
  | VerifySetupRequest string string
  | VerifyRequest string mfa_verify_request

definition forget :: "('w, 'a) prog \<Rightarrow> ('w, unit) prog" where
  "forget p = bindp p (\<lambda>_. retp ())"

fun serve :: "'w runtime \<Rightarrow> 'w auth_service \<Rightarrow> request \<Rightarrow> ('w, unit) prog" where
  "serve rt s (LoginRequest req) = forget (Login rt s req)"
| "serve rt s (RefreshRequest plain) = forget (Refresh rt s plain)"
| "serve rt s (LogoutRequest u) = forget (Logout s u)"
| "serve rt s (SetupRequest u) = forget (SetupMFA s u)"
| "serve rt s (VerifySetupRequest u c) = forget (VerifyMFASetup rt s u c)"
| "serve rt s (VerifyRequest t req) = forget (VerifyMFA rt s t req)"

inductive served :: "'w runtime \<Rightarrow> 'w auth_service \<Rightarrow> 'w \<Rightarrow> 'w \<Rightarrow> bool" for rt s where
  start: "served rt s w w"
| more: "served rt s w w' \<Longrightarrow> served rt s w (snd (serve rt s q w'))"

text \<open>How often a sequence of requests exchanges one token for a new pair.\<close>

definition answers_tokens :: "(goerr + token_response) outcome \<times> 'w \<Rightarrow> bool" where
  "answers_tokens run = (case fst run of Ret (Inr _) \<Rightarrow> True | _ \<Rightarrow> False)"

fun exchanges ::
  "'w runtime \<Rightarrow> 'w auth_service \<Rightarrow> string \<Rightarrow> request list \<Rightarrow> 'w \<Rightarrow> nat" where
  "exchanges rt s plain [] w = 0"
| "exchanges rt s plain (q # qs) w =
     (if q = RefreshRequest plain \<and> answers_tokens (Refresh rt s plain w) then 1 else 0) +
     exchanges rt s plain qs (snd (serve rt s q w))"

definition spent_hash :: "string \<Rightarrow> refresh_token list \<Rightarrow> bool" where
  "spent_hash h ts \<longleftrightarrow> (\<exists>t \<in> set ts. rt_TokenHash t = h \<and> \<not> live t)"

section \<open>The use cases move the tokens\<close>

context token_store
begin

abbreviation from_tokens :: "refresh_token list \<Rightarrow> 'w \<Rightarrow> bool" where
  "from_tokens \<equiv> moved I tokens"

lemma generateRandomToken_preserves:
  "auth_frame I tokens rt s \<Longrightarrow> preserves (from_tokens ts) (\<lambda>_. ()) (generateRandomToken rt)"
  unfolding generateRandomToken_def
  by (intro preserves_bindp auth_frame_preserves) (auto split: sum.split)

lemma store_preserves:
  assumes "rt_FamilyID n = []"
  shows "preserves (from_tokens ts) (\<lambda>_. ()) (rsp_Store S n)"
  unfolding preserves_def
proof (intro allI impI)
  fix w assume w: "from_tokens ts w"
  obtain r w' where run: "rsp_Store S n w = (r, w')" by (cases "rsp_Store S n w")
  from store_move [OF _ assms run] w show "from_tokens ts (snd (rsp_Store S n w)) \<and> () = ()"
    by (auto simp: run moved_def intro: token_moves_families_ok)
qed

lemma revoke_family_preserves: "preserves (from_tokens ts) (\<lambda>_. ()) (rsp_RevokeFamily S f)"
  unfolding preserves_def using revoke_family_move moved_step
  by (metis moved_def prod.collapse)

lemma revoke_all_preserves: "preserves (from_tokens ts) (\<lambda>_. ()) (rsp_RevokeAllForUser S u)"
  unfolding preserves_def using revoke_all_move moved_step
  by (metis moved_def prod.collapse)

lemma find_any_preserves: "preserves (from_tokens ts) (\<lambda>_. ()) (rsp_FindAny S h)"
  unfolding preserves_def using find_any_inv by (metis moved_def prod.collapse)

lemma find_valid_preserves: "preserves (from_tokens ts) (\<lambda>_. ()) (rsp_FindValid S h)"
  unfolding preserves_def using find_valid_inv by (metis moved_def prod.collapse)

lemma issueFullTokens_preserves:
  assumes "auth_frame I tokens rt s" and "as_tokenStore s = S"
  shows "preserves (from_tokens ts) (\<lambda>_. ()) (issueFullTokens rt s user)"
  unfolding issueFullTokens_def assms(2)
  by (intro preserves_bindp auth_frame_preserves [OF assms(1)] store_preserves
      generateRandomToken_preserves [OF assms(1)])
    (auto split: sum.split option.split prod.split
      intro!: preserves_bindp auth_frame_preserves [OF assms(1)] store_preserves
        generateRandomToken_preserves [OF assms(1)])

lemma login_branches_preserve:
  assumes "auth_frame I tokens rt s" and "as_tokenStore s = S"
  shows "preserves (from_tokens ts) (\<lambda>_. ()) (IsLocked (rn_Now rt) user)"
    and "preserves (from_tokens ts) (\<lambda>_. ()) (RecordFailedLogin (rn_Now rt) k d user)"
    and "preserves (from_tokens ts) (\<lambda>_. ()) (report_lock rt s user)"
    and "preserves (from_tokens ts) (\<lambda>_. ()) (login_accepted rt s user)"
proof -
  note frame = auth_frame_preserves [OF assms(1)]
  show "preserves (from_tokens ts) (\<lambda>_. ()) (IsLocked (rn_Now rt) user)"
    "preserves (from_tokens ts) (\<lambda>_. ()) (RecordFailedLogin (rn_Now rt) k d user)"
    "preserves (from_tokens ts) (\<lambda>_. ()) (report_lock rt s user)"
    by (auto simp: IsLocked_def RecordFailedLogin_def report_lock_def Let_def split: option.split
        intro!: preserves_bindp frame)
  show "preserves (from_tokens ts) (\<lambda>_. ()) (login_accepted rt s user)"
    by (auto simp: login_accepted_def Let_def split: option.split sum.split
        intro!: preserves_bindp frame issueFullTokens_preserves [OF assms])
qed

lemma Login_preserves:
  assumes "auth_frame I tokens rt s" and "as_tokenStore s = S"
  shows "preserves (from_tokens ts) (\<lambda>_. ()) (Login rt s req)"
  by (auto simp: Login_def login_rejected_def split: sum.split
      intro!: preserves_bindp auth_frame_preserves [OF assms(1)] login_branches_preserve [OF assms])

lemma VerifyMFA_preserves:
  assumes "auth_frame I tokens rt s" and "as_tokenStore s = S"
  shows "preserves (from_tokens ts) (\<lambda>_. ()) (VerifyMFA rt s tok req)"
  by (auto simp: VerifyMFA_def second_factor_def split: sum.split
      intro!: preserves_bindp auth_frame_preserves [OF assms(1)] issueFullTokens_preserves [OF assms])

lemma Logout_preserves:
  assumes "auth_frame I tokens rt s" and "as_tokenStore s = S"
  shows "preserves (from_tokens ts) (\<lambda>_. ()) (Logout s u)"
  by (auto simp: Logout_def assms(2) split: option.split
      intro!: preserves_bindp auth_frame_preserves [OF assms(1)] revoke_all_preserves)

lemma backup_codes_preserves:
  assumes "auth_frame I tokens rt s"
  shows "preserves (from_tokens ts) (\<lambda>_. ()) (backup_codes rt k)"
  by (induction k) (auto simp: Let_def split: sum.split
      intro!: preserves_bindp auth_frame_preserves [OF assms])

lemma mfa_setup_preserves:
  assumes "auth_frame I tokens rt s"
  shows "preserves (from_tokens ts) (\<lambda>_. ()) (SetupMFA s u)"
    and "preserves (from_tokens ts) (\<lambda>_. ()) (VerifyMFASetup rt s u c)"
  by (auto simp: SetupMFA_def VerifyMFASetup_def split: sum.split option.split
      intro!: preserves_bindp auth_frame_preserves [OF assms] backup_codes_preserves [OF assms])

lemma revokeFamilyForReuse_preserves:
  assumes "auth_frame I tokens rt s" and "as_tokenStore s = S"
  shows "preserves (from_tokens ts) (\<lambda>_. ()) (revokeFamilyForReuse s tok)"
  by (auto simp: revokeFamilyForReuse_def assms(2) split: sum.split
      intro!: preserves_bindp auth_frame_preserves [OF assms(1)] revoke_family_preserves)

lemma handleUnusable_preserves:
  assumes "auth_frame I tokens rt s" and "as_tokenStore s = S"
  shows "preserves (from_tokens ts) (\<lambda>_. ()) (handleUnusableRefreshToken s h)"
  by (auto simp: handleUnusableRefreshToken_def assms(2) split: sum.split option.split
      intro!: preserves_bindp find_any_preserves revokeFamilyForReuse_preserves [OF assms])

lemma refresh_issue_preserves:
  assumes "auth_frame I tokens rt s"
  shows "preserves (from_tokens ts) (\<lambda>_. ()) (refresh_issue rt s user plain)"
  by (auto simp: refresh_issue_def split: sum.split
      intro!: preserves_bindp auth_frame_preserves [OF assms(1)])

text \<open>
  The one call that needs more than the frame: between the read of \<open>stored\<close> and the rotation
  anything may have happened, but the row is still there under its hash, family and user.
\<close>

lemma rotate_ends:
  assumes w: "from_tokens ts w" and t: "t \<in> set ts" "rt_TokenHash t = h"
    and n: "rt_FamilyID n = rt_FamilyID t" "rt_UserID n = rt_UserID t"
  shows "ends (from_tokens ts) (rsp_Rotate S h n) w"
proof -
  obtain r w' where run: "rsp_Rotate S h n w = (r, w')" by (cases "rsp_Rotate S h n w")
  obtain t' where t': "t' \<in> set (tokens w)" "same_token t t'"
    using moved_keeps [OF w t(1)] by blast
  have "I w'" "token_moves (tokens w) (tokens w')"
    using rotate_move [OF _ _ run t'(1)] t' t n w by (simp_all add: moved_def same_token_def)
  with moved_step [OF w] show ?thesis by (simp add: ends_def run)
qed

lemma refresh_rotate_ends:
  assumes frame: "auth_frame I tokens rt s" and store: "as_tokenStore s = S"
    and finds: "finds_by_id I tokens rt s"
    and w: "from_tokens ts w" and t: "t \<in> set ts" "rt_TokenHash t = h"
  shows "ends (from_tokens ts) (refresh_rotate rt s h t) w"
proof -
  note fr = auth_frame_preserves [OF frame]
  have user: "uuid_String (rn_uuid rt) (u_ID user) = rt_UserID t"
    if "urp_FindByID (as_userRepo s) (rt_UserID t) w = (Ret (Inr user), w1)" for user w1
  proof -
    obtain t' where "t' \<in> set (tokens w)" "same_token t t'"
      using moved_keeps [OF w t(1)] by blast
    then have "rt_UserID t \<in> rt_UserID ` set (tokens w)" unfolding same_token_def by (metis image_eqI)
    with finds that w show ?thesis unfolding finds_by_id_def moved_def by blast
  qed
  show ?thesis
    unfolding refresh_rotate_def store
    by (intro ends_bindp preserves_ends [OF fr(3) w])
      (auto split: sum.split option.split simp: user
        intro!: ends_bindp [OF preserves_ends [OF generateRandomToken_preserves [OF frame]]]
          ends_bindp [OF preserves_ends [OF fr(1)]] ends_bindp [OF rotate_ends [OF _ t]]
          ends_bindp [OF preserves_ends [OF revokeFamilyForReuse_preserves [OF frame store]]]
          preserves_ends [OF refresh_issue_preserves [OF frame]])
qed

lemma Refresh_ends:
  assumes frame: "auth_frame I tokens rt s" and store: "as_tokenStore s = S"
    and finds: "finds_by_id I tokens rt s" and w: "I w" "families_ok (tokens w)"
  shows "ends (from_tokens (tokens w)) (Refresh rt s plain) w"
proof (cases "plain = []")
  case True
  then show ?thesis using moved_refl [of I w tokens, OF w] by (simp add: Refresh_def)
next
  case False
  let ?h = "HashToken plain"
  have "ends (from_tokens (tokens w)) (case r of Inr (Some stored) \<Rightarrow> refresh_rotate rt s ?h stored
      | _ \<Rightarrow> bindp (handleUnusableRefreshToken s ?h) (\<lambda>e. retp (Inl e))) w1"
    if run: "rsp_FindValid S ?h w = (Ret r, w1)" and w1: "from_tokens (tokens w) w1" for r w1
  proof (cases "\<exists>t. r = Inr (Some t)")
    case True
    then obtain t where t: "r = Inr (Some t)" by blast
    with find_valid_ok [OF w(1)] run refresh_rotate_ends [OF frame store finds w1] show ?thesis by auto
  next
    case False
    have "ends (from_tokens (tokens w))
        (bindp (handleUnusableRefreshToken s ?h) (\<lambda>e. retp (Inl e))) w1"
      by (rule ends_bindp [OF preserves_ends [OF handleUnusable_preserves [OF frame store] w1]]) simp
    with False show ?thesis by (auto split: sum.split option.split)
  qed
  then have "ends (from_tokens (tokens w)) (bindp (rsp_FindValid S ?h) (\<lambda>r.
      case r of Inr (Some stored) \<Rightarrow> refresh_rotate rt s ?h stored
      | _ \<Rightarrow> bindp (handleUnusableRefreshToken s ?h) (\<lambda>e. retp (Inl e)))) w"
    by (rule ends_bindp [OF preserves_ends [OF find_valid_preserves moved_refl [of I w tokens, OF w]]])
  with False show ?thesis by (simp add: Refresh_def store Let_def)
qed

text \<open>A successful refresh spends the presented token and extends its family.\<close>

lemma preserves_moved:
  "preserves (from_tokens ts) (\<lambda>_. ()) p \<Longrightarrow> from_tokens ts w \<Longrightarrow> p w = (r, w') \<Longrightarrow> from_tokens ts w'"
  by (drule (2) preservesD) simp

lemma refresh_rotate_success:
  assumes frame: "auth_frame I tokens rt s" and store: "as_tokenStore s = S"
    and run: "refresh_rotate rt s h t w = (Ret (Inr resp), w')" and w: "from_tokens ts w"
  obtains user i now w1 w2 where
    "urp_FindByID (as_userRepo s) (rt_UserID t) w = (Ret (Inr user), i)" "from_tokens ts w1"
    "rsp_Rotate S h \<lparr>rt_UserID = uuid_String (rn_uuid rt) (u_ID user),
       rt_TokenHash = HashToken (tr_RefreshToken resp),
       rt_ExpiresAt = time_Add now (ac_RefreshTokenTTL (as_cfg s)),
       rt_FamilyID = rt_FamilyID t, rt_Used = False, rt_Revoked = False\<rparr> w1 = (Ret None, w2)"
    "refresh_issue rt s user (tr_RefreshToken resp) w2 = (Ret (Inr resp), w')"
proof -
  note fr = auth_frame_preserves [OF frame]
  from run obtain user i plain j now w1 w2 where
      user: "urp_FindByID (as_userRepo s) (rt_UserID t) w = (Ret (Inr user), i)"
      and plain: "generateRandomToken rt i = (Ret (Inr plain), j)" and now: "rn_Now rt j = (Ret now, w1)"
      and rot: "rsp_Rotate S h
          \<lparr>rt_UserID = uuid_String (rn_uuid rt) (u_ID user), rt_TokenHash = HashToken plain,
           rt_ExpiresAt = time_Add now (ac_RefreshTokenTTL (as_cfg s)),
           rt_FamilyID = rt_FamilyID t, rt_Used = False, rt_Revoked = False\<rparr> w1 = (Ret None, w2)"
      and issue: "refresh_issue rt s user plain w2 = (Ret (Inr resp), w')"
    unfolding refresh_rotate_def store by (elim runE) simp_all
  have "tr_RefreshToken resp = plain"
    using issue unfolding refresh_issue_def by (elim runE) (auto simp: token_pair_def)
  moreover have "from_tokens ts w1"
    using preserves_moved [OF fr(3) w user] preserves_moved [OF generateRandomToken_preserves [OF frame] _ plain]
      preserves_moved [OF fr(1) _ now] by blast
  ultimately show thesis using that user rot issue by blast
qed

lemma Refresh_success:
  assumes frame: "auth_frame I tokens rt s" and store: "as_tokenStore s = S"
    and finds: "finds_by_id I tokens rt s" and w: "I w" "families_ok (tokens w)"
    and run: "Refresh rt s plain w = (Ret (Inr resp), w')"
  shows "\<exists>t \<in> set (tokens w). rt_TokenHash t = HashToken plain \<and> live t \<and>
    (\<exists>t' \<in> set (tokens w'). same_token t t' \<and> \<not> live t') \<and>
    (\<exists>n \<in> set (tokens w'). rt_TokenHash n = HashToken (tr_RefreshToken resp) \<and>
       rt_FamilyID n = rt_FamilyID t \<and> rt_UserID n = rt_UserID t)"
proof -
  let ?h = "HashToken plain"
  from run obtain t w0 where t0: "rsp_FindValid S ?h w = (Ret (Inr (Some t)), w0)"
    and rr: "refresh_rotate rt s ?h t w0 = (Ret (Inr resp), w')"
    unfolding Refresh_def store Let_def by (elim runE) simp_all
  have t: "t \<in> set (tokens w)" "rt_TokenHash t = ?h" "live t"
    using find_valid_ok [OF w(1) t0] by simp_all
  have w0: "from_tokens (tokens w) w0"
    using preserves_moved [OF find_valid_preserves moved_refl [of I w tokens, OF w] t0] .
  obtain user i now w1 w2 where
      user: "urp_FindByID (as_userRepo s) (rt_UserID t) w0 = (Ret (Inr user), i)"
      and w1: "from_tokens (tokens w) w1"
      and rot: "rsp_Rotate S ?h \<lparr>rt_UserID = uuid_String (rn_uuid rt) (u_ID user),
         rt_TokenHash = HashToken (tr_RefreshToken resp),
         rt_ExpiresAt = time_Add now (ac_RefreshTokenTTL (as_cfg s)),
         rt_FamilyID = rt_FamilyID t, rt_Used = False, rt_Revoked = False\<rparr> w1 = (Ret None, w2)"
      (is "rsp_Rotate S ?h ?n w1 = _")
      and issue: "refresh_issue rt s user (tr_RefreshToken resp) w2 = (Ret (Inr resp), w')"
    by (rule refresh_rotate_success [OF frame store rr w0])
  obtain t0 where t0: "t0 \<in> set (tokens w0)" "same_token t t0" using moved_keeps [OF w0 t(1)] by blast
  have uid: "uuid_String (rn_uuid rt) (u_ID user) = rt_UserID t"
  proof -
    have "rt_UserID t \<in> rt_UserID ` set (tokens w0)"
      using t0 unfolding same_token_def by (metis image_eqI)
    with finds user w0 show ?thesis unfolding finds_by_id_def moved_def by blast
  qed
  obtain t1 where t1: "t1 \<in> set (tokens w1)" "same_token t t1" using moved_keeps [OF w1 t(1)] by blast
  have fam: "rt_FamilyID t \<in> families (tokens w1)" and usr: "rt_UserID t \<in> rt_UserID ` set (tokens w1)"
    using t1 unfolding same_token_def families_def by (metis image_eqI)+
  have known: "known_family (tokens w1) ?n" using fam by (simp add: known_family_def)
  have I1: "I w1" using w1 by (simp add: moved_def)
  obtain n where n: "tokens w2 = map (retire ?h) (tokens w1) @ [n]" "new_token (tokens w1) ?n n"
    using rotate_ok [OF I1 known rot] unfolding rotated_def by blast
  have nn: "rt_TokenHash n = HashToken (tr_RefreshToken resp)" "rt_FamilyID n = rt_FamilyID t"
      "rt_UserID n = rt_UserID t" "n \<in> set (tokens w2)"
    using n fam usr by (simp_all add: new_token_def uid)
  have t2: "retire ?h t1 \<in> set (tokens w2)" "same_token t (retire ?h t1)" "\<not> live (retire ?h t1)"
    using t1 t n by (auto simp: same_token_def)
  have "from_tokens (tokens w) w2"
    using endsD [OF rotate_ends [OF w1 t(1,2)] rot] uid by simp
  then have "from_tokens (tokens w2) w2" by (simp add: moved_def)
  then have w': "from_tokens (tokens w2) w'"
    using preserves_moved [OF refresh_issue_preserves [OF frame] _ issue] by blast
  obtain t3 where t3: "t3 \<in> set (tokens w')" "same_token (retire ?h t1) t3"
    using moved_keeps [OF w' t2(1)] by blast
  obtain n3 where n3: "n3 \<in> set (tokens w')" "same_token n n3" using moved_keeps [OF w' nn(4)] by blast
  have "same_token t t3" using same_token_trans [OF t2(2) t3(2)] .
  moreover have "\<not> live t3" using t3(2) t2(3) unfolding same_token_def by blast
  moreover have "rt_TokenHash n3 = HashToken (tr_RefreshToken resp)" "rt_FamilyID n3 = rt_FamilyID t"
      "rt_UserID n3 = rt_UserID t"
    using n3(2) nn(1-3) unfolding same_token_def by simp_all
  ultimately show ?thesis using t t3(1) n3(1) by blast
qed

text \<open>Every run of the service is a run of the moves.\<close>

lemma forget_preserves: "preserves A obs p \<Longrightarrow> preserves A obs (forget p)"
  unfolding forget_def by (intro preserves_bindp) auto

lemma forget_ends: "ends A p w \<Longrightarrow> ends A (forget p) w"
  unfolding forget_def by (rule ends_bindp) auto

lemma serve_moves:
  assumes frame: "auth_frame I tokens rt s" and store: "as_tokenStore s = S"
    and finds: "finds_by_id I tokens rt s" and w: "I w" "families_ok (tokens w)"
  shows "from_tokens (tokens w) (snd (serve rt s q w))"
proof -
  note start = moved_refl [of I w tokens, OF w]
  have "ends (from_tokens (tokens w)) (serve rt s q) w"
    using preserves_ends [OF forget_preserves [OF Login_preserves [OF frame store]] start]
      forget_ends [OF Refresh_ends [OF frame store finds w]]
      preserves_ends [OF forget_preserves [OF Logout_preserves [OF frame store]] start]
      preserves_ends [OF forget_preserves [OF mfa_setup_preserves(1) [OF frame]] start]
      preserves_ends [OF forget_preserves [OF mfa_setup_preserves(2) [OF frame]] start]
      preserves_ends [OF forget_preserves [OF VerifyMFA_preserves [OF frame store]] start]
    by (cases q) auto
  then show ?thesis by (simp add: ends_def)
qed

lemma served_moves:
  assumes "served rt s w w'" and "auth_frame I tokens rt s" and "as_tokenStore s = S"
    and "finds_by_id I tokens rt s" and "I w" "families_ok (tokens w)"
  shows "from_tokens (tokens w) w'"
  using assms
proof (induction rule: served.induct)
  case (start w)
  then show ?case by (intro moved_refl)
next
  case (more w w' q)
  then have w': "from_tokens (tokens w) w'" by blast
  then have "from_tokens (tokens w') (snd (serve rt s q w'))"
    using serve_moves more.prems by (simp add: moved_def)
  with w' show ?case by (auto simp: moved_def)
qed

text \<open>A token that was exchanged once is never exchanged again.\<close>

lemma spent_hash_moved:
  "moved I tokens ts w \<Longrightarrow> spent_hash h ts \<Longrightarrow> spent_hash h (tokens w)"
  unfolding spent_hash_def by (metis moved_keeps same_token_def)

lemma Refresh_spent_hash:
  assumes frame: "auth_frame I tokens rt s" and store: "as_tokenStore s = S"
    and finds: "finds_by_id I tokens rt s" and w: "I w" "families_ok (tokens w)"
    and "spent_hash (HashToken plain) (tokens w)"
  shows "\<not> answers_tokens (Refresh rt s plain w)"
proof
  assume "answers_tokens (Refresh rt s plain w)"
  then obtain resp w' where run: "Refresh rt s plain w = (Ret (Inr resp), w')"
    by (cases "Refresh rt s plain w") (auto simp: answers_tokens_def split: outcome.splits sum.splits)
  obtain u where u: "u \<in> set (tokens w)" "rt_TokenHash u = HashToken plain" "live u"
    using Refresh_success [OF frame store finds w run] by blast
  obtain t where t: "t \<in> set (tokens w)" "rt_TokenHash t = HashToken plain" "\<not> live t"
    using assms(6) by (auto simp: spent_hash_def)
  have "distinct (map rt_TokenHash (tokens w))" using w(2) by (simp add: families_ok_def)
  then have "u = t" using distinct_map_eqD [OF _ u(1) t(1), of rt_TokenHash] u(2) t(2) by simp
  with u t show False by simp
qed

lemma exchanges_spent:
  assumes frame: "auth_frame I tokens rt s" and store: "as_tokenStore s = S"
    and finds: "finds_by_id I tokens rt s" and w: "I w" "families_ok (tokens w)"
    and "spent_hash (HashToken plain) (tokens w)"
  shows "exchanges rt s plain qs w = 0"
  using w assms(6)
proof (induction qs arbitrary: w)
  case (Cons q qs)
  have m: "moved I tokens (tokens w) (snd (serve rt s q w))"
    using serve_moves [OF frame store finds Cons.prems(1,2)] .
  then have "exchanges rt s plain qs (snd (serve rt s q w)) = 0"
    using Cons.IH spent_hash_moved [OF m Cons.prems(3)] by (simp add: moved_def)
  then show ?case
    using Refresh_spent_hash [OF frame store finds Cons.prems] by (cases q) auto
qed simp

lemma exchanges_once:
  assumes frame: "auth_frame I tokens rt s" and store: "as_tokenStore s = S"
    and finds: "finds_by_id I tokens rt s" and w: "I w" "families_ok (tokens w)"
  shows "exchanges rt s plain qs w \<le> 1"
  using w
proof (induction qs arbitrary: w)
  case (Cons q qs)
  have m: "moved I tokens (tokens w) (snd (serve rt s q w))"
    using serve_moves [OF frame store finds Cons.prems] .
  then have IH: "exchanges rt s plain qs (snd (serve rt s q w)) \<le> 1"
    using Cons.IH by (simp add: moved_def)
  show ?case
  proof (cases "q = RefreshRequest plain \<and> answers_tokens (Refresh rt s plain w)")
    case True
    then obtain resp w' where run: "Refresh rt s plain w = (Ret (Inr resp), w')"
      by (cases "Refresh rt s plain w") (auto simp: answers_tokens_def split: outcome.splits sum.splits)
    have "spent_hash (HashToken plain) (tokens w')"
      using Refresh_success [OF frame store finds Cons.prems run]
      unfolding spent_hash_def same_token_def by metis
    moreover have w': "snd (serve rt s q w) = w'"
      using True run by (simp add: forget_def bindp_def)
    ultimately have "exchanges rt s plain qs (snd (serve rt s q w)) = 0"
      using exchanges_spent [OF frame store finds] m by (simp add: moved_def)
    with True show ?thesis by simp
  qed (use IH in \<open>cases q; auto\<close>)
qed simp

end

end
