(* ===== verification/Sql.thy ===== *)
theory Sql
  imports Db
begin

text \<open>
  What a SQL statement meets that its text does not determine, shared by the tables of the
  notification and of the identity module.
\<close>

section \<open>The environment of a statement\<close>

text \<open>
  What the model cannot know of a statement is given by a script: the error the driver
  reports for it, the error of \<open>RowsAffected\<close>, the rows other sessions hold locked, and
  the values of \<open>now()\<close> and of its calls of \<open>gen_random_uuid()\<close>. One entry is used per statement; an
  exhausted script is a healthy, quiet database. A failed statement changes nothing.
\<close>

record stmt_env =
  se_fault :: "goerr option"
  se_affected :: "goerr option"
  se_locked :: "uuid list"
  se_now :: time
  se_uuid :: "nat \<Rightarrow> uuid"

definition quiet :: stmt_env where
  "quiet = \<lparr>se_fault = None, se_affected = None, se_locked = [], se_now = 0, se_uuid = (\<lambda>_. 1)\<rparr>"

definition affected_err :: "stmt_env \<Rightarrow> goerr option" where
  "affected_err env = map_option (\<lambda>err. Errorf ''rows affected: %w'' [] [err]) (se_affected env)"

definition take_limit :: "int \<Rightarrow> 'a list \<Rightarrow> 'a list" where
  "take_limit n xs = take (nat n) xs"

end
