(* ===== verification/IdentityStore.thy ===== *)
theory IdentityStore
  imports AuthContract Sql
begin

text \<open>
  The persistence of the identity module: the row structs of
  \<open>infrastructure/persistence/models/auth_models.go\<close> and the three stores of
  \<open>infrastructure/persistence/repository\<close>, over tables as lists of rows under the
  constraints of the migrations. The world is a pair of the tables and of what the process
  and the database feed in: the environments of the coming statements, the coming values of
  \<open>uuid.New\<close> (an empty list is a failed random source, on which \<open>uuid.New\<close> panics) and the
  \<open>lower\<close> function of the database's collation. A transaction runs on a connection of its own,
  with \<open>BEGIN\<close> and \<open>COMMIT\<close> as statements.
\<close>

section \<open>Rows and tables\<close>

record user_row =
  ur_ID :: uuid
  ur_Username :: string
  ur_Email :: string
  ur_Name :: string
  ur_Roles :: "string list"
  ur_Permissions :: "string list"
  ur_PasswordHash :: "string option"
  ur_MFAEnabled :: bool
  ur_MFASecret :: "string option"
  ur_FailedLoginAttempts :: int
  ur_LockedUntil :: "time option"
  ur_CreatedAt :: time
  ur_UpdatedAt :: time

record refresh_token_row =
  rr_ID :: uuid
  rr_UserID :: uuid
  rr_TokenHash :: string
  rr_ExpiresAt :: time
  rr_Revoked :: bool
  rr_CreatedAt :: time
  rr_FamilyID :: uuid
  rr_UsedAt :: "time option"
  rr_ReuseDetectedAt :: "time option"

record backup_code_row =
  br_ID :: uuid
  br_UserID :: uuid
  br_CodeHash :: string
  br_Used :: bool
  br_CreatedAt :: time

record id_tables =
  it_users :: "user_row list"
  it_tokens :: "refresh_token_row list"
  it_codes :: "backup_code_row list"

record id_script =
  is_env :: "stmt_env list"
  is_uuids :: "uuid list"
  is_lower :: "string \<Rightarrow> string"

type_synonym 'e id_world = "id_tables \<times> 'e id_script_scheme"

definition next_stmt :: "'e id_world \<Rightarrow> stmt_env \<times> 'e id_world" where
  "next_stmt w =
     (case is_env (snd w) of
        [] \<Rightarrow> (quiet, w)
      | e # es \<Rightarrow> (e, (fst w, (snd w)\<lparr>is_env := es\<rparr>)))"

definition drawn_uuid :: "('e id_world, uuid) prog" where
  "drawn_uuid w =
     (case is_uuids (snd w) of
        [] \<Rightarrow> (Panics ''uuid: random source failed'', w)
      | u # us \<Rightarrow> (Ret u, (fst w, (snd w)\<lparr>is_uuids := us\<rparr>)))"

definition or_default :: "uuid \<Rightarrow> uuid \<Rightarrow> uuid" where
  \<comment> \<open>bun writes DEFAULT for a zero uuid in a column with a \<open>default:\<close> tag\<close>
  "or_default u d = (if u = uuid_Nil then d else u)"

text \<open>\<open>Scan\<close> into a struct: the first row, or \<open>sql.ErrNoRows\<close>.\<close>

definition scan_first :: "stmt_env \<Rightarrow> ('r \<Rightarrow> bool) \<Rightarrow> 'r list \<Rightarrow> goerr + 'r" where
  "scan_first env P rows =
     (case se_fault env of
        Some err \<Rightarrow> Inl err
      | None \<Rightarrow> (case find P rows of None \<Rightarrow> Inl sql_ErrNoRows | Some r \<Rightarrow> Inr r))"

section \<open>UserRepo\<close>

definition deref :: "string option \<Rightarrow> string" where
  "deref p = (case p of None \<Rightarrow> [] | Some s \<Rightarrow> s)"

definition nilIfEmpty :: "string \<Rightarrow> string option" where
  "nilIfEmpty v = (if v = [] then None else Some v)"

definition toDomainUser :: "user_row \<Rightarrow> user" where
  "toDomainUser row =
     \<lparr>u_ID = ur_ID row, u_Username = ur_Username row, u_Email = ur_Email row,
      u_Name = ur_Name row, u_Roles = ur_Roles row, u_Permissions = ur_Permissions row,
      u_PasswordHash = deref (ur_PasswordHash row), u_MFAEnabled = ur_MFAEnabled row,
      u_MFASecret = deref (ur_MFASecret row),
      u_FailedLoginAttempts = ur_FailedLoginAttempts row, u_LockedUntil = ur_LockedUntil row\<rparr>"

definition fromDomainUser :: "user \<Rightarrow> user_row" where
  "fromDomainUser u =
     \<lparr>ur_ID = u_ID u, ur_Username = u_Username u, ur_Email = u_Email u, ur_Name = u_Name u,
      ur_Roles = u_Roles u, ur_Permissions = u_Permissions u,
      ur_PasswordHash = nilIfEmpty (u_PasswordHash u), ur_MFAEnabled = u_MFAEnabled u,
      ur_MFASecret = nilIfEmpty (u_MFASecret u),
      ur_FailedLoginAttempts = u_FailedLoginAttempts u, ur_LockedUntil = u_LockedUntil u,
      ur_CreatedAt = 0, ur_UpdatedAt = 0\<rparr>"

definition users_find :: "((string \<Rightarrow> string) \<Rightarrow> user_row \<Rightarrow> bool) \<Rightarrow> ('e id_world, goerr + user) prog" where
  "users_find P w =
     (let (env, w) = next_stmt w in
      case scan_first env (P (is_lower (snd w))) (it_users (fst w)) of
        Inl err \<Rightarrow>
          (Ret (Inl (if errors_Is err sql_ErrNoRows then db_ErrNotFound else Translate_err err)), w)
      | Inr row \<Rightarrow> (Ret (Inr (toDomainUser row)), w))"

definition users_FindByEmail :: "string \<Rightarrow> ('e id_world, goerr + user) prog" where
  "users_FindByEmail email = users_find (\<lambda>lower r. lower (ur_Email r) = lower email)"

definition users_FindByID :: "uuid_pkg \<Rightarrow> string \<Rightarrow> ('e id_world, goerr + user) prog" where
  "users_FindByID U i =
     (case uuid_Parse U i of
        Inl err \<Rightarrow> retp (Inl (Errorf ''parse user id: %w'' [] [err]))
      | Inr uid \<Rightarrow> users_find (\<lambda>_ r. ur_ID r = uid))"

definition users_FindByUsername :: "string \<Rightarrow> ('e id_world, goerr + user) prog" where
  "users_FindByUsername username =
     users_find (\<lambda>lower r. lower (ur_Username r) = lower username)"

text \<open>The upsert of \<open>Save\<close>, under the primary key, the two \<open>lower()\<close> indexes and the int4
  range of the counter.\<close>

definition update_user :: "stmt_env \<Rightarrow> user_row \<Rightarrow> user_row \<Rightarrow> user_row" where
  \<comment> \<open>DO UPDATE SET ... = EXCLUDED, updated_at = now()\<close>
  "update_user env new old =
     new\<lparr>ur_ID := ur_ID old, ur_CreatedAt := ur_CreatedAt old, ur_UpdatedAt := se_now env\<rparr>"

definition int4 :: "int \<Rightarrow> bool" where
  "int4 i \<longleftrightarrow> - (2 ^ 31) \<le> i \<and> i < 2 ^ 31"

definition upsert_user ::
  "stmt_env \<Rightarrow> (string \<Rightarrow> string) \<Rightarrow> user_row \<Rightarrow> user_row list \<Rightarrow> goerr + user_row list" where
  "upsert_user env lower row rows =
     (let row = row\<lparr>ur_ID := or_default (ur_ID row) (se_uuid env 0),
                    ur_CreatedAt := se_now env, ur_UpdatedAt := se_now env\<rparr>;
          others = filter (\<lambda>r. ur_ID r \<noteq> ur_ID row) rows in
      if \<not> int4 (ur_FailedLoginAttempts row) then Inl (PgError ''22003'' ''integer out of range'')
      else if \<exists>r \<in> set others. lower (ur_Email r) = lower (ur_Email row) then
        Inl (PgError pgCodeUniqueViolation ''idx_auth_users_email_lower'')
      else if \<exists>r \<in> set others. lower (ur_Username r) = lower (ur_Username row) then
        Inl (PgError pgCodeUniqueViolation ''idx_auth_users_username_lower'')
      else if ur_ID row \<in> ur_ID ` set rows then
        Inr (map (\<lambda>r. if ur_ID r = ur_ID row then update_user env row r else r) rows)
      else Inr (rows @ [row]))"

definition users_Save :: "user \<Rightarrow> ('e id_world, goerr option) prog" where
  "users_Save u w =
     (let (env, w) = next_stmt w in
      case se_fault env of
        Some err \<Rightarrow> (Ret (Some (Translate_err err)), w)
      | None \<Rightarrow>
          (case upsert_user env (is_lower (snd w)) (fromDomainUser u) (it_users (fst w)) of
             Inl err \<Rightarrow> (Ret (Some (Translate_err err)), w)
           | Inr rows \<Rightarrow> (Ret None, ((fst w)\<lparr>it_users := rows\<rparr>, snd w))))"

section \<open>RefreshTokenStore\<close>

definition toRefreshRow ::
  "uuid_pkg \<Rightarrow> refresh_token \<Rightarrow> ('e id_world, goerr + refresh_token_row) prog" where
  "toRefreshRow U t =
     (case uuid_Parse U (rt_UserID t) of
        Inl err \<Rightarrow> retp (Inl (Errorf ''parse user id: %w'' [] [err]))
      | Inr uid \<Rightarrow>
          bindp drawn_uuid (\<lambda>fresh.
            case (if rt_FamilyID t \<noteq> [] then uuid_Parse U (rt_FamilyID t) else Inr fresh) of
              Inl err \<Rightarrow> retp (Inl (Errorf ''parse family id: %w'' [] [err]))
            | Inr familyID \<Rightarrow>
                retp (Inr \<lparr>rr_ID = uuid_Nil, rr_UserID = uid, rr_TokenHash = rt_TokenHash t,
                           rr_ExpiresAt = rt_ExpiresAt t, rr_Revoked = False, rr_CreatedAt = 0,
                           rr_FamilyID = familyID, rr_UsedAt = None,
                           rr_ReuseDetectedAt = None\<rparr>)))"

definition fromRefreshRow :: "uuid_pkg \<Rightarrow> refresh_token_row \<Rightarrow> refresh_token" where
  "fromRefreshRow U row =
     \<lparr>rt_UserID = uuid_String U (rr_UserID row), rt_TokenHash = rr_TokenHash row,
      rt_ExpiresAt = rr_ExpiresAt row, rt_FamilyID = uuid_String U (rr_FamilyID row),
      rt_Used = (rr_UsedAt row \<noteq> None), rt_Revoked = rr_Revoked row\<rparr>"

definition insert_token :: "stmt_env \<Rightarrow> refresh_token_row \<Rightarrow> id_tables \<Rightarrow> goerr + id_tables" where
  "insert_token env row db =
     (let row = row\<lparr>rr_ID := or_default (rr_ID row) (se_uuid env 0),
                    rr_FamilyID := or_default (rr_FamilyID row) (se_uuid env 1),
                    rr_CreatedAt := se_now env\<rparr>;
          rows = it_tokens db in
      if rr_ID row \<in> rr_ID ` set rows then
        Inl (PgError pgCodeUniqueViolation ''auth_refresh_tokens_pkey'')
      else if rr_TokenHash row \<in> rr_TokenHash ` set rows then
        Inl (PgError pgCodeUniqueViolation ''idx_auth_refresh_tokens_token_hash'')
      else if rr_UserID row \<notin> ur_ID ` set (it_users db) then
        Inl (PgError pgCodeForeignKeyViolation ''auth_refresh_tokens_user_id_fkey'')
      else Inr (db\<lparr>it_tokens := rows @ [row]\<rparr>))"

definition exec_insert_token :: "refresh_token_row \<Rightarrow> ('e id_world, goerr option) prog" where
  "exec_insert_token row w =
     (let (env, w) = next_stmt w in
      case se_fault env of
        Some err \<Rightarrow> (Ret (Some (Translate_err err)), w)
      | None \<Rightarrow>
          (case insert_token env row (fst w) of
             Inl err \<Rightarrow> (Ret (Some (Translate_err err)), w)
           | Inr db \<Rightarrow> (Ret None, (db, snd w))))"

definition tokens_Store :: "uuid_pkg \<Rightarrow> refresh_token \<Rightarrow> ('e id_world, goerr option) prog" where
  "tokens_Store U t =
     bindp (toRefreshRow U t) (\<lambda>r.
       case r of Inl err \<Rightarrow> retp (Some err) | Inr row \<Rightarrow> exec_insert_token row)"

definition usable_row :: "string \<Rightarrow> refresh_token_row \<Rightarrow> bool" where
  \<comment> \<open>token_hash = ? AND revoked = false AND used_at IS NULL\<close>
  "usable_row h r \<longleftrightarrow> rr_TokenHash r = h \<and> \<not> rr_Revoked r \<and> rr_UsedAt r = None"

definition tokens_FindValid ::
  "uuid_pkg \<Rightarrow> string \<Rightarrow> ('e id_world, goerr + refresh_token option) prog" where
  "tokens_FindValid U tokenHash w =
     (let (env, w) = next_stmt w in
      case scan_first env (\<lambda>r. usable_row tokenHash r \<and> se_now env < rr_ExpiresAt r)
             (it_tokens (fst w)) of
        Inl err \<Rightarrow>
          (Ret (Inl (if errors_Is err sql_ErrNoRows then New ''invalid token''
                     else Translate_err err)), w)
      | Inr row \<Rightarrow> (Ret (Inr (Some (fromRefreshRow U row))), w))"

definition tokens_FindAny ::
  "uuid_pkg \<Rightarrow> string \<Rightarrow> ('e id_world, goerr + refresh_token option) prog" where
  "tokens_FindAny U tokenHash w =
     (let (env, w) = next_stmt w in
      case scan_first env (\<lambda>r. rr_TokenHash r = tokenHash) (it_tokens (fst w)) of
        Inl err \<Rightarrow>
          (Ret (Inl (if errors_Is err sql_ErrNoRows then db_ErrNotFound else Translate_err err)), w)
      | Inr row \<Rightarrow> (Ret (Inr (Some (fromRefreshRow U row))), w))"

text \<open>
  The connection a transaction runs on: the tables as \<open>BEGIN\<close> found them while it is open, and
  the world. \<open>BEGIN\<close> and \<open>COMMIT\<close> are statements. A commit that meets a fault is rolled back by
  the server; one whose answer is lost (\<open>se_affected\<close>) has taken effect and still returns an
  error. Either way the transaction is over, and \<open>Rollback\<close> then finds nothing to undo.
\<close>

type_synonym 'e id_conn = "id_tables option \<times> 'e id_world"

definition conn_Commit :: "('e id_conn, goerr option) prog" where
  "conn_Commit = (\<lambda>(undo, w).
     case undo of
       None \<Rightarrow> (Ret (Some sql_ErrTxDone), (None, w))
     | Some tables \<Rightarrow>
         (let (env, w) = next_stmt w in
          case se_fault env of
            Some err \<Rightarrow> (Ret (Some err), (None, (tables, snd w)))
          | None \<Rightarrow> (Ret (se_affected env), (None, w))))"

definition conn_Rollback :: "('e id_conn, goerr option) prog" where
  "conn_Rollback = (\<lambda>(undo, w).
     case undo of
       None \<Rightarrow> (Ret (Some sql_ErrTxDone), (None, w))
     | Some tables \<Rightarrow> (Ret None, (None, (tables, snd w))))"

definition conn_tx :: "'e id_conn sql_tx" where
  "conn_tx = \<lparr>tx_Commit = conn_Commit, tx_Rollback = conn_Rollback\<rparr>"

definition conn_BeginTx :: "('e id_conn, goerr + 'e id_conn sql_tx) prog" where
  "conn_BeginTx = (\<lambda>(undo, w).
     let (env, w) = next_stmt w in
     case se_fault env of
       Some err \<Rightarrow> (Ret (Inl err), (undo, w))
     | None \<Rightarrow> (Ret (Inr conn_tx), (Some (fst w), w)))"

definition on_conn :: "('e id_world, 'a) prog \<Rightarrow> ('e id_conn, 'a) prog" where
  "on_conn p = (\<lambda>(undo, w). let (r, w) = p w in (r, (undo, w)))"

definition with_conn :: "('e id_conn, 'a) prog \<Rightarrow> ('e id_world, 'a) prog" where
  "with_conn p = (\<lambda>w. let (r, (undo, w)) = p (None, w) in (r, w))"

definition retire_row :: "stmt_env \<Rightarrow> string \<Rightarrow> refresh_token_row \<Rightarrow> refresh_token_row" where
  "retire_row env h r =
     (if usable_row h r then r\<lparr>rr_UsedAt := Some (se_now env), rr_Revoked := True\<rparr> else r)"

definition rotate_tx :: "string \<Rightarrow> refresh_token_row \<Rightarrow> ('e id_world, goerr option) prog" where
  "rotate_tx oldHash nextRow w =
     (let (env, w) = next_stmt w;
          rows = it_tokens (fst w) in
      case se_fault env of
        Some err \<Rightarrow> (Ret (Some (Translate_err err)), w)
      | None \<Rightarrow>
          (let w = ((fst w)\<lparr>it_tokens := map (retire_row env oldHash) rows\<rparr>, snd w) in
           case affected_err env of
             Some err \<Rightarrow> (Ret (Some err), w)
           | None \<Rightarrow>
               (if length (filter (usable_row oldHash) rows) = 0
                then (Ret (Some ErrRefreshTokenAlreadyUsed), w)
                else exec_insert_token nextRow w)))"

definition tokens_Rotate ::
  "uuid_pkg \<Rightarrow> string \<Rightarrow> refresh_token \<Rightarrow> ('e id_world, goerr option) prog" where
  "tokens_Rotate U oldHash next =
     bindp (toRefreshRow U next) (\<lambda>r.
       case r of
         Inl err \<Rightarrow> retp (Some err)
       | Inr nextRow \<Rightarrow>
           with_conn (InTx conn_BeginTx (\<lambda>tx. on_conn (rotate_tx oldHash nextRow))))"

definition family_row :: "uuid \<Rightarrow> refresh_token_row \<Rightarrow> bool" where
  "family_row fid r \<longleftrightarrow> rr_FamilyID r = fid \<and> \<not> rr_Revoked r"

definition tokens_RevokeFamily :: "uuid_pkg \<Rightarrow> string \<Rightarrow> ('e id_world, goerr + int) prog" where
  "tokens_RevokeFamily U familyID =
     (case uuid_Parse U familyID of
        Inl err \<Rightarrow> retp (Inl (Errorf ''parse family id: %w'' [] [err]))
      | Inr fid \<Rightarrow> (\<lambda>w.
          let (env, w) = next_stmt w;
              rows = it_tokens (fst w) in
          case se_fault env of
            Some err \<Rightarrow> (Ret (Inl (Translate_err err)), w)
          | None \<Rightarrow>
              (let w = ((fst w)\<lparr>it_tokens := map (\<lambda>r. if family_row fid r
                     then r\<lparr>rr_Revoked := True, rr_ReuseDetectedAt := Some (se_now env)\<rparr>
                     else r) rows\<rparr>, snd w) in
               case affected_err env of
                 Some err \<Rightarrow> (Ret (Inl err), w)
               | None \<Rightarrow> (Ret (Inr (int (length (filter (family_row fid) rows)))), w))))"

definition tokens_RevokeAllForUser :: "uuid_pkg \<Rightarrow> string \<Rightarrow> ('e id_world, goerr option) prog" where
  "tokens_RevokeAllForUser U userID =
     (case uuid_Parse U userID of
        Inl err \<Rightarrow> retp (Some (Errorf ''parse user id: %w'' [] [err]))
      | Inr uid \<Rightarrow> (\<lambda>w.
          let (env, w) = next_stmt w in
          case se_fault env of
            Some err \<Rightarrow> (Ret (Some (Translate_err err)), w)
          | None \<Rightarrow> (Ret None, ((fst w)\<lparr>it_tokens :=
              map (\<lambda>r. if rr_UserID r = uid then r\<lparr>rr_Revoked := True\<rparr> else r)
                (it_tokens (fst w))\<rparr>, snd w))))"

section \<open>MFAStore\<close>

text \<open>One INSERT of all rows: any violation fails the whole statement.\<close>

fun insert_codes ::
  "stmt_env \<Rightarrow> nat \<Rightarrow> uuid \<Rightarrow> string list \<Rightarrow> id_tables \<Rightarrow> goerr + id_tables" where
  "insert_codes env k uid [] db = Inr db"
| "insert_codes env k uid (hash # rest) db =
     (if se_uuid env k \<in> br_ID ` set (it_codes db) then
        Inl (PgError pgCodeUniqueViolation ''auth_mfa_backup_codes_pkey'')
      else if uid \<notin> ur_ID ` set (it_users db) then
        Inl (PgError pgCodeForeignKeyViolation ''auth_mfa_backup_codes_user_id_fkey'')
      else insert_codes env (k + 1) uid rest
        (db\<lparr>it_codes := it_codes db @
           [\<lparr>br_ID = se_uuid env k, br_UserID = uid, br_CodeHash = hash, br_Used = False,
             br_CreatedAt = se_now env\<rparr>]\<rparr>))"

definition mfa_StoreBackupCodes ::
  "uuid_pkg \<Rightarrow> string \<Rightarrow> string list \<Rightarrow> ('e id_world, goerr option) prog" where
  "mfa_StoreBackupCodes U userID codeHashes =
     (case uuid_Parse U userID of
        Inl err \<Rightarrow> retp (Some err)
      | Inr uid \<Rightarrow> (\<lambda>w.
          let (env, w) = next_stmt w in
          case se_fault env of
            Some err \<Rightarrow> (Ret (Some err), w)
          | None \<Rightarrow>
              (case insert_codes env 0 uid codeHashes (fst w) of
                 Inl err \<Rightarrow> (Ret (Some err), w)
               | Inr db \<Rightarrow> (Ret None, (db, snd w)))))"

definition use_code :: "uuid \<Rightarrow> backup_code_row list \<Rightarrow> backup_code_row list" where
  "use_code i rows = map (\<lambda>r. if br_ID r = i then r\<lparr>br_Used := True\<rparr> else r) rows"

fun try_codes ::
  "(string \<Rightarrow> string \<Rightarrow> bool) \<Rightarrow> string \<Rightarrow> backup_code_row list \<Rightarrow> ('e id_world, goerr + bool) prog" where
  "try_codes verify plainCode [] = retp (Inr False)"
| "try_codes verify plainCode (c # rest) =
     (if verify plainCode (br_CodeHash c) then (\<lambda>w.
        let (env, w) = next_stmt w in
        case se_fault env of
          Some err \<Rightarrow> (Ret (Inl err), w)
        | None \<Rightarrow> (Ret (Inr True),
            ((fst w)\<lparr>it_codes := use_code (br_ID c) (it_codes (fst w))\<rparr>, snd w)))
      else try_codes verify plainCode rest)"

definition mfa_FindAndUseBackupCode ::
  "uuid_pkg \<Rightarrow> (string \<Rightarrow> string \<Rightarrow> bool) \<Rightarrow> string \<Rightarrow> string \<Rightarrow>
   ('e id_world, goerr + bool) prog" where
  "mfa_FindAndUseBackupCode U verify userID plainCode =
     (case uuid_Parse U userID of
        Inl err \<Rightarrow> retp (Inl err)
      | Inr uid \<Rightarrow> (\<lambda>w.
          let (env, w) = next_stmt w in
          case se_fault env of
            Some err \<Rightarrow> (Ret (Inl err), w)
          | None \<Rightarrow> try_codes verify plainCode
              [r \<leftarrow> it_codes (fst w). br_UserID r = uid \<and> \<not> br_Used r] w))"

section \<open>The stores as port values\<close>

definition users_repo :: "uuid_pkg \<Rightarrow> 'e id_world user_repository" where
  "users_repo U =
     \<lparr>urp_FindByEmail = users_FindByEmail, urp_FindByID = users_FindByID U,
      urp_FindByUsername = users_FindByUsername, urp_Save = users_Save\<rparr>"

definition tokens_repo :: "uuid_pkg \<Rightarrow> 'e id_world refresh_token_store" where
  "tokens_repo U =
     \<lparr>rsp_Store = tokens_Store U, rsp_FindValid = tokens_FindValid U,
      rsp_RevokeAllForUser = tokens_RevokeAllForUser U, rsp_FindAny = tokens_FindAny U,
      rsp_Rotate = tokens_Rotate U, rsp_RevokeFamily = tokens_RevokeFamily U\<rparr>"

definition codes_repo :: "uuid_pkg \<Rightarrow> (string \<Rightarrow> string \<Rightarrow> bool) \<Rightarrow> 'e id_world mfa_store" where
  "codes_repo U verify =
     \<lparr>msp_StoreBackupCodes = mfa_StoreBackupCodes U,
      msp_FindAndUseBackupCode = mfa_FindAndUseBackupCode U verify\<rparr>"

section \<open>The stored tokens as the port promises them\<close>

definition tokens_of :: "uuid_pkg \<Rightarrow> 'e id_world \<Rightarrow> refresh_token list" where
  "tokens_of U w = map (fromRefreshRow U) (it_tokens (fst w))"

definition row_families :: "'e id_world \<Rightarrow> uuid set" where
  "row_families w = rr_FamilyID ` set (it_tokens (fst w))"

text \<open>
  The random values to come are new: this is what a version-4 uuid is relied on for. No
  generated uuid is the zero one.
\<close>

definition token_inv :: "uuid_pkg \<Rightarrow> 'e id_world \<Rightarrow> bool" where
  "token_inv U w \<longleftrightarrow>
     uuid_pkg_ok U \<and>
     distinct (is_uuids (snd w)) \<and> uuid_Nil \<notin> set (is_uuids (snd w)) \<and>
     set (is_uuids (snd w)) \<inter> row_families w = {} \<and> uuid_Nil \<notin> row_families w \<and>
     (\<forall>e \<in> set (is_env (snd w)). \<forall>k. se_uuid e k \<noteq> uuid_Nil)"

text \<open>Running statements uses up environments only.\<close>

definition stmts :: "'e id_world \<Rightarrow> 'e id_world \<Rightarrow> bool" where
  "stmts w w' \<longleftrightarrow>
     is_uuids (snd w') = is_uuids (snd w) \<and> set (is_env (snd w')) \<subseteq> set (is_env (snd w)) \<and>
     is_lower (snd w') = is_lower (snd w)"

lemma stmts_refl [simp]: "stmts w w"
  by (simp add: stmts_def)

lemma stmts_trans: "stmts w w' \<Longrightarrow> stmts w' w'' \<Longrightarrow> stmts w w''"
  by (auto simp: stmts_def)

lemma stmts_snd: "snd v' = snd w' \<Longrightarrow> stmts w w' \<Longrightarrow> stmts w v'"
  by (simp add: stmts_def)

lemma token_inv_stmts:
  "token_inv U w \<Longrightarrow> stmts w w' \<Longrightarrow> row_families w' = row_families w \<Longrightarrow> token_inv U w'"
  by (auto simp: token_inv_def stmts_def)

lemma next_stmt_split:
  assumes "next_stmt w = (env, w')"
  shows "fst w' = fst w" "stmts w w'"
  using assms by (auto simp: next_stmt_def stmts_def split: list.splits)

lemma next_stmt_inv:
  assumes "token_inv U w" and "next_stmt w = (env, w')"
  shows "token_inv U w'" "se_uuid env k \<noteq> uuid_Nil"
proof -
  from next_stmt_split [OF assms(2)] show "token_inv U w'"
    by (intro token_inv_stmts [OF assms(1)]) (simp_all add: row_families_def)
  show "se_uuid env k \<noteq> uuid_Nil"
    using assms by (auto simp: next_stmt_def token_inv_def quiet_def uuid_Nil_def split: list.splits)
qed

lemma drawn_uuid_inv:
  assumes "token_inv U w" and "drawn_uuid w = (r, w')"
  shows "token_inv U w' \<and> fst w' = fst w \<and>
    (\<forall>u. r = Ret u \<longrightarrow> u \<noteq> uuid_Nil \<and> u \<notin> row_families w \<and> u \<notin> set (is_uuids (snd w')))"
  using assms by (auto simp: drawn_uuid_def token_inv_def row_families_def split: list.splits)

lemma families_tokens_of: "families (tokens_of U w) = uuid_String U ` row_families w"
  by (auto simp: families_def tokens_of_def row_families_def fromRefreshRow_def image_image)

lemma hashes_tokens_of: "hashes (tokens_of U w) = rr_TokenHash ` set (it_tokens (fst w))"
  by (auto simp: hashes_def tokens_of_def fromRefreshRow_def image_image)

text \<open>The row \<open>toRefreshRow\<close> builds, before the insert fills its defaults in.\<close>

definition built_row :: "uuid_pkg \<Rightarrow> refresh_token \<Rightarrow> 'e id_world \<Rightarrow> refresh_token_row \<Rightarrow> bool" where
  "built_row U n w row \<longleftrightarrow>
     rr_TokenHash row = rt_TokenHash n \<and> rr_ExpiresAt row = rt_ExpiresAt n \<and>
     \<not> rr_Revoked row \<and> rr_UsedAt row = None \<and> rr_FamilyID row \<noteq> uuid_Nil \<and>
     uuid_Parse U (rt_UserID n) = Inr (rr_UserID row) \<and>
     (if rt_FamilyID n = []
      then rr_FamilyID row \<notin> row_families w \<and> rr_FamilyID row \<notin> set (is_uuids (snd w))
      else rr_FamilyID row \<in> row_families w \<and> uuid_String U (rr_FamilyID row) = rt_FamilyID n)"

lemma toRefreshRow_built:
  assumes "token_inv U w" and "known_family (tokens_of U w) n" and "toRefreshRow U n w = (r, w')"
  shows "token_inv U w' \<and> fst w' = fst w \<and> (\<forall>row. r = Ret (Inr row) \<longrightarrow> built_row U n w' row)"
proof (cases "uuid_Parse U (rt_UserID n)")
  case (Inl err)
  with assms show ?thesis by (auto simp: toRefreshRow_def)
next
  case (Inr uid)
  obtain u w1 where new: "drawn_uuid w = (u, w1)" by (cases "drawn_uuid w")
  note * = drawn_uuid_inv [OF assms(1) new]
  have fam: "row_families w1 = row_families w" using * by (simp add: row_families_def)
  show ?thesis
  proof (cases u)
    case (Panics m)
    with assms(3) new Inr * show ?thesis by (auto simp: toRefreshRow_def bindp_def)
  next
    case (Ret fresh)
    show ?thesis
    proof (cases "rt_FamilyID n = []")
      case True
      have "w' = w1" and "r = Ret (Inr \<lparr>rr_ID = uuid_Nil, rr_UserID = uid,
          rr_TokenHash = rt_TokenHash n, rr_ExpiresAt = rt_ExpiresAt n, rr_Revoked = False,
          rr_CreatedAt = 0, rr_FamilyID = fresh, rr_UsedAt = None, rr_ReuseDetectedAt = None\<rparr>)"
        using assms(3) new Ret True by (simp_all add: toRefreshRow_def bindp_def Inr)
      with * fam Inr Ret True show ?thesis by (simp add: built_row_def)
    next
      case False
      with assms(2) obtain f where f: "f \<in> row_families w" "rt_FamilyID n = uuid_String U f"
        by (auto simp: known_family_def families_tokens_of)
      have U: "uuid_pkg_ok U" "f \<noteq> uuid_Nil" using assms(1) f(1) by (auto simp: token_inv_def)
      have parse: "uuid_Parse U (rt_FamilyID n) = Inr f" using U(1) by (simp add: f(2))
      have "w' = w1" and "r = Ret (Inr \<lparr>rr_ID = uuid_Nil, rr_UserID = uid,
          rr_TokenHash = rt_TokenHash n, rr_ExpiresAt = rt_ExpiresAt n, rr_Revoked = False,
          rr_CreatedAt = 0, rr_FamilyID = f, rr_UsedAt = None, rr_ReuseDetectedAt = None\<rparr>)"
        using assms(3) new Ret False by (simp_all add: toRefreshRow_def bindp_def Inr parse)
      with * fam f U Inr False show ?thesis by (simp add: built_row_def)
    qed
  qed
qed

lemma exec_insert_token_built:
  assumes "token_inv U w" and "built_row U n w row" and "exec_insert_token row w = (r, w')"
  shows "token_inv U w' \<and> (r \<noteq> Ret None \<longrightarrow> fst w' = fst w) \<and>
    (r = Ret None \<longrightarrow> rt_TokenHash n \<notin> hashes (tokens_of U w) \<and>
       (\<exists>row'. it_tokens (fst w') = it_tokens (fst w) @ [row'] \<and> rr_TokenHash row' = rr_TokenHash row \<and>
          rr_ExpiresAt row' = rr_ExpiresAt row \<and> rr_FamilyID row' = rr_FamilyID row \<and>
          rr_UserID row' = rr_UserID row \<and> rr_Revoked row' = rr_Revoked row \<and>
          rr_UsedAt row' = rr_UsedAt row))"
proof -
  obtain env w1 where nx: "next_stmt w = (env, w1)" by (cases "next_stmt w")
  note w1 = next_stmt_split [OF nx] next_stmt_inv(1) [OF assms(1) nx]
  show ?thesis
  proof (cases "\<exists>db. se_fault env = None \<and> insert_token env row (fst w1) = Inr db")
    case False
    with assms(3) nx w1 show ?thesis
      by (auto simp: exec_insert_token_def split: option.splits sum.splits)
  next
    case True
    then obtain db where db: "insert_token env row (fst w1) = Inr db" "se_fault env = None" by blast
    with assms(3) nx have w': "w' = (db, snd w1)" and r: "r = Ret None"
      by (simp_all add: exec_insert_token_def)
    have fam: "rr_FamilyID row \<noteq> uuid_Nil" using assms(2) by (simp add: built_row_def)
    from db(1) obtain row' where row': "it_tokens db = it_tokens (fst w1) @ [row']"
        "rr_TokenHash row' = rr_TokenHash row" "rr_ExpiresAt row' = rr_ExpiresAt row"
        "rr_FamilyID row' = rr_FamilyID row" "rr_UserID row' = rr_UserID row"
        "rr_Revoked row' = rr_Revoked row" "rr_UsedAt row' = rr_UsedAt row"
        "rr_TokenHash row \<notin> rr_TokenHash ` set (it_tokens (fst w1))"
      using fam by (auto simp: insert_token_def Let_def or_default_def split: if_splits)
    have "row_families w' = insert (rr_FamilyID row) (row_families w1)"
      using row' by (simp add: w' row_families_def)
    moreover have "rr_FamilyID row \<notin> set (is_uuids (snd w1))"
      using assms(1,2) w1(2)
      by (auto simp: built_row_def token_inv_def stmts_def split: if_splits)
    ultimately have "token_inv U w'" using w1(3) fam by (auto simp: token_inv_def w')
    moreover have "rt_TokenHash n \<notin> hashes (tokens_of U w)"
      using row'(8) assms(2) w1(1) by (simp add: hashes_tokens_of built_row_def)
    ultimately show ?thesis using row' w1(1) r by (simp add: w')
  qed
qed

lemma built_row_new_token:
  assumes "token_inv U w" and "built_row U n w row"
    and "rr_TokenHash row' = rr_TokenHash row" "rr_ExpiresAt row' = rr_ExpiresAt row"
      "rr_FamilyID row' = rr_FamilyID row" "rr_UserID row' = rr_UserID row"
      "rr_Revoked row' = rr_Revoked row" "rr_UsedAt row' = rr_UsedAt row"
    and "rt_TokenHash n \<notin> hashes (tokens_of U w)"
  shows "new_token (tokens_of U w) n (fromRefreshRow U row')"
proof -
  have U: "uuid_pkg_ok U" using assms(1) by (simp add: token_inv_def)
  have user: "rt_UserID n \<in> rt_UserID ` set (tokens_of U w) \<longrightarrow>
      uuid_String U (rr_UserID row) = rt_UserID n"
    using assms(2) U by (auto simp: built_row_def tokens_of_def fromRefreshRow_def)
  have fam: "rr_FamilyID row \<notin> row_families w \<longrightarrow>
      uuid_String U (rr_FamilyID row) \<notin> families (tokens_of U w)"
    using U by (auto simp: families_tokens_of uuid_String_inj)
  have "[] \<notin> families (tokens_of U w)" using U by (auto simp: families_tokens_of dest: sym)
  with user fam assms show ?thesis
    by (auto simp: new_token_def built_row_def fromRefreshRow_def live_def split: if_splits)
qed

lemma tokens_Store_run:
  assumes "token_inv U w" and "known_family (tokens_of U w) n" and "tokens_Store U n w = (r, w')"
  shows "token_inv U w' \<and> (r \<noteq> Ret None \<longrightarrow> tokens_of U w' = tokens_of U w) \<and>
    (r = Ret None \<longrightarrow> (\<exists>n'. tokens_of U w' = tokens_of U w @ [n'] \<and> new_token (tokens_of U w) n n'))"
proof -
  obtain q w1 where q: "toRefreshRow U n w = (q, w1)" by (cases "toRefreshRow U n w")
  note * = toRefreshRow_built [OF assms(1,2) q]
  have same: "tokens_of U w1 = tokens_of U w" using * by (simp add: tokens_of_def)
  show ?thesis
  proof (cases "\<exists>row. q = Ret (Inr row)")
    case False
    with assms(3) q * same show ?thesis
      by (auto simp: tokens_Store_def bindp_def split: outcome.splits sum.splits)
  next
    case True
    then obtain row where row: "q = Ret (Inr row)" by blast
    with assms(3) q have ex: "exec_insert_token row w1 = (r, w')"
      by (simp add: tokens_Store_def bindp_def)
    have b: "built_row U n w1 row" using * row by blast
    note ** = exec_insert_token_built [OF conjunct1 [OF *] b ex]
    show ?thesis
    proof (cases "r = Ret None")
      case True
      with ** built_row_new_token [OF conjunct1 [OF *] b] same show ?thesis
        by (auto simp: tokens_of_def)
    qed (use ** same in \<open>auto simp: tokens_of_def\<close>)
  qed
qed

lemma tokens_FindValid_run:
  assumes "token_inv U w" and "tokens_FindValid U h w = (r, w')"
  shows "token_inv U w' \<and> tokens_of U w' = tokens_of U w \<and>
    (\<forall>t. r = Ret (Inr (Some t)) \<longrightarrow> t \<in> set (tokens_of U w) \<and> rt_TokenHash t = h \<and> live t)"
proof -
  obtain env w1 where nx: "next_stmt w = (env, w1)" by (cases "next_stmt w")
  note w1 = next_stmt_split(1) [OF nx] next_stmt_inv(1) [OF assms(1) nx]
  show ?thesis
    using assms(2) nx w1
    by (auto simp: tokens_FindValid_def scan_first_def tokens_of_def usable_row_def live_def
        fromRefreshRow_def dest!: find_Some_mem split: option.splits sum.splits if_splits)
qed

lemma tokens_FindAny_run:
  assumes "token_inv U w" and "tokens_FindAny U h w = (r, w')"
  shows "token_inv U w' \<and> tokens_of U w' = tokens_of U w \<and>
    (\<forall>t. r = Ret (Inr (Some t)) \<longrightarrow> t \<in> set (tokens_of U w) \<and> rt_TokenHash t = h)"
proof -
  obtain env w1 where nx: "next_stmt w = (env, w1)" by (cases "next_stmt w")
  note w1 = next_stmt_split(1) [OF nx] next_stmt_inv(1) [OF assms(1) nx]
  show ?thesis
    using assms(2) nx w1
    by (auto simp: tokens_FindAny_def scan_first_def tokens_of_def fromRefreshRow_def
        dest!: find_Some_mem split: option.splits sum.splits if_splits)
qed

lemma retire_row_families [simp]:
  "rr_FamilyID (retire_row env h r) = rr_FamilyID r" "rr_TokenHash (retire_row env h r) = rr_TokenHash r"
  by (simp_all add: retire_row_def)

lemma fromRefreshRow_retire:
  "fromRefreshRow U (retire_row env h r) = retire h (fromRefreshRow U r)"
  by (auto simp: retire_row_def usable_row_def retire_def live_def fromRefreshRow_def)

text \<open>The transaction body: on success the old row is retired and the new one is there.\<close>

lemma rotate_tx_run:
  assumes "token_inv U w" and "built_row U n w row" and "rotate_tx h row w = (r, w')"
  shows "stmts w w' \<and>
    (r = Ret None \<longrightarrow> token_inv U w' \<and>
       (\<exists>t \<in> set (tokens_of U w). rt_TokenHash t = h \<and> live t) \<and>
       (\<exists>n'. tokens_of U w' = map (retire h) (tokens_of U w) @ [n'] \<and>
             new_token (tokens_of U w) n n'))"
proof -
  obtain env w1 where nx: "next_stmt w = (env, w1)" by (cases "next_stmt w")
  note w1 = next_stmt_split [OF nx] next_stmt_inv(1) [OF assms(1) nx]
  define v where "v = ((fst w1)\<lparr>it_tokens := map (retire_row env h) (it_tokens (fst w1))\<rparr>, snd w1)"
  have fam: "row_families v = row_families w"
    by (simp add: v_def row_families_def w1(1) image_image)
  have v_st: "stmts w v" using w1(2) by (simp add: stmts_def v_def)
  have v_inv: "token_inv U v" using token_inv_stmts [OF assms(1) v_st fam] .
  have v_tok: "tokens_of U v = map (retire h) (tokens_of U w)"
    by (simp add: tokens_of_def v_def w1(1) fromRefreshRow_retire)
  have v_b: "built_row U n v row"
    using assms(2) fam v_st by (simp add: built_row_def stmts_def)
  show ?thesis
  proof (cases "se_fault env = None \<and> affected_err env = None \<and>
      filter (usable_row h) (it_tokens (fst w1)) \<noteq> []")
    case False
    with assms(3) nx w1 v_st show ?thesis
      by (auto simp: rotate_tx_def Let_def stmts_def split: option.splits if_splits)
  next
    case True
    with assms(3) nx have ex: "exec_insert_token row v = (r, w')"
      by (simp add: rotate_tx_def Let_def v_def)
    obtain env' w2 where nx': "next_stmt v = (env', w2)" by (cases "next_stmt v")
    have "snd w' = snd w2"
      using ex nx' by (auto simp: exec_insert_token_def split: option.splits sum.splits)
    then have st: "stmts w w'"
      using stmts_trans [OF v_st next_stmt_split(2) [OF nx']] by (simp add: stmts_def)
    have ex_live: "\<exists>t \<in> set (tokens_of U w). rt_TokenHash t = h \<and> live t"
      using True by (auto simp: filter_empty_conv tokens_of_def w1(1) usable_row_def live_def
          fromRefreshRow_def)
    note * = exec_insert_token_built [OF v_inv v_b ex]
    show ?thesis
    proof (cases "r = Ret None")
      case True
      with * obtain row' where row': "it_tokens (fst w') = it_tokens (fst v) @ [row']"
          "rr_TokenHash row' = rr_TokenHash row" "rr_ExpiresAt row' = rr_ExpiresAt row"
          "rr_FamilyID row' = rr_FamilyID row" "rr_UserID row' = rr_UserID row"
          "rr_Revoked row' = rr_Revoked row" "rr_UsedAt row' = rr_UsedAt row"
        and fresh: "rt_TokenHash n \<notin> hashes (tokens_of U v)" by blast
      have "new_token (tokens_of U w) n (fromRefreshRow U row')"
        using built_row_new_token [OF assms(1,2) row'(2-7)] fresh by (simp add: v_tok)
      with st ex_live * True row'(1) v_tok show ?thesis by (auto simp: tokens_of_def)
    qed (use st in simp)
  qed
qed

lemma tokens_of_stmts:
  "token_inv U w \<Longrightarrow> stmts w w' \<Longrightarrow> fst w' = fst w \<Longrightarrow>
   token_inv U w' \<and> tokens_of U w' = tokens_of U w"
  by (simp add: token_inv_stmts tokens_of_def row_families_def)

lemma built_row_stmts:
  "built_row U n w row \<Longrightarrow> stmts w w' \<Longrightarrow> fst w' = fst w \<Longrightarrow> built_row U n w' row"
  by (simp add: built_row_def stmts_def row_families_def split: if_splits)

text \<open>The connection behaves as \<open>database/sql\<close> documents it.\<close>

definition conn_db :: "'e id_conn \<Rightarrow> id_tables" where "conn_db c = fst (snd c)"

definition conn_open :: "'e id_conn sql_tx \<Rightarrow> id_tables \<Rightarrow> 'e id_conn \<Rightarrow> bool" where
  "conn_open tx d c \<longleftrightarrow> tx = conn_tx \<and> fst c = Some d"

definition conn_ended :: "'e id_conn sql_tx \<Rightarrow> 'e id_conn \<Rightarrow> bool" where
  "conn_ended tx c \<longleftrightarrow> tx = conn_tx \<and> fst c = None"

lemma conn_begin_ok: "begin_ok conn_db conn_open conn_BeginTx"
  using next_stmt_split(1)
  by (fastforce simp: begin_ok_def conn_db_def conn_open_def conn_BeginTx_def
      split: prod.splits option.splits)

lemma conn_tx_ok: "tx_ok conn_db conn_open conn_ended"
  using next_stmt_split(1)
  by (fastforce simp: tx_ok_def conn_db_def conn_open_def conn_ended_def conn_tx_def
      conn_Commit_def conn_Rollback_def split: prod.splits option.splits)

lemma conn_leaves_open: "leaves_open conn_open (\<lambda>tx. on_conn p)"
  by (auto simp: leaves_open_def conn_open_def on_conn_def split: prod.splits)

lemmas conn_outcome = InTx_outcome [OF conn_begin_ok conn_tx_ok conn_leaves_open]

lemma conn_BeginTx_run:
  assumes "conn_BeginTx (u, w) = (r, c)"
  shows "stmts w (snd c) \<and> fst (snd c) = fst w \<and> (\<forall>tx. r = Ret (Inr tx) \<longrightarrow> tx = conn_tx)"
  using assms next_stmt_split [of w] by (auto simp: conn_BeginTx_def split: prod.splits option.splits)

lemma conn_tx_stmts:
  assumes "stmts w (snd c)"
  shows "ends (\<lambda>c. stmts w (snd c)) (tx_Commit conn_tx) c"
    and "ends (\<lambda>c. stmts w (snd c)) (tx_Rollback conn_tx) c"
proof -
  obtain u v where c: "c = (u, v)" by (cases c)
  obtain env v1 where nx: "next_stmt v = (env, v1)" by (cases "next_stmt v")
  have "stmts w v1" using assms by (intro stmts_trans [OF _ next_stmt_split(2) [OF nx]]) (simp add: c)
  then have "stmts w v1" "stmts w (t, snd v1)" "stmts w (t, snd v)" for t
    using assms by (simp_all add: stmts_def c)
  then show "ends (\<lambda>c. stmts w (snd c)) (tx_Commit conn_tx) c"
      and "ends (\<lambda>c. stmts w (snd c)) (tx_Rollback conn_tx) c"
    using assms by (simp_all add: ends_def c nx conn_tx_def conn_Commit_def conn_Rollback_def
        split: option.split)
qed

lemma conn_stmts:
  assumes run: "InTx conn_BeginTx (\<lambda>tx. on_conn p) (None, w) = (r, c)"
    and p: "\<And>v q v'. stmts w v \<Longrightarrow> fst v = fst w \<Longrightarrow> p v = (q, v') \<Longrightarrow> stmts v v'"
  shows "stmts w (snd c)"
proof -
  have "ends (\<lambda>c. stmts w (snd c)) (InTx conn_BeginTx (\<lambda>tx. on_conn p)) (None, w)"
  proof (rule ends_InTx)
    show "ends (\<lambda>c. stmts w (snd c)) conn_BeginTx (None, w)"
      using conn_BeginTx_run by (metis ends_def prod.collapse)
  next
    fix tx c0
    assume b: "conn_BeginTx (None, w) = (Ret (Inr tx), c0)"
    show "ends (\<lambda>c. stmts w (snd c)) (on_conn p) c0"
    proof -
      obtain d v where c0: "c0 = (d, v)" by (cases c0)
      obtain q v' where q: "p v = (q, v')" by (cases "p v")
      from conn_BeginTx_run [OF b] have v: "stmts w v" "fst v = fst w" by (simp_all add: c0)
      show ?thesis using stmts_trans [OF v(1) p [OF v q]] by (simp add: ends_def on_conn_def c0 q)
    qed
  qed (use conn_BeginTx_run conn_tx_stmts in blast)+
  from endsD [OF this run] show ?thesis .
qed

text \<open>
  A transaction on the connection: the body ran on the tables as they were, and its work is
  there when the result is nil; it may also be there when the commit failed, and not otherwise.
\<close>

lemma with_conn_run:
  assumes run: "with_conn (InTx conn_BeginTx (\<lambda>tx. on_conn p)) w = (r, w')"
    and p: "\<And>v q v'. stmts w v \<Longrightarrow> fst v = fst w \<Longrightarrow> p v = (q, v') \<Longrightarrow> stmts v v'"
  shows "stmts w w' \<and>
    (fst w' = fst w \<and> r \<noteq> Ret None \<or>
     (\<exists>v v'. stmts w v \<and> fst v = fst w \<and> p v = (Ret None, v') \<and> fst w' = fst v' \<and>
        (r = Ret None \<or> (\<exists>err. r = Ret (Some (Errorf ''commit tx: %w'' [] [err]))))))"
proof -
  let ?P = "\<lambda>w'. \<exists>v v'. stmts w v \<and> fst v = fst w \<and> p v = (Ret None, v') \<and> fst w' = fst v' \<and>
        (r = Ret None \<or> (\<exists>err. r = Ret (Some (Errorf ''commit tx: %w'' [] [err]))))"
  obtain u where tx: "InTx conn_BeginTx (\<lambda>tx. on_conn p) (None, w) = (r, (u, w'))"
    using run by (auto simp: with_conn_def split: prod.splits)
  have st: "stmts w w'" using conn_stmts [OF tx p] by simp
  obtain b c0 where b: "conn_BeginTx (None, w) = (b, c0)" by (cases "conn_BeginTx (None, w)")
  note out = conn_outcome [OF tx, unfolded b conn_db_def, simplified]
  have "fst w' = fst w \<and> r \<noteq> Ret None \<or> ?P w'"
  proof (cases "\<exists>tx. b = Ret (Inr tx)")
    case False
    with out show ?thesis by (auto split: outcome.splits sum.splits)
  next
    case True
    with b conn_BeginTx_run [OF b] obtain d v where c0: "b = Ret (Inr conn_tx)" "c0 = (d, v)"
        "stmts w v" "fst v = fst w" by (cases c0) auto
    obtain q v' where q: "p v = (q, v')" by (cases "p v")
    show ?thesis
    proof (cases "q = Ret None")
      case False
      with out c0 q show ?thesis
        by (auto simp: on_conn_def split: outcome.splits option.splits)
    next
      case True
      have "fst (tx_Commit conn_tx (d, v')) \<noteq> Panics m" for m
        by (auto simp: conn_tx_def conn_Commit_def split: option.splits prod.splits)
      with out c0 q True show ?thesis
        by (fastforce simp: on_conn_def split: outcome.splits option.splits)
    qed
  qed
  with st show ?thesis by blast
qed

lemma tokens_Rotate_run:
  assumes "token_inv U w" and "known_family (tokens_of U w) n" and "tokens_Rotate U h n w = (r, w')"
  shows "token_inv U w' \<and>
    (tokens_of U w' = tokens_of U w \<and> r \<noteq> Ret None \<or>
     rotated h n (tokens_of U w) (tokens_of U w') \<and>
       (r = Ret None \<or> (\<exists>err. r = Ret (Some (Errorf ''commit tx: %w'' [] [err])))))"
proof -
  obtain q w1 where q: "toRefreshRow U n w = (q, w1)" by (cases "toRefreshRow U n w")
  note * = toRefreshRow_built [OF assms(1,2) q]
  have same: "tokens_of U w1 = tokens_of U w" using * by (simp add: tokens_of_def)
  show ?thesis
  proof (cases "\<exists>row. q = Ret (Inr row)")
    case False
    with assms(3) q * same show ?thesis
      by (auto simp: tokens_Rotate_def bindp_def split: outcome.splits sum.splits)
  next
    case True
    then obtain row where row: "q = Ret (Inr row)" by blast
    with assms(3) q have tx:
        "with_conn (InTx conn_BeginTx (\<lambda>tx. on_conn (rotate_tx h row))) w1 = (r, w')"
      by (simp add: tokens_Rotate_def bindp_def)
    have inv1: "token_inv U w1" and b: "built_row U n w1 row" using * row by blast+
    have body: "stmts v v'"
      if "stmts w1 v" "fst v = fst w1" "rotate_tx h row v = (p, v')" for v p v'
      using rotate_tx_run [OF _ built_row_stmts [OF b that(1,2)] that(3)]
        tokens_of_stmts [OF inv1 that(1,2)] by blast
    have outcome: "stmts w1 w' \<and>
        (fst w' = fst w1 \<and> r \<noteq> Ret None \<or>
         (\<exists>v v'. stmts w1 v \<and> fst v = fst w1 \<and> rotate_tx h row v = (Ret None, v') \<and>
            fst w' = fst v' \<and>
            (r = Ret None \<or> (\<exists>err. r = Ret (Some (Errorf ''commit tx: %w'' [] [err]))))))"
      by (rule with_conn_run [OF tx]) (rule body)
    then have st: "stmts w1 w'" by blast
    from outcome consider
        "fst w' = fst w1" "r \<noteq> Ret None"
      | v v' where "stmts w1 v" "fst v = fst w1" "rotate_tx h row v = (Ret None, v')"
          "fst w' = fst v'"
          "r = Ret None \<or> (\<exists>err. r = Ret (Some (Errorf ''commit tx: %w'' [] [err])))"
      by blast
    then show ?thesis
    proof cases
      case 1
      with tokens_of_stmts [OF inv1 st] same show ?thesis by simp
    next
      case 2
      have v: "token_inv U v" "tokens_of U v = tokens_of U w1"
        using tokens_of_stmts [OF inv1 2(1,2)] by simp_all
      note ** = rotate_tx_run [OF v(1) built_row_stmts [OF b 2(1,2)] 2(3)]
      have "tokens_of U w' = tokens_of U v'" "row_families w' = row_families v'"
        using 2(4) by (simp_all add: tokens_of_def row_families_def)
      moreover from this(2) have "token_inv U w'"
        using ** st inv1 2(1) by (auto simp: token_inv_def stmts_def)
      ultimately show ?thesis using ** same v(2) 2(5) by (auto simp: rotated_def)
    qed
  qed
qed

lemma token_inv_map:
  assumes "token_inv U w" and "next_stmt w = (env, w1)" and "\<And>r. rr_FamilyID (f r) = rr_FamilyID r"
  shows "token_inv U ((fst w1)\<lparr>it_tokens := map f (it_tokens (fst w1))\<rparr>, snd w1)"
  using token_inv_stmts [OF next_stmt_inv(1) [OF assms(1,2)],
      of "((fst w1)\<lparr>it_tokens := map f (it_tokens (fst w1))\<rparr>, snd w1)"] assms(3)
  by (simp add: stmts_def row_families_def image_image)

lemma tokens_of_map:
  "(\<And>r. fromRefreshRow U (f r) = g (fromRefreshRow U r)) \<Longrightarrow>
   tokens_of U ((fst w)\<lparr>it_tokens := map f (it_tokens (fst w))\<rparr>, s) = map g (tokens_of U w)"
  by (simp add: tokens_of_def)

lemma tokens_RevokeFamily_run:
  assumes inv: "token_inv U w" and run: "tokens_RevokeFamily U f w = (r, w')"
  shows "token_inv U w' \<and>
    (tokens_of U w' = tokens_of U w \<or> (\<exists>P. tokens_of U w' = map (revoke_if P) (tokens_of U w))) \<and>
    (\<forall>k. r = Ret (Inr k) \<longrightarrow> f \<in> families (tokens_of U w) \<longrightarrow>
       tokens_of U w' = map (revoke_if (\<lambda>t. rt_FamilyID t = f)) (tokens_of U w) \<and>
       k = int (length (filter (\<lambda>t. rt_FamilyID t = f \<and> \<not> rt_Revoked t) (tokens_of U w))))"
proof (cases "uuid_Parse U f")
  case (Inl err)
  with assms show ?thesis by (auto simp: tokens_RevokeFamily_def)
next
  case (Inr fid)
  obtain env w1 where nx: "next_stmt w = (env, w1)" by (cases "next_stmt w")
  note w1 = next_stmt_split(1) [OF nx] next_stmt_inv(1) [OF inv nx]
  have U: "uuid_pkg_ok U" using inv by (simp add: token_inv_def)
  let ?g = "\<lambda>r. if family_row fid r
    then r\<lparr>rr_Revoked := True, rr_ReuseDetectedAt := Some (se_now env)\<rparr> else r"
  let ?s = "uuid_String U fid"
  have g: "fromRefreshRow U (?g r) = revoke_if (\<lambda>t. rt_FamilyID t = ?s) (fromRefreshRow U r)" for r
    using U by (auto simp: fromRefreshRow_def revoke_if_def family_row_def uuid_String_inj)
  define v where "v = ((fst w1)\<lparr>it_tokens := map ?g (it_tokens (fst w1))\<rparr>, snd w1)"
  have v: "token_inv U v" "tokens_of U v = map (revoke_if (\<lambda>t. rt_FamilyID t = ?s)) (tokens_of U w)"
    using token_inv_map [OF inv nx, of ?g] tokens_of_map [of U ?g, OF g, of w1 "snd w1"] w1(1)
    by (auto simp: v_def family_row_def tokens_of_def)
  have count: "length (filter (family_row fid) (it_tokens (fst w1))) =
      length (filter (\<lambda>t. rt_FamilyID t = ?s \<and> \<not> rt_Revoked t) (tokens_of U w))"
    using U by (simp add: tokens_of_def w1(1) filter_map comp_def fromRefreshRow_def
        family_row_def [abs_def] uuid_String_inj)
  have f: "f \<in> families (tokens_of U w) \<Longrightarrow> ?s = f"
    using U Inr by (auto simp: families_tokens_of)
  show ?thesis
  proof (cases "se_fault env")
    case (Some e)
    with run Inr nx w1 show ?thesis by (auto simp: tokens_RevokeFamily_def tokens_of_def)
  next
    case None
    with run Inr nx have w': "w' = v"
      by (auto simp: tokens_RevokeFamily_def Let_def v_def split: option.splits)
    have "r = Ret (Inr k) \<Longrightarrow> k = int (length (filter (family_row fid) (it_tokens (fst w1))))" for k
      using run Inr nx None by (auto simp: tokens_RevokeFamily_def Let_def split: option.splits)
    with v f count show ?thesis unfolding w' by auto
  qed
qed

lemma tokens_RevokeAllForUser_run:
  assumes inv: "token_inv U w" and run: "tokens_RevokeAllForUser U u w = (r, w')"
  shows "token_inv U w' \<and>
    (tokens_of U w' = tokens_of U w \<or> (\<exists>P. tokens_of U w' = map (revoke_if P) (tokens_of U w))) \<and>
    (r = Ret None \<longrightarrow> u \<in> rt_UserID ` set (tokens_of U w) \<longrightarrow>
       tokens_of U w' = map (revoke_if (\<lambda>t. rt_UserID t = u)) (tokens_of U w))"
proof (cases "uuid_Parse U u")
  case (Inl err)
  with assms show ?thesis by (auto simp: tokens_RevokeAllForUser_def)
next
  case (Inr uid)
  obtain env w1 where nx: "next_stmt w = (env, w1)" by (cases "next_stmt w")
  note w1 = next_stmt_split(1) [OF nx] next_stmt_inv(1) [OF inv nx]
  have U: "uuid_pkg_ok U" using inv by (simp add: token_inv_def)
  let ?g = "\<lambda>r. if rr_UserID r = uid then r\<lparr>rr_Revoked := True\<rparr> else r"
  let ?s = "uuid_String U uid"
  have g: "fromRefreshRow U (?g r) = revoke_if (\<lambda>t. rt_UserID t = ?s) (fromRefreshRow U r)" for r
    using U by (auto simp: fromRefreshRow_def revoke_if_def uuid_String_inj)
  define v where "v = ((fst w1)\<lparr>it_tokens := map ?g (it_tokens (fst w1))\<rparr>, snd w1)"
  have v: "token_inv U v" "tokens_of U v = map (revoke_if (\<lambda>t. rt_UserID t = ?s)) (tokens_of U w)"
    using token_inv_map [OF inv nx, of ?g] tokens_of_map [of U ?g, OF g, of w1 "snd w1"] w1(1)
    by (auto simp: v_def tokens_of_def)
  have s: "u \<in> rt_UserID ` set (tokens_of U w) \<Longrightarrow> ?s = u"
    using U Inr by (auto simp: tokens_of_def fromRefreshRow_def)
  show ?thesis
  proof (cases "se_fault env")
    case (Some e)
    with run Inr nx w1 show ?thesis by (auto simp: tokens_RevokeAllForUser_def tokens_of_def)
  next
    case None
    with run Inr nx have w': "w' = v" by (simp add: tokens_RevokeAllForUser_def v_def)
    with v s show ?thesis by auto
  qed
qed

interpretation tokens: token_store "tokens_repo U" "token_inv U" "tokens_of U"
proof
qed (auto simp: tokens_repo_def dest: tokens_Store_run tokens_FindValid_run tokens_FindAny_run
    tokens_Rotate_run tokens_RevokeFamily_run tokens_RevokeAllForUser_run)

end
