(* ===== verification/UserStore.thy ===== *)
theory UserStore
  imports IdentityStore
begin

text \<open>
  What the user repository and the backup-code store of \<open>IdentityStore\<close> promise: the users
  table implements a finite map from ids to users, under the uniqueness the migrations
  enforce, and a backup code is spent by at most one login.
\<close>

section \<open>Healthy statements\<close>

definition healthy :: "'e id_world \<Rightarrow> bool" where
  "healthy w \<longleftrightarrow> (\<forall>e \<in> set (is_env (snd w)). se_fault e = None \<and> se_affected e = None)"

lemma healthy_stmts: "healthy w \<Longrightarrow> stmts w w' \<Longrightarrow> healthy w'"
  by (auto simp: healthy_def stmts_def)

lemma healthy_stmt:
  assumes "healthy w"
  obtains env w' where "next_stmt w = (env, w')" "fst w' = fst w" "stmts w w'" "healthy w'"
    "se_fault env = None" "affected_err env = None"
proof -
  obtain env w' where nx: "next_stmt w = (env, w')" by (cases "next_stmt w")
  note split = next_stmt_split [OF nx]
  have "se_fault env = None \<and> se_affected env = None"
    using nx assms by (auto simp: next_stmt_def healthy_def quiet_def split: list.splits)
  with that [OF nx split healthy_stmts [OF assms split(2)]] show thesis
    by (simp add: affected_err_def)
qed

section \<open>Users\<close>

definition users_inv :: "'e id_world \<Rightarrow> bool" where
  "users_inv w \<longleftrightarrow>
     distinct (map ur_ID (it_users (fst w))) \<and>
     distinct (map (\<lambda>r. is_lower (snd w) (ur_Username r)) (it_users (fst w))) \<and>
     distinct (map (\<lambda>r. is_lower (snd w) (ur_Email r)) (it_users (fst w)))"

definition user_at :: "'e id_world \<Rightarrow> uuid \<Rightarrow> user option" where
  "user_at w i = map_option toDomainUser (find (\<lambda>r. ur_ID r = i) (it_users (fst w)))"

lemma deref_nilIfEmpty [simp]: "deref (nilIfEmpty s) = s"
  by (simp add: deref_def nilIfEmpty_def)

lemma toDomainUser_sel [simp]:
  "u_ID (toDomainUser r) = ur_ID r" "u_Username (toDomainUser r) = ur_Username r"
  "u_Email (toDomainUser r) = ur_Email r"
  by (simp_all add: toDomainUser_def)

lemma fromDomainUser_sel [simp]:
  "ur_ID (fromDomainUser u) = u_ID u" "ur_Username (fromDomainUser u) = u_Username u"
  "ur_Email (fromDomainUser u) = u_Email u"
  "ur_FailedLoginAttempts (fromDomainUser u) = u_FailedLoginAttempts u"
  by (simp_all add: fromDomainUser_def)

lemma to_from_user: "toDomainUser (fromDomainUser u) = u"
  by (simp add: toDomainUser_def fromDomainUser_def)

lemma to_from_user_stamped [simp]:
  "toDomainUser ((fromDomainUser u)\<lparr>ur_ID := u_ID u, ur_CreatedAt := a, ur_UpdatedAt := b\<rparr>) = u"
  by (simp add: toDomainUser_def fromDomainUser_def)

lemma user_at_SomeD:
  "user_at w i = Some u \<Longrightarrow> \<exists>r \<in> set (it_users (fst w)). ur_ID r = i \<and> u = toDomainUser r"
  by (auto simp: user_at_def dest!: find_Some_mem)

lemma user_at_row:
  "users_inv w \<Longrightarrow> r \<in> set (it_users (fst w)) \<Longrightarrow> user_at w (ur_ID r) = Some (toDomainUser r)"
  using find_distinct_id [of ur_ID "it_users (fst w)" r] by (simp add: users_inv_def user_at_def)

lemma user_at_ID: "user_at w i = Some u \<Longrightarrow> u_ID u = i"
  by (auto dest: user_at_SomeD)

lemma user_at_stmts: "fst w' = fst w \<Longrightarrow> user_at w' = user_at w"
  by (simp add: user_at_def fun_eq_iff)

lemma users_inv_stmts: "users_inv w \<Longrightarrow> fst w' = fst w \<Longrightarrow> stmts w w' \<Longrightarrow> users_inv w'"
  by (simp add: users_inv_def stmts_def)

text \<open>The lookups find what is there.\<close>

lemma users_find_ok:
  assumes "healthy w" and "r \<in> set (it_users (fst w))" and "P (is_lower (snd w)) r"
    and "\<And>q. q \<in> set (it_users (fst w)) \<Longrightarrow> P (is_lower (snd w)) q \<Longrightarrow> q = r"
  shows "\<exists>w'. users_find P w = (Ret (Inr (toDomainUser r)), w') \<and> fst w' = fst w \<and> stmts w w'"
proof -
  obtain env w1 where nx: "next_stmt w = (env, w1)" "fst w1 = fst w" "stmts w w1" "se_fault env = None"
    by (rule healthy_stmt [OF assms(1)])
  have low: "is_lower (snd w1) = is_lower (snd w)" using nx(3) by (simp add: stmts_def)
  have "find (P (is_lower (snd w))) (it_users (fst w)) = Some r"
  proof (cases "find (P (is_lower (snd w))) (it_users (fst w))")
    case None
    with assms(2,3) show ?thesis by (auto simp: find_None_iff)
  next
    case (Some q)
    with assms(4) find_Some_mem [OF Some] show ?thesis by blast
  qed
  then have "users_find P w = (Ret (Inr (toDomainUser r)), w1)"
    by (simp add: users_find_def scan_first_def nx(1,2,4) low)
  with nx(2,3) show ?thesis by blast
qed

lemma FindByUsername_ok:
  assumes "healthy w" and inv: "users_inv w" and "user_at w i = Some u"
    and name: "is_lower (snd w) (u_Username u) = is_lower (snd w) name"
  shows "\<exists>w'. users_FindByUsername name w = (Ret (Inr u), w') \<and> fst w' = fst w \<and> stmts w w'"
proof -
  obtain r where r: "r \<in> set (it_users (fst w))" "u = toDomainUser r"
    using user_at_SomeD [OF assms(3)] by blast
  have "\<exists>w'. users_find (\<lambda>lower r. lower (ur_Username r) = lower name) w =
      (Ret (Inr (toDomainUser r)), w') \<and> fst w' = fst w \<and> stmts w w'"
  proof (rule users_find_ok [OF assms(1) r(1)])
    show low: "is_lower (snd w) (ur_Username r) = is_lower (snd w) name" using name r(2) by simp
    fix q assume q: "q \<in> set (it_users (fst w))" "is_lower (snd w) (ur_Username q) = is_lower (snd w) name"
    have "distinct (map (\<lambda>r. is_lower (snd w) (ur_Username r)) (it_users (fst w)))"
      using inv by (simp add: users_inv_def)
    from distinct_map_eqD [OF this q(1) r(1)] q(2) low show "q = r" by (simp only:)
  qed
  then show ?thesis by (simp add: users_FindByUsername_def r(2))
qed

lemma FindByID_ok:
  assumes "healthy w" and inv: "users_inv w" and "user_at w i = Some u" and "uuid_pkg_ok U"
  shows "\<exists>w'. users_FindByID U (uuid_String U i) w = (Ret (Inr u), w') \<and> fst w' = fst w \<and> stmts w w'"
proof -
  obtain r where r: "r \<in> set (it_users (fst w))" "u = toDomainUser r" "ur_ID r = i"
    using user_at_SomeD [OF assms(3)] by blast
  have "\<exists>w'. users_find (\<lambda>_ r. ur_ID r = i) w =
      (Ret (Inr (toDomainUser r)), w') \<and> fst w' = fst w \<and> stmts w w'"
  proof (rule users_find_ok [OF assms(1) r(1)])
    show "ur_ID r = i" by (rule r(3))
    fix q assume q: "q \<in> set (it_users (fst w))" "ur_ID q = i"
    have "distinct (map ur_ID (it_users (fst w)))" using inv by (simp add: users_inv_def)
    from distinct_map_eqD [OF this q(1) r(1)] q(2) r(3) show "q = r" by (simp only:)
  qed
  then show ?thesis by (simp add: users_FindByID_def r(2) assms(4))
qed

text \<open>\<open>Save\<close> is a map update.\<close>

lemma upsert_user_at:
  assumes "upsert_user env lower (fromDomainUser u) rows = Inr rows'" and "u_ID u \<noteq> uuid_Nil"
    and "distinct (map ur_ID rows)" "distinct (map (\<lambda>r. lower (ur_Username r)) rows)"
      "distinct (map (\<lambda>r. lower (ur_Email r)) rows)"
  obtains row where "ur_ID row = u_ID u" "toDomainUser row = u"
    "rows' = map (\<lambda>r. if ur_ID r = u_ID u then row else r) rows \<and> u_ID u \<in> ur_ID ` set rows \<or>
     rows' = rows @ [row] \<and> u_ID u \<notin> ur_ID ` set rows"
    "\<forall>r \<in> set rows. ur_ID r \<noteq> u_ID u \<longrightarrow>
       lower (ur_Username r) \<noteq> lower (ur_Username row) \<and> lower (ur_Email r) \<noteq> lower (ur_Email row)"
proof -
  let ?new = "(fromDomainUser u)\<lparr>ur_ID := u_ID u, ur_CreatedAt := se_now env, ur_UpdatedAt := se_now env\<rparr>"
  have clear: "\<And>r. r \<in> set rows \<Longrightarrow> ur_ID r \<noteq> u_ID u \<Longrightarrow>
      lower (ur_Username r) \<noteq> lower (u_Username u) \<and> lower (ur_Email r) \<noteq> lower (u_Email u)"
    using assms(1,2) by (auto simp: upsert_user_def Let_def or_default_def split: if_splits)
  show thesis
  proof (cases "u_ID u \<in> ur_ID ` set rows")
    case False
    with assms(1,2) have "rows' = rows @ [?new]"
      by (auto simp: upsert_user_def Let_def or_default_def split: if_splits)
    with False clear that [of ?new] show thesis by simp
  next
    case True
    then obtain old where old: "old \<in> set rows" "ur_ID old = u_ID u" by auto
    let ?row = "update_user env ?new old"
    have "rows' = map (\<lambda>r. if ur_ID r = u_ID u then update_user env ?new r else r) rows"
      using assms(1,2) True by (auto simp: upsert_user_def Let_def or_default_def split: if_splits)
    also have "\<dots> = map (\<lambda>r. if ur_ID r = u_ID u then ?row else r) rows"
      using distinct_map_eqD [OF assms(3) _ old(1)] old(2) by (intro map_cong) auto
    finally show thesis
      using True clear old that [of ?row] by (simp add: update_user_def toDomainUser_def fromDomainUser_def)
  qed
qed

lemma distinct_map_replace:
  assumes "distinct (map f xs)" and "distinct (map k xs)" and "a \<in> k ` set xs"
    and "\<And>x. x \<in> set xs \<Longrightarrow> k x \<noteq> a \<Longrightarrow> f x \<noteq> f y"
  shows "distinct (map f (map (\<lambda>x. if k x = a then y else x) xs))"
  using assms(1,2,4)
proof (induction xs)
  case (Cons x xs)
  then have IH: "distinct (map f (map (\<lambda>x. if k x = a then y else x) xs))" by simp
  have "f (if k x = a then y else x) \<notin> f ` (\<lambda>x. if k x = a then y else x) ` set xs"
  proof (cases "k x = a")
    case True
    then have "a \<notin> k ` set xs" using Cons.prems(2) by auto
    then have "\<And>z. z \<in> set xs \<Longrightarrow> k z \<noteq> a" by blast
    moreover from this have "\<And>z. z \<in> set xs \<Longrightarrow> f z \<noteq> f y" using Cons.prems(3) by simp
    ultimately show ?thesis using True by (auto simp: image_iff dest: sym)
  next
    case False
    then have "f x \<noteq> f y" using Cons.prems(3) by simp
    with False Cons.prems(1) show ?thesis by (auto split: if_splits)
  qed
  with IH show ?case
    unfolding list.map list.set(2) distinct.simps set_map by blast
qed simp

lemma find_replace:
  assumes "k y = a"
  shows "i \<noteq> a \<Longrightarrow> find (\<lambda>r. k r = i) (map (\<lambda>x. if k x = a then y else x) xs) = find (\<lambda>r. k r = i) xs"
    and "a \<in> k ` set xs \<Longrightarrow> find (\<lambda>r. k r = a) (map (\<lambda>x. if k x = a then y else x) xs) = Some y"
  using assms by (induction xs) auto

lemma find_append_single:
  "find P (xs @ [x]) = (case find P xs of Some y \<Rightarrow> Some y | None \<Rightarrow> if P x then Some x else None)"
  by (induction xs) auto

lemma users_Save_at:
  assumes "healthy w" and inv: "users_inv w" and "u_ID u \<noteq> uuid_Nil"
    and run: "users_Save u w = (Ret None, w')"
  shows "user_at w' = (user_at w)(u_ID u \<mapsto> u)" "users_inv w'" "stmts w w'"
    "it_tokens (fst w') = it_tokens (fst w)" "it_codes (fst w') = it_codes (fst w)"
proof -
  obtain env w1 where nx: "next_stmt w = (env, w1)" "fst w1 = fst w" "stmts w w1" "se_fault env = None"
    by (rule healthy_stmt [OF assms(1)])
  have low: "is_lower (snd w1) = is_lower (snd w)" using nx(3) by (simp add: stmts_def)
  let ?rows = "it_users (fst w)"
  from run nx low obtain rows' where
      up: "upsert_user env (is_lower (snd w)) (fromDomainUser u) ?rows = Inr rows'"
      and w': "w' = ((fst w)\<lparr>it_users := rows'\<rparr>, snd w1)"
    by (auto simp: users_Save_def split: sum.splits)
  have dist: "distinct (map ur_ID ?rows)" "distinct (map (\<lambda>r. is_lower (snd w) (ur_Username r)) ?rows)"
      "distinct (map (\<lambda>r. is_lower (snd w) (ur_Email r)) ?rows)"
    using inv by (simp_all add: users_inv_def)
  obtain row where row: "ur_ID row = u_ID u" "toDomainUser row = u"
    and rows': "rows' = map (\<lambda>r. if ur_ID r = u_ID u then row else r) ?rows \<and> u_ID u \<in> ur_ID ` set ?rows \<or>
       rows' = ?rows @ [row] \<and> u_ID u \<notin> ur_ID ` set ?rows"
    and clear: "\<forall>r \<in> set ?rows. ur_ID r \<noteq> u_ID u \<longrightarrow>
       is_lower (snd w) (ur_Username r) \<noteq> is_lower (snd w) (ur_Username row) \<and>
       is_lower (snd w) (ur_Email r) \<noteq> is_lower (snd w) (ur_Email row)"
    by (rule upsert_user_at [OF up assms(3) dist])
  show "stmts w w'" using nx(3) by (simp add: w' stmts_def)
  show "it_tokens (fst w') = it_tokens (fst w)" "it_codes (fst w') = it_codes (fst w)"
    by (simp_all add: w')
  from rows' show "user_at w' = (user_at w)(u_ID u \<mapsto> u)"
  proof (elim disjE conjE)
    assume "rows' = map (\<lambda>r. if ur_ID r = u_ID u then row else r) ?rows" "u_ID u \<in> ur_ID ` set ?rows"
    then show ?thesis
      using find_replace [of ur_ID row, OF row(1)] by (auto simp: user_at_def w' row(2) fun_eq_iff)
  next
    assume "rows' = ?rows @ [row]" "u_ID u \<notin> ur_ID ` set ?rows"
    moreover from this have "find (\<lambda>r. ur_ID r = u_ID u) ?rows = None"
      unfolding find_None_iff by (metis imageI)
    ultimately show ?thesis
      by (auto simp: user_at_def w' row find_append_single fun_eq_iff split: option.splits)
  qed
  from rows' show "users_inv w'"
  proof (elim disjE conjE)
    assume eq: "rows' = map (\<lambda>r. if ur_ID r = u_ID u then row else r) ?rows"
      and mem: "u_ID u \<in> ur_ID ` set ?rows"
    note rep = distinct_map_replace [OF _ dist(1) mem, where y = row]
    have "distinct (map ur_ID rows')" unfolding eq using rep [OF dist(1)] row(1) by metis
    moreover have "distinct (map (\<lambda>r. is_lower (snd w) (ur_Username r)) rows')"
      unfolding eq using rep [OF dist(2)] clear by blast
    moreover have "distinct (map (\<lambda>r. is_lower (snd w) (ur_Email r)) rows')"
      unfolding eq using rep [OF dist(3)] clear by blast
    ultimately show ?thesis by (simp add: users_inv_def w' low)
  next
    assume eq: "rows' = ?rows @ [row]" and mem: "u_ID u \<notin> ur_ID ` set ?rows"
    have "\<And>r. r \<in> set ?rows \<Longrightarrow> ur_ID r \<noteq> u_ID u" using mem by (metis imageI)
    with clear dist row(1) show ?thesis by (fastforce simp: users_inv_def w' low eq)
  qed
qed

lemma users_Save_accepts:
  assumes "healthy w" and "user_at w (u_ID u) = Some v" and inv: "users_inv w" and "u_ID u \<noteq> uuid_Nil"
    and "u_Username u = u_Username v" "u_Email u = u_Email v" and "int4 (u_FailedLoginAttempts u)"
  shows "\<exists>w'. users_Save u w = (Ret None, w')"
proof -
  obtain env w1 where nx: "next_stmt w = (env, w1)" "fst w1 = fst w" "stmts w w1" "se_fault env = None"
    by (rule healthy_stmt [OF assms(1)])
  have low: "is_lower (snd w1) = is_lower (snd w)" using nx(3) by (simp add: stmts_def)
  obtain q where q: "q \<in> set (it_users (fst w))" "ur_ID q = u_ID u" "v = toDomainUser q"
    using user_at_SomeD [OF assms(2)] by blast
  have clear: "is_lower (snd w) (ur_Username r) \<noteq> is_lower (snd w) (u_Username u)"
      "is_lower (snd w) (ur_Email r) \<noteq> is_lower (snd w) (u_Email u)"
    if r: "r \<in> set (it_users (fst w))" "ur_ID r \<noteq> u_ID u" for r
  proof -
    have "r \<noteq> q" using r q by auto
    then show "is_lower (snd w) (ur_Username r) \<noteq> is_lower (snd w) (u_Username u)"
      "is_lower (snd w) (ur_Email r) \<noteq> is_lower (snd w) (u_Email u)"
      using distinct_map_eqD [OF _ r(1) q(1), of "\<lambda>r. is_lower (snd w) (ur_Username r)"]
        distinct_map_eqD [OF _ r(1) q(1), of "\<lambda>r. is_lower (snd w) (ur_Email r)"]
        inv assms(5,6) q(3) by (auto simp: users_inv_def)
  qed
  then have "\<exists>rows. upsert_user env (is_lower (snd w)) (fromDomainUser u) (it_users (fst w)) = Inr rows"
    using assms(4,7) by (auto simp: upsert_user_def Let_def or_default_def)
  with nx low show ?thesis by (auto simp: users_Save_def)
qed

section \<open>Backup codes\<close>

text \<open>\<open>spent c c'\<close>: between the two tables one unused row became used, nothing else.\<close>

definition spent :: "backup_code_row \<Rightarrow> backup_code_row list \<Rightarrow> backup_code_row list \<Rightarrow> bool" where
  "spent c cs cs' \<longleftrightarrow>
     c \<in> set cs \<and> \<not> br_Used c \<and>
     cs' = map (\<lambda>r. if r = c then r\<lparr>br_Used := True\<rparr> else r) cs"

definition codes_inv :: "'e id_world \<Rightarrow> bool" where
  "codes_inv w \<longleftrightarrow> distinct (map br_ID (it_codes (fst w)))"

lemma use_code_spent:
  assumes "distinct (map br_ID cs)" and "c \<in> set cs" and "\<not> br_Used c"
  shows "spent c cs (use_code (br_ID c) cs)"
  using assms distinct_map_eqD [OF assms(1) _ assms(2)] by (auto simp: spent_def use_code_def)

lemma try_codes_true:
  assumes "try_codes verify plain rows w = (Ret (Inr True), w')"
    and "distinct (map br_ID (it_codes (fst w)))" and "set rows \<subseteq> {r \<in> set (it_codes (fst w)). \<not> br_Used r}"
  shows "\<exists>c \<in> set rows. verify plain (br_CodeHash c) \<and> spent c (it_codes (fst w)) (it_codes (fst w'))"
  using assms
proof (induction rows)
  case (Cons c rows)
  show ?case
  proof (cases "verify plain (br_CodeHash c)")
    case True
    obtain env w1 where nx: "next_stmt w = (env, w1)" by (cases "next_stmt w")
    have "it_codes (fst w') = use_code (br_ID c) (it_codes (fst w))"
      using Cons.prems(1) True nx next_stmt_split(1) [OF nx] by (auto split: option.splits)
    with use_code_spent [OF Cons.prems(2), of c] Cons.prems(3) True show ?thesis by auto
  qed (use Cons in auto)
qed simp

lemma try_codes_false:
  assumes "try_codes verify plain rows w = (r, w')" and "r \<noteq> Ret (Inr True)"
  shows "fst w' = fst w"
  using assms
proof (induction rows)
  case (Cons c rows)
  obtain env w1 where nx: "next_stmt w = (env, w1)" by (cases "next_stmt w")
  from Cons nx next_stmt_split(1) [OF nx] show ?case by (auto split: option.splits if_splits)
qed simp

lemma FindAndUse_spends:
  assumes inv: "codes_inv w"
    and run: "mfa_FindAndUseBackupCode U verify i plain w = (Ret (Inr True), w')"
  shows "\<exists>c uid. uuid_Parse U i = Inr uid \<and> br_UserID c = uid \<and> verify plain (br_CodeHash c) \<and>
    spent c (it_codes (fst w)) (it_codes (fst w'))"
proof -
  obtain uid where uid: "uuid_Parse U i = Inr uid"
    using run by (cases "uuid_Parse U i") (auto simp: mfa_FindAndUseBackupCode_def)
  obtain env w1 where nx: "next_stmt w = (env, w1)" by (cases "next_stmt w")
  note w1 = next_stmt_split(1) [OF nx]
  let ?rows = "[r \<leftarrow> it_codes (fst w). br_UserID r = uid \<and> \<not> br_Used r]"
  have "try_codes verify plain ?rows w1 = (Ret (Inr True), w')"
    using run uid nx w1 by (auto simp: mfa_FindAndUseBackupCode_def split: option.splits)
  from try_codes_true [OF this] inv w1 obtain c where "c \<in> set ?rows" "verify plain (br_CodeHash c)"
      "spent c (it_codes (fst w)) (it_codes (fst w'))"
    by (auto simp: codes_inv_def)
  with uid show ?thesis by auto
qed

lemma FindAndUse_refuses:
  assumes "mfa_FindAndUseBackupCode U verify i plain w = (r, w')" and "r \<noteq> Ret (Inr True)"
  shows "fst w' = fst w"
proof -
  obtain env w1 where nx: "next_stmt w = (env, w1)" by (cases "next_stmt w")
  from assms nx next_stmt_split(1) [OF nx] show ?thesis
    by (auto simp: mfa_FindAndUseBackupCode_def split: sum.splits option.splits
        dest: try_codes_false)
qed

lemma spent_inv: "spent c cs cs' \<Longrightarrow> map br_ID cs' = map br_ID cs"
  by (auto simp: spent_def)

lemma spent_unused:
  "spent c cs cs' \<Longrightarrow> distinct cs \<Longrightarrow>
   length (filter (\<lambda>r. \<not> br_Used r) cs) = Suc (length (filter (\<lambda>r. \<not> br_Used r) cs'))"
proof -
  assume sp: "spent c cs cs'" and d: "distinct cs"
  then obtain xs ys where cs: "cs = xs @ c # ys" by (auto simp: spent_def dest: split_list)
  with d have "c \<notin> set xs" "c \<notin> set ys" by auto
  then have "cs' = xs @ c\<lparr>br_Used := True\<rparr> # ys"
    using sp cs by (simp add: spent_def) (intro conjI map_idI; auto)
  with cs sp show ?thesis by (simp add: spent_def)
qed

end
