(* ===== verification/IdentityModule.thy ===== *)
theory IdentityModule
  imports UserStore
begin

text \<open>
  The identity module put together: the service of \<open>Auth\<close> over the stores of
  \<open>IdentityStore\<close>, as \<open>modules/identity/module.go\<close> wires them, and what the service does to
  the stored users, tokens and backup codes.
\<close>

section \<open>Wiring\<close>

definition identity_wired ::
  "uuid_pkg \<Rightarrow> (string \<Rightarrow> string \<Rightarrow> bool) \<Rightarrow> 'e id_world runtime \<Rightarrow> 'e id_world auth_service \<Rightarrow> bool" where
  "identity_wired U verify rt s \<longleftrightarrow>
     rn_uuid rt = U \<and> as_userRepo s = users_repo U \<and> as_tokenStore s = tokens_repo U \<and>
     as_mfaStore s = codes_repo U verify"

lemma tokens_untouched:
  fixes p :: "('e id_world, 'a) prog"
  assumes "\<And>w. stmts w (snd (p w)) \<and> it_tokens (fst (snd (p w))) = it_tokens (fst w)"
  shows "interferes (token_inv U) (tokens_of U) p"
  unfolding interferes_def
proof (intro allI impI)
  fix w :: "'e id_world" assume "token_inv U w"
  then show "token_inv U (snd (p w)) \<and> token_moves (tokens_of U w) (tokens_of U (snd (p w)))"
    using token_inv_stmts [of U w "snd (p w)"] assms [of w]
    by (simp add: row_families_def tokens_of_def)
qed

lemma try_codes_stmts:
  "stmts w (snd (try_codes verify c rows w)) \<and>
   it_tokens (fst (snd (try_codes verify c rows w))) = it_tokens (fst w)"
proof (induction rows)
  case (Cons r rows)
  obtain env w1 where nx: "next_stmt w = (env, w1)" by (cases "next_stmt w")
  note w1 = next_stmt_split [OF nx]
  from Cons nx w1 show ?case by (auto simp: stmts_def split: option.splits)
qed simp

lemma insert_codes_tokens:
  "insert_codes env k uid hs db = Inr db' \<Longrightarrow> it_tokens db' = it_tokens db"
  by (induction env k uid hs db rule: insert_codes.induct) (auto split: if_splits)

lemma users_find_untouched: "interferes (token_inv U) (tokens_of U) (users_find P)"
  by (rule tokens_untouched)
    (use next_stmt_split in \<open>fastforce simp: users_find_def split: prod.splits sum.splits\<close>)

lemma users_Save_untouched:
  "interferes (token_inv U) (tokens_of U) (users_Save u :: ('e id_world, goerr option) prog)"
proof (rule tokens_untouched)
  fix w :: "'e id_world"
  obtain env w1 where nx: "next_stmt w = (env, w1)" by (cases "next_stmt w")
  from next_stmt_split [OF nx] show "stmts w (snd (users_Save u w)) \<and>
      it_tokens (fst (snd (users_Save u w))) = it_tokens (fst w)"
    by (auto simp: users_Save_def nx stmts_def split: option.splits sum.splits)
qed

lemma FindAndUse_untouched:
  "interferes (token_inv U) (tokens_of U)
     (mfa_FindAndUseBackupCode V verify i c :: ('e id_world, goerr + bool) prog)"
proof (rule tokens_untouched)
  fix w :: "'e id_world"
  obtain env w1 where nx: "next_stmt w = (env, w1)" by (cases "next_stmt w")
  from next_stmt_split [OF nx] try_codes_stmts [of w1]
  show "stmts w (snd (mfa_FindAndUseBackupCode V verify i c w)) \<and>
      it_tokens (fst (snd (mfa_FindAndUseBackupCode V verify i c w))) = it_tokens (fst w)"
    by (auto simp: mfa_FindAndUseBackupCode_def nx split: option.splits sum.splits
        intro: stmts_trans)
qed

lemma StoreBackupCodes_untouched:
  "interferes (token_inv U) (tokens_of U)
     (mfa_StoreBackupCodes V i hs :: ('e id_world, goerr option) prog)"
proof (rule tokens_untouched)
  fix w :: "'e id_world"
  obtain env w1 where nx: "next_stmt w = (env, w1)" by (cases "next_stmt w")
  from next_stmt_split [OF nx] show "stmts w (snd (mfa_StoreBackupCodes V i hs w)) \<and>
      it_tokens (fst (snd (mfa_StoreBackupCodes V i hs w))) = it_tokens (fst w)"
    by (auto simp: mfa_StoreBackupCodes_def nx stmts_def dest!: insert_codes_tokens
        split: option.splits sum.splits)
qed

lemma interferes_retp [simp]: "interferes I tokens (retp x)"
  by (simp add: interferes_def)

lemma stores_frame_repos: "stores_frame (token_inv U) (tokens_of U) (users_repo U) (codes_repo U verify)"
  by (simp add: stores_frame_def users_repo_def codes_repo_def users_FindByID_def
      users_FindByUsername_def users_find_untouched users_Save_untouched FindAndUse_untouched
      StoreBackupCodes_untouched split: sum.split)

lemma wired_frame:
  assumes "identity_wired U verify rt s" and "outside_frame (token_inv U) (tokens_of U) rt s"
  shows "auth_frame (token_inv U) (tokens_of U) rt s"
  using assms by (simp add: auth_frame_def identity_wired_def stores_frame_repos)

lemma users_find_row:
  "users_find P w = (Ret (Inr u), w') \<Longrightarrow>
   \<exists>r \<in> set (it_users (fst w)). P (is_lower (snd w)) r \<and> u = toDomainUser r \<and> fst w' = fst w"
  using next_stmt_split [of w]
  by (auto simp: users_find_def scan_first_def stmts_def dest!: find_Some_mem
      split: prod.splits sum.splits option.splits)

lemma wired_finds:
  assumes "identity_wired U verify rt s"
  shows "finds_by_id (token_inv U) (tokens_of U) rt s"
  unfolding finds_by_id_def
proof (intro allI impI)
  fix w i user w'
  assume inv: "token_inv U w" and i: "i \<in> rt_UserID ` set (tokens_of U w)"
    and run: "urp_FindByID (as_userRepo s) i w = (Ret (Inr user), w')"
  from i obtain v where v: "i = uuid_String U v" by (auto simp: tokens_of_def fromRefreshRow_def)
  have U: "uuid_pkg_ok U" using inv by (simp add: token_inv_def)
  have "users_find (\<lambda>_ r. ur_ID r = v) w = (Ret (Inr user), w')"
    using run assms U by (simp add: v identity_wired_def users_repo_def users_FindByID_def)
  then show "uuid_String (rn_uuid rt) (u_ID user) = i"
    using assms users_find_row by (fastforce simp: v identity_wired_def toDomainUser_def)
qed

lemmas wired = wired_frame wired_finds

lemma wired_store: "identity_wired U verify rt s \<Longrightarrow> as_tokenStore s = tokens_repo U"
  by (simp add: identity_wired_def)

section \<open>Presenting a spent token\<close>

lemma find_token_row:
  assumes "families_ok (tokens_of U w)" and "t \<in> set (tokens_of U w)"
  shows "\<exists>r. find (\<lambda>r. rr_TokenHash r = rt_TokenHash t) (it_tokens (fst w)) = Some r \<and>
    fromRefreshRow U r = t"
proof -
  obtain r where r: "r \<in> set (it_tokens (fst w))" "t = fromRefreshRow U r"
    using assms(2) by (auto simp: tokens_of_def)
  have h: "rt_TokenHash t = rr_TokenHash r" by (simp add: r(2) fromRefreshRow_def)
  have "map rt_TokenHash (tokens_of U w) = map rr_TokenHash (it_tokens (fst w))"
    by (simp add: tokens_of_def fromRefreshRow_def)
  then have "distinct (map rr_TokenHash (it_tokens (fst w)))"
    using assms(1) by (simp add: families_ok_def)
  from find_distinct_id [OF this r(1)]
  have "find (\<lambda>q. rr_TokenHash q = rt_TokenHash t) (it_tokens (fst w)) = Some r" by (simp only: h)
  with r(2) show ?thesis by blast
qed

lemma FindValid_spent:
  assumes "healthy w" and ok: "families_ok (tokens_of U w)" "t \<in> set (tokens_of U w)" and "\<not> live t"
  shows "\<exists>e w'. tokens_FindValid U (rt_TokenHash t) w = (Ret (Inl e), w') \<and> fst w' = fst w \<and>
    stmts w w' \<and> healthy w'"
proof -
  obtain env w1 where nx: "next_stmt w = (env, w1)" "fst w1 = fst w" "stmts w w1" "healthy w1"
      "se_fault env = None"
    by (rule healthy_stmt [OF assms(1)])
  have "find (\<lambda>r. usable_row (rt_TokenHash t) r \<and> se_now env < rr_ExpiresAt r) (it_tokens (fst w)) = None"
    unfolding find_None_iff
  proof (intro notI, elim exE conjE)
    fix r assume r: "r \<in> set (it_tokens (fst w))" "usable_row (rt_TokenHash t) r"
    let ?u = "fromRefreshRow U r"
    have u: "?u \<in> set (tokens_of U w)" using r(1) by (simp add: tokens_of_def)
    have "rt_TokenHash ?u = rt_TokenHash t" "live ?u"
      using r(2) by (auto simp: usable_row_def fromRefreshRow_def live_def)
    with distinct_map_eqD [OF _ u ok(2), of rt_TokenHash] ok(1) assms(4) show False
      by (simp add: families_ok_def)
  qed
  with nx show ?thesis by (simp add: tokens_FindValid_def scan_first_def)
qed

lemma FindAny_present:
  assumes "healthy w" and "families_ok (tokens_of U w)" "t \<in> set (tokens_of U w)"
  shows "\<exists>w'. tokens_FindAny U (rt_TokenHash t) w = (Ret (Inr (Some t)), w') \<and> fst w' = fst w \<and>
    stmts w w' \<and> healthy w'"
proof -
  obtain env w1 where nx: "next_stmt w = (env, w1)" "fst w1 = fst w" "stmts w w1" "healthy w1"
      "se_fault env = None"
    by (rule healthy_stmt [OF assms(1)])
  obtain r where r: "find (\<lambda>r. rr_TokenHash r = rt_TokenHash t) (it_tokens (fst w)) = Some r"
      "fromRefreshRow U r = t"
    using find_token_row [OF assms(2,3)] by blast
  have "tokens_FindAny U (rt_TokenHash t) w = (Ret (Inr (Some t)), w1)"
    by (simp add: tokens_FindAny_def scan_first_def nx(1,2,5) r)
  with nx(2-4) show ?thesis by blast
qed

lemma RevokeFamily_healthy:
  assumes "healthy w" and "token_inv U w" and "f \<in> families (tokens_of U w)"
  shows "\<exists>k w'. tokens_RevokeFamily U f w = (Ret (Inr k), w')"
proof -
  obtain env w1 where nx: "next_stmt w = (env, w1)" "se_fault env = None" "affected_err env = None"
    by (rule healthy_stmt [OF assms(1)])
  have "\<exists>v. uuid_Parse U f = Inr v"
    using assms(2,3) by (auto simp: families_tokens_of token_inv_def)
  with nx show ?thesis by (auto simp: tokens_RevokeFamily_def Let_def)
qed

lemma Refresh_spent:
  assumes wired: "identity_wired U verify rt s" and "healthy w" and inv: "token_inv U w"
    and ok: "families_ok (tokens_of U w)" and t: "t \<in> set (tokens_of U w)" "\<not> live t"
    and plain: "rt_TokenHash t = HashToken plain" "plain \<noteq> []"
  shows "\<exists>w1. Refresh rt s plain w =
      bindp (au_RefreshReuseDetected (as_audit s) (rt_UserID t) (rt_FamilyID t)
          (int (length (filter (\<lambda>u. rt_FamilyID u = rt_FamilyID t \<and> \<not> rt_Revoked u) (tokens_of U w))))
          None) (\<lambda>_. retp (Inl ErrRefreshTokenInvalid)) w1 \<and>
    dead_family (rt_FamilyID t) (tokens_of U w1)"
proof -
  have store: "as_tokenStore s = tokens_repo U" using wired by (rule wired_store)
  obtain e w1 where w1: "tokens_FindValid U (HashToken plain) w = (Ret (Inl e), w1)" "fst w1 = fst w"
      "stmts w w1" "healthy w1"
    using FindValid_spent [OF assms(2) ok t] plain(1) by auto
  note inv1 = tokens_of_stmts [OF inv w1(3,2)]
  obtain w2 where w2: "tokens_FindAny U (HashToken plain) w1 = (Ret (Inr (Some t)), w2)"
      "fst w2 = fst w1" "stmts w1 w2" "healthy w2"
    using FindAny_present [OF w1(4), of U t] ok t(1) plain(1) inv1 by auto
  note inv2 = tokens_of_stmts [OF conjunct1 [OF inv1] w2(3,2)]
  have f: "rt_FamilyID t \<in> families (tokens_of U w2)"
    using inv1 inv2 t(1) by (simp add: families_def)
  obtain k w3 where w3: "tokens_RevokeFamily U (rt_FamilyID t) w2 = (Ret (Inr k), w3)"
    using RevokeFamily_healthy [OF w2(4) conjunct1 [OF inv2] f] by blast
  note rev = tokens_RevokeFamily_run [OF conjunct1 [OF inv2] w3]
  have k: "k = int (length (filter (\<lambda>u. rt_FamilyID u = rt_FamilyID t \<and> \<not> rt_Revoked u) (tokens_of U w)))"
    and toks: "tokens_of U w3 = map (revoke_if (\<lambda>u. rt_FamilyID u = rt_FamilyID t)) (tokens_of U w2)"
    using rev f inv1 inv2 by simp_all
  have "rt_Used t \<or> rt_Revoked t" using t(2) by (auto simp: live_def)
  then have "Refresh rt s plain w =
      bindp (au_RefreshReuseDetected (as_audit s) (rt_UserID t) (rt_FamilyID t) k None)
        (\<lambda>_. retp (Inl ErrRefreshTokenInvalid)) w3"
    using w1(1) w2(1) w3 plain(2)
    by (auto simp: Refresh_def Let_def store tokens_repo_def handleUnusableRefreshToken_def
        revokeFamilyForReuse_def bindp_def split: outcome.splits prod.splits)
  moreover have "dead_family (rt_FamilyID t) (tokens_of U w3)"
    using f unfolding toks dead_family_def by simp
  ultimately show ?thesis unfolding k by blast
qed

section \<open>Runs of login attempts\<close>

fun attempts ::
  "'w runtime \<Rightarrow> 'w auth_service \<Rightarrow> login_request list \<Rightarrow>
   ('w, (login_error + token_response) list) prog" where
  "attempts rt s [] = retp []"
| "attempts rt s (req # reqs) =
     bindp (Login rt s req) (\<lambda>r. bindp (attempts rt s reqs) (\<lambda>rs. retp (r # rs)))"

text \<open>A stored account, and a service with a stopped clock and no audit or notification.\<close>

definition account :: "'e id_world \<Rightarrow> user \<Rightarrow> bool" where
  "account w u \<longleftrightarrow> healthy w \<and> users_inv w \<and> user_at w (u_ID u) = Some u \<and> u_ID u \<noteq> uuid_Nil"

definition still_service ::
  "time \<Rightarrow> 'e id_world runtime \<Rightarrow> 'e id_world auth_service \<Rightarrow> bool" where
  "still_service now rt s \<longleftrightarrow>
     rn_Now rt = retp now \<and> as_userRepo s = users_repo (rn_uuid rt) \<and>
     as_audit s = NopAuditor \<and> as_notifier s = NopNotifier"

definition names :: "'e id_world \<Rightarrow> login_request \<Rightarrow> user \<Rightarrow> bool" where
  "names w req u \<longleftrightarrow> is_lower (snd w) (u_Username u) = is_lower (snd w) (lr_Username req)"

definition wrong_password :: "'w auth_service \<Rightarrow> login_request \<Rightarrow> user \<Rightarrow> bool" where
  "wrong_password s req u \<longleftrightarrow>
     php_Verify (as_passwordHasher s) (lr_Password req) (u_PasswordHash u) = retp False"

definition failed_once :: "auth_config \<Rightarrow> time \<Rightarrow> user \<Rightarrow> user" where
  "failed_once cfg now u =
     u\<lparr>u_FailedLoginAttempts := u_FailedLoginAttempts u + 1,
       u_LockedUntil := (if ac_MaxFailedAttempts cfg \<le> u_FailedLoginAttempts u + 1
         then Some (time_Add now (ac_LockDuration cfg)) else u_LockedUntil u)\<rparr>"

lemma failed_once_sel [simp]:
  "u_ID (failed_once cfg now u) = u_ID u" "u_Username (failed_once cfg now u) = u_Username u"
  "u_Email (failed_once cfg now u) = u_Email u"
  "u_PasswordHash (failed_once cfg now u) = u_PasswordHash u"
  "u_FailedLoginAttempts (failed_once cfg now u) = u_FailedLoginAttempts u + 1"
  by (simp_all add: failed_once_def)

lemma names_failed [simp]: "names w req (failed_once cfg now u) = names w req u"
  by (simp add: names_def)

lemma account_stmts: "account w u \<Longrightarrow> fst w' = fst w \<Longrightarrow> stmts w w' \<Longrightarrow> account w' u"
  unfolding account_def using healthy_stmts users_inv_stmts user_at_stmts [of w' w] by metis

lemma names_stmts: "stmts w w' \<Longrightarrow> names w' req u = names w req u"
  by (simp add: names_def stmts_def)

lemma Login_locked_account:
  assumes svc: "still_service now rt s" and acc: "account w u" and "names w req u" and "locked_at now u"
  shows "\<exists>w'. Login rt s req w = (Ret (Inl (LoginErr ErrAccountLocked)), w') \<and> account w' u \<and> stmts w w'"
proof -
  obtain w' where w': "users_FindByUsername (lr_Username req) w = (Ret (Inr u), w')"
      "fst w' = fst w" "stmts w w'"
    using FindByUsername_ok [of w "u_ID u" u "lr_Username req"] acc assms(3)
    by (auto simp: account_def names_def)
  have "Login rt s req w = (Ret (Inl (LoginErr ErrAccountLocked)), w')"
    using svc w'(1) assms(4) IsLocked_at [of "rn_Now rt" w' now u]
    by (simp add: Login_def still_service_def users_repo_def bindp_def NopAuditor_def)
  with account_stmts [OF acc w'(2,3)] w'(3) show ?thesis by blast
qed

lemma Login_wrong_password:
  assumes svc: "still_service now rt s" and acc: "account w u" and "names w req u"
    and "\<not> locked_at now u" and "wrong_password s req u" and int: "int4 (u_FailedLoginAttempts u + 1)"
  shows "\<exists>w'. Login rt s req w = (Ret (Inl (LoginErr ErrInvalidCredentials)), w') \<and>
    account w' (failed_once (as_cfg s) now u) \<and> stmts w w'"
proof -
  let ?u = "failed_once (as_cfg s) now u"
  have now: "rn_Now rt = retp now" using svc by (simp add: still_service_def)
  obtain w1 where w1: "users_FindByUsername (lr_Username req) w = (Ret (Inr u), w1)"
      "fst w1 = fst w" "stmts w w1"
    using FindByUsername_ok [of w "u_ID u" u "lr_Username req"] acc assms(3)
    by (auto simp: account_def names_def)
  have acc1: "account w1 u" using account_stmts [OF acc w1(2,3)] .
  obtain w2 where w2: "users_Save ?u w1 = (Ret None, w2)"
    using users_Save_accepts [of w1 ?u u] acc1 int by (auto simp: account_def)
  have at: "user_at w2 = (user_at w1)(u_ID ?u \<mapsto> ?u)" and inv: "users_inv w2" and st: "stmts w1 w2"
    using users_Save_at [OF _ _ _ w2] acc1 by (simp_all add: account_def)
  have acc2: "account w2 ?u"
    using at inv healthy_stmts [OF _ st] acc1 by (simp add: account_def)
  have nl: "IsLocked (rn_Now rt) u w1 = (Ret False, w1)"
    using IsLocked_at [of "rn_Now rt" w1 now u] assms(4) now by simp
  have rec: "RecordFailedLogin (rn_Now rt) (ac_MaxFailedAttempts (as_cfg s))
      (ac_LockDuration (as_cfg s)) u w1 = (Ret ?u, w1)"
    using RecordFailedLogin_at [of "rn_Now rt" w1 now] now by (simp add: failed_once_def)
  have lk: "IsLocked (rn_Now rt) ?u w2 = (Ret (locked_at now ?u), w2)"
    using IsLocked_at [of "rn_Now rt" w2 now ?u] now by simp
  have "(if locked_at now ?u then report_lock rt s ?u else retp ()) w2 = (Ret (), w2)"
    using svc by (auto simp: report_lock_def still_service_def NopAuditor_def NopNotifier_def
        locked_at_def split: option.splits)
  then have "login_rejected rt s req u w1 = (Ret (Inl (LoginErr ErrInvalidCredentials)), w2)"
    using svc nl rec w2 lk
    by (simp add: login_rejected_def still_service_def users_repo_def bindp_def NopAuditor_def)
  then have "Login rt s req w = (Ret (Inl (LoginErr ErrInvalidCredentials)), w2)"
    using svc w1(1) nl assms(5)
    by (simp add: Login_def still_service_def users_repo_def bindp_def wrong_password_def)
  with acc2 stmts_trans [OF w1(3) st] show ?thesis by blast
qed

lemma attempts_locked:
  assumes svc: "still_service now rt s" and "account w u" and "\<forall>req \<in> set reqs. names w req u"
    and "locked_at now u"
  shows "\<exists>w'. attempts rt s reqs w = (Ret (replicate (length reqs) (Inl (LoginErr ErrAccountLocked))), w')"
  using assms(2,3)
proof (induction reqs arbitrary: w)
  case (Cons req reqs)
  then obtain w1 where w1: "Login rt s req w = (Ret (Inl (LoginErr ErrAccountLocked)), w1)"
      "account w1 u" "stmts w w1"
    using Login_locked_account [OF svc _ _ assms(4)] by (metis list.set_intros(1))
  have "\<forall>q \<in> set reqs. names w1 q u" using Cons.prems(2) names_stmts [OF w1(3)] by simp
  from Cons.IH [OF w1(2) this] w1(1) show ?case by (auto simp: bindp_def)
qed simp

lemma attempts_run:
  assumes svc: "still_service now rt s" and acc: "account w u" and "\<not> locked_at now u"
    and cnt: "0 \<le> u_FailedLoginAttempts u" "u_FailedLoginAttempts u < ac_MaxFailedAttempts (as_cfg s)"
    and max: "ac_MaxFailedAttempts (as_cfg s) < 2 ^ 31" and dur: "0 < sint (ac_LockDuration (as_cfg s))"
    and names: "\<forall>req \<in> set reqs. names w req u"
    and wrong: "\<forall>req \<in> set (take k reqs). wrong_password s req u"
    and k: "k = nat (ac_MaxFailedAttempts (as_cfg s) - u_FailedLoginAttempts u)"
  shows "\<exists>w'. attempts rt s reqs w =
    (Ret (replicate (min k (length reqs)) (Inl (LoginErr ErrInvalidCredentials)) @
          replicate (length reqs - k) (Inl (LoginErr ErrAccountLocked))), w')"
  using assms(2-5) names wrong k
proof (induction reqs arbitrary: w u k)
  case (Cons req reqs)
  let ?u = "failed_once (as_cfg s) now u"
  have "0 < k" using Cons.prems(4,7) by simp
  then obtain j where j: "k = Suc j" using gr0_implies_Suc by blast
  have int: "int4 (u_FailedLoginAttempts u + 1)" using Cons.prems(3,4) max by (simp add: int4_def)
  have "names w req u" "wrong_password s req u" using Cons.prems(5,6) j by simp_all
  from Login_wrong_password [OF svc Cons.prems(1) this(1) Cons.prems(2) this(2) int]
  obtain w1 where w1: "Login rt s req w = (Ret (Inl (LoginErr ErrInvalidCredentials)), w1)"
      "account w1 ?u" "stmts w w1" by blast
  have nm: "\<forall>q \<in> set reqs. names w1 q ?u"
    using Cons.prems(5) names_stmts [OF w1(3)] by (simp add: names_failed)
  show ?case
  proof (cases "j = 0")
    case True
    then have "ac_MaxFailedAttempts (as_cfg s) \<le> u_FailedLoginAttempts u + 1"
      using Cons.prems(7) j by simp
    then have "locked_at now ?u" using dur by (simp add: locked_at_def failed_once_def time_Add_def)
    from attempts_locked [OF svc w1(2) nm this] w1(1) True j show ?thesis by (auto simp: bindp_def)
  next
    case False
    then have le: "u_FailedLoginAttempts u + 1 < ac_MaxFailedAttempts (as_cfg s)"
      using Cons.prems(7) j by linarith
    then have "\<not> locked_at now ?u" using Cons.prems(2) by (simp add: locked_at_def failed_once_def)
    moreover have "\<forall>q \<in> set (take j reqs). wrong_password s q ?u"
      using Cons.prems(6) j by (simp add: wrong_password_def)
    moreover have "j = nat (ac_MaxFailedAttempts (as_cfg s) - u_FailedLoginAttempts ?u)"
      using Cons.prems(7) j le by simp
    ultimately obtain w2 where "attempts rt s reqs w1 =
        (Ret (replicate (min j (length reqs)) (Inl (LoginErr ErrInvalidCredentials)) @
              replicate (length reqs - j) (Inl (LoginErr ErrAccountLocked))), w2)"
      using Cons.IH [OF w1(2) _ _ _ nm, of j] Cons.prems(3) le by auto
    with w1(1) j show ?thesis by (simp add: bindp_def)
  qed
qed simp

end
