(* ===== verification/IdentityDemo.thy ===== *)
theory IdentityDemo
  imports IdentityModule
begin

text \<open>
  Concrete values the identity properties are applied to: a uuid package that prints in
  unary, one account, a family of a spent and a live token, and a service whose outside
  ports do nothing but answer.
\<close>

definition demo_uuid :: uuid_pkg where
  "demo_uuid =
     \<lparr>uuid_Parse = (\<lambda>s. if s = [] then Inl (New ''invalid UUID length'') else Inr (of_nat (length s - 1))),
      uuid_String = (\<lambda>u. replicate (unat u + 1) (CHR ''0''))\<rparr>"

lemma demo_uuid_ok: "uuid_pkg_ok demo_uuid"
  by (simp add: uuid_pkg_ok_def demo_uuid_def)

definition demo_user :: user where
  "demo_user =
     \<lparr>u_ID = 5, u_Username = ''bob'', u_Email = ''b@x'', u_Name = ''B'', u_Roles = [],
      u_Permissions = [], u_PasswordHash = ''pw'', u_MFAEnabled = False, u_MFASecret = [],
      u_FailedLoginAttempts = 0, u_LockedUntil = None\<rparr>"

definition demo_spent_row :: refresh_token_row where
  "demo_spent_row =
     \<lparr>rr_ID = 20, rr_UserID = 5, rr_TokenHash = HashToken ''t1'', rr_ExpiresAt = 1000,
      rr_Revoked = True, rr_CreatedAt = 1, rr_FamilyID = 7, rr_UsedAt = Some 2,
      rr_ReuseDetectedAt = None\<rparr>"

definition demo_live_row :: refresh_token_row where
  "demo_live_row =
     \<lparr>rr_ID = 21, rr_UserID = 5, rr_TokenHash = ''h2'', rr_ExpiresAt = 1000,
      rr_Revoked = False, rr_CreatedAt = 2, rr_FamilyID = 7, rr_UsedAt = None,
      rr_ReuseDetectedAt = None\<rparr>"

definition demo_code :: backup_code_row where
  "demo_code = \<lparr>br_ID = 30, br_UserID = 5, br_CodeHash = ''c'', br_Used = False, br_CreatedAt = 1\<rparr>"

definition demo_script :: id_script where
  "demo_script = \<lparr>is_env = [], is_uuids = [9, 10], is_lower = (\<lambda>s. s)\<rparr>"

definition demo_tables :: "refresh_token_row list \<Rightarrow> id_tables" where
  "demo_tables rows =
     \<lparr>it_users = [fromDomainUser demo_user], it_tokens = rows, it_codes = [demo_code]\<rparr>"

definition demo_world :: "unit id_world" where
  "demo_world = (demo_tables [demo_spent_row, demo_live_row], demo_script)"

definition demo_runtime :: "unit id_world runtime" where
  "demo_runtime =
     \<lparr>rn_Now = retp 3, rn_RandRead = (\<lambda>n. retp (Inr (replicate n 0))),
      rn_bcrypt = (\<lambda>p. retp (Inr p)), rn_uuid = demo_uuid\<rparr>"

definition demo_issuer :: "unit id_world token_issuer" where
  "demo_issuer =
     \<lparr>tip_IssueAccessToken = (\<lambda>u d. retp (Inr ''access'')), tip_IssueIDToken = (\<lambda>u c. retp ([], None)),
      tip_IssueMFAToken = (\<lambda>u. retp (Inr ''mfa'')),
      tip_Validate = (\<lambda>t c. retp (Inr \<lparr>cl_Subject = uuid_String demo_uuid 5, cl_Email = [], cl_Name = [],
        cl_Roles = [], cl_Permissions = [], cl_Scope = c, cl_Class = c, cl_IssuedAt = 0,
        cl_ExpiresAt = 9\<rparr>))\<rparr>"

definition demo_auth :: "unit id_world auth_service" where
  "demo_auth =
     NewAuthService (users_repo demo_uuid)
       (BcryptHasher (\<lambda>p. retp (Inr p)) (\<lambda>h p. if h = p then None else Some (New ''mismatch'')))
       demo_issuer (tokens_repo demo_uuid)
       \<lparr>ac_AccessTokenTTL = 900000000000, ac_RefreshTokenTTL = 100, ac_MaxFailedAttempts = 2,
        ac_LockDuration = 50, ac_ClientID = ''cli'', ac_MFATemporaryTTL = 1\<rparr>
       (TOTPService (\<lambda>i e. retp (Inr (''s'', ''q''))) (\<lambda>c k. retp (c = k)) ''kopiochi'')
       (codes_repo demo_uuid (=)) None None"

lemma demo_auth_sel [simp]:
  "as_userRepo demo_auth = users_repo demo_uuid" "as_tokenStore demo_auth = tokens_repo demo_uuid"
  "as_mfaStore demo_auth = codes_repo demo_uuid (=)" "as_audit demo_auth = NopAuditor"
  "as_notifier demo_auth = NopNotifier" "as_tokenIssuer demo_auth = demo_issuer"
  "ac_MaxFailedAttempts (as_cfg demo_auth) = 2" "ac_LockDuration (as_cfg demo_auth) = 50"
  by (simp_all add: demo_auth_def NewAuthService_def)

lemma demo_wired: "identity_wired demo_uuid (=) demo_runtime demo_auth"
  by (simp add: identity_wired_def demo_runtime_def)

lemma demo_outside: "outside_frame I tokens demo_runtime demo_auth"
  by (simp add: outside_frame_def demo_runtime_def demo_issuer_def NopAuditor_def NopNotifier_def
      demo_auth_def NewAuthService_def BcryptHasher_def TOTPService_def TOTP_ValidateCode_def)

lemma demo_still: "still_service 3 demo_runtime demo_auth"
  by (simp add: still_service_def demo_runtime_def)

lemma demo_hash_neq [simp]: "HashToken p \<noteq> ''h2''" "''h2'' \<noteq> HashToken p"
proof -
  have "length (HashToken p) \<noteq> length ''h2''" by (simp add: length_HashToken)
  then show "HashToken p \<noteq> ''h2''" "''h2'' \<noteq> HashToken p" by metis+
qed

lemma demo_world_sel [simp]:
  "it_tokens (fst demo_world) = [demo_spent_row, demo_live_row]"
  "it_users (fst demo_world) = [fromDomainUser demo_user]" "it_codes (fst demo_world) = [demo_code]"
  "snd demo_world = demo_script"
  by (simp_all add: demo_world_def demo_tables_def)

lemma demo_inv: "token_inv demo_uuid demo_world"
  by (simp add: token_inv_def demo_uuid_ok row_families_def demo_script_def demo_spent_row_def
      demo_live_row_def uuid_Nil_def)

lemma demo_tokens:
  "tokens_of demo_uuid demo_world =
     [fromRefreshRow demo_uuid demo_spent_row, fromRefreshRow demo_uuid demo_live_row]"
  by (simp add: tokens_of_def)

lemma demo_live: "\<not> live (fromRefreshRow U demo_spent_row)" "live (fromRefreshRow U demo_live_row)"
  by (simp_all add: live_def fromRefreshRow_def demo_spent_row_def demo_live_row_def)

lemma demo_families: "families_ok (tokens_of demo_uuid demo_world)"
  by (simp add: families_ok_def demo_tokens family_user_def fromRefreshRow_def
      demo_spent_row_def demo_live_row_def live_def)

lemma demo_healthy: "healthy demo_world"
  by (simp add: healthy_def demo_script_def)

lemma demo_account: "account demo_world demo_user"
  by (simp add: account_def demo_healthy users_inv_def user_at_def to_from_user uuid_Nil_def
      demo_user_def)

lemma demo_codes: "codes_inv demo_world"
  by (simp add: codes_inv_def)

end
