(* ===== verification/IdentityProps.thy ===== *)
theory IdentityProps
  imports IdentityDemo
begin

text \<open>
  The properties of the identity module, over the stored tables, for a service wired as
  \<open>modules/identity/module.go\<close> does. The ports outside the module may do anything that only
  makes token moves, other sessions' requests included (\<open>outside_frame\<close>).
\<close>

section \<open>Refresh tokens\<close>

text \<open>
  C3. Refinement: whatever a request asks for and however it ends, it changes the stored
  refresh tokens only by moves of the rotation protocol, and the store keeps its
  invariant.
\<close>

theorem requests_refine_moves:
  assumes "identity_wired U verify rt s" and "outside_frame (token_inv U) (tokens_of U) rt s"
    and "token_inv U w" and "families_ok (tokens_of U w)"
  shows "token_moves (tokens_of U w) (tokens_of U (snd (serve rt s q w))) \<and>
    token_inv U (snd (serve rt s q w))"
  using tokens.serve_moves [OF wired_frame [OF assms(1,2)] wired_store [OF assms(1)]
      wired_finds [OF assms(1)] assms(3,4), of q]
  by (simp add: moved_def)

theorem requests_refine_moves_witness:
  "token_moves (tokens_of demo_uuid demo_world)
     (tokens_of demo_uuid (snd (serve demo_runtime demo_auth (RefreshRequest ''t1'') demo_world)))"
  using requests_refine_moves [OF demo_wired demo_outside demo_inv demo_families] by blast

text \<open>
  C12. From a store without tokens, after any requests: no two live tokens share a family,
  no two tokens a hash, and all tokens of a family belong to one user.
\<close>

theorem one_live_token_per_family:
  assumes "identity_wired U verify rt s" and "outside_frame (token_inv U) (tokens_of U) rt s"
    and "token_inv U w" and "it_tokens (fst w) = []" and "served rt s w w'"
  shows "distinct (map rt_FamilyID (filter live (tokens_of U w'))) \<and>
    distinct (map rt_TokenHash (tokens_of U w')) \<and>
    (\<forall>t \<in> set (tokens_of U w'). \<forall>t' \<in> set (tokens_of U w').
       rt_FamilyID t = rt_FamilyID t' \<longrightarrow> rt_UserID t = rt_UserID t')"
proof -
  have "families_ok (tokens_of U w)" using assms(4) by (simp add: tokens_of_def)
  then have "families_ok (tokens_of U w')"
    using tokens.served_moves [OF assms(5) wired_frame [OF assms(1,2)] wired_store [OF assms(1)]
        wired_finds [OF assms(1)] assms(3)]
    by (simp add: moved_def)
  then show ?thesis unfolding families_ok_def family_user_def by blast
qed

theorem one_live_token_per_family_witness:
  "let w = (demo_tables [], demo_script);
       w' = snd (serve demo_runtime demo_auth (LoginRequest \<lparr>lr_Username = ''bob'', lr_Password = ''pw''\<rparr>) w)
   in distinct (map rt_FamilyID (filter live (tokens_of demo_uuid w')))"
proof -
  let ?w = "(demo_tables [], demo_script)"
  have inv: "token_inv demo_uuid ?w"
    by (simp add: token_inv_def demo_uuid_ok row_families_def demo_script_def demo_tables_def
        uuid_Nil_def)
  have none: "it_tokens (fst ?w) = []" by (simp add: demo_tables_def)
  from one_live_token_per_family [OF demo_wired demo_outside inv none
      served.more [OF served.start]]
  show ?thesis unfolding Let_def by blast
qed

text \<open>
  A family in which no token is live (it was revoked for reuse, or its user logged out)
  never has a live token again, whatever requests follow.
\<close>

theorem dead_family_stays_dead:
  assumes "identity_wired U verify rt s" and "outside_frame (token_inv U) (tokens_of U) rt s"
    and "token_inv U w" and "families_ok (tokens_of U w)" and "dead_family f (tokens_of U w)"
    and "served rt s w w'"
  shows "f \<in> families (tokens_of U w') \<and>
    (\<forall>t \<in> set (tokens_of U w'). rt_FamilyID t = f \<longrightarrow> \<not> live t)"
proof -
  have "token_moves (tokens_of U w) (tokens_of U w')"
    using tokens.served_moves [OF assms(6) wired_frame [OF assms(1,2)] wired_store [OF assms(1)]
        wired_finds [OF assms(1)] assms(3,4)]
    by (simp add: moved_def)
  from token_moves_dead [OF this assms(5)] show ?thesis by (simp add: dead_family_def)
qed

definition demo_dead_world :: "unit id_world" where
  "demo_dead_world = (demo_tables [demo_spent_row], demo_script)"

theorem dead_family_stays_dead_witness:
  "let w' = snd (serve demo_runtime demo_auth (RefreshRequest ''t1'') demo_dead_world)
   in \<forall>t \<in> set (tokens_of demo_uuid w'). rt_FamilyID t = uuid_String demo_uuid 7 \<longrightarrow> \<not> live t"
proof -
  have inv: "token_inv demo_uuid demo_dead_world"
    by (simp add: token_inv_def demo_uuid_ok row_families_def demo_script_def demo_tables_def
        uuid_Nil_def demo_dead_world_def demo_spent_row_def)
  have toks: "tokens_of demo_uuid demo_dead_world = [fromRefreshRow demo_uuid demo_spent_row]"
    by (simp add: tokens_of_def demo_dead_world_def demo_tables_def)
  have ok: "families_ok (tokens_of demo_uuid demo_dead_world)"
    by (simp add: toks families_ok_def family_user_def demo_live)
  have dead: "dead_family (uuid_String demo_uuid 7) (tokens_of demo_uuid demo_dead_world)"
    unfolding toks
    by (simp add: dead_family_def demo_live) (simp add: fromRefreshRow_def demo_spent_row_def)
  from dead_family_stays_dead [OF demo_wired demo_outside inv ok dead served.more [OF served.start]]
  show ?thesis unfolding Let_def by blast
qed

text \<open>
  C4. A refresh token is exchanged for a new pair at most once, over any sequence of
  requests and with other sessions running in between.
\<close>

theorem refresh_token_single_use:
  assumes "identity_wired U verify rt s" and "outside_frame (token_inv U) (tokens_of U) rt s"
    and "token_inv U w" and "families_ok (tokens_of U w)"
  shows "exchanges rt s plain qs w \<le> 1"
  by (rule tokens.exchanges_once [OF wired_frame [OF assms(1,2)] wired_store [OF assms(1)]
        wired_finds [OF assms(1)] assms(3,4)])

theorem refresh_token_single_use_witness:
  "exchanges demo_runtime demo_auth ''t2'' [RefreshRequest ''t2'', RefreshRequest ''t2'']
     demo_world \<le> 1"
  by (rule refresh_token_single_use [OF demo_wired demo_outside demo_inv demo_families])

text \<open>
  C23. Presenting a token that was already used or revoked kills its whole family, reports
  the reuse with the number of tokens that were still unrevoked, and answers what any other
  refusal answers.
\<close>

theorem reuse_kills_family:
  assumes "identity_wired U verify rt s" and "healthy w" and "token_inv U w"
    and "families_ok (tokens_of U w)" and "t \<in> set (tokens_of U w)" and "\<not> live t"
    and "rt_TokenHash t = HashToken plain" and "plain \<noteq> []"
  shows "\<exists>w1. Refresh rt s plain w =
      bindp (au_RefreshReuseDetected (as_audit s) (rt_UserID t) (rt_FamilyID t)
          (int (length (filter (\<lambda>u. rt_FamilyID u = rt_FamilyID t \<and> \<not> rt_Revoked u)
            (tokens_of U w))))
          None) (\<lambda>_. retp (Inl ErrRefreshTokenInvalid)) w1 \<and>
    dead_family (rt_FamilyID t) (tokens_of U w1)"
  by (rule Refresh_spent [OF assms])

theorem reuse_kills_family_witness:
  "\<exists>w1. Refresh demo_runtime demo_auth ''t1'' demo_world = (Ret (Inl ErrRefreshTokenInvalid), w1) \<and>
     dead_family (uuid_String demo_uuid 7) (tokens_of demo_uuid w1)"
proof -
  let ?t = "fromRefreshRow demo_uuid demo_spent_row"
  have sel: "rt_TokenHash ?t = HashToken ''t1''" "rt_FamilyID ?t = uuid_String demo_uuid 7"
    by (simp_all add: fromRefreshRow_def demo_spent_row_def)
  have "?t \<in> set (tokens_of demo_uuid demo_world)" by (simp add: demo_tokens)
  from reuse_kills_family [OF demo_wired demo_healthy demo_inv demo_families this demo_live(1) sel(1)]
  show ?thesis by (auto simp: sel NopAuditor_def)
qed

text \<open>
  A refresh whose token cannot be used answers the same error, whatever the reason: a
  token never issued, expired, spent or revoked, a store that failed, a revocation that
  failed.
\<close>

theorem refusals_look_alike:
  assumes "rsp_FindValid (as_tokenStore s) (HashToken plain) w = (Ret found, w1)"
    and "found = Inr None \<or> (\<exists>e. found = Inl e)"
    and "Refresh rt s plain w = (Ret answer, w')"
  shows "answer = Inl ErrRefreshTokenInvalid"
proof -
  have "e = ErrRefreshTokenInvalid"
    if "handleUnusableRefreshToken s h v = (Ret e, v')" for e h v v'
    using that unfolding handleUnusableRefreshToken_def revokeFamilyForReuse_def
    by (elim runE) simp_all
  with assms show ?thesis
    by (cases "plain = []") (auto simp: Refresh_def Let_def bindp_eq_Ret)
qed

theorem refusals_look_alike_witness:
  "\<exists>w'. Refresh demo_runtime demo_auth ''t1'' demo_world = (Ret (Inl ErrRefreshTokenInvalid), w')"
proof -
  let ?t = "fromRefreshRow demo_uuid demo_spent_row"
  have h: "rt_TokenHash ?t = HashToken ''t1''" by (simp add: fromRefreshRow_def demo_spent_row_def)
  have mem: "?t \<in> set (tokens_of demo_uuid demo_world)" by (simp add: demo_tokens)
  obtain e w1 where fv: "rsp_FindValid (as_tokenStore demo_auth) (HashToken ''t1'') demo_world = (Ret (Inl e), w1)"
    using FindValid_spent [OF demo_healthy demo_families mem demo_live(1)] h
    by (auto simp: tokens_repo_def)
  obtain w' answer where run: "Refresh demo_runtime demo_auth ''t1'' demo_world = (Ret answer, w')"
    using Refresh_spent [OF demo_wired demo_healthy demo_inv demo_families mem demo_live(1) h]
    by (auto simp: NopAuditor_def)
  from refusals_look_alike [OF fv _ run] run show ?thesis by blast
qed

text \<open>
  A rotation that succeeds retires the presented token and adds its one successor, in
  the same family and for the same user; one that fails changes no token, except that a failed
  commit may have taken effect.
\<close>

theorem rotate_swaps_tokens:
  assumes "token_inv U w" and "rt_FamilyID n \<in> families (tokens_of U w)"
    and "rt_UserID n \<in> rt_UserID ` set (tokens_of U w)" and "tokens_Rotate U h n w = (r, w')"
  shows "if r = Ret None then
      (\<exists>t \<in> set (tokens_of U w). rt_TokenHash t = h \<and> live t) \<and>
      (\<exists>n'. tokens_of U w' = map (retire h) (tokens_of U w) @ [n'] \<and> live n' \<and>
         rt_TokenHash n' = rt_TokenHash n \<and> rt_ExpiresAt n' = rt_ExpiresAt n \<and>
         rt_FamilyID n' = rt_FamilyID n \<and> rt_UserID n' = rt_UserID n)
    else tokens_of U w' = tokens_of U w \<or>
      (\<exists>err. r = Ret (Some (Errorf ''commit tx: %w'' [] [err]))) \<and>
      rotated h n (tokens_of U w) (tokens_of U w')"
  using tokens_Rotate_run [OF assms(1) _ assms(4)] assms(2,3)
  by (auto simp: known_family_def new_token_def rotated_def)

definition demo_next :: refresh_token where
  "demo_next =
     \<lparr>rt_UserID = uuid_String demo_uuid 5, rt_TokenHash = ''h3'', rt_ExpiresAt = 2000,
      rt_FamilyID = uuid_String demo_uuid 7, rt_Used = False, rt_Revoked = False\<rparr>"

theorem rotate_swaps_tokens_witness:
  "\<exists>n'. tokens_of demo_uuid (snd (tokens_Rotate demo_uuid ''h2'' demo_next demo_world)) =
     map (retire ''h2'') (tokens_of demo_uuid demo_world) @ [n'] \<and> live n' \<and>
     rt_TokenHash n' = ''h3''"
proof -
  have fam: "rt_FamilyID demo_next \<in> families (tokens_of demo_uuid demo_world)"
    by (simp add: demo_next_def demo_tokens fromRefreshRow_def demo_live_row_def)
  have usr: "rt_UserID demo_next \<in> rt_UserID ` set (tokens_of demo_uuid demo_world)"
    by (simp add: demo_next_def demo_tokens fromRefreshRow_def demo_live_row_def)
  have h3: "HashToken ''t1'' \<noteq> ''h3''"
  proof -
    have "length (HashToken ''t1'') \<noteq> length ''h3''" by (simp add: length_HashToken)
    then show ?thesis by metis
  qed
  have "fst (tokens_Rotate demo_uuid ''h2'' demo_next demo_world) = Ret None"
    using h3 demo_uuid_ok
    by (simp add: tokens_Rotate_def toRefreshRow_def demo_next_def bindp_def drawn_uuid_def
        demo_world_def demo_script_def InTx_def deferp_def with_conn_def on_conn_def
        conn_BeginTx_def conn_tx_def conn_Commit_def conn_Rollback_def next_stmt_def quiet_def rotate_tx_def
        affected_err_def demo_tables_def usable_row_def demo_spent_row_def demo_live_row_def
        exec_insert_token_def insert_token_def or_default_def retire_row_def demo_user_def
        uuid_Nil_def Let_def)
  then obtain w' where run: "tokens_Rotate demo_uuid ''h2'' demo_next demo_world = (Ret None, w')"
    by (metis prod.collapse)
  from rotate_swaps_tokens [OF demo_inv fam usr run] run show ?thesis
    by (auto simp: demo_next_def)
qed

text \<open>
  A logout that succeeds ends every session of the user: each token the user had when
  it began is dead when it returns.
\<close>

theorem logout_ends_sessions:
  assumes "identity_wired U verify rt s" and "outside_frame (token_inv U) (tokens_of U) rt s"
    and "token_inv U w" and "families_ok (tokens_of U w)"
    and "t \<in> set (tokens_of U w)" and "rt_UserID t = u" and "Logout s u w = (Ret None, w')"
  shows "\<exists>t' \<in> set (tokens_of U w'). rt_TokenHash t' = rt_TokenHash t \<and> \<not> live t'"
proof -
  obtain w1 where rev: "tokens_RevokeAllForUser U u w = (Ret None, w1)"
    and aud: "au_LogoutSucceeded (as_audit s) u w1 = (Ret (), w')"
    using assms(7) unfolding Logout_def wired_store [OF assms(1)]
    by (elim runE) (simp_all add: tokens_repo_def)
  have u: "u \<in> rt_UserID ` set (tokens_of U w)" using assms(5,6) by blast
  note run = tokens_RevokeAllForUser_run [OF assms(3) rev]
  have "revoke_if (\<lambda>t. rt_UserID t = u) t \<in> set (tokens_of U w1)" using run u assms(5) by simp
  moreover have "token_moves (tokens_of U w1) (tokens_of U w')"
    using auth_frameD(16) [OF wired_frame [OF assms(1,2)], of u] run aud
    unfolding interferes_def by (metis snd_conv)
  ultimately obtain t' where "t' \<in> set (tokens_of U w')" "same_token (revoke_if (\<lambda>t. rt_UserID t = u) t) t'"
    using token_moves_keeps by blast
  with assms(6) show ?thesis by (auto simp: same_token_def intro!: bexI [of _ t'])
qed

theorem logout_ends_sessions_witness:
  "\<exists>w'. Logout demo_auth (uuid_String demo_uuid 5) demo_world = (Ret None, w') \<and>
     (\<exists>t' \<in> set (tokens_of demo_uuid w'). rt_TokenHash t' = ''h2'' \<and> \<not> live t')"
proof -
  let ?t = "fromRefreshRow demo_uuid demo_live_row"
  have t: "?t \<in> set (tokens_of demo_uuid demo_world)" "rt_UserID ?t = uuid_String demo_uuid 5"
      "rt_TokenHash ?t = ''h2''"
    by (simp_all add: demo_tokens fromRefreshRow_def demo_live_row_def)
  obtain w' where run: "Logout demo_auth (uuid_String demo_uuid 5) demo_world = (Ret None, w')"
    using demo_uuid_ok by (auto simp: Logout_def tokens_repo_def tokens_RevokeAllForUser_def
        next_stmt_def demo_script_def quiet_def bindp_def NopAuditor_def)
  from logout_ends_sessions [OF demo_wired demo_outside demo_inv demo_families t(1,2) run] run t(3)
  show ?thesis by auto
qed

section \<open>Login and the second factor\<close>

text \<open>
  C24. Guessing passwords: with the clock standing still, an account accepts exactly as many
  wrong passwords as the budget has left, and from then on every attempt, with whatever
  password, answers that the account is locked.
\<close>

theorem brute_force_locked_out:
  assumes "still_service now rt s" and "account w u" and "\<not> locked_at now u"
    and "0 \<le> u_FailedLoginAttempts u" and "u_FailedLoginAttempts u < ac_MaxFailedAttempts (as_cfg s)"
    and "ac_MaxFailedAttempts (as_cfg s) < 2 ^ 31" and "0 < sint (ac_LockDuration (as_cfg s))"
    and "\<forall>req \<in> set reqs. names w req u"
    and "k = nat (ac_MaxFailedAttempts (as_cfg s) - u_FailedLoginAttempts u)"
    and "\<forall>req \<in> set (take k reqs). wrong_password s req u"
  shows "\<exists>w'. attempts rt s reqs w =
    (Ret (replicate (min k (length reqs)) (Inl (LoginErr ErrInvalidCredentials)) @
          replicate (length reqs - k) (Inl (LoginErr ErrAccountLocked))), w')"
  by (rule attempts_run [OF assms(1-8,10,9)])

theorem brute_force_locked_out_witness:
  "\<exists>w'. attempts demo_runtime demo_auth
       [\<lparr>lr_Username = ''bob'', lr_Password = ''a''\<rparr>, \<lparr>lr_Username = ''bob'', lr_Password = ''b''\<rparr>,
        \<lparr>lr_Username = ''bob'', lr_Password = ''pw''\<rparr>] demo_world =
     (Ret [Inl (LoginErr ErrInvalidCredentials), Inl (LoginErr ErrInvalidCredentials),
           Inl (LoginErr ErrAccountLocked)], w')"
proof -
  let ?reqs = "[\<lparr>lr_Username = ''bob'', lr_Password = ''a''\<rparr>, \<lparr>lr_Username = ''bob'', lr_Password = ''b''\<rparr>,
        \<lparr>lr_Username = ''bob'', lr_Password = ''pw''\<rparr>]"
  have nl: "\<not> locked_at 3 demo_user" and cnt: "u_FailedLoginAttempts demo_user = 0"
    by (simp_all add: locked_at_def demo_user_def)
  have names: "\<forall>req \<in> set ?reqs. names demo_world req demo_user"
    by (simp add: names_def demo_user_def)
  have wrong: "\<forall>req \<in> set (take (nat (2 - 0)) ?reqs). wrong_password demo_auth req demo_user"
    by (simp add: wrong_password_def demo_auth_def NewAuthService_def BcryptHasher_def demo_user_def)
  have dur: "0 < sint (ac_LockDuration (as_cfg demo_auth))" by simp
  have max: "ac_MaxFailedAttempts (as_cfg demo_auth) < 2 ^ 31" by simp
  from brute_force_locked_out [OF demo_still demo_account nl _ _ max dur names refl] cnt wrong
  show ?thesis by (simp add: numeral_2_eq_2)
qed

text \<open>
  C13. A login hands out tokens only for an account that was found, was not locked, whose
  password verified, that needs no second factor, and whose failure counter was reset in
  the store.
\<close>

theorem login_needs_password:
  assumes "Login rt s req w = (Ret (Inr resp), w')"
  shows "\<exists>user w1 w2 w3 w4.
    urp_FindByUsername (as_userRepo s) (lr_Username req) w = (Ret (Inr user), w1) \<and>
    IsLocked (rn_Now rt) user w1 = (Ret False, w2) \<and>
    php_Verify (as_passwordHasher s) (lr_Password req) (u_PasswordHash user) w2 = (Ret True, w3) \<and>
    urp_Save (as_userRepo s) (ResetFailedLogins user) w3 = (Ret None, w4) \<and>
    \<not> u_MFAEnabled user"
proof -
  obtain user w1 w2 w3 where
      found: "urp_FindByUsername (as_userRepo s) (lr_Username req) w = (Ret (Inr user), w1)"
        "IsLocked (rn_Now rt) user w1 = (Ret False, w2)"
        "php_Verify (as_passwordHasher s) (lr_Password req) (u_PasswordHash user) w2 = (Ret True, w3)"
      and acc: "login_accepted rt s user w3 = (Ret (Inr resp), w')"
    using assms unfolding Login_def login_rejected_def by (elim runE) simp_all
  from acc obtain w4 where "urp_Save (as_userRepo s) (ResetFailedLogins user) w3 = (Ret None, w4)"
      "\<not> u_MFAEnabled (ResetFailedLogins user)"
    unfolding login_accepted_def Let_def by (elim runE) simp_all
  with found show ?thesis by (auto simp: ResetFailedLogins_def)
qed

definition demo_fresh :: "unit id_world" where
  "demo_fresh = (demo_tables [], demo_script)"

lemmas demo_run =
  demo_fresh_def demo_tables_def demo_script_def demo_runtime_def demo_issuer_def demo_user_def
  users_repo_def tokens_repo_def codes_repo_def users_find_def users_FindByUsername_def
  users_FindByID_def users_Save_def upsert_user_def scan_first_def next_stmt_def quiet_def
  toDomainUser_def fromDomainUser_def deref_def nilIfEmpty_def or_default_def uuid_Nil_def
  int4_def update_user_def generateRandomToken_def tokens_Store_def toRefreshRow_def drawn_uuid_def
  exec_insert_token_def insert_token_def NopAuditor_def bindp_def Let_def

lemma demo_passwords:
  "php_Verify (as_passwordHasher demo_auth) p h = retp (h = p)"
  "as_mfaService demo_auth =
     TOTPService (\<lambda>i e. retp (Inr (''s'', ''q''))) (\<lambda>c k. retp (c = k)) ''kopiochi''"
  by (simp_all add: demo_auth_def NewAuthService_def BcryptHasher_def)

theorem login_needs_password_witness:
  "\<exists>user w1 w2 w3.
     urp_FindByUsername (users_repo demo_uuid) ''bob'' demo_fresh = (Ret (Inr user), w1) \<and>
     IsLocked (retp 3) user w1 = (Ret False, w2) \<and> retp (u_PasswordHash user = ''pw'') w2 = (Ret True, w3)"
proof -
  let ?req = "\<lparr>lr_Username = ''bob'', lr_Password = ''pw''\<rparr>"
  have "\<exists>resp. fst (Login demo_runtime demo_auth ?req demo_fresh) = Ret (Inr resp)"
    using demo_uuid_ok
    by (simp add: Login_def login_accepted_def issueFullTokens_def IsLocked_def demo_passwords
        ResetFailedLogins_def demo_run)
  then obtain resp w' where "Login demo_runtime demo_auth ?req demo_fresh = (Ret (Inr resp), w')"
    by (metis prod.collapse)
  from login_needs_password [OF this] show ?thesis
    by (auto simp: demo_passwords demo_runtime_def)
qed

text \<open>
  C8. A second-factor login hands out tokens only for a token of class mfa and, with the
  TOTP service, only if a code was checked against a non-empty secret of the account it
  names, or one of its backup codes was found and spent.
\<close>

theorem mfa_needs_second_factor:
  assumes "VerifyMFA rt s tok req w = (Ret (Inr resp), w')"
    and "as_mfaService s = TOTPService gen validate issuer"
  shows "\<exists>cl user w1 w2 w3.
    tip_Validate (as_tokenIssuer s) tok ClassMFA w = (Ret (Inr cl), w1) \<and>
    urp_FindByID (as_userRepo s) (cl_Subject cl) w1 = (Ret (Inr user), w2) \<and>
    (if mv_Code req \<noteq> [] then u_MFASecret user \<noteq> [] \<and>
       validate (mv_Code req) (u_MFASecret user) w2 = (Ret True, w3)
     else mv_BackupCode req \<noteq> [] \<and>
       msp_FindAndUseBackupCode (as_mfaStore s) (uuid_String (rn_uuid rt) (u_ID user))
         (mv_BackupCode req) w2 = (Ret (Inr True), w3))"
proof -
  obtain cl user w1 w2 w3 where
      run: "tip_Validate (as_tokenIssuer s) tok ClassMFA w = (Ret (Inr cl), w1)"
        "urp_FindByID (as_userRepo s) (cl_Subject cl) w1 = (Ret (Inr user), w2)"
      and sf: "second_factor rt s user req w2 = (Ret True, w3)"
    using assms(1) unfolding VerifyMFA_def by (elim runE) simp_all
  show ?thesis
  proof (cases "mv_Code req = []")
    case True
    with sf have "mv_BackupCode req \<noteq> []" "msp_FindAndUseBackupCode (as_mfaStore s)
        (uuid_String (rn_uuid rt) (u_ID user)) (mv_BackupCode req) w2 = (Ret (Inr True), w3)"
      unfolding second_factor_def by (auto elim!: runE split: if_splits)
    with run True show ?thesis by auto
  next
    case False
    with sf assms(2) have "u_MFASecret user \<noteq> []" "validate (mv_Code req) (u_MFASecret user) w2 = (Ret True, w3)"
      by (auto simp: second_factor_def TOTPService_def TOTP_ValidateCode_def split: if_splits)
    with run False show ?thesis by auto
  qed
qed

theorem mfa_needs_second_factor_witness:
  "\<exists>user w2 w3.
     urp_FindByID (users_repo demo_uuid) (uuid_String demo_uuid 5) demo_fresh = (Ret (Inr user), w2) \<and>
     msp_FindAndUseBackupCode (codes_repo demo_uuid (=)) (uuid_String demo_uuid (u_ID user)) ''c'' w2 =
       (Ret (Inr True), w3)"
proof -
  let ?req = "\<lparr>mv_Code = [], mv_BackupCode = ''c''\<rparr>"
  have "\<exists>resp. fst (VerifyMFA demo_runtime demo_auth ''m'' ?req demo_fresh) = Ret (Inr resp)"
    using demo_uuid_ok
    by (simp add: VerifyMFA_def second_factor_def issueFullTokens_def mfa_FindAndUseBackupCode_def
        demo_code_def demo_run)
  then obtain resp w' where "VerifyMFA demo_runtime demo_auth ''m'' ?req demo_fresh = (Ret (Inr resp), w')"
    by (metis prod.collapse)
  from mfa_needs_second_factor [OF this demo_passwords(2)] show ?thesis
    by (auto simp: demo_issuer_def demo_runtime_def)
qed

section \<open>Users and backup codes\<close>

text \<open>
  The users table is a map from ids to users: saving a user is the map update, it
  keeps the uniqueness of ids, names and addresses, and a lookup then returns the user
  that was saved.
\<close>

theorem save_updates_map:
  assumes "healthy w" and "users_inv w" and "u_ID u \<noteq> uuid_Nil" and "uuid_pkg_ok U"
    and "users_Save u w = (Ret None, w')"
  shows "user_at w' = (user_at w)(u_ID u \<mapsto> u) \<and> users_inv w' \<and>
    (\<exists>w''. users_FindByID U (uuid_String U (u_ID u)) w' = (Ret (Inr u), w''))"
proof -
  note saved = users_Save_at [OF assms(1-3,5)]
  have "user_at w' (u_ID u) = Some u" using saved(1) by simp
  from FindByID_ok [OF healthy_stmts [OF assms(1) saved(3)] saved(2) this assms(4)] saved(1,2)
  show ?thesis by blast
qed

theorem save_updates_map_witness:
  "\<exists>w'. users_Save (demo_user\<lparr>u_Name := ''Bob''\<rparr>) demo_world = (Ret None, w') \<and>
     user_at w' = (user_at demo_world)(5 \<mapsto> demo_user\<lparr>u_Name := ''Bob''\<rparr>)"
proof -
  let ?u = "demo_user\<lparr>u_Name := ''Bob''\<rparr>"
  have inv: "users_inv demo_world" and at: "user_at demo_world (u_ID ?u) = Some demo_user"
    and nil: "u_ID ?u \<noteq> uuid_Nil" and five: "u_ID ?u = 5"
    using demo_account by (simp_all add: account_def) (simp add: demo_user_def)
  obtain w' where run: "users_Save ?u demo_world = (Ret None, w')"
    using users_Save_accepts [OF demo_healthy at inv nil]
    by (auto simp: int4_def demo_user_def)
  from save_updates_map [OF demo_healthy inv nil demo_uuid_ok run] run five
  show ?thesis by auto
qed

text \<open>
  A backup code that is accepted spends exactly one unused code of that user, so one
  unused code fewer is left; a code that is not accepted changes nothing.
\<close>

theorem backup_code_spent_once:
  assumes "codes_inv w" and "mfa_FindAndUseBackupCode U verify i plain w = (r, w')"
  shows "if r = Ret (Inr True) then
      (\<exists>c. uuid_Parse U i = Inr (br_UserID c) \<and> verify plain (br_CodeHash c) \<and>
         spent c (it_codes (fst w)) (it_codes (fst w'))) \<and>
      length (filter (\<lambda>c. \<not> br_Used c) (it_codes (fst w))) =
        Suc (length (filter (\<lambda>c. \<not> br_Used c) (it_codes (fst w'))))
    else fst w' = fst w"
proof (cases "r = Ret (Inr True)")
  case True
  then obtain c where c: "uuid_Parse U i = Inr (br_UserID c)" "verify plain (br_CodeHash c)"
      "spent c (it_codes (fst w)) (it_codes (fst w'))"
    using FindAndUse_spends [OF assms(1) assms(2) [unfolded True]] by blast
  have "distinct (it_codes (fst w))" using assms(1) by (simp add: codes_inv_def distinct_map)
  from spent_unused [OF c(3) this] c True show ?thesis by auto
qed (use FindAndUse_refuses [OF assms(2)] in simp)

theorem backup_code_spent_once_witness:
  "length (filter (\<lambda>c. \<not> br_Used c) (it_codes (fst (snd (mfa_FindAndUseBackupCode demo_uuid (=)
     (uuid_String demo_uuid 5) ''c'' demo_world))))) = 0"
proof -
  have "fst (mfa_FindAndUseBackupCode demo_uuid (=) (uuid_String demo_uuid 5) ''c'' demo_world) =
      Ret (Inr True)"
    using demo_uuid_ok by (simp add: mfa_FindAndUseBackupCode_def next_stmt_def demo_script_def
        quiet_def demo_code_def)
  then obtain w' where run: "mfa_FindAndUseBackupCode demo_uuid (=) (uuid_String demo_uuid 5) ''c''
      demo_world = (Ret (Inr True), w')"
    by (metis prod.collapse)
  from backup_code_spent_once [OF demo_codes run] run show ?thesis
    by (simp add: demo_code_def)
qed

end
