(* ===== verification/Backoff.thy ===== *)
theory Backoff
  imports GoFloat
begin

text \<open>
  The retry schedule of \<open>modules/notification/domain/notification.go\<close>: \<open>scaleBase\<close> doubles
  a base delay with saturation, \<open>Backoff\<close> clamps it into \<open>[0, cap]\<close>, \<open>BackoffWithJitter\<close>
  spreads it over the top half of its range. Durations are 64-bit words, shifts are the
  machine's; the theorems restate them over the mathematical integers.
\<close>

section \<open>The schedule\<close>

definition MaxInt64 :: duration where
  "MaxInt64 = 9223372036854775807"

definition scaleBase :: "int \<Rightarrow> duration \<Rightarrow> duration" where
  "scaleBase attempt base =
     (if sint base \<le> 0 then 0
      else if attempt \<le> 0 then base
      else if 63 \<le> attempt then MaxInt64
      else if sint (signed_drop_bit (nat attempt) MaxInt64) < sint base then MaxInt64
      else push_bit (nat attempt) base)"

definition Backoff :: "int \<Rightarrow> duration \<Rightarrow> duration \<Rightarrow> duration" where
  "Backoff attempt base cap =
     (let d = scaleBase attempt base;
          d = (if sint cap < sint d then cap else d)
      in if sint d < 0 then 0 else d)"

text \<open>
  A jitter source is a program yielding a float; \<open>None\<close> is the nil interface. The source
  is asked for a draw only when there is a delay to spread.
\<close>

definition BackoffWithJitter ::
  "int \<Rightarrow> duration \<Rightarrow> duration \<Rightarrow> ('w, float64) prog option \<Rightarrow> ('w, duration) prog" where
  "BackoffWithJitter attempt base cap src =
     (let d = Backoff attempt base cap in
      case src of
        None \<Rightarrow> retp d
      | Some Float64 \<Rightarrow>
          (if sint d \<le> 0 then retp d
           else let half = word_of_int (sint d div 2) in
             bindp Float64 (\<lambda>f.
               let f = (if float_neg f then Float 0 0 else f);
                   f = (if float_ge_one f then float_below_one else f)
               in retp (half + word_of_int (int (float_mul_trunc f (float_of_nat (nat (sint (d - half)))))))))) "

section \<open>The schedule over the integers\<close>

lemma sint_MaxInt64: "sint MaxInt64 = MaxDuration"
  by (simp add: MaxInt64_def MaxDuration_def)

lemma sint_shifted_MaxInt64: "sint (signed_drop_bit n MaxInt64) = MaxDuration div 2 ^ n"
  by (simp add: sint_signed_drop_bit_eq sint_MaxInt64 drop_bit_eq_div)

lemma sint_push_bit_duration:
  assumes "0 \<le> sint (b :: duration)" and "sint b * 2 ^ n \<le> MaxDuration"
  shows "sint (push_bit n b) = sint b * 2 ^ n"
proof -
  have eq: "push_bit n b = word_of_int (sint b * 2 ^ n)"
    by (simp add: push_bit_eq_mult)
  have "- (2 ^ 63) \<le> (0 :: int)" by simp
  also have "0 \<le> sint b * 2 ^ n" using assms(1) by simp
  finally have "- (2 ^ 63) \<le> sint b * 2 ^ n" .
  then show ?thesis unfolding eq using assms(2) by (rule sint_word_of_int_duration)
qed

lemma sint_scaleBase:
  "sint (scaleBase attempt base) =
     (if sint base \<le> 0 then 0 else min MaxDuration (sint base * 2 ^ nat attempt))"
proof -
  have le: "sint base \<le> MaxDuration" by (rule sint_duration_bounds)
  consider "sint base \<le> 0" | "0 < sint base" "attempt \<le> 0" | "0 < sint base" "63 \<le> attempt"
    | "0 < sint base" "0 < attempt" "attempt < 63" "MaxDuration div 2 ^ nat attempt < sint base"
    | "0 < sint base" "0 < attempt" "attempt < 63" "sint base \<le> MaxDuration div 2 ^ nat attempt"
    by linarith
  then show ?thesis
  proof cases
    case 3
    have "MaxDuration \<le> 1 * 2 ^ 63" by (simp add: MaxDuration_def)
    also have "\<dots> \<le> sint base * 2 ^ nat attempt"
      using 3 by (intro mult_mono power_increasing) auto
    finally show ?thesis using 3 by (simp add: scaleBase_def sint_MaxInt64 min_def)
  next
    case 4
    have "MaxDuration mod 2 ^ nat attempt < 2 ^ nat attempt" by simp
    then have "MaxDuration < (MaxDuration div 2 ^ nat attempt + 1) * 2 ^ nat attempt"
      using div_mult_mod_eq [of MaxDuration "2 ^ nat attempt"] by (simp only: distrib_right)
    also have "\<dots> \<le> sint base * 2 ^ nat attempt" using 4 by (intro mult_right_mono) auto
    finally have "MaxDuration < sint base * 2 ^ nat attempt" .
    with 4 show ?thesis by (simp add: scaleBase_def sint_MaxInt64 sint_shifted_MaxInt64)
  next
    case 5
    then have "sint base * 2 ^ nat attempt \<le> (MaxDuration div 2 ^ nat attempt) * 2 ^ nat attempt"
      by (intro mult_right_mono) auto
    also have "0 \<le> MaxDuration mod 2 ^ nat attempt" by simp
    then have "(MaxDuration div 2 ^ nat attempt) * 2 ^ nat attempt \<le> MaxDuration"
      using div_mult_mod_eq [of MaxDuration "2 ^ nat attempt"] by linarith
    finally have "sint base * 2 ^ nat attempt \<le> MaxDuration" .
    with 5 show ?thesis
      by (simp add: scaleBase_def sint_MaxInt64 sint_shifted_MaxInt64 sint_push_bit_duration)
  qed (use le in \<open>simp_all add: scaleBase_def\<close>)
qed

lemma sint_Backoff:
  "sint (Backoff attempt base cap) =
     (if sint base \<le> 0 then 0 else max 0 (min (sint cap) (sint base * 2 ^ nat attempt)))"
  using sint_duration_bounds(2) [of cap]
  by (auto simp: Backoff_def Let_def sint_scaleBase min_def max_def)

lemma Backoff_nonneg: "0 \<le> sint (Backoff attempt base cap)"
  by (simp add: sint_Backoff)

lemma Backoff_le_cap: "0 \<le> sint cap \<Longrightarrow> sint (Backoff attempt base cap) \<le> sint cap"
  by (simp add: sint_Backoff)

lemma Backoff_pos: "0 < sint base \<Longrightarrow> 0 < sint cap \<Longrightarrow> 0 < sint (Backoff attempt base cap)"
  by (simp add: sint_Backoff)

section \<open>Jitter stays in the top half\<close>

lemma float_below_one_wf: "float_wf float_below_one" "\<not> float_neg float_below_one" "\<not> float_ge_one float_below_one"
  by (simp_all add: float_below_one_def)

lemma jitter_offset_less:
  assumes "float_wf f" and "0 < n"
  shows "float_mul_trunc
           (let f = (if float_neg f then Float 0 0 else f)
            in if float_ge_one f then float_below_one else f) (float_of_nat n) < n"
  using assms float_below_one_wf
  by (auto simp: Let_def intro!: float_mul_trunc_less)

lemma jittered_bounds:
  assumes d: "0 < sint (d :: duration)"
    and k: "int k < sint d - sint d div 2"
    and r: "(r :: duration) = word_of_int (sint d div 2) + word_of_int (int k)"
  shows "sint d div 2 \<le> sint r" and "sint r < sint d"
proof -
  have "sint d \<le> MaxDuration" by (rule sint_duration_bounds)
  with d k have "sint (word_of_int (sint d div 2 + int k) :: duration) = sint d div 2 + int k"
    by (intro sint_word_of_int_duration) auto
  then have "sint r = sint d div 2 + int k" by (simp only: r of_int_add)
  with d k show "sint d div 2 \<le> sint r" "sint r < sint d" by auto
qed

text \<open>The delay a jittered backoff returns, for every source that returns a float64.\<close>

lemma BackoffWithJitter_bounds:
  assumes run: "BackoffWithJitter attempt base cap src w = (Ret r, w')"
    and src: "\<And>g w f w'. src = Some g \<Longrightarrow> g w = (Ret f, w') \<Longrightarrow> float_wf f"
    and d: "d = Backoff attempt base cap"
  shows "sint d div 2 \<le> sint r \<and> sint r \<le> sint d \<and> (src \<noteq> None \<and> 0 < sint d \<longrightarrow> sint r < sint d)"
proof (cases "src = None \<or> sint d \<le> 0")
  case True
  then have "r = d" using run d
    by (auto simp: BackoffWithJitter_def Let_def retp_def split: option.splits if_splits)
  then show ?thesis using True Backoff_nonneg [of attempt base cap] d by auto
next
  case False
  then obtain g where g: "src = Some g" and pos: "0 < sint d" by auto
  let ?half = "word_of_int (sint d div 2) :: duration"
  let ?n = "nat (sint (d - ?half))"
  have half: "sint ?half = sint d div 2"
    using pos sint_duration_bounds(2) [of d] by (intro sint_word_of_int_duration) auto
  have "sint (word_of_int (sint d - sint d div 2) :: duration) = sint d - sint d div 2"
    using pos sint_duration_bounds(2) [of d] by (intro sint_word_of_int_duration) auto
  then have n: "int ?n = sint d - sint d div 2" and "0 < ?n" using pos by simp_all
  from run g pos d obtain f w1 where
    f: "g w = (Ret f, w1)" and
    r: "r = ?half + word_of_int (int (float_mul_trunc
          (let f = (if float_neg f then Float 0 0 else f)
            in if float_ge_one f then float_below_one else f) (float_of_nat ?n)))"
    by (auto simp: BackoffWithJitter_def Let_def retp_def bindp_eq_Ret)
  have "float_wf f" using src g f by blast
  note less = jitter_offset_less [OF this \<open>0 < ?n\<close>]
  then have "int (float_mul_trunc (let f = (if float_neg f then Float 0 0 else f)
      in if float_ge_one f then float_below_one else f) (float_of_nat ?n)) < sint d - sint d div 2"
    using n by linarith
  from jittered_bounds [OF pos this r] show ?thesis by linarith
qed

end
