(* ===== verification/GoUtf8.thy ===== *)
theory GoUtf8
  imports Prelude
begin

text \<open>
  \<open>unicode/utf8.ValidString\<close> on byte strings (an Isabelle \<open>char\<close> is a byte), with the
  standard library's table of first bytes and of the accepted ranges of the second, and
  the facts a byte-wise truncation needs: a prefix cut at most three bytes earlier is
  valid, and the loop that drops bytes until the rest is valid finds the longest valid
  prefix.
\<close>

section \<open>Validity\<close>

definition byte :: "char \<Rightarrow> nat" where
  "byte c = of_char c"

definition in_range :: "nat \<Rightarrow> nat \<Rightarrow> char \<Rightarrow> bool" where
  "in_range lo hi c \<longleftrightarrow> lo \<le> byte c \<and> byte c \<le> hi"

definition cont_byte :: "char \<Rightarrow> bool" where
  "cont_byte c \<longleftrightarrow> in_range 128 191 c"

definition first_size :: "char \<Rightarrow> nat" where
  \<comment> \<open>the length of the rune a first byte announces, 0 for a byte that starts none\<close>
  "first_size c =
     (let b = byte c in
      if b < 128 then 1 else if b < 194 then 0 else if b < 224 then 2
      else if b < 240 then 3 else if b < 245 then 4 else 0)"

definition second_ok :: "char \<Rightarrow> char \<Rightarrow> bool" where
  "second_ok c d =
     (let b = byte c in
      if b = 224 then in_range 160 191 d
      else if b = 237 then in_range 128 159 d
      else if b = 240 then in_range 144 191 d
      else if b = 244 then in_range 128 143 d
      else cont_byte d)"

definition rune_len :: "string \<Rightarrow> nat" where
  \<comment> \<open>the length of the valid rune the string starts with, 0 if there is none\<close>
  "rune_len s =
     (case s of [] \<Rightarrow> 0 | c # cs \<Rightarrow>
        let k = first_size c in
        if k = 1 then 1
        else if k \<noteq> 0 \<and> k \<le> length s \<and> second_ok c (s ! 1) \<and> list_all cont_byte (take (k - 2) (drop 2 s))
        then k else 0)"

function ValidString :: "string \<Rightarrow> bool" where
  "ValidString s =
     (if s = [] then True
      else if rune_len s = 0 then False
      else ValidString (drop (rune_len s) s))"
  by pat_completeness auto
termination
  by (relation "measure length") auto

declare ValidString.simps [simp del]

lemma ValidString_Nil [simp]: "ValidString []"
  by (simp add: ValidString.simps)

lemma ValidString_iff:
  "s \<noteq> [] \<Longrightarrow> ValidString s \<longleftrightarrow> rune_len s \<noteq> 0 \<and> ValidString (drop (rune_len s) s)"
  by (subst ValidString.simps) simp

lemma first_size_le: "first_size c \<le> 4"
  by (simp add: first_size_def Let_def)

lemma rune_len_le_4: "rune_len s \<le> 4"
  using first_size_le by (auto simp: rune_len_def Let_def split: list.splits)

lemma rune_len_le_length: "rune_len s \<le> length s"
  by (auto simp: rune_len_def Let_def split: list.splits)

text \<open>Whether a rune is valid depends on its own bytes only.\<close>

lemma rune_len_take:
  assumes "rune_len s \<noteq> 0" and "rune_len s \<le> n"
  shows "rune_len (take n s) = rune_len s"
proof (cases s)
  case Nil
  then show ?thesis by simp
next
  case (Cons c cs)
  let ?k = "first_size c"
  show ?thesis
  proof (cases "?k = 1")
    case True
    then show ?thesis using assms Cons by (cases n) (auto simp: rune_len_def Let_def)
  next
    case False
    with assms Cons have k: "?k \<noteq> 0" "?k \<le> length s" "rune_len s = ?k"
      by (auto simp: rune_len_def Let_def split: if_splits)
    with False assms(2) have n: "2 \<le> n" "?k \<le> n" by auto
    then obtain m where m: "n = Suc m" by (cases n) auto
    have "take (?k - 2) (drop 2 (take n s)) = take (?k - 2) (drop 2 s)"
      using n by (simp add: drop_take min_def)
    moreover have "take n s ! 1 = s ! 1" using n by simp
    moreover have "take n s = c # take m cs" using Cons m by simp
    moreover have "?k \<le> length (take n s)" using n k by simp
    moreover have "second_ok c (s ! 1)" "list_all cont_byte (take (?k - 2) (drop 2 s))"
      using False assms(1) Cons by (auto simp: rune_len_def Let_def split: if_splits)
    ultimately show ?thesis
      unfolding \<open>rune_len s = ?k\<close> using False k(1) by (simp add: rune_len_def)
  qed
qed

section \<open>Cutting a valid string\<close>

lemma ValidString_cut:
  assumes "ValidString s" and "n \<le> length s"
  shows "\<exists>k. k \<le> n \<and> n \<le> k + 3 \<and> ValidString (take k s)"
  using assms
proof (induction s arbitrary: n rule: ValidString.induct)
  case (1 s)
  let ?r = "rune_len s"
  show ?case
  proof (cases "s = []")
    case True
    with 1 show ?thesis by simp
  next
    case False
    with "1.prems"(1) have r: "?r \<noteq> 0" and rest: "ValidString (drop ?r s)"
      using ValidString_iff by auto
    show ?thesis
    proof (cases "n < ?r")
      case True
      with rune_len_le_4 [of s] show ?thesis by (intro exI [of _ 0]) simp
    next
      case nr: False
      then have "n - ?r \<le> length (drop ?r s)" using "1.prems"(2) by simp
      with "1.IH" False r rest obtain k where
        k: "k \<le> n - ?r" "n - ?r \<le> k + 3" "ValidString (take k (drop ?r s))" by blast
      let ?t = "take (?r + k) s"
      have "rune_len ?t = ?r" using r by (intro rune_len_take) auto
      moreover have "drop ?r ?t = take k (drop ?r s)" by (simp add: drop_take)
      moreover have "?t \<noteq> []" using r False by auto
      ultimately have "ValidString ?t" using r k(3) by (simp add: ValidString_iff)
      then show ?thesis using k nr by (intro exI [of _ "?r + k"]) auto
    qed
  qed
qed

section \<open>Dropping bytes until the rest is valid\<close>

function trim_invalid :: "string \<Rightarrow> string" where
  "trim_invalid s = (if 0 < length s \<and> \<not> ValidString s then trim_invalid (butlast s) else s)"
  by pat_completeness auto
termination
  by (relation "measure length") auto

declare trim_invalid.simps [simp del]

lemma trim_invalid_valid: "ValidString (trim_invalid s)"
proof (induction s rule: trim_invalid.induct)
  case (1 s)
  then show ?case
    by (cases "s = []"; cases "ValidString s") (simp_all add: trim_invalid.simps [of s] trim_invalid.simps [of "[]"])
qed

lemma trim_invalid_prefix: "\<exists>k \<le> length s. trim_invalid s = take k s"
proof (induction s rule: trim_invalid.induct)
  case (1 s)
  show ?case
  proof (cases "0 < length s \<and> \<not> ValidString s")
    case True
    with 1 obtain k where "k \<le> length (butlast s)" "trim_invalid (butlast s) = take k (butlast s)"
      by blast
    moreover from True this(1) have "k < length s" by (simp add: le_diff_conv2 Suc_le_eq flip: Suc_le_eq)
    ultimately show ?thesis
      using True by (intro exI [of _ k]) (simp add: trim_invalid.simps [of s] take_butlast)
  next
    case False
    then show ?thesis by (intro exI [of _ "length s"]) (auto simp: trim_invalid.simps [of s])
  qed
qed

lemma trim_invalid_longest:
  "k \<le> length s \<Longrightarrow> ValidString (take k s) \<Longrightarrow> k \<le> length (trim_invalid s)"
proof (induction s rule: trim_invalid.induct)
  case (1 s)
  show ?case
  proof (cases "0 < length s \<and> \<not> ValidString s")
    case True
    with "1.prems" have "k < length s" by (cases "k = length s") auto
    with 1 True have "k \<le> length (trim_invalid (butlast s))"
      by (auto simp: take_butlast)
    with True show ?thesis by (simp add: trim_invalid.simps [of s])
  next
    case False
    with "1.prems" show ?thesis by (auto simp: trim_invalid.simps [of s])
  qed
qed

end
