(* ===== verification/Notification.thy ===== *)
theory Notification
  imports Backoff GoUtf8
begin

text \<open>
  The notification entity of \<open>modules/notification/domain/notification.go\<close>: channels,
  categories and statuses (Go string types, so any string inhabits them), the transition
  table, the constructor and the four state changes of the package, with the sentinel
  errors of \<open>domain/errors.go\<close> and the rendered message of \<open>domain/message.go\<close>. The life
  of a row under those operations is a step relation; its invariant bounds the attempts.
\<close>

section \<open>Channels, categories, statuses\<close>

type_synonym channel = string
type_synonym category = string
type_synonym status = string

definition ChannelEmail :: channel where "ChannelEmail = ''email''"
definition ChannelInApp :: channel where "ChannelInApp = ''inapp''"
definition ChannelWebhook :: channel where "ChannelWebhook = ''webhook''"

lemmas channel_defs = ChannelEmail_def ChannelInApp_def ChannelWebhook_def

definition Channels :: "channel list" where
  "Channels = [ChannelEmail, ChannelInApp, ChannelWebhook]"

definition Channel_Valid :: "channel \<Rightarrow> bool" where
  "Channel_Valid c \<longleftrightarrow> c = ChannelEmail \<or> c = ChannelInApp \<or> c = ChannelWebhook"

definition CategorySecurity :: category where "CategorySecurity = ''security''"
definition CategoryAccount :: category where "CategoryAccount = ''account''"
definition CategorySystem :: category where "CategorySystem = ''system''"

lemmas category_defs = CategorySecurity_def CategoryAccount_def CategorySystem_def

definition Categories :: "category list" where
  "Categories = [CategorySecurity, CategoryAccount, CategorySystem]"

definition Category_Valid :: "category \<Rightarrow> bool" where
  "Category_Valid c \<longleftrightarrow> c = CategorySecurity \<or> c = CategoryAccount \<or> c = CategorySystem"

definition StatusPending :: status where "StatusPending = ''pending''"
definition StatusSending :: status where "StatusSending = ''sending''"
definition StatusSent :: status where "StatusSent = ''sent''"
definition StatusFailed :: status where "StatusFailed = ''failed''"
definition StatusDead :: status where "StatusDead = ''dead''"

lemmas status_defs =
  StatusPending_def StatusSending_def StatusSent_def StatusFailed_def StatusDead_def

lemma status_distinct [simp]:
  "StatusPending \<noteq> StatusSending" "StatusSending \<noteq> StatusPending"
  "StatusPending \<noteq> StatusSent" "StatusSent \<noteq> StatusPending"
  "StatusPending \<noteq> StatusFailed" "StatusFailed \<noteq> StatusPending"
  "StatusPending \<noteq> StatusDead" "StatusDead \<noteq> StatusPending"
  "StatusSending \<noteq> StatusSent" "StatusSent \<noteq> StatusSending"
  "StatusSending \<noteq> StatusFailed" "StatusFailed \<noteq> StatusSending"
  "StatusSending \<noteq> StatusDead" "StatusDead \<noteq> StatusSending"
  "StatusSent \<noteq> StatusFailed" "StatusFailed \<noteq> StatusSent"
  "StatusSent \<noteq> StatusDead" "StatusDead \<noteq> StatusSent"
  "StatusFailed \<noteq> StatusDead" "StatusDead \<noteq> StatusFailed"
  by (simp_all add: status_defs)

lemma Channel_Valid_iff: "Channel_Valid c \<longleftrightarrow> c \<in> set Channels"
  by (auto simp: Channel_Valid_def Channels_def)

lemma Category_Valid_iff: "Category_Valid c \<longleftrightarrow> c \<in> set Categories"
  by (auto simp: Category_Valid_def Categories_def)

lemma distinct_Channels: "distinct Channels"
  by (simp add: Channels_def channel_defs)

lemma distinct_Categories: "distinct Categories"
  by (simp add: Categories_def category_defs)

section \<open>Sentinels\<close>

definition ErrNotFound :: goerr where
  [err_simps]: "ErrNotFound = New ''notification: not found''"
definition ErrInvalidTransition :: goerr where
  [err_simps]: "ErrInvalidTransition = New ''notification: invalid status transition''"
definition ErrDuplicateIdempotencyKey :: goerr where
  [err_simps]: "ErrDuplicateIdempotencyKey = New ''notification: duplicate idempotency key''"
definition ErrInvalidNotification :: goerr where
  [err_simps]: "ErrInvalidNotification = New ''notification: invalid''"
definition ErrInvalidPreference :: goerr where
  [err_simps]: "ErrInvalidPreference = New ''notification: invalid preference''"
definition ErrPreferenceProtected :: goerr where
  [err_simps]: "ErrPreferenceProtected =
     New ''notification: preference is protected and cannot be disabled''"
definition ErrNonRetryable :: goerr where
  [err_simps]: "ErrNonRetryable = New ''notification: non-retryable delivery failure''"

section \<open>The entity\<close>

text \<open>
  A payload is a \<open>map[string]any\<close>, nil or not; the values are JSON, which is what the
  column stores and the templates read.
\<close>

datatype json =
    JNull
  | JBool bool
  | JNum int
  | JStr string
  | JArr "json list"
  | JObj "(string \<times> json) list"

type_synonym payload = "(string \<rightharpoonup> json) option"

record notification =
  n_ID :: uuid
  n_RecipientID :: uuid
  n_Channel :: channel
  n_Category :: category
  n_TemplateKey :: string
  n_Payload :: payload
  n_Status :: status
  n_Attempts :: int
  n_NextAttemptAt :: time
  n_IdempotencyKey :: string
  n_ReadAt :: "time option"
  n_LastError :: string
  n_CreatedAt :: time
  n_SentAt :: "time option"

record notification_params =
  np_ID :: uuid
  np_RecipientID :: uuid
  np_Channel :: channel
  np_Category :: category
  np_TemplateKey :: string
  np_Payload :: payload
  np_IdempotencyKey :: string

record rendered_message =
  m_NotificationID :: uuid
  m_RecipientID :: uuid
  m_Channel :: channel
  m_Subject :: string
  m_Body :: string
  m_HTMLBody :: string

definition NewNotification :: "notification_params \<Rightarrow> time \<Rightarrow> goerr + notification" where
  "NewNotification p now =
     (if np_ID p = uuid_Nil then Inl (Errorf ''%w: id is required'' [] [ErrInvalidNotification])
      else if np_RecipientID p = uuid_Nil then
        Inl (Errorf ''%w: recipient id is required'' [] [ErrInvalidNotification])
      else if \<not> Channel_Valid (np_Channel p) then
        Inl (Errorf ''%w: unknown channel %q'' [OStr (np_Channel p)] [ErrInvalidNotification])
      else if \<not> Category_Valid (np_Category p) then
        Inl (Errorf ''%w: unknown category %q'' [OStr (np_Category p)] [ErrInvalidNotification])
      else if np_TemplateKey p = '''' then
        Inl (Errorf ''%w: template key is required'' [] [ErrInvalidNotification])
      else
        Inr \<lparr>n_ID = np_ID p, n_RecipientID = np_RecipientID p,
             n_Channel = np_Channel p, n_Category = np_Category p,
             n_TemplateKey = np_TemplateKey p,
             n_Payload = (case np_Payload p of None \<Rightarrow> Some Map.empty | Some m \<Rightarrow> Some m),
             n_Status = StatusPending, n_Attempts = 0, n_NextAttemptAt = now,
             n_IdempotencyKey = np_IdempotencyKey p, n_ReadAt = None, n_LastError = '''',
             n_CreatedAt = now, n_SentAt = None\<rparr>)"

section \<open>State changes\<close>

definition allowedTransitions :: "(status \<times> status) list" where
  "allowedTransitions =
     [(StatusPending, StatusSending),
      (StatusSending, StatusSent),
      (StatusSending, StatusFailed),
      (StatusSending, StatusDead),
      (StatusSending, StatusPending),
      (StatusFailed, StatusPending),
      (StatusFailed, StatusDead)]"

text \<open>
  A method with a pointer receiver returns its error and the receiver after the call:
  \<open>Inl\<close> carries the error of a refused call, which leaves the receiver as it was.
\<close>

definition transitionTo :: "notification \<Rightarrow> status \<Rightarrow> goerr + notification" where
  "transitionTo n next =
     (if (n_Status n, next) \<in> set allowedTransitions then Inr (n\<lparr>n_Status := next\<rparr>)
      else Inl (Errorf ''%w: %s -> %s'' [OStr (n_Status n), OStr next] [ErrInvalidTransition]))"

definition ignoring_error :: "notification \<Rightarrow> goerr + notification \<Rightarrow> notification" where
  \<comment> \<open>\<open>_ = n.transitionTo(s)\<close>: on a refusal the receiver stays as it was\<close>
  "ignoring_error n r = (case r of Inl _ \<Rightarrow> n | Inr n' \<Rightarrow> n')"

definition maxLastErrorLen :: nat where
  "maxLastErrorLen = 512"

definition truncateReason :: "string \<Rightarrow> string" where
  "truncateReason s =
     (if length s \<le> maxLastErrorLen then s else trim_invalid (take maxLastErrorLen s))"

definition MarkSent :: "notification \<Rightarrow> time \<Rightarrow> goerr + notification" where
  "MarkSent n now =
     (case transitionTo n StatusSent of
        Inl e \<Rightarrow> Inl e
      | Inr n \<Rightarrow> Inr (n\<lparr>n_SentAt := Some now, n_LastError := ''''\<rparr>))"

definition MarkDead :: "notification \<Rightarrow> string \<Rightarrow> goerr + notification" where
  "MarkDead n reason =
     (case transitionTo n StatusDead of
        Inl e \<Rightarrow> Inl e
      | Inr n \<Rightarrow> Inr (n\<lparr>n_LastError := truncateReason reason\<rparr>))"

definition RecordFailure ::
  "notification \<Rightarrow> time \<Rightarrow> duration \<Rightarrow> int \<Rightarrow> string \<Rightarrow> goerr + notification" where
  "RecordFailure n now retryAfter maxAttempts reason =
     (case transitionTo n StatusFailed of
        Inl e \<Rightarrow> Inl e
      | Inr n \<Rightarrow>
          (let n = n\<lparr>n_Attempts := n_Attempts n + 1, n_LastError := truncateReason reason\<rparr> in
           if maxAttempts \<le> n_Attempts n then Inr (ignoring_error n (transitionTo n StatusDead))
           else Inr ((ignoring_error n (transitionTo n StatusPending))
                       \<lparr>n_NextAttemptAt := time_Add now retryAfter\<rparr>)))"

definition RecoverStalled :: "notification \<Rightarrow> time \<Rightarrow> duration \<Rightarrow> int \<Rightarrow> goerr + notification" where
  "RecoverStalled n now retryAfter maxAttempts =
     (if n_Status n \<noteq> StatusSending then
        Inl (Errorf ''%w: %s -> %s: only a claimed notification can be stalled''
               [OStr (n_Status n), OStr StatusPending] [ErrInvalidTransition])
      else
        (let n = n\<lparr>n_Attempts := n_Attempts n + 1,
                   n_LastError := ''delivery stalled: claimed but never settled''\<rparr> in
         if maxAttempts \<le> n_Attempts n then Inr (ignoring_error n (transitionTo n StatusDead))
         else Inr ((ignoring_error n (transitionTo n StatusPending))
                     \<lparr>n_NextAttemptAt := time_Add now retryAfter\<rparr>)))"

section \<open>What each operation does\<close>

lemma transitionTo_allowed:
  "(n_Status n, s) \<in> set allowedTransitions \<Longrightarrow> transitionTo n s = Inr (n\<lparr>n_Status := s\<rparr>)"
  by (simp add: transitionTo_def)

lemma transitionTo_refused:
  "(n_Status n, s) \<notin> set allowedTransitions \<Longrightarrow>
     \<exists>e. transitionTo n s = Inl e \<and> errors_Is e ErrInvalidTransition"
  by (simp add: transitionTo_def)

lemma to_failed_iff: "(s, StatusFailed) \<in> set allowedTransitions \<longleftrightarrow> s = StatusSending"
  by (auto simp: allowedTransitions_def)

lemma to_sent_iff: "(s, StatusSent) \<in> set allowedTransitions \<longleftrightarrow> s = StatusSending"
  by (auto simp: allowedTransitions_def)

lemma to_dead_iff:
  "(s, StatusDead) \<in> set allowedTransitions \<longleftrightarrow> s = StatusSending \<or> s = StatusFailed"
  by (auto simp: allowedTransitions_def)

lemma to_pending_iff:
  "(s, StatusPending) \<in> set allowedTransitions \<longleftrightarrow> s = StatusSending \<or> s = StatusFailed"
  by (auto simp: allowedTransitions_def)

lemmas transition_iffs = to_failed_iff to_sent_iff to_dead_iff to_pending_iff

lemma MarkSent_eq:
  "MarkSent n now =
     (if n_Status n = StatusSending
      then Inr (n\<lparr>n_Status := StatusSent, n_SentAt := Some now, n_LastError := ''''\<rparr>)
      else Inl (Errorf ''%w: %s -> %s'' [OStr (n_Status n), OStr StatusSent] [ErrInvalidTransition]))"
  by (simp add: MarkSent_def transitionTo_def transition_iffs)

lemma MarkDead_eq:
  "MarkDead n reason =
     (if n_Status n = StatusSending \<or> n_Status n = StatusFailed
      then Inr (n\<lparr>n_Status := StatusDead, n_LastError := truncateReason reason\<rparr>)
      else Inl (Errorf ''%w: %s -> %s'' [OStr (n_Status n), OStr StatusDead] [ErrInvalidTransition]))"
  by (simp add: MarkDead_def transitionTo_def transition_iffs)

lemma RecordFailure_eq:
  "RecordFailure n now retryAfter maxAttempts reason =
     (if n_Status n \<noteq> StatusSending
      then Inl (Errorf ''%w: %s -> %s'' [OStr (n_Status n), OStr StatusFailed] [ErrInvalidTransition])
      else if maxAttempts \<le> n_Attempts n + 1
      then Inr (n\<lparr>n_Status := StatusDead, n_Attempts := n_Attempts n + 1,
                  n_LastError := truncateReason reason\<rparr>)
      else Inr (n\<lparr>n_Status := StatusPending, n_Attempts := n_Attempts n + 1,
                  n_LastError := truncateReason reason,
                  n_NextAttemptAt := time_Add now retryAfter\<rparr>))"
  by (simp add: RecordFailure_def transitionTo_def transition_iffs ignoring_error_def Let_def)

lemma RecoverStalled_eq:
  "RecoverStalled n now retryAfter maxAttempts =
     (if n_Status n \<noteq> StatusSending then
        Inl (Errorf ''%w: %s -> %s: only a claimed notification can be stalled''
               [OStr (n_Status n), OStr StatusPending] [ErrInvalidTransition])
      else if maxAttempts \<le> n_Attempts n + 1
      then Inr (n\<lparr>n_Status := StatusDead, n_Attempts := n_Attempts n + 1,
                  n_LastError := ''delivery stalled: claimed but never settled''\<rparr>)
      else Inr (n\<lparr>n_Status := StatusPending, n_Attempts := n_Attempts n + 1,
                  n_LastError := ''delivery stalled: claimed but never settled'',
                  n_NextAttemptAt := time_Add now retryAfter\<rparr>))"
  by (simp add: RecoverStalled_def transitionTo_def transition_iffs ignoring_error_def Let_def)

lemmas state_change_eqs = MarkSent_eq MarkDead_eq RecordFailure_eq RecoverStalled_eq

text \<open>No state change touches the identity of a row.\<close>

definition same_identity :: "notification \<Rightarrow> notification \<Rightarrow> bool" where
  "same_identity n n' \<longleftrightarrow>
     n_ID n' = n_ID n \<and> n_RecipientID n' = n_RecipientID n \<and> n_Channel n' = n_Channel n \<and>
     n_Category n' = n_Category n \<and> n_TemplateKey n' = n_TemplateKey n \<and>
     n_Payload n' = n_Payload n \<and> n_IdempotencyKey n' = n_IdempotencyKey n \<and>
     n_CreatedAt n' = n_CreatedAt n \<and> n_ReadAt n' = n_ReadAt n"

lemma same_identity_refl [simp]: "same_identity n n"
  by (simp add: same_identity_def)

lemma state_change_identity:
  "MarkSent n now = Inr n' \<Longrightarrow> same_identity n n'"
  "MarkDead n reason = Inr n' \<Longrightarrow> same_identity n n'"
  "RecordFailure n now d k reason = Inr n' \<Longrightarrow> same_identity n n'"
  "RecoverStalled n now d k = Inr n' \<Longrightarrow> same_identity n n'"
  by (auto simp: state_change_eqs same_identity_def split: if_splits)

section \<open>Truncated reasons\<close>

lemma truncateReason_length: "length (truncateReason s) \<le> maxLastErrorLen"
proof -
  obtain k where "k \<le> length (take maxLastErrorLen s)"
    "trim_invalid (take maxLastErrorLen s) = take k (take maxLastErrorLen s)"
    using trim_invalid_prefix by blast
  then show ?thesis by (auto simp: truncateReason_def)
qed

lemma truncateReason_prefix: "\<exists>k. truncateReason s = take k s"
proof -
  obtain k where "trim_invalid (take maxLastErrorLen s) = take k (take maxLastErrorLen s)"
    using trim_invalid_prefix by blast
  then have "truncateReason s = take (if length s \<le> maxLastErrorLen then length s else min k maxLastErrorLen) s"
    by (simp add: truncateReason_def)
  then show ?thesis by blast
qed

lemma truncateReason_valid_long:
  assumes "ValidString s" and "maxLastErrorLen < length s"
  shows "ValidString (truncateReason s)" and "maxLastErrorLen \<le> length (truncateReason s) + 3"
proof -
  show "ValidString (truncateReason s)"
    using assms(2) by (simp add: truncateReason_def trim_invalid_valid)
  from ValidString_cut [OF assms(1)] assms(2) obtain k where
    k: "k \<le> maxLastErrorLen" "maxLastErrorLen \<le> k + 3" "ValidString (take k s)"
    by (metis less_imp_le_nat)
  then have "k \<le> length (trim_invalid (take maxLastErrorLen s))"
    using assms(2) by (intro trim_invalid_longest) (simp_all add: min_def)
  with k assms(2) show "maxLastErrorLen \<le> length (truncateReason s) + 3"
    by (simp add: truncateReason_def)
qed

section \<open>The life of a row\<close>

text \<open>
  What can happen to a row: a dispatcher claims it (\<open>ClaimBatch\<close> flips \<open>pending\<close> to
  \<open>sending\<close>), a settled delivery calls one of \<open>MarkSent\<close>, \<open>MarkDead\<close>, \<open>RecordFailure\<close>,
  a sweep calls \<open>RecoverStalled\<close>, each with any clock reading, delay and reason, and with
  the configured budget \<open>M\<close>.
\<close>

inductive row_step :: "int \<Rightarrow> notification \<Rightarrow> notification \<Rightarrow> bool" for M where
  claim: "n_Status n = StatusPending \<Longrightarrow> row_step M n (n\<lparr>n_Status := StatusSending\<rparr>)"
| sent: "MarkSent n now = Inr n' \<Longrightarrow> row_step M n n'"
| dead: "MarkDead n reason = Inr n' \<Longrightarrow> row_step M n n'"
| failure: "RecordFailure n now d M reason = Inr n' \<Longrightarrow> row_step M n n'"
| stalled: "RecoverStalled n now d M = Inr n' \<Longrightarrow> row_step M n n'"

inductive row_reachable :: "int \<Rightarrow> notification \<Rightarrow> bool" for M where
  fresh: "NewNotification p now = Inr n \<Longrightarrow> row_reachable M n"
| step: "row_reachable M n \<Longrightarrow> row_step M n n' \<Longrightarrow> row_reachable M n'"

fun row_run :: "int \<Rightarrow> notification \<Rightarrow> notification list \<Rightarrow> bool" where
  "row_run M n [] \<longleftrightarrow> True"
| "row_run M n (n' # ns) \<longleftrightarrow> row_step M n n' \<and> row_run M n' ns"

definition row_inv :: "int \<Rightarrow> notification \<Rightarrow> bool" where
  "row_inv M n \<longleftrightarrow>
     0 \<le> n_Attempts n \<and>
     (n_Status n = StatusPending \<or> n_Status n = StatusSending \<or>
      n_Status n = StatusSent \<or> n_Status n = StatusDead) \<and>
     (n_Status n \<noteq> StatusDead \<longrightarrow> n_Attempts n < max 1 M) \<and>
     (n_Status n = StatusDead \<longrightarrow> n_Attempts n \<le> max 1 M) \<and>
     (n_Status n = StatusSent \<longleftrightarrow> n_SentAt n \<noteq> None) \<and>
     (n_Status n = StatusSent \<longrightarrow> n_LastError n = []) \<and>
     length (n_LastError n) \<le> maxLastErrorLen"

lemma NewNotification_Inr:
  "NewNotification p now = Inr n \<Longrightarrow>
     n_Status n = StatusPending \<and> n_Attempts n = 0 \<and> n_NextAttemptAt n = now \<and>
     n_SentAt n = None \<and> n_ReadAt n = None \<and> n_LastError n = [] \<and> n_CreatedAt n = now \<and>
     n_Payload n \<noteq> None \<and> n_ID n = np_ID p \<and> n_RecipientID n = np_RecipientID p \<and>
     n_Channel n = np_Channel p \<and> n_Category n = np_Category p \<and>
     n_TemplateKey n = np_TemplateKey p \<and> n_IdempotencyKey n = np_IdempotencyKey p"
  by (auto simp: NewNotification_def split: if_splits option.splits)

lemma row_inv_fresh: "NewNotification p now = Inr n \<Longrightarrow> row_inv M n"
  by (auto simp: row_inv_def dest!: NewNotification_Inr)

lemma stall_reason_length:
  "length ''delivery stalled: claimed but never settled'' \<le> maxLastErrorLen"
  by (simp add: maxLastErrorLen_def)

lemma row_inv_step: "row_step M n n' \<Longrightarrow> row_inv M n \<Longrightarrow> row_inv M n'"
  by (induction rule: row_step.induct)
    (auto simp: row_inv_def state_change_eqs truncateReason_length stall_reason_length [simplified]
      split: if_splits)

lemma row_inv_reachable: "row_reachable M n \<Longrightarrow> row_inv M n"
  by (induction rule: row_reachable.induct) (auto intro: row_inv_fresh row_inv_step)

text \<open>Every step spends something: the potential below bounds the length of a life.\<close>

definition potential :: "int \<Rightarrow> notification \<Rightarrow> nat" where
  "potential M n =
     (if n_Status n = StatusPending then nat (2 * (max 1 M - n_Attempts n) + 1)
      else if n_Status n = StatusSending then nat (2 * (max 1 M - n_Attempts n))
      else 0)"

lemma potential_step:
  "row_step M n n' \<Longrightarrow> row_inv M n \<Longrightarrow> potential M n' < potential M n"
  by (induction rule: row_step.induct)
    (auto simp: potential_def row_inv_def state_change_eqs split: if_splits)

lemma row_run_length:
  "row_run M n ns \<Longrightarrow> row_inv M n \<Longrightarrow> length ns \<le> potential M n"
proof (induction ns arbitrary: n)
  case (Cons n' ns)
  then have "potential M n' < potential M n" and "length ns \<le> potential M n'"
    using potential_step row_inv_step by auto
  then show ?case by simp
qed simp

inductive_cases row_stepE: "row_step M n n'"

lemma terminal_no_step:
  "n_Status n = StatusSent \<or> n_Status n = StatusDead \<Longrightarrow> \<not> row_step M n n'"
  by (auto elim!: row_stepE simp: state_change_eqs split: if_splits)

end
