(* ===== verification/Preference.thy ===== *)
theory Preference
  imports Notification
begin

text \<open>
  Delivery preferences, \<open>modules/notification/domain/preference.go\<close>: a sparse set of stored
  decisions per (channel, category) pair, where absence means enabled and one pair,
  security by email, is not the user's to switch off.
\<close>

record preference =
  p_UserID :: uuid
  p_Channel :: channel
  p_Category :: category
  p_Enabled :: bool
  p_UpdatedAt :: time

definition protected :: "channel \<Rightarrow> category \<Rightarrow> bool" where
  "protected ch cat \<longleftrightarrow> ch = ChannelEmail \<and> cat = CategorySecurity"

definition NewPreference ::
  "uuid \<Rightarrow> channel \<Rightarrow> category \<Rightarrow> bool \<Rightarrow> time \<Rightarrow> goerr + preference" where
  "NewPreference userID ch cat enabled now =
     (if userID = uuid_Nil then Inl (Errorf ''%w: user id is required'' [] [ErrInvalidPreference])
      else if \<not> Channel_Valid ch then Inl (Errorf ''%w: unknown channel %q'' [OStr ch] [ErrInvalidPreference])
      else if \<not> Category_Valid cat then Inl (Errorf ''%w: unknown category %q'' [OStr cat] [ErrInvalidPreference])
      else if \<not> enabled \<and> protected ch cat then
        Inl (Errorf ''%w: %s/%s'' [OStr ch, OStr cat] [ErrPreferenceProtected])
      else Inr \<lparr>p_UserID = userID, p_Channel = ch, p_Category = cat,
                p_Enabled = enabled, p_UpdatedAt = now\<rparr>)"

definition SetEnabled :: "preference \<Rightarrow> bool \<Rightarrow> time \<Rightarrow> goerr + preference" where
  "SetEnabled p enabled now =
     (if \<not> enabled \<and> protected (p_Channel p) (p_Category p) then
        Inl (Errorf ''%w: %s/%s'' [OStr (p_Channel p), OStr (p_Category p)] [ErrPreferenceProtected])
      else Inr (p\<lparr>p_Enabled := enabled, p_UpdatedAt := now\<rparr>))"

fun stored_enabled :: "preference list \<Rightarrow> channel \<Rightarrow> category \<Rightarrow> bool" where
  \<comment> \<open>the loop of \<open>Allowed\<close>: the first row of the pair decides, absence means enabled\<close>
  "stored_enabled [] ch cat \<longleftrightarrow> True"
| "stored_enabled (p # ps) ch cat \<longleftrightarrow>
     (if p_Channel p = ch \<and> p_Category p = cat then p_Enabled p else stored_enabled ps ch cat)"

definition Allowed :: "preference list \<Rightarrow> channel \<Rightarrow> category \<Rightarrow> bool" where
  "Allowed prefs ch cat \<longleftrightarrow> (if protected ch cat then True else stored_enabled prefs ch cat)"

section \<open>Facts\<close>

lemma NewPreference_Inr:
  "NewPreference u ch cat en now = Inr p \<Longrightarrow>
     p = \<lparr>p_UserID = u, p_Channel = ch, p_Category = cat, p_Enabled = en, p_UpdatedAt = now\<rparr> \<and>
     u \<noteq> uuid_Nil \<and> Channel_Valid ch \<and> Category_Valid cat \<and> (en \<or> \<not> protected ch cat)"
  by (auto simp: NewPreference_def split: if_splits)

lemma Allowed_protected: "protected ch cat \<Longrightarrow> Allowed prefs ch cat"
  by (simp add: Allowed_def)

text \<open>With one row per pair, the table's primary key, the order of the rows is immaterial.\<close>

lemma stored_enabled_iff:
  assumes "distinct (map (\<lambda>p. (p_Channel p, p_Category p)) prefs)"
  shows "stored_enabled prefs ch cat \<longleftrightarrow>
     (\<forall>p \<in> set prefs. p_Channel p = ch \<and> p_Category p = cat \<longrightarrow> p_Enabled p)"
  using assms by (induction prefs) force+

lemma Allowed_iff:
  assumes "distinct (map (\<lambda>p. (p_Channel p, p_Category p)) prefs)"
  shows "Allowed prefs ch cat \<longleftrightarrow>
     protected ch cat \<or> (\<forall>p \<in> set prefs. p_Channel p = ch \<and> p_Category p = cat \<longrightarrow> p_Enabled p)"
  using stored_enabled_iff [OF assms] by (simp add: Allowed_def)

end
