(* ===== verification/Repository.thy ===== *)
theory Repository
  imports Preference
begin

text \<open>
  The ports of \<open>modules/notification/domain/repository.go\<close>: the cursor and list filter of
  the mailbox, the two repository interfaces as records of operations, and the contracts
  the application layer relies on as locales over an abstract store.
\<close>

section \<open>Cursor and filter\<close>

datatype cursor = Cursor (c_CreatedAt: time) (c_ID: uuid)

text \<open>The row-value comparison \<open>(created_at, id) < ($1, $2)\<close>.\<close>

instantiation cursor :: linorder
begin

definition less_cursor :: "cursor \<Rightarrow> cursor \<Rightarrow> bool" where
  "c < d \<longleftrightarrow> c_CreatedAt c < c_CreatedAt d \<or> (c_CreatedAt c = c_CreatedAt d \<and> c_ID c < c_ID d)"

definition less_eq_cursor :: "cursor \<Rightarrow> cursor \<Rightarrow> bool" where
  "c \<le> d \<longleftrightarrow> c < d \<or> (c = (d :: cursor))"

instance
  by standard (auto simp: less_cursor_def less_eq_cursor_def, metis cursor.expand linorder_neqE)

end

record list_filter =
  lf_UnreadOnly :: bool
  lf_Limit :: int
  lf_Before :: "cursor option"

definition DefaultListLimit :: int where "DefaultListLimit = 20"
definition MaxListLimit :: int where "MaxListLimit = 100"

definition Normalize :: "list_filter \<Rightarrow> list_filter" where
  "Normalize f =
     (let f = (if lf_Limit f \<le> 0 then f\<lparr>lf_Limit := DefaultListLimit\<rparr> else f)
      in if MaxListLimit < lf_Limit f then f\<lparr>lf_Limit := MaxListLimit\<rparr> else f)"

lemma Normalize_bounds: "1 \<le> lf_Limit (Normalize f) \<and> lf_Limit (Normalize f) \<le> MaxListLimit"
  by (simp add: Normalize_def DefaultListLimit_def MaxListLimit_def Let_def)

lemma Normalize_fields [simp]:
  "lf_UnreadOnly (Normalize f) = lf_UnreadOnly f" "lf_Before (Normalize f) = lf_Before f"
  by (simp_all add: Normalize_def Let_def)

lemma Normalize_idem: "Normalize (Normalize f) = Normalize f"
  by (simp add: Normalize_def DefaultListLimit_def MaxListLimit_def Let_def)

section \<open>The repository interfaces\<close>

text \<open>
  An interface value is a record of its methods; a \<open>[]*Notification\<close> may hold nil
  pointers, and a method returning a value and an error returns a sum.
\<close>

record 'w notification_repository =
  nrp_Enqueue :: "notification option \<Rightarrow> ('w, goerr option) prog"
  nrp_ClaimBatch :: "int \<Rightarrow> time \<Rightarrow> ('w, goerr + notification option list) prog"
  nrp_ClaimStalled :: "int \<Rightarrow> time \<Rightarrow> time \<Rightarrow> ('w, goerr + notification option list) prog"
  nrp_Save :: "notification option \<Rightarrow> ('w, goerr option) prog"
  nrp_ListForRecipient :: "uuid \<Rightarrow> list_filter \<Rightarrow> ('w, goerr + notification option list) prog"
  nrp_MarkRead :: "uuid \<Rightarrow> uuid \<Rightarrow> time \<Rightarrow> ('w, goerr option) prog"
  nrp_MarkAllRead :: "uuid \<Rightarrow> time \<Rightarrow> ('w, goerr + int) prog"

record 'w preference_repository =
  prp_ListForUser :: "uuid \<Rightarrow> ('w, goerr + preference list) prog"
  prp_Upsert :: "preference list \<Rightarrow> ('w, goerr option) prog"

section \<open>Contracts\<close>

text \<open>The abstract store is the entity under each id.\<close>

type_synonym store = "uuid \<Rightarrow> notification option"

text \<open>A claim moves exactly the returned rows, all pending and due, to sending.\<close>

definition claimed_from :: "store \<Rightarrow> store \<Rightarrow> int \<Rightarrow> time \<Rightarrow> notification list \<Rightarrow> bool" where
  "claimed_from E E' k now cs \<longleftrightarrow>
     distinct (map n_ID cs) \<and> length cs \<le> nat k \<and>
     (\<forall>c \<in> set cs. n_Status c = StatusSending \<and> n_NextAttemptAt c \<le> now \<and>
        E (n_ID c) = Some (c\<lparr>n_Status := StatusPending\<rparr>) \<and> E' (n_ID c) = Some c) \<and>
     (\<forall>i. i \<notin> n_ID ` set cs \<longrightarrow> E' i = E i)"

text \<open>A stalled claim hands out rows that are sending, and changes no entity.\<close>

definition stalled_from :: "store \<Rightarrow> store \<Rightarrow> int \<Rightarrow> notification list \<Rightarrow> bool" where
  "stalled_from E E' k cs \<longleftrightarrow>
     distinct (map n_ID cs) \<and> length cs \<le> nat k \<and>
     (\<forall>c \<in> set cs. n_Status c = StatusSending \<and> E (n_ID c) = Some c) \<and> E' = E"

text \<open>The five columns \<open>Save\<close> owns.\<close>

definition settled :: "notification \<Rightarrow> notification \<Rightarrow> notification" where
  "settled old n =
     old\<lparr>n_Status := n_Status n, n_Attempts := n_Attempts n,
         n_NextAttemptAt := n_NextAttemptAt n, n_LastError := n_LastError n,
         n_SentAt := n_SentAt n\<rparr>"

lemma settled_same_identity: "same_identity old n \<Longrightarrow> settled old n = n"
  by (simp add: settled_def same_identity_def)

definition saved_into :: "store \<Rightarrow> store \<Rightarrow> notification \<Rightarrow> goerr option \<Rightarrow> bool" where
  "saved_into E E' n r \<longleftrightarrow>
     (E' = E \<and> r \<noteq> None) \<or>
     (\<exists>old. E (n_ID n) = Some old \<and> E' = E(n_ID n \<mapsto> settled old n))"

locale outbox_port =
  fixes R :: "'w notification_repository"
    and I :: "'w \<Rightarrow> bool"
    and ent :: "'w \<Rightarrow> store"
  assumes claim_total: "I w \<Longrightarrow> \<exists>r w'. nrp_ClaimBatch R k now w = (Ret r, w') \<and> I w'"
    and claim_ok: "I w \<Longrightarrow> nrp_ClaimBatch R k now w = (Ret (Inr ns), w') \<Longrightarrow>
      \<exists>cs. ns = map Some cs \<and> claimed_from (ent w) (ent w') k now cs"
    and claim_err: "I w \<Longrightarrow> nrp_ClaimBatch R k now w = (Ret (Inl e), w') \<Longrightarrow> ent w' = ent w"
    and stalled_total: "I w \<Longrightarrow> \<exists>r w'. nrp_ClaimStalled R k t now w = (Ret r, w') \<and> I w'"
    and stalled_ok: "I w \<Longrightarrow> nrp_ClaimStalled R k t now w = (Ret (Inr ns), w') \<Longrightarrow>
      \<exists>cs. ns = map Some cs \<and> stalled_from (ent w) (ent w') k cs"
    and stalled_err: "I w \<Longrightarrow> nrp_ClaimStalled R k t now w = (Ret (Inl e), w') \<Longrightarrow>
      ent w' = ent w"
    and save_total: "I w \<Longrightarrow> \<exists>r w'. nrp_Save R (Some n) w = (Ret r, w') \<and> I w' \<and>
      saved_into (ent w) (ent w') n r"

text \<open>
  What an enqueue promises: a row is added under its own id or nothing changes, a second row
  never appears under a key in use, and whatever it reports no row is lost.
\<close>

locale enqueue_port =
  fixes R :: "'w notification_repository"
    and I :: "'w \<Rightarrow> bool"
    and ent :: "'w \<Rightarrow> store"
  assumes enqueue_total: "I w \<Longrightarrow> \<exists>r w'. nrp_Enqueue R (Some n) w = (Ret r, w') \<and> I w'"
    and enqueue_ok: "I w \<Longrightarrow> n_ID n \<noteq> uuid_Nil \<Longrightarrow> n_Status n = StatusPending \<Longrightarrow>
      n_CreatedAt n \<noteq> 0 \<Longrightarrow> n_NextAttemptAt n \<noteq> 0 \<Longrightarrow> n_Payload n \<noteq> None \<Longrightarrow>
      nrp_Enqueue R (Some n) w = (Ret None, w') \<Longrightarrow>
      ent w (n_ID n) = None \<and> ent w' = (ent w)(n_ID n \<mapsto> n)"
    and enqueue_dup: "I w \<Longrightarrow>
      nrp_Enqueue R (Some n) w = (Ret (Some e), w') \<Longrightarrow>
      errors_Is e ErrDuplicateIdempotencyKey \<Longrightarrow> ent w' = ent w \<and> n_IdempotencyKey n \<noteq> [] \<and> (\<exists>i m. ent w i = Some m \<and> n_IdempotencyKey m = n_IdempotencyKey n)"
    and enqueue_grows: "I w \<Longrightarrow> nrp_Enqueue R (Some n) w = (r, w') \<Longrightarrow> ent w i = Some m \<Longrightarrow>
      ent w' i = Some m"
    and keys_unique: "I w \<Longrightarrow> ent w i = Some m \<Longrightarrow> ent w j = Some m' \<Longrightarrow>
      n_IdempotencyKey m \<noteq> [] \<Longrightarrow> n_IdempotencyKey m' = n_IdempotencyKey m \<Longrightarrow> i = j"

text \<open>The stored decisions of a user, as the function \<open>Allowed\<close> reads them.\<close>

locale preference_port =
  fixes P :: "'w preference_repository"
    and J :: "'w \<Rightarrow> bool"
    and decision :: "'w \<Rightarrow> uuid \<Rightarrow> channel \<Rightarrow> category \<Rightarrow> bool option"
  assumes list_total: "J w \<Longrightarrow> \<exists>r w'. prp_ListForUser P u w = (Ret r, w') \<and> J w' \<and>
      decision w' = decision w"
    and list_ok: "J w \<Longrightarrow> prp_ListForUser P u w = (Ret (Inr ps), w') \<Longrightarrow>
      stored_enabled ps ch cat = (decision w u ch cat \<noteq> Some False)"
    and upsert_total: "J w \<Longrightarrow> \<exists>r w'. prp_Upsert P ps w = (Ret r, w') \<and> J w'"
    and upsert_ok: "J w \<Longrightarrow> prp_Upsert P ps w = (Ret None, w') \<Longrightarrow>
      decision w' u ch cat =
        (case find (\<lambda>p. p_UserID p = u \<and> p_Channel p = ch \<and> p_Category p = cat) ps of
           Some p \<Rightarrow> Some (p_Enabled p) | None \<Rightarrow> decision w u ch cat)"
    and upsert_err: "J w \<Longrightarrow> prp_Upsert P ps w = (Ret (Some e), w') \<Longrightarrow>
      decision w' = decision w"

end
