(* ===== verification/Outbox.thy ===== *)
theory Outbox
  imports Repository Sql "HOL-Library.Char_ord" "HOL-Library.List_Lexorder"
begin

text \<open>
  The persistence of the notification module: the row structs of
  \<open>infrastructure/persistence/models/notification.go\<close> and the two repositories of
  \<open>infrastructure/persistence/repository\<close>, which interpret the ports. The tables are lists of rows (the list order stands for the
  order in which Postgres happens to meet rows, nothing else); each repository method is
  the SQL statement it issues, under the constraints of the migration.
\<close>

section \<open>Rows\<close>

text \<open>Nullable columns are options.\<close>

record notification_row =
  nr_ID :: uuid
  nr_RecipientID :: uuid
  nr_Channel :: string
  nr_Category :: string
  nr_TemplateKey :: string
  nr_Payload :: payload
  nr_Status :: string
  nr_Attempts :: int
  nr_NextAttemptAt :: time
  nr_IdempotencyKey :: "string option"
  nr_ReadAt :: "time option"
  nr_LastError :: "string option"
  nr_CreatedAt :: time
  nr_ClaimedAt :: "time option"
  nr_SentAt :: "time option"

record preference_row =
  pr_UserID :: uuid
  pr_Channel :: string
  pr_Category :: string
  pr_Enabled :: bool
  pr_UpdatedAt :: time

definition nullString :: "string \<Rightarrow> string option" where
  "nullString s = (if s = '''' then None else Some s)"

definition stringValue :: "string option \<Rightarrow> string" where
  "stringValue p = (case p of None \<Rightarrow> '''' | Some s \<Rightarrow> s)"

definition or_empty :: "payload \<Rightarrow> payload" where
  \<comment> \<open>\<open>if payload == nil { payload = map[string]any{} }\<close>\<close>
  "or_empty p = (case p of None \<Rightarrow> Some Map.empty | Some m \<Rightarrow> Some m)"

definition toNotificationRow :: "notification \<Rightarrow> notification_row" where
  "toNotificationRow n =
     \<lparr>nr_ID = n_ID n, nr_RecipientID = n_RecipientID n, nr_Channel = n_Channel n,
      nr_Category = n_Category n, nr_TemplateKey = n_TemplateKey n,
      nr_Payload = or_empty (n_Payload n), nr_Status = n_Status n,
      nr_Attempts = n_Attempts n, nr_NextAttemptAt = n_NextAttemptAt n,
      nr_IdempotencyKey = nullString (n_IdempotencyKey n), nr_ReadAt = n_ReadAt n,
      nr_LastError = nullString (n_LastError n), nr_CreatedAt = n_CreatedAt n,
      nr_ClaimedAt = None, nr_SentAt = n_SentAt n\<rparr>"

definition fromNotificationRow :: "notification_row \<Rightarrow> notification" where
  "fromNotificationRow row =
     \<lparr>n_ID = nr_ID row, n_RecipientID = nr_RecipientID row, n_Channel = nr_Channel row,
      n_Category = nr_Category row, n_TemplateKey = nr_TemplateKey row,
      n_Payload = or_empty (nr_Payload row), n_Status = nr_Status row,
      n_Attempts = nr_Attempts row, n_NextAttemptAt = nr_NextAttemptAt row,
      n_IdempotencyKey = stringValue (nr_IdempotencyKey row), n_ReadAt = nr_ReadAt row,
      n_LastError = stringValue (nr_LastError row), n_CreatedAt = nr_CreatedAt row,
      n_SentAt = nr_SentAt row\<rparr>"

lemma stringValue_nullString [simp]: "stringValue (nullString s) = s"
  by (simp add: stringValue_def nullString_def)

lemma or_empty_idem [simp]: "or_empty (or_empty p) = or_empty p" "or_empty (Some m) = Some m"
  by (simp_all add: or_empty_def split: option.splits)

lemma fromNotificationRow_sel [simp]:
  "n_ID (fromNotificationRow r) = nr_ID r" "n_Status (fromNotificationRow r) = nr_Status r"
  "n_Channel (fromNotificationRow r) = nr_Channel r"
  "n_RecipientID (fromNotificationRow r) = nr_RecipientID r"
  "n_CreatedAt (fromNotificationRow r) = nr_CreatedAt r"
  "n_NextAttemptAt (fromNotificationRow r) = nr_NextAttemptAt r"
  "n_Attempts (fromNotificationRow r) = nr_Attempts r"
  "n_ReadAt (fromNotificationRow r) = nr_ReadAt r"
  by (simp_all add: fromNotificationRow_def)

lemma from_to_row: "fromNotificationRow (toNotificationRow n) = n\<lparr>n_Payload := or_empty (n_Payload n)\<rparr>"
  by (simp add: fromNotificationRow_def toNotificationRow_def)

lemma to_from_row:
  "nr_IdempotencyKey r \<noteq> Some '''' \<Longrightarrow> nr_LastError r \<noteq> Some '''' \<Longrightarrow> nr_Payload r \<noteq> None \<Longrightarrow>
     toNotificationRow (fromNotificationRow r) = r\<lparr>nr_ClaimedAt := None\<rparr>"
  by (auto simp: fromNotificationRow_def toNotificationRow_def nullString_def stringValue_def
      or_empty_def split: option.splits)


section \<open>The database\<close>

text \<open>The tables of the module and the script of its statements.\<close>

record outbox_db =
  d_notifications :: "notification_row list"
  d_preferences :: "preference_row list"
  d_env :: "stmt_env list"

definition next_env :: "'e outbox_db_scheme \<Rightarrow> stmt_env \<times> 'e outbox_db_scheme" where
  "next_env db = (case d_env db of [] \<Rightarrow> (quiet, db) | e # es \<Rightarrow> (e, db\<lparr>d_env := es\<rparr>))"

lemma next_env_tables [simp]:
  "d_notifications (snd (next_env db)) = d_notifications db"
  "d_preferences (snd (next_env db)) = d_preferences db"
  "outbox_db.more (snd (next_env db)) = outbox_db.more db"
  by (simp_all add: next_env_def split: list.splits)

section \<open>NotificationRepo\<close>

text \<open>
  \<open>bun\<close> writes the SQL keyword \<open>DEFAULT\<close> for a zero field that carries a \<open>default:\<close> tag
  (\<open>id\<close>, \<open>status\<close>, \<open>attempts\<close>, \<open>next_attempt_at\<close>, \<open>created_at\<close>).
\<close>

definition insert_defaults :: "stmt_env \<Rightarrow> notification_row \<Rightarrow> notification_row" where
  "insert_defaults env r =
     r\<lparr>nr_ID := (if nr_ID r = uuid_Nil then se_uuid env 0 else nr_ID r),
       nr_Status := (if nr_Status r = '''' then StatusPending else nr_Status r),
       nr_NextAttemptAt := (if nr_NextAttemptAt r = 0 then se_now env else nr_NextAttemptAt r),
       nr_CreatedAt := (if nr_CreatedAt r = 0 then se_now env else nr_CreatedAt r)\<rparr>"

definition status_chk :: "string \<Rightarrow> bool" where
  "status_chk s \<longleftrightarrow>
     s \<in> {StatusPending, StatusSending, StatusSent, StatusFailed, StatusDead}"

definition insert_notification ::
  "notification_row \<Rightarrow> notification_row list \<Rightarrow> goerr + int \<times> notification_row list" where
  \<comment> \<open>INSERT ... ON CONFLICT (idempotency_key) WHERE idempotency_key IS NOT NULL DO NOTHING\<close>
  "insert_notification r rows =
     (if \<not> status_chk (nr_Status r) then
        Inl (PgError pgCodeCheckViolation ''notifications_status_chk'')
      else if nr_IdempotencyKey r \<noteq> None \<and> nr_IdempotencyKey r \<in> nr_IdempotencyKey ` set rows
      then Inr (0, rows)
      else if nr_ID r \<in> nr_ID ` set rows then
        Inl (PgError pgCodeUniqueViolation ''notifications_pkey'')
      else Inr (1, rows @ [r]))"

definition repo_Enqueue ::
  "notification option \<Rightarrow> ('e outbox_db_scheme, goerr option) prog" where
  "repo_Enqueue n db =
     (case n of
        None \<Rightarrow> (Ret (Some (New ''notification: cannot enqueue nil'')), db)
      | Some n \<Rightarrow>
          (let (env, db) = next_env db in
           case se_fault env of
             Some err \<Rightarrow> (Ret (Some (Translate_err err)), db)
           | None \<Rightarrow>
               (case insert_notification (insert_defaults env (toNotificationRow n))
                       (d_notifications db) of
                  Inl err \<Rightarrow> (Ret (Some (Translate_err err)), db)
                | Inr (affected, rows) \<Rightarrow>
                    (let db = db\<lparr>d_notifications := rows\<rparr> in
                     case affected_err env of
                       Some err \<Rightarrow> (Ret (Some err), db)
                     | None \<Rightarrow>
                         (Ret (if affected = 0 then Some ErrDuplicateIdempotencyKey else None),
                          db)))))"

definition claimable :: "int \<Rightarrow> time \<Rightarrow> uuid list \<Rightarrow> notification_row list \<Rightarrow> uuid list" where
  \<comment> \<open>SELECT id ... ORDER BY next_attempt_at LIMIT n FOR UPDATE SKIP LOCKED\<close>
  "claimable n now locked rows =
     map nr_ID (take_limit n (sort_key nr_NextAttemptAt
       [r \<leftarrow> rows. nr_Status r = StatusPending \<and> nr_NextAttemptAt r \<le> now
                  \<and> nr_ID r \<notin> set locked]))"

definition update_rows ::
  "uuid list \<Rightarrow> (notification_row \<Rightarrow> notification_row) \<Rightarrow> notification_row list \<Rightarrow>
   notification_row list" where
  "update_rows ids f rows = map (\<lambda>r. if nr_ID r \<in> set ids then f r else r) rows"

definition returning :: "uuid list \<Rightarrow> notification_row list \<Rightarrow> notification option list" where
  "returning ids rows = map (\<lambda>r. Some (fromNotificationRow r)) [r \<leftarrow> rows. nr_ID r \<in> set ids]"

definition repo_ClaimBatch ::
  "int \<Rightarrow> time \<Rightarrow> ('e outbox_db_scheme, goerr + notification option list) prog" where
  "repo_ClaimBatch n now db =
     (if n \<le> 0 then (Ret (Inr []), db)
      else
        (let (env, db) = next_env db in
         case se_fault env of
           Some err \<Rightarrow> (Ret (Inl (Translate_err err)), db)
         | None \<Rightarrow>
             (let ids = claimable n now (se_locked env) (d_notifications db);
                  rows = update_rows ids
                    (\<lambda>r. r\<lparr>nr_Status := StatusSending, nr_ClaimedAt := Some now\<rparr>)
                    (d_notifications db)
              in (Ret (Inr (returning ids rows)), db\<lparr>d_notifications := rows\<rparr>))))"

definition stalled_ids :: "int \<Rightarrow> time \<Rightarrow> uuid list \<Rightarrow> notification_row list \<Rightarrow> uuid list" where
  "stalled_ids n stalledBefore locked rows =
     map nr_ID (take_limit n (sort_key (\<lambda>r. the (nr_ClaimedAt r))
       [r \<leftarrow> rows. nr_Status r = StatusSending \<and> nr_ClaimedAt r \<noteq> None
                  \<and> the (nr_ClaimedAt r) < stalledBefore \<and> nr_ID r \<notin> set locked]))"

definition repo_ClaimStalled ::
  "int \<Rightarrow> time \<Rightarrow> time \<Rightarrow> ('e outbox_db_scheme, goerr + notification option list) prog" where
  "repo_ClaimStalled n stalledBefore now db =
     (if n \<le> 0 then (Ret (Inr []), db)
      else
        (let (env, db) = next_env db in
         case se_fault env of
           Some err \<Rightarrow> (Ret (Inl (Translate_err err)), db)
         | None \<Rightarrow>
             (let ids = stalled_ids n stalledBefore (se_locked env) (d_notifications db);
                  rows = update_rows ids (\<lambda>r. r\<lparr>nr_ClaimedAt := Some now\<rparr>) (d_notifications db)
              in (Ret (Inr (returning ids rows)), db\<lparr>d_notifications := rows\<rparr>))))"

definition save_columns :: "notification \<Rightarrow> notification_row \<Rightarrow> notification_row" where
  "save_columns n r =
     r\<lparr>nr_Status := n_Status n, nr_Attempts := n_Attempts n,
       nr_NextAttemptAt := n_NextAttemptAt n, nr_LastError := nullString (n_LastError n),
       nr_SentAt := n_SentAt n\<rparr>"

definition matching :: "(notification_row \<Rightarrow> bool) \<Rightarrow> notification_row list \<Rightarrow> int" where
  "matching P rows = int (length (filter P rows))"

definition repo_Save :: "notification option \<Rightarrow> ('e outbox_db_scheme, goerr option) prog" where
  "repo_Save n db =
     (case n of
        None \<Rightarrow> (Ret (Some (New ''notification: cannot save nil'')), db)
      | Some n \<Rightarrow>
          (let (env, db) = next_env db;
               affected = matching (\<lambda>r. nr_ID r = n_ID n) (d_notifications db) in
           case se_fault env of
             Some err \<Rightarrow> (Ret (Some (Translate_err err)), db)
           | None \<Rightarrow>
               (if 0 < affected \<and> \<not> status_chk (n_Status n) then
                  (Ret (Some (Translate_err
                     (PgError pgCodeCheckViolation ''notifications_status_chk''))), db)
                else
                  (let db = db\<lparr>d_notifications :=
                              update_rows [n_ID n] (save_columns n) (d_notifications db)\<rparr> in
                   case affected_err env of
                     Some err \<Rightarrow> (Ret (Some err), db)
                   | None \<Rightarrow> (Ret (if affected = 0 then Some ErrNotFound else None), db)))))"

definition row_cursor :: "notification_row \<Rightarrow> cursor" where
  "row_cursor r = Cursor (nr_CreatedAt r) (nr_ID r)"

definition in_mailbox :: "uuid \<Rightarrow> notification_row \<Rightarrow> bool" where
  "in_mailbox recipientID r \<longleftrightarrow> nr_RecipientID r = recipientID \<and> nr_Channel r = ChannelInApp"

definition mailbox_page :: "uuid \<Rightarrow> list_filter \<Rightarrow> notification_row list \<Rightarrow> notification_row list" where
  "mailbox_page recipientID f rows =
     take_limit (lf_Limit f) (rev (sort_key row_cursor
       [r \<leftarrow> rows. in_mailbox recipientID r
          \<and> (lf_UnreadOnly f \<longrightarrow> nr_ReadAt r = None)
          \<and> (case lf_Before f of None \<Rightarrow> True | Some c \<Rightarrow> row_cursor r < c)]))"

definition repo_ListForRecipient ::
  "uuid \<Rightarrow> list_filter \<Rightarrow> ('e outbox_db_scheme, goerr + notification option list) prog" where
  "repo_ListForRecipient recipientID f db =
     (let f = Normalize f; (env, db) = next_env db in
      case se_fault env of
        Some err \<Rightarrow> (Ret (Inl (Translate_err err)), db)
      | None \<Rightarrow>
          (Ret (Inr (map (\<lambda>r. Some (fromNotificationRow r))
                       (mailbox_page recipientID f (d_notifications db)))), db))"

definition repo_MarkRead :: "uuid \<Rightarrow> uuid \<Rightarrow> time \<Rightarrow> ('e outbox_db_scheme, goerr option) prog" where
  "repo_MarkRead recipientID rowID now db =
     (let (env, db) = next_env db;
          P = (\<lambda>r. nr_ID r = rowID \<and> in_mailbox recipientID r);
          affected = matching P (d_notifications db) in
      case se_fault env of
        Some err \<Rightarrow> (Ret (Some (Translate_err err)), db)
      | None \<Rightarrow>
          (let db = db\<lparr>d_notifications := map (\<lambda>r. if P r
                 then r\<lparr>nr_ReadAt := Some (case nr_ReadAt r of None \<Rightarrow> now | Some t \<Rightarrow> t)\<rparr>
                 else r) (d_notifications db)\<rparr> in
           case affected_err env of
             Some err \<Rightarrow> (Ret (Some err), db)
           | None \<Rightarrow> (Ret (if affected = 0 then Some ErrNotFound else None), db)))"

definition repo_MarkAllRead :: "uuid \<Rightarrow> time \<Rightarrow> ('e outbox_db_scheme, goerr + int) prog" where
  "repo_MarkAllRead recipientID now db =
     (let (env, db) = next_env db;
          P = (\<lambda>r. in_mailbox recipientID r \<and> nr_ReadAt r = None);
          affected = matching P (d_notifications db) in
      case se_fault env of
        Some err \<Rightarrow> (Ret (Inl (Translate_err err)), db)
      | None \<Rightarrow>
          (let db = db\<lparr>d_notifications := map (\<lambda>r. if P r
                 then r\<lparr>nr_ReadAt := Some now\<rparr> else r) (d_notifications db)\<rparr> in
           case affected_err env of
             Some err \<Rightarrow> (Ret (Inl err), db)
           | None \<Rightarrow> (Ret (Inr affected), db)))"

section \<open>PreferenceRepo\<close>

definition fromPreferenceRow :: "preference_row \<Rightarrow> preference" where
  "fromPreferenceRow r =
     \<lparr>p_UserID = pr_UserID r, p_Channel = pr_Channel r, p_Category = pr_Category r,
      p_Enabled = pr_Enabled r, p_UpdatedAt = pr_UpdatedAt r\<rparr>"

definition toPreferenceRow :: "preference \<Rightarrow> preference_row" where
  "toPreferenceRow p =
     \<lparr>pr_UserID = p_UserID p, pr_Channel = p_Channel p, pr_Category = p_Category p,
      pr_Enabled = p_Enabled p, pr_UpdatedAt = p_UpdatedAt p\<rparr>"

definition pref_pkey :: "preference_row \<Rightarrow> uuid \<times> string \<times> string" where
  "pref_pkey r = (pr_UserID r, pr_Channel r, pr_Category r)"

definition prefs_ListForUser ::
  "uuid \<Rightarrow> ('e outbox_db_scheme, goerr + preference list) prog" where
  "prefs_ListForUser userID db =
     (let (env, db) = next_env db in
      case se_fault env of
        Some err \<Rightarrow> (Ret (Inl (Translate_err err)), db)
      | None \<Rightarrow>
          (Ret (Inr (map fromPreferenceRow (sort_key pr_Channel (sort_key pr_Category
                [r \<leftarrow> d_preferences db. pr_UserID r = userID])))), db))"

fun upsert_one :: "preference_row \<Rightarrow> preference_row list \<Rightarrow> preference_row list" where
  "upsert_one r [] = [r]"
| "upsert_one r (s # ss) =
     (if pref_pkey s = pref_pkey r
      then s\<lparr>pr_Enabled := pr_Enabled r, pr_UpdatedAt := pr_UpdatedAt r\<rparr> # ss
      else s # upsert_one r ss)"

definition upsert_rows ::
  "preference_row list \<Rightarrow> preference_row list \<Rightarrow> goerr + preference_row list" where
  \<comment> \<open>INSERT ... ON CONFLICT (user_id, channel, category) DO UPDATE\<close>
  "upsert_rows rs rows =
     (if \<not> distinct (map pref_pkey rs) then
        Inl (PgError ''21000'' ''ON CONFLICT DO UPDATE command cannot affect row a second time'')
      else Inr (foldl (\<lambda>rows r. upsert_one r rows) rows rs))"

definition prefs_Upsert :: "preference list \<Rightarrow> ('e outbox_db_scheme, goerr option) prog" where
  "prefs_Upsert prefs db =
     (if prefs = [] then (Ret None, db)
      else
        (let (env, db) = next_env db;
             rs = map (\<lambda>p. let r = toPreferenceRow p in
                    if pr_UpdatedAt r = 0 then r\<lparr>pr_UpdatedAt := se_now env\<rparr> else r) prefs in
         case se_fault env of
           Some err \<Rightarrow> (Ret (Translate (Some err)), db)
         | None \<Rightarrow>
             (case upsert_rows rs (d_preferences db) of
                Inl err \<Rightarrow> (Ret (Translate (Some err)), db)
              | Inr rows \<Rightarrow> (Ret (Translate None), db\<lparr>d_preferences := rows\<rparr>))))"


section \<open>The invariant of the table\<close>

definition outbox_wf :: "notification_row list \<Rightarrow> bool" where
  "outbox_wf rows \<longleftrightarrow>
     distinct (map nr_ID rows) \<and>
     distinct (map nr_IdempotencyKey [r \<leftarrow> rows. nr_IdempotencyKey r \<noteq> None]) \<and>
     (\<forall>r \<in> set rows. status_chk (nr_Status r) \<and>
        nr_IdempotencyKey r \<noteq> Some '''' \<and> nr_LastError r \<noteq> Some '''')"

text \<open>A row-wise update that keeps the identity columns.\<close>

definition keeps_identity :: "(notification_row \<Rightarrow> notification_row) \<Rightarrow> bool" where
  "keeps_identity f \<longleftrightarrow>
     (\<forall>r. nr_ID (f r) = nr_ID r \<and> nr_IdempotencyKey (f r) = nr_IdempotencyKey r \<and>
          nr_RecipientID (f r) = nr_RecipientID r \<and> nr_Channel (f r) = nr_Channel r \<and>
          nr_CreatedAt (f r) = nr_CreatedAt r)"

lemma keeps_identityI [intro]:
  "(\<And>r. nr_ID (f r) = nr_ID r) \<Longrightarrow> (\<And>r. nr_IdempotencyKey (f r) = nr_IdempotencyKey r) \<Longrightarrow>
   (\<And>r. nr_RecipientID (f r) = nr_RecipientID r) \<Longrightarrow> (\<And>r. nr_Channel (f r) = nr_Channel r) \<Longrightarrow>
   (\<And>r. nr_CreatedAt (f r) = nr_CreatedAt r) \<Longrightarrow> keeps_identity f"
  by (simp add: keeps_identity_def)

lemma map_rows_ids:
  "keeps_identity f \<Longrightarrow> map nr_ID (map f rows) = map nr_ID rows"
  by (simp add: keeps_identity_def)

lemma outbox_wf_map:
  assumes wf: "outbox_wf rows" and keeps: "keeps_identity f"
    and ok: "\<And>r. r \<in> set rows \<Longrightarrow> status_chk (nr_Status (f r)) \<and> nr_LastError (f r) \<noteq> Some ''''"
  shows "outbox_wf (map f rows)"
proof -
  have keys: "map nr_IdempotencyKey (filter (\<lambda>r. nr_IdempotencyKey r \<noteq> None) (map f rows)) =
      map nr_IdempotencyKey (filter (\<lambda>r. nr_IdempotencyKey r \<noteq> None) rows)"
    using keeps by (simp add: keeps_identity_def filter_map o_def)
  show ?thesis
    unfolding outbox_wf_def map_rows_ids [OF keeps] keys
    using wf ok keeps by (auto simp: outbox_wf_def keeps_identity_def)
qed

lemma update_rows_map:
  "update_rows ids f rows = map (\<lambda>r. if nr_ID r \<in> set ids then f r else r) rows"
  by (rule update_rows_def)

lemma keeps_identity_if [intro]:
  "keeps_identity f \<Longrightarrow> keeps_identity (\<lambda>r. if P r then f r else r)"
  by (simp add: keeps_identity_def)

lemma keeps_identity_updates [simp]:
  "keeps_identity (\<lambda>r. r\<lparr>nr_Status := s, nr_ClaimedAt := c\<rparr>)"
  "keeps_identity (\<lambda>r. r\<lparr>nr_ClaimedAt := c\<rparr>)"
  "keeps_identity (\<lambda>r. r\<lparr>nr_ReadAt := g r\<rparr>)"
  "keeps_identity (save_columns n)"
  by (auto simp: save_columns_def)

lemma nullString_neq [simp]: "nullString s \<noteq> Some ''''"
  by (simp add: nullString_def)

lemma save_columns_sel [simp]:
  "nr_ID (save_columns n r) = nr_ID r" "nr_Status (save_columns n r) = n_Status n"
  "nr_LastError (save_columns n r) = nullString (n_LastError n)"
  by (simp_all add: save_columns_def)

lemma status_chk_status [simp]:
  "status_chk StatusPending" "status_chk StatusSending" "status_chk StatusSent"
  "status_chk StatusFailed" "status_chk StatusDead"
  by (simp_all add: status_chk_def)

lemma insert_notification_wf:
  assumes "outbox_wf rows" and "insert_notification r rows = Inr (k, rows')"
    and "nr_IdempotencyKey r \<noteq> Some ''''" "nr_LastError r \<noteq> Some ''''"
  shows "outbox_wf rows'"
  using assms by (auto simp: insert_notification_def outbox_wf_def split: if_splits)

lemma insert_defaults_sel [simp]:
  "nr_IdempotencyKey (insert_defaults env r) = nr_IdempotencyKey r"
  "nr_LastError (insert_defaults env r) = nr_LastError r"
  "nr_Channel (insert_defaults env r) = nr_Channel r"
  "nr_RecipientID (insert_defaults env r) = nr_RecipientID r"
  by (simp_all add: insert_defaults_def)

lemma toNotificationRow_sel [simp]:
  "nr_IdempotencyKey (toNotificationRow n) = nullString (n_IdempotencyKey n)"
  "nr_LastError (toNotificationRow n) = nullString (n_LastError n)"
  "nr_ID (toNotificationRow n) = n_ID n" "nr_Status (toNotificationRow n) = n_Status n"
  by (simp_all add: toNotificationRow_def)

text \<open>Every method keeps the invariant, whatever the script does.\<close>

abbreviation wf_db :: "'e outbox_db_scheme \<Rightarrow> bool" where
  "wf_db db \<equiv> outbox_wf (d_notifications db)"

lemma next_env_split:
  "next_env db = (env, db') \<Longrightarrow>
     d_notifications db' = d_notifications db \<and> d_preferences db' = d_preferences db \<and>
     outbox_db.more db' = outbox_db.more db"
  using next_env_tables [of db] by simp

text \<open>What each method leaves in the table.\<close>

lemma repo_Enqueue_table:
  "d_notifications (snd (repo_Enqueue n db)) = d_notifications db \<or>
   (\<exists>r k. insert_notification r (d_notifications db) =
             Inr (k, d_notifications (snd (repo_Enqueue n db))) \<and>
           nr_IdempotencyKey r \<noteq> Some [] \<and> nr_LastError r \<noteq> Some [])"
proof (cases n)
  case (Some m)
  obtain env db1 where e: "next_env db = (env, db1)" by (cases "next_env db")
  let ?r = "insert_defaults env (toNotificationRow m)"
  show ?thesis
    using next_env_split [OF e] Some e
    by (cases "se_fault env"; cases "insert_notification ?r (d_notifications db)")
      (auto simp: repo_Enqueue_def Let_def split: option.splits intro!: exI [of _ ?r])
qed (simp add: repo_Enqueue_def)

lemma repo_ClaimBatch_table:
  "d_notifications (snd (repo_ClaimBatch k now db)) = d_notifications db \<or>
   (\<exists>ids. d_notifications (snd (repo_ClaimBatch k now db)) =
      update_rows ids (\<lambda>r. r\<lparr>nr_Status := StatusSending, nr_ClaimedAt := Some now\<rparr>)
        (d_notifications db))"
  by (auto simp: repo_ClaimBatch_def Let_def dest!: next_env_split
      split: option.splits prod.splits)

lemma repo_ClaimStalled_table:
  "d_notifications (snd (repo_ClaimStalled k t now db)) = d_notifications db \<or>
   (\<exists>ids. d_notifications (snd (repo_ClaimStalled k t now db)) =
      update_rows ids (\<lambda>r. r\<lparr>nr_ClaimedAt := Some now\<rparr>) (d_notifications db))"
  by (auto simp: repo_ClaimStalled_def Let_def dest!: next_env_split
      split: option.splits prod.splits)

lemma repo_Save_table:
  "d_notifications (snd (repo_Save n db)) = d_notifications db \<or>
   (\<exists>m. n = Some m \<and> status_chk (n_Status m) \<and>
      d_notifications (snd (repo_Save n db)) =
        update_rows [n_ID m] (save_columns m) (d_notifications db))"
proof (cases n)
  case (Some m)
  obtain env db1 where e: "next_env db = (env, db1)" by (cases "next_env db")
  have none: "matching (\<lambda>r. nr_ID r = n_ID m) rows = 0 \<Longrightarrow>
      update_rows [n_ID m] (save_columns m) rows = rows" for rows
    by (auto simp: matching_def update_rows_def filter_empty_conv intro!: map_idI)
  have nonneg: "0 \<le> matching P rows" for P rows by (simp add: matching_def)
  show ?thesis
  proof (cases "matching (\<lambda>r. nr_ID r = n_ID m) (d_notifications db) = 0")
    case True
    with none [OF True] show ?thesis
      using next_env_split [OF e] Some e by (auto simp: repo_Save_def Let_def split: option.splits)
  next
    case False
    then have "0 < matching (\<lambda>r. nr_ID r = n_ID m) (d_notifications db)"
      using nonneg by (metis less_le)
    then show ?thesis
      using next_env_split [OF e] Some e by (auto simp: repo_Save_def Let_def split: option.splits)
  qed
qed (simp add: repo_Save_def)

lemma repo_MarkRead_table:
  "d_notifications (snd (repo_MarkRead u i now db)) = d_notifications db \<or>
   d_notifications (snd (repo_MarkRead u i now db)) =
     map (\<lambda>r. if nr_ID r = i \<and> in_mailbox u r
            then r\<lparr>nr_ReadAt := Some (case nr_ReadAt r of None \<Rightarrow> now | Some t \<Rightarrow> t)\<rparr> else r)
       (d_notifications db)"
  by (auto simp: repo_MarkRead_def Let_def dest!: next_env_split
      split: option.splits prod.splits)

lemma repo_MarkAllRead_table:
  "d_notifications (snd (repo_MarkAllRead u now db)) = d_notifications db \<or>
   d_notifications (snd (repo_MarkAllRead u now db)) =
     map (\<lambda>r. if in_mailbox u r \<and> nr_ReadAt r = None then r\<lparr>nr_ReadAt := Some now\<rparr> else r)
       (d_notifications db)"
  by (auto simp: repo_MarkAllRead_def Let_def dest!: next_env_split
      split: option.splits prod.splits)

lemma outbox_wf_update_rows:
  assumes "outbox_wf rows" and "keeps_identity f"
    and "\<And>r. r \<in> set rows \<Longrightarrow> nr_ID r \<in> set ids \<Longrightarrow>
           status_chk (nr_Status (f r)) \<and> nr_LastError (f r) \<noteq> Some []"
  shows "outbox_wf (update_rows ids f rows)"
  unfolding update_rows_def using assms
  by (intro outbox_wf_map) (auto simp: outbox_wf_def)

lemma outbox_wf_row:
  "outbox_wf rows \<Longrightarrow> \<forall>r \<in> set rows. status_chk (nr_Status r) \<and> nr_LastError r \<noteq> Some []"
  by (simp add: outbox_wf_def)

lemma repo_Enqueue_wf: "wf_db db \<Longrightarrow> wf_db (snd (repo_Enqueue n db))"
  using repo_Enqueue_table [of n db] insert_notification_wf by metis

lemma repo_ClaimBatch_wf: assumes "wf_db db" shows "wf_db (snd (repo_ClaimBatch k now db))"
  using repo_ClaimBatch_table [of k now db] outbox_wf_row [OF assms]
  by (auto intro!: outbox_wf_update_rows [OF assms] simp: assms)

lemma repo_ClaimStalled_wf: assumes "wf_db db" shows "wf_db (snd (repo_ClaimStalled k t now db))"
  using repo_ClaimStalled_table [of k t now db] outbox_wf_row [OF assms]
  by (auto intro!: outbox_wf_update_rows [OF assms] simp: assms)

lemma repo_Save_wf: assumes "wf_db db" shows "wf_db (snd (repo_Save n db))"
  using repo_Save_table [of n db] outbox_wf_row [OF assms]
  by (auto intro!: outbox_wf_update_rows [OF assms] simp: assms)

lemma repo_MarkRead_wf: assumes "wf_db db" shows "wf_db (snd (repo_MarkRead u i now db))"
  using repo_MarkRead_table [of u i now db] outbox_wf_row [OF assms]
  by (auto intro!: outbox_wf_map [OF assms] simp: assms keeps_identity_def split: if_splits)

lemma repo_MarkAllRead_wf: assumes "wf_db db" shows "wf_db (snd (repo_MarkAllRead u now db))"
  using repo_MarkAllRead_table [of u now db] outbox_wf_row [OF assms]
  by (auto intro!: outbox_wf_map [OF assms] simp: assms keeps_identity_def split: if_splits)


section \<open>Claims\<close>

text \<open>The table as the domain sees it: the entity stored under an id.\<close>

definition entity_at :: "notification_row list \<Rightarrow> uuid \<Rightarrow> notification option" where
  "entity_at rows i = map_option fromNotificationRow (find (\<lambda>r. nr_ID r = i) rows)"

lemma entity_at_row:
  "distinct (map nr_ID rows) \<Longrightarrow> r \<in> set rows \<Longrightarrow>
     entity_at rows (nr_ID r) = Some (fromNotificationRow r)"
  by (simp add: entity_at_def find_distinct_id)

lemma entity_at_SomeE:
  assumes "entity_at rows i = Some n"
  obtains r where "r \<in> set rows" "nr_ID r = i" "n = fromNotificationRow r"
  using assms by (auto simp: entity_at_def dest: find_Some_mem)

lemma entity_at_map:
  assumes "keeps_identity f"
  shows "entity_at (map f rows) i =
     map_option (\<lambda>r. fromNotificationRow (f r)) (find (\<lambda>r. nr_ID r = i) rows)"
  using assms
  by (simp add: entity_at_def find_map_eq_id keeps_identity_def option.map_comp o_def)

lemma entity_at_update_rows:
  assumes "keeps_identity f"
  shows "entity_at (update_rows ids f rows) i =
     (if i \<in> set ids
      then map_option (\<lambda>r. fromNotificationRow (f r)) (find (\<lambda>r. nr_ID r = i) rows)
      else entity_at rows i)"
proof (cases "find (\<lambda>r. nr_ID r = i) rows")
  case None
  then show ?thesis
    unfolding update_rows_def using assms by (subst entity_at_map) (auto simp: entity_at_def)
next
  case (Some r)
  then have "nr_ID r = i" by (auto dest: find_Some_mem)
  with Some show ?thesis
    unfolding update_rows_def using assms by (subst entity_at_map) (auto simp: entity_at_def)
qed

lemma distinct_map_sort_key [simp]: "distinct (map f (sort_key g xs)) = distinct (map f xs)"
  by (simp add: distinct_map)

lemma claimable_mem:
  "i \<in> set (claimable k now locked rows) \<Longrightarrow>
     \<exists>r \<in> set rows. nr_ID r = i \<and> nr_Status r = StatusPending \<and> nr_NextAttemptAt r \<le> now \<and>
       i \<notin> set locked"
  unfolding claimable_def take_limit_def using set_take_sort_key by fastforce

lemma claimable_distinct:
  "distinct (map nr_ID rows) \<Longrightarrow> distinct (claimable k now locked rows)"
  by (simp add: claimable_def take_limit_def distinct_map_filter distinct_map_take)

lemma claimable_length: "length (claimable k now locked rows) \<le> nat k"
  by (simp add: claimable_def take_limit_def)

lemma stalled_ids_mem:
  "i \<in> set (stalled_ids k before locked rows) \<Longrightarrow>
     \<exists>r \<in> set rows. nr_ID r = i \<and> nr_Status r = StatusSending \<and>
       (\<exists>t. nr_ClaimedAt r = Some t \<and> t < before) \<and> i \<notin> set locked"
  unfolding stalled_ids_def take_limit_def using set_take_sort_key by fastforce

lemma stalled_ids_distinct:
  "distinct (map nr_ID rows) \<Longrightarrow> distinct (stalled_ids k before locked rows)"
  by (simp add: stalled_ids_def take_limit_def distinct_map_filter distinct_map_take)

lemma stalled_ids_length: "length (stalled_ids k before locked rows) \<le> nat k"
  by (simp add: stalled_ids_def take_limit_def)

text \<open>What comes back from an \<open>UPDATE ... RETURNING *\<close> of given ids.\<close>

lemma returning_spec:
  assumes dist: "distinct (map nr_ID rows)" and keeps: "keeps_identity f"
    and ids: "distinct ids" "set ids \<subseteq> nr_ID ` set rows"
  defines "rows' \<equiv> update_rows ids f rows"
  obtains cs where "returning ids rows' = map Some cs" "distinct (map n_ID cs)"
    "set (map n_ID cs) = set ids" "length cs = length ids"
    "\<And>c. c \<in> set cs \<Longrightarrow> entity_at rows' (n_ID c) = Some c \<and>
       (\<exists>r \<in> set rows. nr_ID r = n_ID c \<and> c = fromNotificationRow (f r))"
proof
  let ?sel = "filter (\<lambda>r. nr_ID r \<in> set ids) rows'"
  let ?cs = "map fromNotificationRow ?sel"
  have ids': "map nr_ID rows' = map nr_ID rows"
    unfolding rows'_def update_rows_def using keeps by (simp add: keeps_identity_def)
  then have dist': "distinct (map nr_ID rows')" using dist by simp
  have sub': "set ids \<subseteq> nr_ID ` set rows'" using ids(2) ids' by (metis list.set_map)
  show "returning ids rows' = map Some ?cs" by (simp add: returning_def)
  have "map n_ID ?cs = map nr_ID ?sel" by simp
  then show "distinct (map n_ID ?cs)" using distinct_map_filter [OF dist'] by metis
  show "set (map n_ID ?cs) = set ids" using sub' by (auto simp: image_iff)
  show "length ?cs = length ids"
    using length_filter_map_ids [OF dist' ids(1) sub'] by simp
  show "entity_at rows' (n_ID c) = Some c \<and>
      (\<exists>r \<in> set rows. nr_ID r = n_ID c \<and> c = fromNotificationRow (f r))"
    if c: "c \<in> set ?cs" for c
  proof -
    obtain r' where r': "r' \<in> set rows'" "nr_ID r' \<in> set ids" "c = fromNotificationRow r'"
      using c by auto
    from r'(1) obtain r where r0: "r \<in> set rows" "r' = (if nr_ID r \<in> set ids then f r else r)"
      unfolding rows'_def update_rows_def by (auto simp only: set_map)
    then have "nr_ID r' = nr_ID r" using keeps by (simp add: keeps_identity_def)
    with r0 r'(2) have r: "r \<in> set rows" "r' = f r" "nr_ID r = nr_ID r'" by simp_all
    have "n_ID c = nr_ID r'" by (simp add: r'(3))
    moreover have "entity_at rows' (nr_ID r') = Some c"
      unfolding r'(3) by (rule entity_at_row [OF dist' r'(1)])
    moreover have "c = fromNotificationRow (f r)" by (simp add: r'(3) r(2))
    ultimately show ?thesis using r(1,3) by metis
  qed
qed


section \<open>The repositories keep the contracts\<close>

text \<open>
  The driver reports its own errors, never a sentinel of this module.
\<close>

definition driver_error :: "goerr \<Rightarrow> bool" where
  "driver_error e \<longleftrightarrow> \<not> errors_Is e ErrDuplicateIdempotencyKey \<and> \<not> errors_Is e ErrNotFound"

definition script_ok :: "stmt_env list \<Rightarrow> bool" where
  "script_ok es \<longleftrightarrow>
     (\<forall>env \<in> set es. (\<forall>e. se_fault env = Some e \<longrightarrow> driver_error e) \<and>
        (\<forall>e. se_affected env = Some e \<longrightarrow> driver_error e))"

definition outbox_inv :: "'e outbox_db_scheme \<Rightarrow> bool" where
  "outbox_inv db \<longleftrightarrow> wf_db db \<and> script_ok (d_env db)"

definition entities :: "'e outbox_db_scheme \<Rightarrow> store" where
  "entities db = entity_at (d_notifications db)"

lemma quiet_sel [simp]: "se_fault quiet = None" "se_affected quiet = None" "se_locked quiet = []"
  by (simp_all add: quiet_def)

lemma next_env_script:
  "next_env db = (env, db') \<Longrightarrow> script_ok (d_env db) \<Longrightarrow>
     script_ok (d_env db') \<and> (\<forall>e. se_fault env = Some e \<longrightarrow> driver_error e) \<and>
     (\<forall>e. se_affected env = Some e \<longrightarrow> driver_error e)"
  by (auto simp: next_env_def script_ok_def split: list.splits)

lemma driver_error_translated:
  "driver_error e \<Longrightarrow> \<not> errors_Is (Translate_err e) ErrDuplicateIdempotencyKey"
  by (auto simp: Translate_err_def joinSentinel_def driver_error_def err_simps
      dest!: code_sentinel_some split: option.splits)

lemma constraint_error_translated:
  "\<not> errors_Is (Translate_err (PgError c m)) ErrDuplicateIdempotencyKey"
  by (rule driver_error_translated) (simp add: driver_error_def err_simps)

text \<open>Only the notifications table and the script are touched.\<close>

lemma repo_Enqueue_env: "script_ok (d_env db) \<Longrightarrow> script_ok (d_env (snd (repo_Enqueue n db)))"
  by (auto simp: repo_Enqueue_def Let_def dest!: next_env_script
      split: option.splits prod.splits sum.splits)

lemma repo_ClaimBatch_env:
  "script_ok (d_env db) \<Longrightarrow> script_ok (d_env (snd (repo_ClaimBatch k now db)))"
  by (auto simp: repo_ClaimBatch_def Let_def dest!: next_env_script split: option.splits prod.splits)

lemma repo_ClaimStalled_env:
  "script_ok (d_env db) \<Longrightarrow> script_ok (d_env (snd (repo_ClaimStalled k t now db)))"
  by (auto simp: repo_ClaimStalled_def Let_def dest!: next_env_script split: option.splits prod.splits)

lemma repo_Save_env: "script_ok (d_env db) \<Longrightarrow> script_ok (d_env (snd (repo_Save n db)))"
  by (auto simp: repo_Save_def Let_def dest!: next_env_script split: option.splits prod.splits)

lemma repo_ClaimBatch_Ret: "\<exists>r. fst (repo_ClaimBatch k now db) = Ret r"
  by (auto simp: repo_ClaimBatch_def Let_def split: option.splits prod.splits)

lemma repo_ClaimStalled_Ret: "\<exists>r. fst (repo_ClaimStalled k t now db) = Ret r"
  by (auto simp: repo_ClaimStalled_def Let_def split: option.splits prod.splits)

lemma repo_Save_Ret: "\<exists>r. fst (repo_Save n db) = Ret r"
  by (auto simp: repo_Save_def Let_def split: option.splits prod.splits)

lemma repo_Enqueue_Ret: "\<exists>r. fst (repo_Enqueue n db) = Ret r"
  by (auto simp: repo_Enqueue_def Let_def split: option.splits prod.splits sum.splits)

lemma repo_ClaimBatch_Inr:
  assumes "repo_ClaimBatch k now db = (Ret (Inr ns), db')"
  defines "ids \<equiv> claimable k now (se_locked (fst (next_env db))) (d_notifications db)"
  shows "(ns = [] \<and> db' = db) \<or>
    (ns = returning ids (d_notifications db') \<and>
     d_notifications db' = update_rows ids (\<lambda>r. r\<lparr>nr_Status := StatusSending, nr_ClaimedAt := Some now\<rparr>) (d_notifications db))"
proof (cases "k \<le> 0")
  case True
  with assms(1) show ?thesis by (simp add: repo_ClaimBatch_def)
next
  case False
  obtain env db1 where e: "next_env db = (env, db1)" by (cases "next_env db")
  show ?thesis
    using assms(1) False next_env_split [OF e]
    by (cases "se_fault env") (auto simp: repo_ClaimBatch_def Let_def e ids_def)
qed

lemma repo_ClaimBatch_claims:
  assumes "wf_db db" and "repo_ClaimBatch k now db = (Ret (Inr ns), db')"
  shows "\<exists>cs. ns = map Some cs \<and> claimed_from (entities db) (entities db') k now cs"
  using repo_ClaimBatch_Inr [OF assms(2)]
proof (elim disjE conjE)
  assume "ns = []" and "db' = db"
  then show ?thesis by (auto simp: claimed_from_def)
next
  let ?rows = "d_notifications db"
  let ?ids = "claimable k now (se_locked (fst (next_env db))) ?rows"
  let ?f = "\<lambda>r. r\<lparr>nr_Status := StatusSending, nr_ClaimedAt := Some now\<rparr>"
  assume ns: "ns = returning ?ids (d_notifications db')"
    and tab: "d_notifications db' = update_rows ?ids ?f ?rows"
  have dist: "distinct (map nr_ID ?rows)" using assms(1) by (simp add: outbox_wf_def)
  have sub: "set ?ids \<subseteq> nr_ID ` set ?rows" using claimable_mem by fastforce
  obtain cs where cs: "returning ?ids (update_rows ?ids ?f ?rows) = map Some cs"
    "distinct (map n_ID cs)" "set (map n_ID cs) = set ?ids" "length cs = length ?ids"
    "\<And>c. c \<in> set cs \<Longrightarrow> entity_at (update_rows ?ids ?f ?rows) (n_ID c) = Some c \<and>
       (\<exists>r \<in> set ?rows. nr_ID r = n_ID c \<and> c = fromNotificationRow (?f r))"
    using returning_spec [OF dist _ claimable_distinct [OF dist] sub, of ?f] by force
  have claimed: "n_Status c = StatusSending \<and> n_NextAttemptAt c \<le> now \<and>
      entities db (n_ID c) = Some (c\<lparr>n_Status := StatusPending\<rparr>) \<and> entities db' (n_ID c) = Some c"
    if c: "c \<in> set cs" for c
  proof -
    from cs(5) [OF c] obtain r where r: "r \<in> set ?rows" "nr_ID r = n_ID c"
      "c = fromNotificationRow (?f r)" by blast
    have "n_ID c \<in> set ?ids" using c cs(3) by auto
    from claimable_mem [OF this] obtain r' where r': "r' \<in> set ?rows" "nr_ID r' = n_ID c"
      "nr_Status r' = StatusPending" "nr_NextAttemptAt r' \<le> now" by blast
    have "r' = r" using dist r r' by (auto simp: distinct_map dest: inj_onD)
    with r' have "nr_Status r = StatusPending" "nr_NextAttemptAt r \<le> now" by simp_all
    moreover have "entities db' (n_ID c) = Some c"
      using cs(5) [OF c] unfolding entities_def tab by blast
    moreover have "entities db (n_ID c) = Some (fromNotificationRow r)"
      using entity_at_row [OF dist r(1)] unfolding entities_def r(2) .
    ultimately show ?thesis by (simp add: r(3) fromNotificationRow_def)
  qed
  have "entities db' i = entities db i" if "i \<notin> n_ID ` set cs" for i
    using that cs(3) by (simp add: entities_def tab entity_at_update_rows)
  with claimed cs(2,4) show ?thesis
    using claimable_length [of k now "se_locked (fst (next_env db))" ?rows] ns cs(1)
    unfolding tab [symmetric] claimed_from_def by auto
qed

lemma repo_ClaimStalled_Inr:
  assumes "repo_ClaimStalled k t now db = (Ret (Inr ns), db')"
  defines "ids \<equiv> stalled_ids k t (se_locked (fst (next_env db))) (d_notifications db)"
  shows "(ns = [] \<and> db' = db) \<or>
    (ns = returning ids (d_notifications db') \<and>
     d_notifications db' = update_rows ids (\<lambda>r. r\<lparr>nr_ClaimedAt := Some now\<rparr>) (d_notifications db))"
proof (cases "k \<le> 0")
  case True
  with assms(1) show ?thesis by (simp add: repo_ClaimStalled_def)
next
  case False
  obtain env db1 where e: "next_env db = (env, db1)" by (cases "next_env db")
  show ?thesis
    using assms(1) False next_env_split [OF e]
    by (cases "se_fault env") (auto simp: repo_ClaimStalled_def Let_def e ids_def)
qed

lemma repo_ClaimStalled_claims:
  assumes "wf_db db" and "repo_ClaimStalled k t now db = (Ret (Inr ns), db')"
  shows "\<exists>cs. ns = map Some cs \<and> stalled_from (entities db) (entities db') k cs"
  using repo_ClaimStalled_Inr [OF assms(2)]
proof (elim disjE conjE)
  assume "ns = []" and "db' = db"
  then show ?thesis by (auto simp: stalled_from_def)
next
  let ?rows = "d_notifications db"
  let ?ids = "stalled_ids k t (se_locked (fst (next_env db))) ?rows"
  let ?f = "\<lambda>r :: notification_row. r\<lparr>nr_ClaimedAt := Some now\<rparr>"
  assume ns: "ns = returning ?ids (d_notifications db')"
    and tab: "d_notifications db' = update_rows ?ids ?f ?rows"
  have dist: "distinct (map nr_ID ?rows)" using assms(1) by (simp add: outbox_wf_def)
  have sub: "set ?ids \<subseteq> nr_ID ` set ?rows" using stalled_ids_mem by fastforce
  have noent: "fromNotificationRow (?f r) = fromNotificationRow r" for r
    by (simp add: fromNotificationRow_def)
  have same: "entities db' = entities db"
    by (rule ext) (simp add: entities_def tab entity_at_update_rows noent, simp add: entity_at_def)
  obtain cs where cs: "returning ?ids (update_rows ?ids ?f ?rows) = map Some cs"
    "distinct (map n_ID cs)" "set (map n_ID cs) = set ?ids" "length cs = length ?ids"
    "\<And>c. c \<in> set cs \<Longrightarrow> entity_at (update_rows ?ids ?f ?rows) (n_ID c) = Some c \<and>
       (\<exists>r \<in> set ?rows. nr_ID r = n_ID c \<and> c = fromNotificationRow (?f r))"
    using returning_spec [OF dist _ stalled_ids_distinct [OF dist] sub, of ?f] by force
  have "n_Status c = StatusSending \<and> entities db (n_ID c) = Some c" if c: "c \<in> set cs" for c
  proof -
    from cs(5) [OF c] obtain r where r: "r \<in> set ?rows" "nr_ID r = n_ID c"
      "c = fromNotificationRow r" using noent by auto
    have "n_ID c \<in> set ?ids" using c cs(3) by auto
    from stalled_ids_mem [OF this] obtain r' where r': "r' \<in> set ?rows" "nr_ID r' = n_ID c"
      "nr_Status r' = StatusSending" by blast
    have "r' = r" using dist r r' by (auto simp: distinct_map dest: inj_onD)
    with r' have "n_Status c = StatusSending" by (simp add: r(3))
    moreover have "entities db (n_ID c) = Some c"
      using entity_at_row [OF dist r(1)] unfolding entities_def r(2) r(3) [symmetric] .
    ultimately show ?thesis by blast
  qed
  with same cs(2,4) show ?thesis
    using stalled_ids_length [of k t "se_locked (fst (next_env db))" ?rows] ns cs(1)
    unfolding tab [symmetric] stalled_from_def by auto
qed


lemma entity_at_save_columns:
  "entity_at (update_rows [n_ID n] (save_columns n) rows) i =
     (if i = n_ID n then map_option (\<lambda>old. settled old n) (entity_at rows i) else entity_at rows i)"
proof -
  have "fromNotificationRow (save_columns n r) = settled (fromNotificationRow r) n" for r
    by (simp add: fromNotificationRow_def save_columns_def settled_def)
  then show ?thesis
    by (simp add: entity_at_update_rows) (simp add: entity_at_def option.map_comp o_def)
qed

lemma matching_pos_find:
  "0 < matching (\<lambda>r. nr_ID r = i) rows \<longleftrightarrow> (\<exists>n. entity_at rows i = Some n)"
proof -
  have "0 < matching (\<lambda>r. nr_ID r = i) rows \<longleftrightarrow> (\<exists>r \<in> set rows. nr_ID r = i)"
    by (auto simp: matching_def filter_empty_conv)
  also have "\<dots> \<longleftrightarrow> find (\<lambda>r. nr_ID r = i) rows \<noteq> None"
    by (auto simp: find_None_iff)
  finally show ?thesis by (auto simp: entity_at_def)
qed

lemma repo_Save_saves:
  assumes "repo_Save (Some n) db = (Ret r, db')"
  shows "saved_into (entities db) (entities db') n r"
proof -
  obtain env db1 where e: "next_env db = (env, db1)" by (cases "next_env db")
  let ?new = "update_rows [n_ID n] (save_columns n) (d_notifications db)"
  show ?thesis
  proof (cases "entity_at (d_notifications db) (n_ID n)")
    case None
    then have "\<not> 0 < matching (\<lambda>r. nr_ID r = n_ID n) (d_notifications db)"
      by (simp add: matching_pos_find)
    then have "matching (\<lambda>r. nr_ID r = n_ID n) (d_notifications db) = 0"
      by (simp add: matching_def)
    moreover have "entity_at ?new = entity_at (d_notifications db)"
      by (rule ext) (simp add: entity_at_save_columns None)
    ultimately show ?thesis
      using assms next_env_split [OF e]
      by (auto simp: repo_Save_def Let_def e saved_into_def entities_def split: option.splits)
  next
    case (Some old)
    then have "0 < matching (\<lambda>r. nr_ID r = n_ID n) (d_notifications db)"
      by (simp add: matching_pos_find)
    moreover have "entity_at ?new = (entity_at (d_notifications db))(n_ID n \<mapsto> settled old n)"
      by (rule ext) (simp add: entity_at_save_columns Some)
    ultimately show ?thesis
      using assms next_env_split [OF e] Some
      by (auto simp: repo_Save_def Let_def e saved_into_def entities_def
          split: option.splits if_splits)
  qed
qed

definition outbox_repo :: "'e outbox_db_scheme notification_repository" where
  "outbox_repo =
     \<lparr>nrp_Enqueue = repo_Enqueue, nrp_ClaimBatch = repo_ClaimBatch,
      nrp_ClaimStalled = repo_ClaimStalled, nrp_Save = repo_Save,
      nrp_ListForRecipient = repo_ListForRecipient, nrp_MarkRead = repo_MarkRead,
      nrp_MarkAllRead = repo_MarkAllRead\<rparr>"

lemma outbox_repo_sel [simp]:
  "nrp_Enqueue outbox_repo = repo_Enqueue" "nrp_ClaimBatch outbox_repo = repo_ClaimBatch"
  "nrp_ClaimStalled outbox_repo = repo_ClaimStalled" "nrp_Save outbox_repo = repo_Save"
  "nrp_ListForRecipient outbox_repo = repo_ListForRecipient"
  "nrp_MarkRead outbox_repo = repo_MarkRead" "nrp_MarkAllRead outbox_repo = repo_MarkAllRead"
  by (simp_all add: outbox_repo_def)

lemma outbox_inv_ops:
  assumes "outbox_inv db"
  shows "outbox_inv (snd (repo_Enqueue n db))" "outbox_inv (snd (repo_ClaimBatch k now db))"
    "outbox_inv (snd (repo_ClaimStalled k t now db))" "outbox_inv (snd (repo_Save n db))"
  using assms
  by (simp_all add: outbox_inv_def repo_Enqueue_wf repo_Enqueue_env repo_ClaimBatch_wf
      repo_ClaimBatch_env repo_ClaimStalled_wf repo_ClaimStalled_env repo_Save_wf repo_Save_env)

lemma repo_ClaimBatch_Inl:
  "repo_ClaimBatch k now db = (Ret (Inl e), db') \<Longrightarrow> entities db' = entities db"
  by (auto simp: repo_ClaimBatch_def Let_def entities_def dest!: next_env_split
      split: option.splits prod.splits if_splits)

lemma repo_ClaimStalled_Inl:
  "repo_ClaimStalled k t now db = (Ret (Inl e), db') \<Longrightarrow> entities db' = entities db"
  by (auto simp: repo_ClaimStalled_def Let_def entities_def dest!: next_env_split
      split: option.splits prod.splits if_splits)

interpretation outbox: outbox_port outbox_repo outbox_inv entities
proof
  fix db :: "'e outbox_db_scheme" and k t now ns db' e n
  assume inv: "outbox_inv db"
  show "\<exists>r w'. nrp_ClaimBatch outbox_repo k now db = (Ret r, w') \<and> outbox_inv w'"
    using repo_ClaimBatch_Ret [of k now db] outbox_inv_ops(2) [OF inv, of k now]
    by (cases "repo_ClaimBatch k now db") auto
  show "nrp_ClaimBatch outbox_repo k now db = (Ret (Inr ns), db') \<Longrightarrow>
      \<exists>cs. ns = map Some cs \<and> claimed_from (entities db) (entities db') k now cs"
    by (rule repo_ClaimBatch_claims) (use inv in \<open>simp_all add: outbox_inv_def\<close>)
  show "nrp_ClaimBatch outbox_repo k now db = (Ret (Inl e), db') \<Longrightarrow> entities db' = entities db"
    by (simp add: repo_ClaimBatch_Inl)
  show "\<exists>r w'. nrp_ClaimStalled outbox_repo k t now db = (Ret r, w') \<and> outbox_inv w'"
    using repo_ClaimStalled_Ret [of k t now db] outbox_inv_ops(3) [OF inv, of k t now]
    by (cases "repo_ClaimStalled k t now db") auto
  show "nrp_ClaimStalled outbox_repo k t now db = (Ret (Inr ns), db') \<Longrightarrow>
      \<exists>cs. ns = map Some cs \<and> stalled_from (entities db) (entities db') k cs"
    by (rule repo_ClaimStalled_claims) (use inv in \<open>simp_all add: outbox_inv_def\<close>)
  show "nrp_ClaimStalled outbox_repo k t now db = (Ret (Inl e), db') \<Longrightarrow>
      entities db' = entities db"
    by (simp add: repo_ClaimStalled_Inl)
  show "\<exists>r w'. nrp_Save outbox_repo (Some n) db = (Ret r, w') \<and> outbox_inv w' \<and>
      saved_into (entities db) (entities w') n r"
    using repo_Save_Ret [of "Some n" db] outbox_inv_ops(4) [OF inv, of "Some n"] repo_Save_saves
    by (cases "repo_Save (Some n) db") auto
qed


section \<open>Enqueues\<close>

lemma insert_defaults_id:
  assumes "n_ID n \<noteq> uuid_Nil" "n_Status n = StatusPending" "n_CreatedAt n \<noteq> 0"
    "n_NextAttemptAt n \<noteq> 0"
  shows "insert_defaults env (toNotificationRow n) = toNotificationRow n"
  using assms by (simp add: insert_defaults_def toNotificationRow_def status_defs)

lemma entity_at_append:
  "nr_ID r \<notin> nr_ID ` set rows \<Longrightarrow>
     entity_at (rows @ [r]) = (entity_at rows)(nr_ID r \<mapsto> fromNotificationRow r)"
proof (induction rows)
  case (Cons s rows)
  then have IH: "entity_at (rows @ [r]) i = ((entity_at rows)(nr_ID r \<mapsto> fromNotificationRow r)) i"
    and "nr_ID s \<noteq> nr_ID r" for i by auto
  then show ?case by (intro ext) (use IH in \<open>auto simp: entity_at_def\<close>)
qed (auto simp: entity_at_def)

lemma repo_Enqueue_inserts:
  assumes ready: "n_ID n \<noteq> uuid_Nil" "n_Status n = StatusPending" "n_CreatedAt n \<noteq> 0"
      "n_NextAttemptAt n \<noteq> 0" "n_Payload n \<noteq> None"
    and run: "repo_Enqueue (Some n) db = (Ret None, db')"
  shows "entities db (n_ID n) = None \<and> entities db' = (entities db)(n_ID n \<mapsto> n)"
proof -
  obtain env db1 where e: "next_env db = (env, db1)" by (cases "next_env db")
  let ?r = "toNotificationRow n" and ?rows = "d_notifications db"
  have "fromNotificationRow ?r = n" using ready(5) by (auto simp: from_to_row or_empty_def)
  moreover have "nr_ID ?r \<notin> nr_ID ` set ?rows \<and> d_notifications db' = ?rows @ [?r]"
    using run next_env_split [OF e] insert_defaults_id [OF ready(1-4), of env]
    by (auto simp: repo_Enqueue_def Let_def e insert_notification_def
        split: option.splits if_splits)
  ultimately show ?thesis
    by (auto simp: entities_def entity_at_append) (auto simp: entity_at_def find_None_iff image_iff)
qed

lemma repo_Enqueue_grows:
  assumes "entities db i = Some m"
  shows "entities (snd (repo_Enqueue n db)) i = Some m"
proof -
  have "entity_at (xs @ ys) i = Some m" if "entity_at xs i = Some m" for xs ys
    using that by (induction xs) (auto simp: entity_at_def split: if_splits)
  moreover have "\<exists>ys. d_notifications (snd (repo_Enqueue n db)) = d_notifications db @ ys"
    using repo_Enqueue_table [of n db] by (auto simp: insert_notification_def eq_commute split: if_splits)
  ultimately show ?thesis using assms by (auto simp: entities_def)
qed

lemma affected_err_not_dup:
  "affected_err env = Some e \<Longrightarrow> (\<forall>e. se_affected env = Some e \<longrightarrow> driver_error e) \<Longrightarrow>
     \<not> errors_Is e ErrDuplicateIdempotencyKey"
  by (auto simp: affected_err_def driver_error_def err_simps)

lemma repo_Enqueue_dup:
  assumes inv: "outbox_inv db" and run: "repo_Enqueue (Some n) db = (Ret (Some e), db')"
    and dup: "errors_Is e ErrDuplicateIdempotencyKey"
  shows "entities db' = entities db \<and> n_IdempotencyKey n \<noteq> [] \<and>
    (\<exists>i m. entities db i = Some m \<and> n_IdempotencyKey m = n_IdempotencyKey n)"
proof -
  obtain env db1 where e: "next_env db = (env, db1)" by (cases "next_env db")
  let ?r = "insert_defaults env (toNotificationRow n)" and ?rows = "d_notifications db"
  note env = next_env_split [OF e] next_env_script [OF e]
  have drv: "\<forall>e. se_fault env = Some e \<longrightarrow> driver_error e"
    "\<forall>e. se_affected env = Some e \<longrightarrow> driver_error e"
    using env inv by (auto simp: outbox_inv_def)
  have nofault: "se_fault env = None"
    using run dup drv(1) driver_error_translated
    by (cases "se_fault env") (auto simp: repo_Enqueue_def Let_def e)
  have "nr_IdempotencyKey ?r \<noteq> None \<and> nr_IdempotencyKey ?r \<in> nr_IdempotencyKey ` set ?rows \<and>
      d_notifications db' = ?rows"
    using run dup nofault env(1) constraint_error_translated affected_err_not_dup [OF _ drv(2)]
    by (auto simp: repo_Enqueue_def Let_def e insert_notification_def
        split: option.splits if_splits)
  then obtain s where key: "s \<in> set ?rows" "nr_IdempotencyKey s = nullString (n_IdempotencyKey n)"
      "nullString (n_IdempotencyKey n) \<noteq> None" "d_notifications db' = ?rows"
    by auto
  then have "entities db (nr_ID s) = Some (fromNotificationRow s)"
    using inv by (simp add: entities_def entity_at_row outbox_inv_def outbox_wf_def)
  moreover have "n_IdempotencyKey (fromNotificationRow s) = n_IdempotencyKey n"
    using key by (simp add: fromNotificationRow_def)
  moreover have "n_IdempotencyKey n \<noteq> []" using key(3) by (auto simp: nullString_def)
  ultimately show ?thesis using key(4) by (auto simp: entities_def)
qed

lemma distinct_map_inj:
  "distinct (map f xs) \<Longrightarrow> x \<in> set xs \<Longrightarrow> y \<in> set xs \<Longrightarrow> f x = f y \<Longrightarrow> x = y"
  by (auto simp: distinct_map dest: inj_onD)

lemma entities_keys_unique:
  assumes "wf_db db" and "entities db i = Some m" "entities db j = Some m'"
    and "n_IdempotencyKey m \<noteq> []" "n_IdempotencyKey m' = n_IdempotencyKey m"
  shows "i = j"
proof -
  let ?keyed = "filter (\<lambda>r. nr_IdempotencyKey r \<noteq> None) (d_notifications db)"
  obtain r s where rs: "r \<in> set (d_notifications db)" "nr_ID r = i" "m = fromNotificationRow r"
    "s \<in> set (d_notifications db)" "nr_ID s = j" "m' = fromNotificationRow s"
    using assms(2,3) unfolding entities_def by (metis entity_at_SomeE)
  with assms(4,5) have key: "stringValue (nr_IdempotencyKey r) \<noteq> []"
    "stringValue (nr_IdempotencyKey s) = stringValue (nr_IdempotencyKey r)"
    by (simp_all add: fromNotificationRow_def)
  then have "nr_IdempotencyKey r = nr_IdempotencyKey s" and "nr_IdempotencyKey r \<noteq> None"
    by (auto simp: stringValue_def split: option.splits)
  moreover have "distinct (map nr_IdempotencyKey ?keyed)"
    using assms(1) by (simp add: outbox_wf_def)
  ultimately have "r = s" using rs(1,4) by (intro distinct_map_inj [of nr_IdempotencyKey ?keyed]) auto
  with rs(2,5) show ?thesis by simp
qed

interpretation outbox_enqueue: enqueue_port outbox_repo outbox_inv entities
proof
  fix db :: "'e outbox_db_scheme" and n db' e i j m m'
  assume inv: "outbox_inv db"
  show "\<exists>r w'. nrp_Enqueue outbox_repo (Some n) db = (Ret r, w') \<and> outbox_inv w'"
    using repo_Enqueue_Ret [of "Some n" db] outbox_inv_ops(1) [OF inv, of "Some n"]
    by (cases "repo_Enqueue (Some n) db") auto
  show "entities db (n_ID n) = None \<and> entities db' = (entities db)(n_ID n \<mapsto> n)"
    if "n_ID n \<noteq> uuid_Nil" "n_Status n = StatusPending" "n_CreatedAt n \<noteq> 0"
      "n_NextAttemptAt n \<noteq> 0" "n_Payload n \<noteq> None"
      "nrp_Enqueue outbox_repo (Some n) db = (Ret None, db')"
    using repo_Enqueue_inserts that by simp
  show "entities db' = entities db \<and> n_IdempotencyKey n \<noteq> [] \<and>
      (\<exists>i m. entities db i = Some m \<and> n_IdempotencyKey m = n_IdempotencyKey n)"
    if "nrp_Enqueue outbox_repo (Some n) db = (Ret (Some e), db')"
      "errors_Is e ErrDuplicateIdempotencyKey"
    using repo_Enqueue_dup [OF inv] that by simp
  show "entities db' i = Some m" if "nrp_Enqueue outbox_repo (Some n) db = (r, db')" "entities db i = Some m" for r
    using repo_Enqueue_grows [OF that(2), of "Some n"] that(1) by simp
  show "i = j" if "entities db i = Some m" "entities db j = Some m'"
    "n_IdempotencyKey m \<noteq> []" "n_IdempotencyKey m' = n_IdempotencyKey m"
    using entities_keys_unique that inv by (metis outbox_inv_def)
qed


section \<open>Preferences\<close>

definition decision_at :: "'e outbox_db_scheme \<Rightarrow> uuid \<Rightarrow> channel \<Rightarrow> category \<Rightarrow> bool option" where
  "decision_at db u ch cat =
     map_option pr_Enabled (find (\<lambda>r. pref_pkey r = (u, ch, cat)) (d_preferences db))"

definition prefs_inv :: "'e outbox_db_scheme \<Rightarrow> bool" where
  "prefs_inv db \<longleftrightarrow> distinct (map pref_pkey (d_preferences db))"

lemma pref_pkey_toPreferenceRow [simp]:
  "pref_pkey (toPreferenceRow p) = (p_UserID p, p_Channel p, p_Category p)"
  "pr_Enabled (toPreferenceRow p) = p_Enabled p"
  by (simp_all add: pref_pkey_def toPreferenceRow_def)

lemma pref_pkey_update [simp]:
  "pref_pkey (s\<lparr>pr_Enabled := b, pr_UpdatedAt := t\<rparr>) = pref_pkey s"
  "pref_pkey (s\<lparr>pr_Enabled := b\<rparr>) = pref_pkey s"
  "pref_pkey (s\<lparr>pr_UpdatedAt := t\<rparr>) = pref_pkey s"
  by (simp_all add: pref_pkey_def)

lemma upsert_one_keys:
  "map pref_pkey (upsert_one r rows) =
     map pref_pkey rows @ (if pref_pkey r \<in> pref_pkey ` set rows then [] else [pref_pkey r])"
  by (induction rows) auto

lemma upsert_one_distinct:
  "distinct (map pref_pkey rows) \<Longrightarrow> distinct (map pref_pkey (upsert_one r rows))"
  by (simp add: upsert_one_keys)

lemma upsert_one_find:
  "map_option pr_Enabled (find (\<lambda>r. pref_pkey r = k) (upsert_one r rows)) =
     (if pref_pkey r = k then Some (pr_Enabled r)
      else map_option pr_Enabled (find (\<lambda>r. pref_pkey r = k) rows))"
  by (induction rows) auto

lemma upsert_all_distinct:
  "distinct (map pref_pkey rows) \<Longrightarrow>
     distinct (map pref_pkey (foldl (\<lambda>rows r. upsert_one r rows) rows rs))"
  by (induction rs arbitrary: rows) (simp_all add: upsert_one_distinct)

lemma upsert_all_find:
  "distinct (map pref_pkey rs) \<Longrightarrow>
     map_option pr_Enabled (find (\<lambda>r. pref_pkey r = k) (foldl (\<lambda>rows r. upsert_one r rows) rows rs)) =
     (case find (\<lambda>r. pref_pkey r = k) rs of
        Some r \<Rightarrow> Some (pr_Enabled r)
      | None \<Rightarrow> map_option pr_Enabled (find (\<lambda>r. pref_pkey r = k) rows))"
proof (induction rs arbitrary: rows)
  case (Cons r rs)
  then have IH: "map_option pr_Enabled
      (find (\<lambda>r. pref_pkey r = k) (foldl (\<lambda>rows r. upsert_one r rows) (upsert_one r rows) rs)) =
     (case find (\<lambda>r. pref_pkey r = k) rs of
        Some r \<Rightarrow> Some (pr_Enabled r)
      | None \<Rightarrow> map_option pr_Enabled (find (\<lambda>r. pref_pkey r = k) (upsert_one r rows)))"
    by simp
  show ?case
  proof (cases "pref_pkey r = k")
    case True
    then have "find (\<lambda>r. pref_pkey r = k) rs = None"
      using Cons.prems by (auto simp: find_None_iff image_iff)
    with IH True show ?thesis by (simp add: upsert_one_find)
  next
    case False
    with IH show ?thesis by (simp add: upsert_one_find split: option.splits)
  qed
qed simp

lemma stored_enabled_unique:
  assumes "distinct (map pref_pkey rows)" and "\<forall>r \<in> set rows. pr_UserID r = u"
  shows "stored_enabled (map fromPreferenceRow rows) ch cat \<longleftrightarrow>
    (\<forall>r \<in> set rows. pref_pkey r = (u, ch, cat) \<longrightarrow> pr_Enabled r)"
  using assms
proof (induction rows)
  case (Cons r rows)
  then have "pref_pkey r = (u, ch, cat) \<Longrightarrow> \<forall>s \<in> set rows. pref_pkey s \<noteq> (u, ch, cat)"
    by (auto simp: image_iff)
  with Cons show ?case by (auto simp: fromPreferenceRow_def pref_pkey_def)
qed simp

lemma find_unique_key:
  assumes "distinct (map f rows)"
  shows "(\<forall>r \<in> set rows. f r = k \<longrightarrow> P r) \<longleftrightarrow>
    (case find (\<lambda>r. f r = k) rows of None \<Rightarrow> True | Some r \<Rightarrow> P r)"
proof (cases "find (\<lambda>r. f r = k) rows")
  case (Some x)
  then have "x \<in> set rows" "f x = k" by (auto dest: find_Some_mem)
  with Some show ?thesis using distinct_map_inj [OF assms] by auto
next
  case None
  then have "\<forall>r \<in> set rows. f r \<noteq> k" by (simp add: find_None_iff)
  with None show ?thesis by simp
qed

lemma prefs_ListForUser_decides:
  assumes "prefs_inv db" and "prefs_ListForUser u db = (Ret (Inr ps), db')"
  shows "stored_enabled ps ch cat = (decision_at db u ch cat \<noteq> Some False)"
proof -
  let ?mine = "filter (\<lambda>r. pr_UserID r = u) (d_preferences db)"
  let ?sorted = "sort_key pr_Channel (sort_key pr_Category ?mine)"
  have ps: "ps = map fromPreferenceRow ?sorted"
    using assms(2)
    by (auto simp: prefs_ListForUser_def Let_def dest!: next_env_split
        split: option.splits prod.splits)
  have "distinct (map pref_pkey ?sorted)"
    using assms(1) by (simp add: prefs_inv_def distinct_map_filter)
  then have "stored_enabled ps ch cat \<longleftrightarrow>
      (\<forall>r \<in> set ?mine. pref_pkey r = (u, ch, cat) \<longrightarrow> pr_Enabled r)"
    unfolding ps by (subst stored_enabled_unique) auto
  also have "\<dots> \<longleftrightarrow> (\<forall>r \<in> set (d_preferences db). pref_pkey r = (u, ch, cat) \<longrightarrow> pr_Enabled r)"
    by (auto simp: pref_pkey_def)
  also have "\<dots> \<longleftrightarrow> (decision_at db u ch cat \<noteq> Some False)"
    using assms(1)
    by (subst find_unique_key) (auto simp: prefs_inv_def decision_at_def split: option.splits)
  finally show ?thesis .
qed

definition prefs_repo :: "'e outbox_db_scheme preference_repository" where
  "prefs_repo = \<lparr>prp_ListForUser = prefs_ListForUser, prp_Upsert = prefs_Upsert\<rparr>"

lemma prefs_repo_sel [simp]:
  "prp_ListForUser prefs_repo = prefs_ListForUser" "prp_Upsert prefs_repo = prefs_Upsert"
  by (simp_all add: prefs_repo_def)

lemma prefs_ListForUser_same:
  "\<exists>r db'. prefs_ListForUser u db = (Ret r, db') \<and> d_preferences db' = d_preferences db"
  by (auto simp: prefs_ListForUser_def Let_def dest!: next_env_split
      split: option.splits prod.splits)

text \<open>The rows of an upsert, with the default of a zero \<open>updated_at\<close>.\<close>

definition upsert_values :: "stmt_env \<Rightarrow> preference list \<Rightarrow> preference_row list" where
  "upsert_values env ps = map (\<lambda>p. let r = toPreferenceRow p in
     if pr_UpdatedAt r = 0 then r\<lparr>pr_UpdatedAt := se_now env\<rparr> else r) ps"

lemma upsert_values_keys:
  "map pref_pkey (upsert_values env ps) = map (\<lambda>p. (p_UserID p, p_Channel p, p_Category p)) ps"
  by (auto simp: upsert_values_def Let_def)

lemma upsert_values_find:
  "map_option pr_Enabled (find (\<lambda>r. pref_pkey r = (u, ch, cat)) (upsert_values env ps)) =
     map_option p_Enabled
       (find (\<lambda>p. p_UserID p = u \<and> p_Channel p = ch \<and> p_Category p = cat) ps)"
  by (induction ps) (auto simp: upsert_values_def Let_def)

lemma prefs_Upsert_eq:
  "prefs_Upsert ps db =
     (if ps = [] then (Ret None, db)
      else let (env, db) = next_env db; rs = upsert_values env ps in
        case se_fault env of
          Some err \<Rightarrow> (Ret (Some (Translate_err err)), db)
        | None \<Rightarrow>
            if distinct (map pref_pkey rs)
            then (Ret None, db\<lparr>d_preferences :=
                    foldl (\<lambda>rows r. upsert_one r rows) (d_preferences db) rs\<rparr>)
            else (Ret (Some (Translate_err (PgError ''21000''
                   ''ON CONFLICT DO UPDATE command cannot affect row a second time''))), db))"
  by (auto simp: prefs_Upsert_def upsert_rows_def upsert_values_def Translate_def Let_def
      split: option.splits prod.splits)

interpretation prefs: preference_port prefs_repo prefs_inv decision_at
proof
  fix db :: "'e outbox_db_scheme" and u ps ch cat db' e
  assume inv: "prefs_inv db"
  show "\<exists>r w'. prp_ListForUser prefs_repo u db = (Ret r, w') \<and> prefs_inv w' \<and>
      decision_at w' = decision_at db"
    using prefs_ListForUser_same [of u db] inv
    by (auto simp: prefs_inv_def decision_at_def fun_eq_iff)
  show "stored_enabled ps ch cat = (decision_at db u ch cat \<noteq> Some False)"
    if "prp_ListForUser prefs_repo u db = (Ret (Inr ps), db')"
    using prefs_ListForUser_decides [OF inv] that by simp
  show "\<exists>r w'. prp_Upsert prefs_repo ps db = (Ret r, w') \<and> prefs_inv w'"
    using inv
    by (auto simp: prefs_Upsert_eq prefs_inv_def Let_def upsert_all_distinct dest!: next_env_split
        split: option.splits prod.splits)
  show "decision_at db' u ch cat =
        (case find (\<lambda>p. p_UserID p = u \<and> p_Channel p = ch \<and> p_Category p = cat) ps of
           Some p \<Rightarrow> Some (p_Enabled p) | None \<Rightarrow> decision_at db u ch cat)"
    if run: "prp_Upsert prefs_repo ps db = (Ret None, db')"
  proof (cases "ps = []")
    case True
    with run show ?thesis by (simp add: prefs_Upsert_def)
  next
    case False
    obtain env db1 where e: "next_env db = (env, db1)" by (cases "next_env db")
    from run False have "distinct (map pref_pkey (upsert_values env ps)) \<and> d_preferences db' =
        foldl (\<lambda>rows r. upsert_one r rows) (d_preferences db) (upsert_values env ps)"
      using next_env_split [OF e]
      by (auto simp: prefs_Upsert_eq Let_def e split: option.splits if_splits)
    then show ?thesis
      using upsert_values_find [of u ch cat env ps]
      by (auto simp: decision_at_def upsert_all_find split: option.splits)
  qed
  show "decision_at db' = decision_at db"
    if "prp_Upsert prefs_repo ps db = (Ret (Some e), db')"
    using that
    by (auto simp: prefs_Upsert_eq Let_def decision_at_def fun_eq_iff dest!: next_env_split
        split: option.splits prod.splits if_splits)
qed


section \<open>Keyset pagination\<close>

text \<open>The whole mailbox, newest first, and the pages a client reads one after another.\<close>

definition mailbox :: "uuid \<Rightarrow> bool \<Rightarrow> notification_row list \<Rightarrow> notification_row list" where
  "mailbox u unread rows =
     rev (sort_key row_cursor [r \<leftarrow> rows. in_mailbox u r \<and> (unread \<longrightarrow> nr_ReadAt r = None)])"

primrec read_pages ::
  "nat \<Rightarrow> uuid \<Rightarrow> list_filter \<Rightarrow> notification_row list \<Rightarrow> notification_row list list" where
  "read_pages 0 u f rows = []"
| "read_pages (Suc k) u f rows =
     (let page = mailbox_page u (Normalize f) rows in
      if page = [] then []
      else page # read_pages k u (f\<lparr>lf_Before := Some (row_cursor (last page))\<rparr>) rows)"

definition before_ok :: "cursor option \<Rightarrow> notification_row \<Rightarrow> bool" where
  "before_ok b r = (case b of None \<Rightarrow> True | Some c \<Rightarrow> row_cursor r < c)"

lemma mailbox_page_eq:
  "mailbox_page u f rows =
     take_limit (lf_Limit f) (filter (before_ok (lf_Before f)) (mailbox u (lf_UnreadOnly f) rows))"
proof -
  have "filter (\<lambda>r. in_mailbox u r \<and> (lf_UnreadOnly f \<longrightarrow> nr_ReadAt r = None) \<and>
        before_ok (lf_Before f) r) rows =
      filter (before_ok (lf_Before f))
        (filter (\<lambda>r. in_mailbox u r \<and> (lf_UnreadOnly f \<longrightarrow> nr_ReadAt r = None)) rows)"
    by (simp add: conj_commute conj_left_commute)
  then show ?thesis
    by (simp add: mailbox_page_def mailbox_def before_ok_def [abs_def] rev_filter [symmetric]
        filter_sort)
qed

lemma row_cursor_inj: "row_cursor r = row_cursor s \<Longrightarrow> nr_ID r = nr_ID s"
  by (simp add: row_cursor_def)

lemma mailbox_descending:
  assumes "distinct (map nr_ID rows)"
  shows "sorted_wrt (\<lambda>r s. row_cursor s < row_cursor r) (mailbox u unread rows)"
proof -
  let ?rows = "filter (\<lambda>r. in_mailbox u r \<and> (unread \<longrightarrow> nr_ReadAt r = None)) rows"
  have "distinct (map nr_ID (sort_key row_cursor ?rows))"
    using assms by (simp add: distinct_map_filter)
  then have "distinct (map row_cursor (sort_key row_cursor ?rows))"
    by (auto simp: distinct_map inj_on_def dest: row_cursor_inj)
  then have "sorted_wrt (<) (map row_cursor (sort_key row_cursor ?rows))"
    by (simp add: strict_sorted_iff)
  then show ?thesis by (simp add: mailbox_def sorted_wrt_rev sorted_wrt_map)
qed

lemma filter_below_last:
  fixes key :: "'a \<Rightarrow> 'b :: linorder"
  assumes "sorted_wrt (\<lambda>x y. key y < key x) xs" and "take k xs \<noteq> []"
  shows "filter (\<lambda>x. key x < key (last (take k xs))) xs = drop k xs"
proof -
  have split: "xs = take k xs @ drop k xs" by simp
  have srt: "sorted_wrt (\<lambda>x y. key y < key x) (take k xs @ drop k xs)" using assms(1) by simp
  have "x = last (take k xs) \<or> key (last (take k xs)) < key x" if "x \<in> set (take k xs)" for x
  proof -
    have "take k xs = butlast (take k xs) @ [last (take k xs)]" using assms(2) by simp
    moreover from this srt have "sorted_wrt (\<lambda>x y. key y < key x)
        (butlast (take k xs) @ [last (take k xs)])"
      by (metis sorted_wrt_append)
    ultimately show ?thesis using that by (metis UnE in_set_conv_decomp sorted_wrt_append
          list.set_intros(1) set_append set_ConsD empty_iff list.set(1))
  qed
  then have "filter (\<lambda>x. key x < key (last (take k xs))) (take k xs) = []"
    by (fastforce simp: filter_empty_conv)
  moreover have "\<forall>x \<in> set (take k xs). \<forall>y \<in> set (drop k xs). key y < key x"
    using srt unfolding sorted_wrt_append by blast
  then have "filter (\<lambda>x. key x < key (last (take k xs))) (drop k xs) = drop k xs"
    using last_in_set [OF assms(2)] by (auto simp: filter_id_conv)
  ultimately show ?thesis by (metis append_Nil filter_append split)
qed

lemma before_ok_trans:
  "before_ok (Some (row_cursor r)) s \<Longrightarrow> before_ok b r \<Longrightarrow> before_ok b s"
  by (auto simp: before_ok_def split: option.splits)

lemma read_pages_concat:
  assumes "distinct (map nr_ID rows)"
    and "length (filter (before_ok (lf_Before f)) (mailbox u (lf_UnreadOnly f) rows)) \<le> k"
  shows "concat (read_pages k u f rows) =
    filter (before_ok (lf_Before f)) (mailbox u (lf_UnreadOnly f) rows)"
  using assms(2)
proof (induction k arbitrary: f)
  case 0
  then show ?case by simp
next
  case (Suc k)
  let ?box = "mailbox u (lf_UnreadOnly f) rows"
  let ?rest = "filter (before_ok (lf_Before f)) ?box"
  let ?n = "nat (lf_Limit (Normalize f))"
  let ?page = "mailbox_page u (Normalize f) rows"
  have page: "?page = take ?n ?rest"
    by (simp add: mailbox_page_eq take_limit_def)
  have n: "0 < ?n" using Normalize_bounds [of f] by simp
  show ?case
  proof (cases "?page = []")
    case True
    then have "?rest = []" using n page by (metis take_eq_Nil not_gr_zero)
    with True show ?thesis by simp
  next
    case False
    let ?c = "row_cursor (last ?page)"
    have srt: "sorted_wrt (\<lambda>r s. row_cursor s < row_cursor r) ?rest"
      using mailbox_descending [OF assms(1)] by (rule sorted_wrt_filter)
    have mem: "last ?page \<in> set ?rest"
      using False page by (metis in_set_takeD last_in_set)
    have "filter (before_ok (Some ?c)) ?box = filter (before_ok (Some ?c)) ?rest"
      using mem before_ok_trans by (auto intro!: filter_cong)
    also have "\<dots> = drop ?n ?rest"
      using filter_below_last [OF srt, of ?n] False page by (simp add: before_ok_def [abs_def])
    finally have next_page: "filter (before_ok (Some ?c)) ?box = drop ?n ?rest" .
    have "length (drop ?n ?rest) \<le> k" using Suc.prems n by simp
    then have "concat (read_pages k u (f\<lparr>lf_Before := Some ?c\<rparr>) rows) = drop ?n ?rest"
      using Suc.IH [of "f\<lparr>lf_Before := Some ?c\<rparr>"] next_page by simp
    with False page show ?thesis by (simp add: Let_def)
  qed
qed

text \<open>Rows that arrive at the head do not disturb a reader past the first page.\<close>

lemma mailbox_page_insert:
  assumes "lf_Before f = Some c" and "\<forall>r \<in> set new. \<not> row_cursor r < c"
  shows "mailbox_page u f (rows @ new) = mailbox_page u f rows"
  using assms by (simp add: mailbox_page_def)

end
