(* ===== verification/Service.thy ===== *)
theory Service
  imports Repository
begin

text \<open>
  The use cases of \<open>modules/notification/application\<close>: the ports of \<open>ports.go\<close>, the
  service of \<open>service.go\<close> and the dispatch cycle of \<open>dispatch.go\<close>, as programs over an
  abstract world. A port is a parameter; so are \<open>uuid.New\<close> and the text of an error.
  The context passed through to the ports is part of the world they read.
\<close>

section \<open>Ports and configuration\<close>

record dispatch_config =
  dc_BatchSize :: int
  dc_MaxAttempts :: int
  dc_BackoffBase :: duration
  dc_BackoffCap :: duration

record 'w channel_sender =
  cs_Channel :: channel
  cs_Send :: "rendered_message \<Rightarrow> ('w, goerr option) prog"

type_synonym 'w renderer =
  "string \<Rightarrow> channel \<Rightarrow> payload \<Rightarrow> ('w, goerr + rendered_message) prog"

type_synonym 'w dispatch_observer =
  "notification \<Rightarrow> status \<Rightarrow> duration \<Rightarrow> goerr option \<Rightarrow> ('w, unit) prog"

record 'w service =
  sv_notifications :: "'w notification_repository"
  sv_preferences :: "'w preference_repository"
  sv_renderer :: "'w renderer"
  sv_senders :: "channel \<rightharpoonup> 'w channel_sender"
  sv_clock :: "('w, time) prog"
  sv_jitter :: "('w, float64) prog option"
  sv_observer :: "'w dispatch_observer option"
  sv_cfg :: dispatch_config

record enqueue_request =
  er_RecipientID :: uuid
  er_Channel :: channel
  er_Category :: category
  er_TemplateKey :: string
  er_Payload :: payload
  er_IdempotencyKey :: string

record notification_view =
  nv_ID :: uuid
  nv_Category :: category
  nv_TemplateKey :: string
  nv_Payload :: payload
  nv_CreatedAt :: time
  nv_ReadAt :: "time option"

record preference_view =
  pv_Channel :: channel
  pv_Category :: category
  pv_Enabled :: bool

record preference_update =
  pu_Channel :: channel
  pu_Category :: category
  pu_Enabled :: bool

definition retryable :: "goerr \<Rightarrow> bool" where
  "retryable err \<longleftrightarrow> \<not> errors_Is err ErrNonRetryable"

definition ErrChannelNotRoutable :: goerr where
  [err_simps]: "ErrChannelNotRoutable = New ''notification: no sender registered for channel''"

definition ErrPanicked :: goerr where
  [err_simps]: "ErrPanicked = New ''panic settling notification''"

section \<open>Construction\<close>

fun register_senders ::
  "int \<Rightarrow> 'w channel_sender option list \<Rightarrow> (channel \<rightharpoonup> 'w channel_sender) \<Rightarrow>
   goerr + (channel \<rightharpoonup> 'w channel_sender)" where
  "register_senders i [] registry = Inr registry"
| "register_senders i (None # rest) registry =
     Inl (Errorf ''notification: sender %d is nil'' [OInt i] [])"
| "register_senders i (Some sender # rest) registry =
     (let ch = cs_Channel sender in
      if \<not> Channel_Valid ch then
        Inl (Errorf ''notification: sender %d claims unknown channel %q'' [OInt i, OStr ch] [])
      else if registry ch \<noteq> None then
        Inl (Errorf ''notification: two senders registered for channel %q'' [OStr ch] [])
      else register_senders (i + 1) rest (registry(ch \<mapsto> sender)))"

definition NewService ::
  "'w notification_repository option \<Rightarrow> 'w preference_repository option \<Rightarrow>
   'w renderer option \<Rightarrow> 'w channel_sender option list \<Rightarrow> ('w, time) prog option \<Rightarrow>
   ('w, float64) prog option \<Rightarrow> 'w dispatch_observer option \<Rightarrow> dispatch_config \<Rightarrow>
   goerr + 'w service" where
  "NewService notifications preferences rend senders clock jitter observer cfg =
     (case notifications of
        None \<Rightarrow> Inl (New ''notification: notification repository is required'')
      | Some notifications \<Rightarrow>
     (case preferences of
        None \<Rightarrow> Inl (New ''notification: preference repository is required'')
      | Some preferences \<Rightarrow>
     (case rend of
        None \<Rightarrow> Inl (New ''notification: template renderer is required'')
      | Some rend \<Rightarrow>
     (case clock of
        None \<Rightarrow> Inl (New ''notification: clock is required'')
      | Some clock \<Rightarrow>
     (case register_senders 0 senders Map.empty of
        Inl err \<Rightarrow> Inl err
      | Inr registry \<Rightarrow>
          Inr \<lparr>sv_notifications = notifications, sv_preferences = preferences,
               sv_renderer = rend, sv_senders = registry, sv_clock = clock,
               sv_jitter = jitter, sv_observer = observer, sv_cfg = cfg\<rparr>)))))"

section \<open>Enqueue and the read model\<close>

definition enqueue_gated :: "'w service \<Rightarrow> notification \<Rightarrow> ('w, goerr option) prog" where
  \<comment> \<open>the body of \<open>Enqueue\<close> once the entity is built\<close>
  "enqueue_gated s n =
     (if sv_senders s (n_Channel n) = None then
        retp (Some (Errorf ''%w: %q'' [OStr (n_Channel n)] [ErrChannelNotRoutable]))
      else bindp (prp_ListForUser (sv_preferences s) (n_RecipientID n)) (\<lambda>r.
        case r of
          Inl err \<Rightarrow> retp (Some (Errorf ''load preferences: %w'' [] [err]))
        | Inr prefs \<Rightarrow>
            (if \<not> Allowed prefs (n_Channel n) (n_Category n) then retp None
             else bindp (nrp_Enqueue (sv_notifications s) (Some n)) (\<lambda>r.
               case r of
                 None \<Rightarrow> retp None
               | Some err \<Rightarrow>
                   (if errors_Is err ErrDuplicateIdempotencyKey then retp None
                    else retp (Some (Errorf ''enqueue notification: %w'' [] [err])))))))"

definition enqueue_params :: "uuid \<Rightarrow> enqueue_request \<Rightarrow> notification_params" where
  "enqueue_params newID req =
     \<lparr>np_ID = newID, np_RecipientID = er_RecipientID req, np_Channel = er_Channel req,
      np_Category = er_Category req, np_TemplateKey = er_TemplateKey req,
      np_Payload = er_Payload req, np_IdempotencyKey = er_IdempotencyKey req\<rparr>"

definition Enqueue ::
  "'w service \<Rightarrow> ('w, uuid) prog \<Rightarrow> enqueue_request \<Rightarrow> ('w, goerr option) prog" where
  "Enqueue s uuid_New req =
     bindp uuid_New (\<lambda>newID. bindp (sv_clock s) (\<lambda>now.
       case NewNotification (enqueue_params newID req) now of
         Inl err \<Rightarrow> retp (Some err)
       | Inr n \<Rightarrow> enqueue_gated s n))"

definition nil_deref :: string where
  "nil_deref = ''invalid memory address or nil pointer dereference''"

fun to_views :: "notification option list \<Rightarrow> ('w, notification_view list) prog" where
  \<comment> \<open>the loop of \<open>ListForUser\<close>; a nil element is dereferenced\<close>
  "to_views [] = retp []"
| "to_views (None # rows) = panicp nil_deref"
| "to_views (Some n # rows) =
     bindp (to_views rows) (\<lambda>views. retp
       (\<lparr>nv_ID = n_ID n, nv_Category = n_Category n, nv_TemplateKey = n_TemplateKey n,
         nv_Payload = n_Payload n, nv_CreatedAt = n_CreatedAt n, nv_ReadAt = n_ReadAt n\<rparr> # views))"

definition ListForUser ::
  "'w service \<Rightarrow> uuid \<Rightarrow> list_filter \<Rightarrow> ('w, goerr + notification_view list) prog" where
  "ListForUser s userID f =
     bindp (nrp_ListForRecipient (sv_notifications s) userID f) (\<lambda>r.
       case r of
         Inl err \<Rightarrow> retp (Inl (Errorf ''list notifications: %w'' [] [err]))
       | Inr rows \<Rightarrow> bindp (to_views rows) (\<lambda>views. retp (Inr views)))"

definition MarkRead :: "'w service \<Rightarrow> uuid \<Rightarrow> uuid \<Rightarrow> ('w, goerr option) prog" where
  "MarkRead s userID rowID =
     bindp (sv_clock s) (\<lambda>now.
     bindp (nrp_MarkRead (sv_notifications s) userID rowID now) (\<lambda>r.
       retp (map_option (\<lambda>err. Errorf ''mark notification read: %w'' [] [err]) r)))"

definition MarkAllRead :: "'w service \<Rightarrow> uuid \<Rightarrow> ('w, goerr + int) prog" where
  "MarkAllRead s userID =
     bindp (sv_clock s) (\<lambda>now.
     bindp (nrp_MarkAllRead (sv_notifications s) userID now) (\<lambda>r.
       case r of
         Inl err \<Rightarrow> retp (Inl (Errorf ''mark all notifications read: %w'' [] [err]))
       | Inr n \<Rightarrow> retp (Inr n)))"

definition preference_matrix :: "preference list \<Rightarrow> preference_view list" where
  \<comment> \<open>the two loops of \<open>GetPreferences\<close>\<close>
  "preference_matrix prefs =
     concat (map (\<lambda>ch. map (\<lambda>cat.
       \<lparr>pv_Channel = ch, pv_Category = cat, pv_Enabled = Allowed prefs ch cat\<rparr>) Categories) Channels)"

definition GetPreferences :: "'w service \<Rightarrow> uuid \<Rightarrow> ('w, goerr + preference_view list) prog" where
  "GetPreferences s userID =
     bindp (prp_ListForUser (sv_preferences s) userID) (\<lambda>r.
       case r of
         Inl err \<Rightarrow> retp (Inl (Errorf ''load preferences: %w'' [] [err]))
       | Inr prefs \<Rightarrow> retp (Inr (preference_matrix prefs)))"

fun validate_updates ::
  "uuid \<Rightarrow> time \<Rightarrow> (channel \<times> category) list \<Rightarrow> preference_update list \<Rightarrow>
   goerr + preference list" where
  \<comment> \<open>the loop of \<open>UpdatePreferences\<close>, with the pairs seen so far\<close>
  "validate_updates userID now seen [] = Inr []"
| "validate_updates userID now seen (u # us) =
     (let key = (pu_Channel u, pu_Category u) in
      if key \<in> set seen then
        Inl (Errorf ''%w: %s/%s named twice'' [OStr (pu_Channel u), OStr (pu_Category u)]
               [ErrInvalidPreference])
      else
        (case NewPreference userID (pu_Channel u) (pu_Category u) (pu_Enabled u) now of
           Inl err \<Rightarrow> Inl err
         | Inr p \<Rightarrow>
             (case validate_updates userID now (key # seen) us of
                Inl err \<Rightarrow> Inl err
              | Inr ps \<Rightarrow> Inr (p # ps))))"

definition UpdatePreferences ::
  "'w service \<Rightarrow> uuid \<Rightarrow> preference_update list \<Rightarrow> ('w, goerr + preference_view list) prog" where
  "UpdatePreferences s userID updates =
     bindp (sv_clock s) (\<lambda>now.
       case validate_updates userID now [] updates of
         Inl err \<Rightarrow> retp (Inl err)
       | Inr prefs \<Rightarrow>
           bindp (prp_Upsert (sv_preferences s) prefs) (\<lambda>r.
             case r of
               Some err \<Rightarrow> retp (Inl (Errorf ''save preferences: %w'' [] [err]))
             | None \<Rightarrow> GetPreferences s userID))"


section \<open>Facts on construction\<close>

definition registered :: "'w channel_sender option list \<Rightarrow> (channel \<rightharpoonup> 'w channel_sender) \<Rightarrow> bool" where
  "registered senders registry \<longleftrightarrow>
     None \<notin> set senders \<and>
     distinct (map (\<lambda>x. cs_Channel (the x)) senders) \<and>
     (\<forall>ch. registry ch = find (\<lambda>sd. cs_Channel sd = ch) (map the senders)) \<and>
     (\<forall>sd. Some sd \<in> set senders \<longrightarrow> Channel_Valid (cs_Channel sd))"

lemma register_senders_Inr:
  assumes "register_senders i senders registry = Inr reg"
  shows "None \<notin> set senders \<and> distinct (map (\<lambda>x. cs_Channel (the x)) senders) \<and>
    (\<forall>sd. Some sd \<in> set senders \<longrightarrow> Channel_Valid (cs_Channel sd) \<and> registry (cs_Channel sd) = None) \<and>
    (\<forall>ch. reg ch = (case find (\<lambda>sd. cs_Channel sd = ch) (map the senders) of
       Some sd \<Rightarrow> Some sd | None \<Rightarrow> registry ch))"
  using assms
proof (induction i senders registry rule: register_senders.induct)
  case (3 i sender rest registry)
  from "3.prems" have ok: "Channel_Valid (cs_Channel sender)" "registry (cs_Channel sender) = None"
    "register_senders (i + 1) rest (registry(cs_Channel sender \<mapsto> sender)) = Inr reg"
    by (simp_all add: Let_def split: if_splits)
  note IH = "3.IH" [OF refl, unfolded not_not, OF ok(1,2,3)]
  have notin: "cs_Channel sd \<noteq> cs_Channel sender" if "Some sd \<in> set rest" for sd
    using IH that by (auto split: if_splits)
  then have "x \<in> set rest \<Longrightarrow> cs_Channel (the x) \<noteq> cs_Channel sender" for x
    using IH by (cases x) auto
  moreover have "find (\<lambda>sd. cs_Channel sd = cs_Channel sender) (map the rest) = None"
    using calculation by (auto simp: find_None_iff)
  moreover have "cs_Channel sender \<notin> (\<lambda>x. cs_Channel (the x)) ` set rest"
    using calculation(1) by force
  ultimately show ?case
    using IH ok notin by (simp split: option.splits if_splits)
qed simp_all

lemma NewService_Inr:
  assumes "NewService repo prefs rend senders clock jitter observer cfg = Inr s"
  shows "repo = Some (sv_notifications s) \<and> prefs = Some (sv_preferences s) \<and>
    rend = Some (sv_renderer s) \<and> clock = Some (sv_clock s) \<and> sv_jitter s = jitter \<and>
    sv_observer s = observer \<and> sv_cfg s = cfg \<and> registered senders (sv_senders s)"
  using assms
  by (auto simp: NewService_def registered_def split: option.splits sum.splits
      dest!: register_senders_Inr)

section \<open>Facts on preferences\<close>

lemma preference_matrix_enabled:
  "v \<in> set (preference_matrix prefs) \<Longrightarrow>
     pv_Enabled v = Allowed prefs (pv_Channel v) (pv_Category v)"
  by (auto simp: preference_matrix_def)

lemma preference_matrix_pairs:
  "map (\<lambda>v. (pv_Channel v, pv_Category v)) (preference_matrix prefs) =
     List.product Channels Categories"
  by (simp add: preference_matrix_def Channels_def Categories_def)

lemma validate_updates_Inr:
  "validate_updates u now seen us = Inr ps \<Longrightarrow>
     length ps = length us \<and>
     distinct (map (\<lambda>x. (pu_Channel x, pu_Category x)) us) \<and>
     set (map (\<lambda>x. (pu_Channel x, pu_Category x)) us) \<inter> set seen = {} \<and>
     ps = map (\<lambda>x. \<lparr>p_UserID = u, p_Channel = pu_Channel x, p_Category = pu_Category x,
                    p_Enabled = pu_Enabled x, p_UpdatedAt = now\<rparr>) us \<and>
     (\<forall>x \<in> set us. Channel_Valid (pu_Channel x) \<and> Category_Valid (pu_Category x) \<and>
        (pu_Enabled x \<or> \<not> protected (pu_Channel x) (pu_Category x)))"
proof (induction us arbitrary: seen ps)
  case (Cons x us)
  from Cons.prems obtain p ps' where step: "(pu_Channel x, pu_Category x) \<notin> set seen"
      "NewPreference u (pu_Channel x) (pu_Category x) (pu_Enabled x) now = Inr p"
      "validate_updates u now ((pu_Channel x, pu_Category x) # seen) us = Inr ps'" "ps = p # ps'"
    by (auto simp: Let_def split: if_splits sum.splits)
  from NewPreference_Inr [OF step(2)] Cons.IH [OF step(3)] step(1,4) show ?case by auto
qed simp

lemma validate_updates_Inl:
  "validate_updates u now seen us = Inl e \<Longrightarrow>
     errors_Is e ErrInvalidPreference \<or> errors_Is e ErrPreferenceProtected"
proof (induction us arbitrary: seen)
  case (Cons x us)
  then show ?case
    by (auto simp: Let_def NewPreference_def split: if_splits sum.splits)
qed simp

section \<open>The service over the contracts\<close>

locale service_ports =
  enq: enqueue_port R I ent + prefp: preference_port P I decision
  for R :: "'w notification_repository" and P :: "'w preference_repository"
    and I :: "'w \<Rightarrow> bool" and ent :: "'w \<Rightarrow> store"
    and decision :: "'w \<Rightarrow> uuid \<Rightarrow> channel \<Rightarrow> category \<Rightarrow> bool option" +
  assumes list_ent: "I w \<Longrightarrow> prp_ListForUser P u w = (r, w') \<Longrightarrow> ent w' = ent w"
begin

lemma ListForUser_run:
  assumes "I w"
  obtains r w' where "prp_ListForUser P u w = (Ret r, w')" "I w'" "ent w' = ent w"
    "decision w' = decision w"
    "\<forall>ps ch cat. r = Inr ps \<longrightarrow>
       (Allowed ps ch cat \<longleftrightarrow> protected ch cat \<or> decision w u ch cat \<noteq> Some False)"
proof -
  obtain r w' where run: "prp_ListForUser P u w = (Ret r, w')" "I w'" "decision w' = decision w"
    using prefp.list_total [OF assms] by blast
  moreover have "r = Inr ps \<Longrightarrow>
      Allowed ps ch cat \<longleftrightarrow> protected ch cat \<or> decision w u ch cat \<noteq> Some False" for ps ch cat
    using prefp.list_ok [OF assms, of u ps w'] run(1) by (auto simp: Allowed_def)
  ultimately show thesis using that list_ent [OF assms run(1)] by blast
qed

lemma GetPreferences_answers:
  assumes "sv_preferences s = P" and "I w" and "GetPreferences s u w = (Ret (Inr vs), w')"
  shows "I w' \<and> ent w' = ent w \<and> decision w' = decision w \<and>
    map (\<lambda>v. (pv_Channel v, pv_Category v)) vs = List.product Channels Categories \<and>
    (\<forall>v \<in> set vs. pv_Enabled v \<longleftrightarrow> protected (pv_Channel v) (pv_Category v) \<or>
       decision w u (pv_Channel v) (pv_Category v) \<noteq> Some False)"
proof -
  obtain r w1 where run: "prp_ListForUser P u w = (Ret r, w1)" "I w1" "ent w1 = ent w"
    "decision w1 = decision w"
    "\<forall>ps ch cat. r = Inr ps \<longrightarrow>
       (Allowed ps ch cat \<longleftrightarrow> protected ch cat \<or> decision w u ch cat \<noteq> Some False)"
    by (rule ListForUser_run [OF assms(2), of u])
  with assms(1,3) obtain ps where "r = Inr ps" "vs = preference_matrix ps" "w' = w1"
    by (cases r) (auto simp: GetPreferences_def bindp_def retp_def)
  with run show ?thesis
    by (simp add: preference_matrix_pairs preference_matrix_enabled)
qed

text \<open>An update is written whole and read back, or refused whole.\<close>

lemma UpdatePreferences_applies:
  assumes s: "sv_preferences s = P" "preserves I (\<lambda>w. (ent w, decision w)) (sv_clock s)"
    and "I w" and run: "UpdatePreferences s u us w = (Ret (Inr vs), w')"
  shows "distinct (map (\<lambda>x. (pu_Channel x, pu_Category x)) us) \<and>
    (\<forall>x \<in> set us. pu_Enabled x \<or> \<not> protected (pu_Channel x) (pu_Category x)) \<and>
    (\<forall>ch cat. decision w' u ch cat =
       (case find (\<lambda>x. pu_Channel x = ch \<and> pu_Category x = cat) us of
          Some x \<Rightarrow> Some (pu_Enabled x) | None \<Rightarrow> decision w u ch cat)) \<and>
    (\<forall>v ch cat. v \<noteq> u \<longrightarrow> decision w' v ch cat = decision w v ch cat) \<and>
    (\<forall>v \<in> set vs. pv_Enabled v \<longleftrightarrow> protected (pv_Channel v) (pv_Category v) \<or>
       decision w' u (pv_Channel v) (pv_Category v) \<noteq> Some False)"
proof -
  from run obtain now w1 where clk: "sv_clock s w = (Ret now, w1)"
    and rest: "(case validate_updates u now [] us of
         Inl err \<Rightarrow> retp (Inl err)
       | Inr prefs \<Rightarrow> bindp (prp_Upsert (sv_preferences s) prefs) (\<lambda>r.
             case r of Some err \<Rightarrow> retp (Inl (Errorf ''save preferences: %w'' [] [err]))
             | None \<Rightarrow> GetPreferences s u)) w1 = (Ret (Inr vs), w')"
    unfolding UpdatePreferences_def by (rule bindp_RetE)
  from preservesD [OF s(2) assms(3) clk] have w1: "I w1" "decision w1 = decision w" by simp_all
  from rest obtain ps where ps: "validate_updates u now [] us = Inr ps"
    by (cases "validate_updates u now [] us") (auto simp: retp_def)
  from rest obtain r w2 where ups: "prp_Upsert P ps w1 = (Ret r, w2)"
      and get: "(case r of Some err \<Rightarrow> retp (Inl (Errorf ''save preferences: %w'' [] [err]))
             | None \<Rightarrow> GetPreferences s u) w2 = (Ret (Inr vs), w')"
    by (auto simp: ps s(1) bindp_eq_Ret)
  from get have r: "r = None" and get': "GetPreferences s u w2 = (Ret (Inr vs), w')"
    by (auto simp: retp_def split: option.splits)
  have w2: "I w2" using prefp.upsert_total [OF w1(1), of ps] ups by auto
  note valid = validate_updates_Inr [OF ps]
  have at: "find (\<lambda>p. p_UserID p = v \<and> p_Channel p = ch \<and> p_Category p = cat) ps =
      (if v = u then map_option (\<lambda>x. \<lparr>p_UserID = u, p_Channel = pu_Channel x,
           p_Category = pu_Category x, p_Enabled = pu_Enabled x, p_UpdatedAt = now\<rparr>)
         (find (\<lambda>x. pu_Channel x = ch \<and> pu_Category x = cat) us) else None)" for v ch cat
  proof -
    have ps_eq: "ps = map (\<lambda>x. \<lparr>p_UserID = u, p_Channel = pu_Channel x,
        p_Category = pu_Category x, p_Enabled = pu_Enabled x, p_UpdatedAt = now\<rparr>) us"
      using valid by blast
    show ?thesis unfolding ps_eq by (induction us) auto
  qed
  have dec: "decision w2 v ch cat = (if v = u then
        (case find (\<lambda>x. pu_Channel x = ch \<and> pu_Category x = cat) us of
          Some x \<Rightarrow> Some (pu_Enabled x) | None \<Rightarrow> decision w u ch cat)
      else decision w v ch cat)" for v ch cat
    using prefp.upsert_ok [OF w1(1) ups [unfolded r], of v ch cat] w1(2)
    by (auto simp: at split: option.splits)
  from GetPreferences_answers [OF s(1) w2 get'] dec valid show ?thesis by auto
qed

text \<open>
  A successful enqueue is one of three things: the user switched the pair off, the key is
  already in the outbox, or a fresh pending row was added; the first never happens to the
  protected pair.
\<close>

lemma enqueue_gated_outcomes:
  assumes s: "sv_notifications s = R" "sv_preferences s = P"
    and I: "I w" and run: "enqueue_gated s n w = (Ret None, w')"
    and fresh: "n_ID n \<noteq> uuid_Nil" "n_Status n = StatusPending" "n_CreatedAt n \<noteq> 0"
      "n_NextAttemptAt n \<noteq> 0" "n_Payload n \<noteq> None"
  shows "(ent w' = ent w \<and> \<not> protected (n_Channel n) (n_Category n) \<and>
          decision w (n_RecipientID n) (n_Channel n) (n_Category n) = Some False) \<or>
    (ent w' = ent w \<and> n_IdempotencyKey n \<noteq> [] \<and>
       (\<exists>i m. ent w i = Some m \<and> n_IdempotencyKey m = n_IdempotencyKey n)) \<or>
    (ent w (n_ID n) = None \<and> ent w' = (ent w)(n_ID n \<mapsto> n))"
proof -
  obtain r w1 where prefs: "prp_ListForUser P (n_RecipientID n) w = (Ret r, w1)" "I w1"
    "ent w1 = ent w" "decision w1 = decision w"
    "\<forall>ps ch cat. r = Inr ps \<longrightarrow> (Allowed ps ch cat \<longleftrightarrow>
       protected ch cat \<or> decision w (n_RecipientID n) ch cat \<noteq> Some False)"
    by (rule ListForUser_run [OF I, of "n_RecipientID n"])
  show ?thesis
  proof (cases r)
    case (Inl e)
    with run prefs(1) show ?thesis
      by (simp add: enqueue_gated_def s bindp_def retp_def split: if_splits)
  next
    case (Inr ps)
    show ?thesis
    proof (cases "Allowed ps (n_Channel n) (n_Category n)")
      case False
      with run prefs(1) Inr have "w' = w1"
        by (simp add: enqueue_gated_def s bindp_def retp_def split: if_splits)
      with False prefs Inr show ?thesis by simp
    next
      case True
      obtain q w2 where q: "nrp_Enqueue R (Some n) w1 = (Ret q, w2)"
        using enq.enqueue_total [OF prefs(2)] by blast
      have "(case q of None \<Rightarrow> retp None | Some err \<Rightarrow>
           (if errors_Is err ErrDuplicateIdempotencyKey then retp None
            else retp (Some (Errorf ''enqueue notification: %w'' [] [err])))) w2 = (Ret None, w')"
        using run prefs(1) Inr True q
        by (simp add: enqueue_gated_def s bindp_Ret split: if_splits)
      then have w2: "w2 = w'"
          "q = None \<or> (\<exists>e. q = Some e \<and> errors_Is e ErrDuplicateIdempotencyKey)"
        by (auto simp: retp_def split: option.splits if_splits)
      from w2(2) show ?thesis
      proof
        assume "q = None"
        with enq.enqueue_ok [OF prefs(2) fresh] q w2(1) prefs(3) show ?thesis by simp
      next
        assume "\<exists>e. q = Some e \<and> errors_Is e ErrDuplicateIdempotencyKey"
        with enq.enqueue_dup [OF prefs(2)] q w2(1) prefs(3) show ?thesis by metis
      qed
    qed
  qed
qed

text \<open>Whatever an enqueue reports, it returns and no row is lost.\<close>

lemma enqueue_gated_keeps:
  assumes s: "sv_notifications s = R" "sv_preferences s = P" and I: "I w"
  shows "\<exists>r w'. enqueue_gated s n w = (Ret r, w') \<and> I w' \<and> (\<forall>i m. ent w i = Some m \<longrightarrow> ent w' i = Some m)"
proof -
  obtain r w1 where lst: "prp_ListForUser P (n_RecipientID n) w = (Ret r, w1)" "I w1" "ent w1 = ent w"
    using ListForUser_run [OF I, of "n_RecipientID n"] by metis
  obtain q w2 where enq: "nrp_Enqueue R (Some n) w1 = (Ret q, w2)" "I w2"
    using enq.enqueue_total [OF lst(2)] by metis
  have "ent w2 i = Some m" if "ent w i = Some m" for i m
    using enq.enqueue_grows [OF lst(2) enq(1)] that lst(3) by simp
  with lst enq show ?thesis
    using I by (auto simp: enqueue_gated_def s bindp_def split: sum.splits option.splits)
qed

lemma Enqueue_keeps:
  assumes s: "sv_notifications s = R" "sv_preferences s = P"
      "preserves I (\<lambda>w. (ent w, decision w)) (sv_clock s)" "preserves I (\<lambda>w. (ent w, decision w)) uuid_New"
      "returns I (sv_clock s)" "returns I uuid_New"
    and I: "I w"
  shows "\<exists>r w'. Enqueue s uuid_New req w = (Ret r, w') \<and> I w' \<and> (\<forall>i m. ent w i = Some m \<longrightarrow> ent w' i = Some m)"
proof -
  obtain newID w1 where new: "uuid_New w = (Ret newID, w1)" using s(6) I by (auto simp: returns_def)
  from preservesD [OF s(4) I new] have w1: "I w1" "ent w1 = ent w" by simp_all
  obtain now w2 where clk: "sv_clock s w1 = (Ret now, w2)" using s(5) w1(1) by (auto simp: returns_def)
  from preservesD [OF s(3) w1(1) clk] w1 have w2: "I w2" "ent w2 = ent w" by simp_all
  show ?thesis
  proof (cases "NewNotification (enqueue_params newID req) now")
    case (Inl e)
    with new clk w2 show ?thesis by (simp add: Enqueue_def bindp_def)
  next
    case (Inr n)
    with enqueue_gated_keeps [OF s(1,2) w2(1), of n] new clk w2(2) show ?thesis
      by (simp add: Enqueue_def bindp_def)
  qed
qed

lemma Enqueue_outcomes:
  assumes s: "sv_notifications s = R" "sv_preferences s = P"
      "preserves I (\<lambda>w. (ent w, decision w)) (sv_clock s)"
      "preserves I (\<lambda>w. (ent w, decision w)) uuid_New"
      "\<And>w t w'. sv_clock s w = (Ret t, w') \<Longrightarrow> t \<noteq> 0"
    and I: "I w" and run: "Enqueue s uuid_New req w = (Ret None, w')"
  shows "(ent w' = ent w \<and> \<not> protected (er_Channel req) (er_Category req) \<and>
          decision w (er_RecipientID req) (er_Channel req) (er_Category req) = Some False) \<or>
    (ent w' = ent w \<and> er_IdempotencyKey req \<noteq> [] \<and>
       (\<exists>i m. ent w i = Some m \<and> n_IdempotencyKey m = er_IdempotencyKey req)) \<or>
    (\<exists>n now. ent w (n_ID n) = None \<and> ent w' = (ent w)(n_ID n \<mapsto> n) \<and>
       NewNotification (enqueue_params (n_ID n) req) now = Inr n)"
proof -
  from run obtain newID w1 now w2 where new: "uuid_New w = (Ret newID, w1)"
      and clk: "sv_clock s w1 = (Ret now, w2)"
      and rest: "(case NewNotification (enqueue_params newID req) now of
         Inl err \<Rightarrow> retp (Some err) | Inr n \<Rightarrow> enqueue_gated s n) w2 = (Ret None, w')"
    unfolding Enqueue_def bindp_eq_Ret by blast
  from preservesD [OF s(4) I new] have w1: "I w1" "ent w1 = ent w" "decision w1 = decision w"
    by simp_all
  from preservesD [OF s(3) w1(1) clk] w1
  have w2: "I w2" "ent w2 = ent w" "decision w2 = decision w" by simp_all
  from rest obtain n where n: "NewNotification (enqueue_params newID req) now = Inr n"
      and run': "enqueue_gated s n w2 = (Ret None, w')"
    by (auto simp: retp_def split: sum.splits)
  have "newID \<noteq> uuid_Nil"
    using n by (auto simp: NewNotification_def enqueue_params_def split: if_splits)
  with NewNotification_Inr [OF n] s(5) [OF clk]
  have fields: "n_ID n = newID" "n_ID n \<noteq> uuid_Nil" "n_Status n = StatusPending"
    "n_CreatedAt n \<noteq> 0" "n_NextAttemptAt n \<noteq> 0" "n_Payload n \<noteq> None"
    "n_RecipientID n = er_RecipientID req" "n_Channel n = er_Channel req"
    "n_Category n = er_Category req" "n_IdempotencyKey n = er_IdempotencyKey req"
    by (simp_all add: enqueue_params_def)
  from n have "NewNotification (enqueue_params (n_ID n) req) now = Inr n" by (simp add: fields(1))
  with enqueue_gated_outcomes [OF s(1,2) w2(1) run' fields(2-6)]
  show ?thesis unfolding w2(2,3) fields(7-10) by blast
qed

end

text \<open>A refused update calls no repository at all: only the clock has been read.\<close>

lemma validate_updates_now:
  "validate_updates u now seen us = Inl e \<Longrightarrow> validate_updates u now' seen us = Inl e"
proof (induction us arbitrary: seen)
  case (Cons x us)
  then show ?case
    by (auto simp: Let_def NewPreference_def split: if_splits sum.splits)
qed simp

lemma UpdatePreferences_refused:
  assumes "validate_updates u now [] us = Inl e"
  shows "UpdatePreferences s u us = bindp (sv_clock s) (\<lambda>_. retp (Inl e))"
  using validate_updates_now [OF assms] by (simp add: UpdatePreferences_def)

end
