(* ===== verification/Dispatch.thy ===== *)
theory Dispatch
  imports Service
begin

text \<open>
  The dispatch cycle of \<open>modules/notification/application/dispatch.go\<close>: claim, render,
  send, settle. While a row is being settled the program's world carries the entity beside
  the outside world, so that a panic is met with the entity as it was at that point. The
  contract of the cycle, over any outbox that keeps the port's promises, is proved in the
  locale at the end.
\<close>

section \<open>Programs that carry the entity\<close>

definition lift_world :: "('w, 'a) prog \<Rightarrow> ('w \<times> notification, 'a) prog" where
  "lift_world p = (\<lambda>(w, n). case p w of (r, w') \<Rightarrow> (r, (w', n)))"

definition with_entity ::
  "(notification \<Rightarrow> ('w \<times> notification, 'a) prog) \<Rightarrow> ('w \<times> notification, 'a) prog" where
  "with_entity f = (\<lambda>(w, n). f n (w, n))"

definition call_method ::
  "(notification \<Rightarrow> goerr + notification) \<Rightarrow> ('w \<times> notification, goerr option) prog" where
  \<comment> \<open>a call of a pointer-receiver method on the entity\<close>
  "call_method f = (\<lambda>(w, n). case f n of
       Inl err \<Rightarrow> (Ret (Some err), (w, n))
     | Inr n' \<Rightarrow> (Ret None, (w, n')))"

definition wrap_err :: "string \<Rightarrow> goerr option \<Rightarrow> goerr option" where
  "wrap_err fmt r = map_option (\<lambda>err. Errorf fmt [] [err]) r"

section \<open>The cycle\<close>

definition attemptDelivery ::
  "'w service \<Rightarrow> notification \<Rightarrow> ('w, bool \<times> goerr option) prog" where
  "attemptDelivery s n =
     recoverp
       (case sv_senders s (n_Channel n) of
          None \<Rightarrow> retp (False, Some (Errorf ''%w: no sender registered for channel %q''
                    [OStr (n_Channel n)] [ErrNonRetryable]))
        | Some sender \<Rightarrow>
            bindp (sv_renderer s (n_TemplateKey n) (n_Channel n) (n_Payload n)) (\<lambda>r.
              case r of
                Inl err \<Rightarrow> retp (False, Some (Errorf ''%w: render %q for channel %q: %w''
                    [OStr (n_TemplateKey n), OStr (n_Channel n)] [ErrNonRetryable, err]))
              | Inr msg \<Rightarrow>
                  bindp (cs_Send sender (msg\<lparr>m_NotificationID := n_ID n,
                           m_RecipientID := n_RecipientID n, m_Channel := n_Channel n\<rparr>)) (\<lambda>r.
                    case r of
                      Some err \<Rightarrow> retp (retryable err,
                        Some (Errorf ''send over %q: %w'' [OStr (n_Channel n)] [err]))
                    | None \<Rightarrow> retp (False, None))))
       (\<lambda>m. retp (True, Some (Errorf ''panic during delivery: %v'' [OStr m] [])))"

definition observe ::
  "'w service \<Rightarrow> duration \<Rightarrow> goerr option \<Rightarrow> notification \<Rightarrow> ('w, unit) prog" where
  "observe s took err n =
     (case sv_observer s of
        None \<Rightarrow> retp ()
      | Some Settled \<Rightarrow> Settled n (n_Status n) took err)"

definition settle_outcome ::
  "'w service \<Rightarrow> (goerr \<Rightarrow> string) \<Rightarrow> time \<Rightarrow> bool \<Rightarrow> goerr option \<Rightarrow>
   ('w \<times> notification, goerr option) prog" where
  \<comment> \<open>the \<open>switch\<close> of \<open>settle\<close>: the state change the delivery's outcome calls for\<close>
  "settle_outcome s err_text now worthRetrying failure =
     (case failure of
        None \<Rightarrow>
          bindp (call_method (\<lambda>n. MarkSent n now)) (\<lambda>r. retp (wrap_err ''mark sent: %w'' r))
      | Some err \<Rightarrow>
          (if \<not> worthRetrying then
             bindp (call_method (\<lambda>n. MarkDead n (err_text err)))
               (\<lambda>r. retp (wrap_err ''mark dead: %w'' r))
           else
             bindp (with_entity (\<lambda>n. lift_world
                 (BackoffWithJitter (n_Attempts n) (dc_BackoffBase (sv_cfg s))
                    (dc_BackoffCap (sv_cfg s)) (sv_jitter s)))) (\<lambda>retryAfter.
             bindp (call_method (\<lambda>n. RecordFailure n now retryAfter (dc_MaxAttempts (sv_cfg s))
                 (err_text err))) (\<lambda>r. retp (wrap_err ''record failure: %w'' r)))))"

definition settle ::
  "'w service \<Rightarrow> (goerr \<Rightarrow> string) \<Rightarrow> ('w \<times> notification, goerr option) prog" where
  "settle s err_text =
     bindp (lift_world (sv_clock s)) (\<lambda>started.
     bindp (with_entity (\<lambda>n. lift_world (attemptDelivery s n))) (\<lambda>(worthRetrying, failure).
     bindp (lift_world (sv_clock s)) (\<lambda>now.
     bindp (settle_outcome s err_text now worthRetrying failure) (\<lambda>r.
       case r of
         Some err \<Rightarrow> retp (Some err)
       | None \<Rightarrow>
           bindp (with_entity (\<lambda>n. lift_world (nrp_Save (sv_notifications s) (Some n)))) (\<lambda>r.
             case r of
               Some err \<Rightarrow> retp (Some (Errorf ''save notification: %w'' [] [err]))
             | None \<Rightarrow>
                 bindp (with_entity (\<lambda>n. lift_world (observe s (time_Sub now started) failure n)))
                   (\<lambda>_. retp None))))))"

definition settleSafely ::
  "'w service \<Rightarrow> (goerr \<Rightarrow> string) \<Rightarrow> notification \<Rightarrow> ('w, goerr option) prog" where
  "settleSafely s err_text n w =
     (case settle s err_text (w, n) of
        (Ret r, (w', n')) \<Rightarrow> (Ret r, w')
      | (Panics m, (w', n')) \<Rightarrow>
          (let err = Errorf ''%w: %v'' [OStr m] [ErrPanicked] in
           bindp (observe s 0 (Some err) n') (\<lambda>_. retp (Some err)) w'))"

fun settle_all ::
  "'w service \<Rightarrow> (goerr \<Rightarrow> string) \<Rightarrow> notification option list \<Rightarrow> ('w, goerr list) prog" where
  \<comment> \<open>the loop of \<open>DispatchBatch\<close>, returning the failures it collected\<close>
  "settle_all s err_text [] = retp []"
| "settle_all s err_text (None # rest) =
     bindp (settle_all s err_text rest) (\<lambda>failures.
       retp (New ''claimed a nil notification'' # failures))"
| "settle_all s err_text (Some n # rest) =
     bindp (settleSafely s err_text n) (\<lambda>r.
     bindp (settle_all s err_text rest) (\<lambda>failures.
       retp (case r of
               None \<Rightarrow> failures
             | Some err \<Rightarrow> Errorf ''notification %s: %w'' [OUuid (n_ID n)] [err] # failures)))"

definition DispatchBatch ::
  "'w service \<Rightarrow> (goerr \<Rightarrow> string) \<Rightarrow> ('w, int \<times> goerr option) prog" where
  "DispatchBatch s err_text =
     bindp (sv_clock s) (\<lambda>now.
     bindp (nrp_ClaimBatch (sv_notifications s) (dc_BatchSize (sv_cfg s)) now) (\<lambda>r.
       case r of
         Inl err \<Rightarrow> retp (0, Some (Errorf ''claim notifications: %w'' [] [err]))
       | Inr claimed \<Rightarrow>
           bindp (settle_all s err_text claimed) (\<lambda>failures.
             retp (int (length claimed), errors_Join failures))))"

section \<open>One delivery\<close>

lemma attemptDelivery_delivered:
  assumes "attemptDelivery s n w = (Ret (b, None), w')"
  shows "\<exists>sender msg w1. sv_senders s (n_Channel n) = Some sender \<and>
    sv_renderer s (n_TemplateKey n) (n_Channel n) (n_Payload n) w = (Ret (Inr msg), w1) \<and>
    cs_Send sender (msg\<lparr>m_NotificationID := n_ID n, m_RecipientID := n_RecipientID n,
      m_Channel := n_Channel n\<rparr>) w1 = (Ret None, w')"
  using assms
  by (auto simp: attemptDelivery_def recoverp_def bindp_def
      split: option.splits prod.splits outcome.splits sum.splits)

lemma attemptDelivery_returns: "\<exists>b f w'. attemptDelivery s n w = (Ret (b, f), w')"
  by (auto simp: attemptDelivery_def recoverp_def split: prod.splits outcome.splits)

text \<open>A permanent failure is a missing sender, a renderer error or a sender that says so.\<close>

lemma attemptDelivery_permanent:
  assumes "attemptDelivery s n w = (Ret (False, Some e), w')"
  shows "errors_Is e ErrNonRetryable"
  using assms
  by (auto simp: attemptDelivery_def recoverp_def bindp_def retryable_def
      split: option.splits prod.splits outcome.splits sum.splits)

text \<open>The state change a delivery outcome asks for, as a relation on the entity.\<close>

definition settled_as ::
  "int \<Rightarrow> (goerr \<Rightarrow> string) \<Rightarrow> bool \<Rightarrow> goerr option \<Rightarrow> notification \<Rightarrow> notification \<Rightarrow> bool" where
  "settled_as M err_text worthRetrying failure n n' \<longleftrightarrow>
     (case failure of
        None \<Rightarrow> \<exists>now. MarkSent n now = Inr n'
      | Some err \<Rightarrow>
          (if worthRetrying then \<exists>now d. RecordFailure n now d M (err_text err) = Inr n'
           else MarkDead n (err_text err) = Inr n'))"

lemma settled_as_step: "settled_as M err_text b f n n' \<Longrightarrow> row_step M n n'"
  by (auto simp: settled_as_def intro: row_step.intros split: option.splits if_splits)

lemma settled_as_identity: "settled_as M err_text b f n n' \<Longrightarrow> same_identity n n'"
  by (auto simp: settled_as_def dest: state_change_identity split: option.splits if_splits)

lemma settled_as_sent: "settled_as M err_text b f n n' \<Longrightarrow> n_Status n' = StatusSent \<Longrightarrow> f = None"
  by (auto simp: settled_as_def state_change_eqs split: option.splits if_splits)

lemma settle_outcome_run:
  assumes "settle_outcome s err_text now b f (w, n) = (r, (w', n'))"
  shows "(case r of
       Ret None \<Rightarrow> settled_as (dc_MaxAttempts (sv_cfg s)) err_text b f n n'
     | _ \<Rightarrow> n' = n)"
  using assms
  by (auto simp: settle_outcome_def settled_as_def call_method_def with_entity_def lift_world_def
      wrap_err_def bindp_def split: option.splits if_splits sum.splits prod.splits outcome.splits)


section \<open>Frames of the cycle\<close>

text \<open>The ports other than the outbox leave the outbox alone.\<close>

definition dispatch_frame :: "('w \<Rightarrow> bool) \<Rightarrow> ('w \<Rightarrow> 'b) \<Rightarrow> 'w service \<Rightarrow> bool" where
  "dispatch_frame J obs s \<longleftrightarrow>
     preserves J obs (sv_clock s) \<and>
     (\<forall>k c p. preserves J obs (sv_renderer s k c p)) \<and>
     (\<forall>ch sender m. sv_senders s ch = Some sender \<longrightarrow> preserves J obs (cs_Send sender m)) \<and>
     (\<forall>draw. sv_jitter s = Some draw \<longrightarrow> preserves J obs draw) \<and>
     (\<forall>Settled n st d e. sv_observer s = Some Settled \<longrightarrow> preserves J obs (Settled n st d e))"

lemma dispatch_frameD:
  assumes "dispatch_frame J obs s"
  shows "preserves J obs (sv_clock s)" "preserves J obs (sv_renderer s k c p)"
    "sv_senders s ch = Some sender \<Longrightarrow> preserves J obs (cs_Send sender m)"
    "sv_jitter s = Some draw \<Longrightarrow> preserves J obs draw"
    "sv_observer s = Some Settled \<Longrightarrow> preserves J obs (Settled n st d e)"
  using assms by (auto simp: dispatch_frame_def)

lemma preserves_lift_world [intro]:
  "preserves J obs p \<Longrightarrow> preserves (\<lambda>x. J (fst x)) (\<lambda>x. obs (fst x)) (lift_world p)"
  by (auto simp: preserves_def lift_world_def split: prod.splits)

lemma preserves_with_entity [intro]:
  "(\<And>n. preserves (\<lambda>x. J (fst x)) (\<lambda>x. obs (fst x)) (f n)) \<Longrightarrow>
     preserves (\<lambda>x. J (fst x)) (\<lambda>x. obs (fst x)) (with_entity f)"
  by (auto simp: preserves_def with_entity_def)

lemma preserves_call_method [intro]:
  "preserves (\<lambda>x. J (fst x)) (\<lambda>x. obs (fst x)) (call_method f)"
  by (auto simp: preserves_def call_method_def split: sum.splits)

lemma preserves_Backoff [intro]:
  "(\<And>draw. src = Some draw \<Longrightarrow> preserves J obs draw) \<Longrightarrow>
     preserves J obs (BackoffWithJitter k base cap src)"
  by (auto simp: BackoffWithJitter_def Let_def split: option.splits)

lemma attemptDelivery_preserves:
  assumes "dispatch_frame J obs s"
  shows "preserves J obs (attemptDelivery s n)"
  unfolding attemptDelivery_def using dispatch_frameD [OF assms]
  by (auto intro!: preserves_recoverp preserves_bindp split: option.splits sum.splits)

lemma observe_preserves:
  assumes "dispatch_frame J obs s"
  shows "preserves J obs (observe s took e n)"
  unfolding observe_def using dispatch_frameD [OF assms] by (auto split: option.splits)

lemma settle_outcome_preserves:
  assumes "dispatch_frame J obs s"
  shows "preserves (\<lambda>x. J (fst x)) (\<lambda>x. obs (fst x)) (settle_outcome s err_text now b f)"
  unfolding settle_outcome_def using dispatch_frameD [OF assms]
  by (auto intro!: preserves_bindp preserves_with_entity preserves_lift_world preserves_Backoff
      split: option.splits)

section \<open>The cycle over the contract\<close>

text \<open>
  What settling may do to the outbox: nothing, or the state change the delivery's outcome
  asks for, on that row and no other; and nothing only if it reports a failure.
\<close>

definition row_settled ::
  "'w service \<Rightarrow> (goerr \<Rightarrow> string) \<Rightarrow> notification \<Rightarrow> notification \<Rightarrow> bool" where
  "row_settled s err_text n m \<longleftrightarrow>
     (\<exists>w w' b f. attemptDelivery s n w = (Ret (b, f), w') \<and>
        settled_as (dc_MaxAttempts (sv_cfg s)) err_text b f n m)"

context outbox_port
begin

lemma row_settledD:
  assumes "row_settled s err_text n m"
  shows "row_step (dc_MaxAttempts (sv_cfg s)) n m" "same_identity n m" "n_ID m = n_ID n"
  using assms settled_as_step settled_as_identity
  by (fastforce simp: row_settled_def same_identity_def)+

lemma settle_row:
  assumes frame: "dispatch_frame I ent s" and repo: "sv_notifications s = R"
    and I: "I w" and stored: "ent w (n_ID n) = Some n"
    and run: "settle s err_text (w, n) = (r, (w', n'))"
  shows "I w' \<and> (ent w' = ent w \<and> r \<noteq> Ret None \<or>
    (\<exists>m. row_settled s err_text n m \<and> ent w' = (ent w)(n_ID n \<mapsto> m)))"
proof -
  note frames = dispatch_frameD [OF frame]
  obtain rc w1 where clk: "sv_clock s w = (rc, w1)" by (cases "sv_clock s w")
  from preservesD [OF frames(1) I clk] have w1: "I w1" "ent w1 = ent w" by simp_all
  show ?thesis
  proof (cases rc)
    case (Panics m)
    with run clk w1 show ?thesis by (auto simp: settle_def lift_world_def bindp_def)
  next
    case started: (Ret started)
    obtain b f w2 where att: "attemptDelivery s n w1 = (Ret (b, f), w2)"
      using attemptDelivery_returns [of s n w1] by blast
    from preservesD [OF attemptDelivery_preserves [OF frame] w1(1) att] w1
    have w2: "I w2" "ent w2 = ent w" by simp_all
    obtain rd w3 where clk2: "sv_clock s w2 = (rd, w3)" by (cases "sv_clock s w2")
    from preservesD [OF frames(1) w2(1) clk2] w2 have w3: "I w3" "ent w3 = ent w" by simp_all
    show ?thesis
    proof (cases rd)
      case (Panics m)
      with run clk started att clk2 w3 show ?thesis
        by (auto simp: settle_def lift_world_def with_entity_def bindp_def)
    next
      case now: (Ret now)
      obtain ro w4 m where out: "settle_outcome s err_text now b f (w3, n) = (ro, (w4, m))"
        by (metis prod_cases3)
      from preservesD [OF settle_outcome_preserves [OF frame], of "(w3, n)", OF _ out] w3
      have w4: "I w4" "ent w4 = ent w" by simp_all
      show ?thesis
      proof (cases "ro = Ret None")
        case False
        with run clk started att clk2 now out w4 show ?thesis
          by (cases ro) (auto simp: settle_def lift_world_def with_entity_def bindp_def
              split: option.splits)
      next
        case True
        with settle_outcome_run [OF out] have "settled_as (dc_MaxAttempts (sv_cfg s)) err_text b f n m"
          by simp
        with att have settled: "row_settled s err_text n m" by (auto simp: row_settled_def)
        note same = row_settledD(2,3) [OF settled]
        obtain q w5 where save: "nrp_Save R (Some m) w4 = (Ret q, w5)" "I w5"
            "saved_into (ent w4) (ent w5) m q"
          using save_total [OF w4(1)] by metis
        have w5: "ent w5 = ent w \<and> q \<noteq> None \<or> ent w5 = (ent w)(n_ID n \<mapsto> m)"
          using save(3) stored w4(2) same settled_same_identity [OF same(1)]
          by (auto simp: saved_into_def)
        show ?thesis
        proof (cases q)
          case (Some e)
          with run clk started att clk2 now out True save(1) repo have "w' = w5" "r \<noteq> Ret None"
            by (auto simp: settle_def lift_world_def with_entity_def bindp_def)
          with w5 save(2) settled show ?thesis by auto
        next
          case None
          obtain rz w6 where obs: "observe s (time_Sub now started) f m w5 = (rz, w6)"
            by (cases "observe s (time_Sub now started) f m w5")
          from preservesD [OF observe_preserves [OF frame] save(2) obs]
          have w6: "I w6" "ent w6 = ent w5" by simp_all
          from None run clk started att clk2 now out True save(1) repo obs have "w' = w6"
            by (cases rz) (auto simp: settle_def lift_world_def with_entity_def bindp_def)
          with w5 w6 None settled show ?thesis by auto
        qed
      qed
    qed
  qed
qed

lemma settleSafely_row:
  assumes frame: "dispatch_frame I ent s" and repo: "sv_notifications s = R"
    and I: "I w" and stored: "ent w (n_ID n) = Some n"
    and run: "settleSafely s err_text n w = (r, w')"
  shows "I w' \<and> (ent w' = ent w \<and> r \<noteq> Ret None \<or>
    (\<exists>m. row_settled s err_text n m \<and> ent w' = (ent w)(n_ID n \<mapsto> m)))"
proof -
  obtain q w1 n1 where q: "settle s err_text (w, n) = (q, (w1, n1))" by (metis prod_cases3)
  note row = settle_row [OF frame repo I stored q]
  show ?thesis
  proof (cases q)
    case (Ret x)
    with run q row show ?thesis by (auto simp: settleSafely_def)
  next
    case (Panics m)
    let ?e = "Errorf ''%w: %v'' [OStr m] [ErrPanicked]"
    obtain z w2 where obs: "observe s 0 (Some ?e) n1 w1 = (z, w2)"
      by (cases "observe s 0 (Some ?e) n1 w1")
    from row have "I w1" by blast
    from preservesD [OF observe_preserves [OF frame] this obs] have w2: "I w2" "ent w2 = ent w1"
      by simp_all
    have "w' = w2" "r \<noteq> Ret None"
      using run q Panics obs by (cases z; auto simp: settleSafely_def Let_def bindp_def)+
    with row w2 Panics show ?thesis by auto
  qed
qed

end


section \<open>A batch\<close>

text \<open>
  The effect of a cycle that claimed \<open>cs\<close>: rows not claimed are untouched, a claimed row is
  settled by its delivery's outcome or was left sending, the latter only if reported.
\<close>

definition settled_or_left ::
  "'w service \<Rightarrow> (goerr \<Rightarrow> string) \<Rightarrow> store \<Rightarrow> notification \<Rightarrow> bool" where
  "settled_or_left s err_text E' c \<longleftrightarrow>
     E' (n_ID c) = Some c \<or> (\<exists>m. row_settled s err_text c m \<and> E' (n_ID c) = Some m)"

definition all_settled ::
  "'w service \<Rightarrow> (goerr \<Rightarrow> string) \<Rightarrow> store \<Rightarrow> notification list \<Rightarrow> bool" where
  "all_settled s err_text E' cs \<longleftrightarrow>
     (\<forall>c \<in> set cs. \<exists>m. row_settled s err_text c m \<and> E' (n_ID c) = Some m)"

definition batch_effect ::
  "'w service \<Rightarrow> (goerr \<Rightarrow> string) \<Rightarrow> store \<Rightarrow> store \<Rightarrow> notification list \<Rightarrow> bool" where
  "batch_effect s err_text E E' cs \<longleftrightarrow>
     (\<exists>now. \<forall>c \<in> set cs. n_Status c = StatusSending \<and> n_NextAttemptAt c \<le> now \<and>
        E (n_ID c) = Some (c\<lparr>n_Status := StatusPending\<rparr>)) \<and>
     distinct (map n_ID cs) \<and> length cs \<le> nat (dc_BatchSize (sv_cfg s)) \<and>
     (\<forall>i. i \<notin> n_ID ` set cs \<longrightarrow> E' i = E i) \<and>
     (\<forall>c \<in> set cs. settled_or_left s err_text E' c)"

context outbox_port
begin

lemma settle_all_rows:
  assumes frame: "dispatch_frame I ent s" and repo: "sv_notifications s = R"
  shows "I w \<Longrightarrow> distinct (map n_ID cs) \<Longrightarrow> \<forall>c \<in> set cs. ent w (n_ID c) = Some c \<Longrightarrow>
    settle_all s err_text (map Some cs) w = (r, w') \<Longrightarrow>
    I w' \<and> (\<forall>i. i \<notin> n_ID ` set cs \<longrightarrow> ent w' i = ent w i) \<and>
    (\<forall>c \<in> set cs. settled_or_left s err_text (ent w') c) \<and>
    (r = Ret [] \<longrightarrow> all_settled s err_text (ent w') cs)"
proof (induction cs arbitrary: w r w')
  case Nil
  then show ?case by (simp add: all_settled_def)
next
  case (Cons c cs)
  obtain q w1 where q: "settleSafely s err_text c w = (q, w1)"
    by (cases "settleSafely s err_text c w")
  from Cons.prems(3) have "ent w (n_ID c) = Some c" by simp
  note row = settleSafely_row [OF frame repo Cons.prems(1) this q]
  have w1: "I w1" "\<forall>i. i \<noteq> n_ID c \<longrightarrow> ent w1 i = ent w i" "settled_or_left s err_text (ent w1) c"
      "q = Ret None \<longrightarrow> (\<exists>m. row_settled s err_text c m \<and> ent w1 (n_ID c) = Some m)"
    using row \<open>ent w (n_ID c) = Some c\<close> by (auto simp: settled_or_left_def)
  have keep: "\<forall>d \<in> set cs. ent w1 (n_ID d) = Some d"
  proof
    fix d assume d: "d \<in> set cs"
    then have "n_ID d \<noteq> n_ID c" using Cons.prems(2) by (auto simp: image_iff)
    with d Cons.prems(3) w1(2) show "ent w1 (n_ID d) = Some d" by simp
  qed
  show ?case
  proof (cases q)
    case (Panics m)
    with Cons.prems(4) q have "r = Panics m" "w' = w1" by (auto simp: bindp_def)
    with w1 keep show ?thesis by (auto simp: settled_or_left_def)
  next
    case (Ret x)
    obtain z w2 where z: "settle_all s err_text (map Some cs) w1 = (z, w2)"
      by (cases "settle_all s err_text (map Some cs) w1")
    from Cons.IH [OF w1(1) _ _ z] Cons.prems(2) keep
    have w2: "I w2" "\<forall>i. i \<notin> n_ID ` set cs \<longrightarrow> ent w2 i = ent w1 i"
        "\<forall>d \<in> set cs. settled_or_left s err_text (ent w2) d"
        "z = Ret [] \<longrightarrow> all_settled s err_text (ent w2) cs"
      by simp_all
    have "n_ID c \<notin> n_ID ` set cs" using Cons.prems(2) by simp
    then have c: "ent w2 (n_ID c) = ent w1 (n_ID c)" using w2(2) by blast
    have "w' = w2" "r = Ret [] \<longrightarrow> z = Ret [] \<and> x = None"
      using Cons.prems(4) q Ret z
      by (cases z; auto simp: bindp_def split: option.splits)+
    with w1 w2 c Ret show ?thesis
      by (auto simp: settled_or_left_def all_settled_def)
  qed
qed

lemma batch_effect_Nil: "batch_effect s err_text E E' [] \<longleftrightarrow> E' = E"
  by (auto simp: batch_effect_def)

lemma DispatchBatch_effect:
  assumes frame: "dispatch_frame I ent s" and repo: "sv_notifications s = R"
    and I: "I w" and run: "DispatchBatch s err_text w = (r, w')"
  shows "I w' \<and> (\<exists>cs. batch_effect s err_text (ent w) (ent w') cs \<and>
    (\<forall>k e. r = Ret (k, e) \<longrightarrow> k = int (length cs) \<and>
       (e = None \<longrightarrow> all_settled s err_text (ent w') cs)))"
proof -
  obtain rc w1 where clk: "sv_clock s w = (rc, w1)" by (cases "sv_clock s w")
  from preservesD [OF dispatch_frameD(1) [OF frame] I clk] have w1: "I w1" "ent w1 = ent w"
    by simp_all
  show ?thesis
  proof (cases rc)
    case (Panics m)
    with run clk w1 show ?thesis
      by (auto simp: DispatchBatch_def bindp_def batch_effect_Nil intro!: exI [of _ "[]"])
  next
    case (Ret now)
    obtain q w2 where q: "nrp_ClaimBatch R (dc_BatchSize (sv_cfg s)) now w1 = (Ret q, w2)" "I w2"
      using claim_total [OF w1(1), of "dc_BatchSize (sv_cfg s)" now] by blast
    show ?thesis
    proof (cases q)
      case (Inl e)
      with claim_err [OF w1(1)] q have "ent w2 = ent w1" by blast
      with run clk Ret q repo Inl w1 show ?thesis
        by (auto simp: DispatchBatch_def bindp_def batch_effect_Nil all_settled_def
            intro!: exI [of _ "[]"])
    next
      case (Inr ns)
      with claim_ok [OF w1(1)] q obtain cs where cs: "ns = map Some cs"
          "claimed_from (ent w) (ent w2) (dc_BatchSize (sv_cfg s)) now cs"
        unfolding w1(2) by blast
      obtain z w3 where z: "settle_all s err_text (map Some cs) w2 = (z, w3)"
        by (cases "settle_all s err_text (map Some cs) w2")
      from cs(2) have claimed: "distinct (map n_ID cs)" "\<forall>c \<in> set cs. ent w2 (n_ID c) = Some c"
          "\<forall>i. i \<notin> n_ID ` set cs \<longrightarrow> ent w2 i = ent w i"
        by (simp_all add: claimed_from_def)
      note rows = settle_all_rows [OF frame repo q(2) claimed(1,2) z]
      have "batch_effect s err_text (ent w) (ent w3) cs"
        using rows cs(2) claimed(3) by (auto simp: batch_effect_def claimed_from_def)
      moreover have "w' = w3"
        using run clk Ret q repo Inr cs(1) z by (cases z) (auto simp: DispatchBatch_def bindp_def)
      moreover have "r = Ret (k, e) \<Longrightarrow> k = int (length cs) \<and>
          (e = None \<longrightarrow> all_settled s err_text (ent w3) cs)" for k e
        using run clk Ret q repo Inr cs(1) z rows
        by (cases z) (auto simp: DispatchBatch_def bindp_def)
      ultimately show ?thesis using rows by blast
    qed
  qed
qed

end

end
