(* ===== verification/Dispatcher.thy ===== *)
theory Dispatcher
  imports Dispatch
begin

text \<open>
  The background worker of \<open>modules/notification/infrastructure/dispatcher/dispatcher.go\<close>:
  the validation of \<open>New\<close>, the \<open>drain\<close> loop (which may run for ever, so it is a partial
  function), the stalled-row \<open>Sweep\<close>, and the life of the goroutines between \<open>Start\<close> and
  \<open>Stop\<close> as a step relation. Log lines are not modelled.
\<close>

section \<open>Construction\<close>

record dispatcher_config =
  cf_PollInterval :: duration
  cf_Workers :: int
  cf_BatchSize :: int
  cf_StalledAfter :: duration
  cf_MaxAttempts :: int
  cf_BackoffBase :: duration
  cf_BackoffCap :: duration
  cf_DrainTimeout :: duration

record 'w dispatcher =
  di_Batcher :: "('w, int \<times> goerr option) prog"
  di_Notifications :: "'w notification_repository"
  di_Clock :: "('w, time) prog"
  di_Jitter :: "('w, float64) prog option"
  di_cfg :: dispatcher_config

definition New_errors ::
  "bool \<Rightarrow> bool \<Rightarrow> bool \<Rightarrow> dispatcher_config \<Rightarrow> goerr list" where
  \<comment> \<open>the errors \<open>New\<close> collects; the flags say which dependency is present\<close>
  "New_errors batcher notifications clock cfg =
     (if batcher then [] else [New ''dispatcher: a batcher is required'']) @
     (if notifications then [] else [New ''dispatcher: a notification repository is required'']) @
     (if clock then [] else [New ''dispatcher: a clock is required'']) @
     (if sint (cf_PollInterval cfg) \<le> 0
      then [New ''dispatcher: poll interval must be positive''] else []) @
     (if cf_Workers cfg \<le> 0 then [New ''dispatcher: workers must be positive''] else []) @
     (if cf_BatchSize cfg \<le> 0 then [New ''dispatcher: batch size must be positive''] else []) @
     (if sint (cf_StalledAfter cfg) \<le> 0
      then [New ''dispatcher: stalled-after must be positive''] else []) @
     (if cf_MaxAttempts cfg \<le> 0 then [New ''dispatcher: max attempts must be positive''] else []) @
     (if sint (cf_BackoffBase cfg) \<le> 0 \<or> sint (cf_BackoffCap cfg) \<le> 0
      then [New ''dispatcher: backoff base and cap must be positive''] else []) @
     (if sint (cf_DrainTimeout cfg) \<le> 0
      then [New ''dispatcher: drain timeout must be positive''] else [])"

definition Dispatcher_New ::
  "('w, int \<times> goerr option) prog option \<Rightarrow> 'w notification_repository option \<Rightarrow>
   ('w, time) prog option \<Rightarrow> ('w, float64) prog option \<Rightarrow> dispatcher_config \<Rightarrow>
   goerr + 'w dispatcher" where
  "Dispatcher_New batcher notifications clock jitter cfg =
     (case errors_Join (New_errors (batcher \<noteq> None) (notifications \<noteq> None) (clock \<noteq> None) cfg) of
        Some err \<Rightarrow> Inl err
      | None \<Rightarrow> Inr \<lparr>di_Batcher = the batcher, di_Notifications = the notifications,
                     di_Clock = the clock, di_Jitter = jitter, di_cfg = cfg\<rparr>)"

section \<open>Draining\<close>

text \<open>
  \<open>stopped\<close> reads \<open>claim.Err() != nil\<close> from the world. The result is \<open>None\<close> when the loop
  does not end.
\<close>

definition drain_over :: "int \<Rightarrow> int \<Rightarrow> bool \<Rightarrow> bool" where
  \<comment> \<open>the loop's return, after a batch that claimed \<open>claimed\<close> rows\<close>
  "drain_over claimed batchSize stopped \<longleftrightarrow> claimed = 0 \<or> claimed < batchSize \<or> stopped"

partial_function (option) drain ::
  "('w, int \<times> goerr option) prog \<Rightarrow> int \<Rightarrow> ('w \<Rightarrow> bool) \<Rightarrow> 'w \<Rightarrow> (unit outcome \<times> 'w) option" where
  [code]: "drain batch batchSize stopped w =
     (case batch w of
        (Panics m, w') \<Rightarrow> Some (Panics m, w')
      | (Ret (claimed, err), w') \<Rightarrow>
          (if drain_over claimed batchSize (stopped w') then Some (Ret (), w')
           else drain batch batchSize stopped w'))"

section \<open>The sweep\<close>

fun recover_all ::
  "'w dispatcher \<Rightarrow> time \<Rightarrow> notification option list \<Rightarrow> ('w, int \<times> goerr list) prog" where
  \<comment> \<open>the loop of \<open>Sweep\<close>: how many rows were recovered, and the errors\<close>
  "recover_all d now [] = retp (0, [])"
| "recover_all d now (None # rest) =
     bindp (recover_all d now rest) (\<lambda>(k, errs).
       retp (k, New ''claimed a nil stalled notification'' # errs))"
| "recover_all d now (Some n # rest) =
     bindp (BackoffWithJitter (n_Attempts n) (cf_BackoffBase (di_cfg d)) (cf_BackoffCap (di_cfg d))
              (di_Jitter d)) (\<lambda>retryAfter.
       case RecoverStalled n now retryAfter (cf_MaxAttempts (di_cfg d)) of
         Inl err \<Rightarrow>
           bindp (recover_all d now rest) (\<lambda>(k, errs).
             retp (k, Errorf ''notification %s: recover stalled: %w'' [OUuid (n_ID n)] [err] # errs))
       | Inr n' \<Rightarrow>
           bindp (nrp_Save (di_Notifications d) (Some n')) (\<lambda>r.
           bindp (recover_all d now rest) (\<lambda>(k, errs).
             case r of
               Some err \<Rightarrow>
                 retp (k, Errorf ''notification %s: save recovered: %w'' [OUuid (n_ID n)] [err] # errs)
             | None \<Rightarrow> retp (k + 1, errs))))"

definition Sweep :: "'w dispatcher \<Rightarrow> ('w, int \<times> goerr option) prog" where
  "Sweep d =
     bindp (di_Clock d) (\<lambda>now.
     bindp (nrp_ClaimStalled (di_Notifications d) (cf_BatchSize (di_cfg d))
              (time_Add now (- cf_StalledAfter (di_cfg d))) now) (\<lambda>r.
       case r of
         Inl err \<Rightarrow> retp (0, Some (Errorf ''claim stalled notifications: %w'' [] [err]))
       | Inr stalled \<Rightarrow>
           bindp (recover_all d now stalled) (\<lambda>(recovered, errs).
             retp (recovered, errors_Join errs))))"

section \<open>The goroutines\<close>

text \<open>
  A worker is at its \<open>select\<close>, in a call of \<open>DispatchBatch\<close> inside \<open>drain\<close>, or has returned; the
  sweeper, the last of the goroutines, is at its \<open>select\<close>, in \<open>Sweep\<close>, or has returned. \<open>select\<close>
  with both channels ready picks either, so a tick can win against a cancelled context. When a
  batch ends, \<open>drain\<close> either returns to the \<open>select\<close> or calls \<open>DispatchBatch\<close> again: it decides
  by the rows claimed and by \<open>claim.Err()\<close>. How many rows a batch claims is open, as is when a
  call returns.
\<close>

datatype goroutine = Selecting | Dispatching | Sweeping | Returned

datatype lifecycle_event =
    StartCalled
  | Tick nat
  | BatchDone nat int
  | SweepDone nat
  | ClaimDone nat
  | StopCalled
  | StopReturns

record lifecycle =
  lc_started :: bool
  lc_stopOnce :: bool
  lc_stopClaiming :: bool
  lc_abortWork :: bool
  lc_stopping :: bool
  lc_tasks :: "goroutine list"
  lc_stopErr :: "goerr option"

definition lifecycle_init :: lifecycle where
  "lifecycle_init =
     \<lparr>lc_started = False, lc_stopOnce = False, lc_stopClaiming = False, lc_abortWork = False,
      lc_stopping = False, lc_tasks = [], lc_stopErr = None\<rparr>"

definition all_returned :: "lifecycle \<Rightarrow> bool" where
  "all_returned s \<longleftrightarrow> (\<forall>t \<in> set (lc_tasks s). t = Returned)"

definition drain_error :: "dispatcher_config \<Rightarrow> goerr \<Rightarrow> goerr" where
  "drain_error cfg cause =
     Errorf ''notification dispatcher: in-flight deliveries did not settle within %s: %w''
       [ODuration (cf_DrainTimeout cfg)] [cause]"

definition goroutine_to :: "nat \<Rightarrow> goroutine \<Rightarrow> lifecycle \<Rightarrow> lifecycle" where
  "goroutine_to i g s = s\<lparr>lc_tasks := (lc_tasks s)[i := g]\<rparr>"

definition goroutine_at :: "nat \<Rightarrow> goroutine \<Rightarrow> lifecycle \<Rightarrow> bool" where
  "goroutine_at i g s \<longleftrightarrow> i < length (lc_tasks s) \<and> lc_tasks s ! i = g"

inductive lifecycle_step ::
  "dispatcher_config \<Rightarrow> lifecycle_event \<Rightarrow> lifecycle \<Rightarrow> lifecycle \<Rightarrow> bool" for cfg where
  start: "\<not> lc_started s \<Longrightarrow> lifecycle_step cfg StartCalled s
     (s\<lparr>lc_started := True, lc_tasks := replicate (nat (cf_Workers cfg) + 1) Selecting\<rparr>)"
| tick: "goroutine_at i Selecting s \<Longrightarrow> lifecycle_step cfg (Tick i) s
     (goroutine_to i (if i < nat (cf_Workers cfg) then Dispatching else Sweeping) s)"
| batch_done: "goroutine_at i Dispatching s \<Longrightarrow> lifecycle_step cfg (BatchDone i claimed) s
     (goroutine_to i
       (if drain_over claimed (cf_BatchSize cfg) (lc_stopClaiming s) then Selecting else Dispatching)
       s)"
| sweep_done: "goroutine_at i Sweeping s \<Longrightarrow> lifecycle_step cfg (SweepDone i) s
     (goroutine_to i Selecting s)"
| claim_done: "goroutine_at i Selecting s \<Longrightarrow> lc_stopClaiming s \<Longrightarrow>
     lifecycle_step cfg (ClaimDone i) s (goroutine_to i Returned s)"
| stop_unstarted: "\<not> lc_stopOnce s \<Longrightarrow> \<not> lc_started s \<Longrightarrow>
     lifecycle_step cfg StopCalled s (s\<lparr>lc_stopOnce := True\<rparr>)"
| stop_begin: "\<not> lc_stopOnce s \<Longrightarrow> lc_started s \<Longrightarrow> lifecycle_step cfg StopCalled s
     (s\<lparr>lc_stopOnce := True, lc_stopClaiming := True, lc_stopping := True\<rparr>)"
| stop_drained: "lc_stopping s \<Longrightarrow> all_returned s \<Longrightarrow> lifecycle_step cfg StopReturns s
     (s\<lparr>lc_stopping := False, lc_abortWork := True\<rparr>)"
| stop_timeout: "lc_stopping s \<Longrightarrow> lifecycle_step cfg StopReturns s
     (s\<lparr>lc_stopping := False, lc_abortWork := True,
       lc_stopErr := Some (drain_error cfg cause)\<rparr>)"

inductive_cases lifecycle_stepE: "lifecycle_step cfg e s s'"

inductive lifecycle_reachable :: "dispatcher_config \<Rightarrow> lifecycle \<Rightarrow> bool" for cfg where
  init: "lifecycle_reachable cfg lifecycle_init"
| step: "lifecycle_reachable cfg s \<Longrightarrow> lifecycle_step cfg e s s' \<Longrightarrow> lifecycle_reachable cfg s'"

inductive lifecycle_run ::
  "dispatcher_config \<Rightarrow> lifecycle \<Rightarrow> lifecycle_event list \<Rightarrow> lifecycle \<Rightarrow> bool" for cfg where
  stays: "lifecycle_run cfg s [] s"
| moves: "lifecycle_step cfg e s s' \<Longrightarrow> lifecycle_run cfg s' es s'' \<Longrightarrow>
     lifecycle_run cfg s (e # es) s''"

section \<open>Construction accepts only runnable settings\<close>

lemma Dispatcher_New_Inr:
  assumes "Dispatcher_New batcher notifications clock jitter cfg = Inr d"
  shows "di_cfg d = cfg \<and> batcher = Some (di_Batcher d) \<and>
    notifications = Some (di_Notifications d) \<and> clock = Some (di_Clock d) \<and>
    0 < sint (cf_PollInterval cfg) \<and> 0 < cf_Workers cfg \<and> 0 < cf_BatchSize cfg \<and>
    0 < sint (cf_StalledAfter cfg) \<and> 0 < cf_MaxAttempts cfg \<and>
    0 < sint (cf_BackoffBase cfg) \<and> 0 < sint (cf_BackoffCap cfg) \<and>
    0 < sint (cf_DrainTimeout cfg)"
  using assms
  by (auto simp: Dispatcher_New_def errors_Join_def New_errors_def split: option.splits if_splits)

section \<open>The drain ends\<close>

text \<open>What is left to happen to all rows of the outbox.\<close>

definition store_potential :: "int \<Rightarrow> store \<Rightarrow> nat" where
  "store_potential M E = (\<Sum>i \<in> dom E. potential M (the (E i)))"

definition store_inv :: "int \<Rightarrow> store \<Rightarrow> bool" where
  "store_inv M E \<longleftrightarrow> finite (dom E) \<and> (\<forall>i n. E i = Some n \<longrightarrow> row_inv M n)"

lemma row_inv_claimed:
  "row_inv M (c\<lparr>n_Status := StatusPending\<rparr>) \<Longrightarrow> n_Status c = StatusSending \<Longrightarrow>
     row_inv M c \<and> potential M c < potential M (c\<lparr>n_Status := StatusPending\<rparr>)"
  by (auto simp: row_inv_def potential_def)

context outbox_port
begin

lemma batch_effect_row:
  assumes eff: "batch_effect s err_text E E' cs" and "c \<in> set cs"
    and M: "M = dc_MaxAttempts (sv_cfg s)" and inv: "store_inv M E"
  obtains m where "E' (n_ID c) = Some m" "row_inv M m"
    "potential M m < potential M (the (E (n_ID c)))" "E (n_ID c) \<noteq> None"
proof -
  from eff assms(2) have c: "n_Status c = StatusSending"
      "E (n_ID c) = Some (c\<lparr>n_Status := StatusPending\<rparr>)" "settled_or_left s err_text E' c"
    by (auto simp: batch_effect_def)
  with inv have "row_inv M (c\<lparr>n_Status := StatusPending\<rparr>)" by (simp add: store_inv_def)
  from row_inv_claimed [OF this c(1)]
  have pot: "row_inv M c" "potential M c < potential M (the (E (n_ID c)))" by (simp_all add: c(2))
  from c(3) consider "E' (n_ID c) = Some c"
    | m where "row_settled s err_text c m" "E' (n_ID c) = Some m"
    by (auto simp: settled_or_left_def)
  then show thesis
  proof cases
    case 1
    then show thesis using that pot c(2) by simp
  next
    case (2 m)
    from row_settledD(1) [OF 2(1)] M have "row_step M c m" by simp
    with row_inv_step potential_step pot(1) have "row_inv M m" "potential M m < potential M c"
      by blast+
    with 2 that pot c(2) show thesis by simp
  qed
qed

lemma batch_effect_potential:
  assumes eff: "batch_effect s err_text E E' cs"
    and M: "M = dc_MaxAttempts (sv_cfg s)" and inv: "store_inv M E"
  shows "store_inv M E' \<and> dom E' = dom E \<and>
    store_potential M E' + length cs \<le> store_potential M E"
proof -
  let ?ids = "n_ID ` set cs"
  have rest: "E' i = E i" if "i \<notin> ?ids" for i
    using that eff by (simp add: batch_effect_def)
  have claimed: "\<exists>m. E' i = Some m \<and> row_inv M m \<and> potential M m < potential M (the (E i)) \<and>
      E i \<noteq> None" if "i \<in> ?ids" for i
    using that batch_effect_row [OF eff _ M inv] by (metis imageE)
  have dom: "dom E' = dom E"
  proof (intro set_eqI)
    fix i show "i \<in> dom E' \<longleftrightarrow> i \<in> dom E"
      using claimed [of i] rest [of i] by (cases "i \<in> ?ids") auto
  qed
  have inv': "store_inv M E'"
    unfolding store_inv_def dom
  proof (intro conjI allI impI)
    show "finite (dom E)" using inv by (simp add: store_inv_def)
    fix i n assume "E' i = Some n"
    then show "row_inv M n"
      using claimed [of i] rest [of i] inv by (cases "i \<in> ?ids") (auto simp: store_inv_def)
  qed
  have sub: "?ids \<subseteq> dom E" using claimed by blast
  have fin: "finite (dom E)" using inv by (simp add: store_inv_def)
  have "length cs = card ?ids"
    using eff by (metis batch_effect_def distinct_card length_map list.set_map)
  also have "\<dots> = (\<Sum>i \<in> dom E. if i \<in> ?ids then 1 else 0)"
    using sub fin by (simp add: sum.If_cases Int_absorb1)
  finally have len: "length cs = (\<Sum>i \<in> dom E. if i \<in> ?ids then 1 else 0)" .
  have "potential M (the (E' i)) + (if i \<in> ?ids then 1 else 0) \<le> potential M (the (E i))" for i
    using claimed [of i] rest [of i] by (cases "i \<in> ?ids") auto
  then have "(\<Sum>i \<in> dom E. potential M (the (E' i)) + (if i \<in> ?ids then 1 else 0)) \<le>
      (\<Sum>i \<in> dom E. potential M (the (E i)))"
    by (intro sum_mono) simp
  then have "store_potential M E' + length cs \<le> store_potential M E"
    unfolding store_potential_def dom len sum.distrib [symmetric] .
  with inv' dom show ?thesis by blast
qed

lemma drain_ends:
  assumes frame: "dispatch_frame I ent s" and repo: "sv_notifications s = R"
    and "I w" and "store_inv (dc_MaxAttempts (sv_cfg s)) (ent w)"
  shows "\<exists>r w'. drain (DispatchBatch s err_text) k stopped w = Some (r, w') \<and> I w' \<and>
    store_inv (dc_MaxAttempts (sv_cfg s)) (ent w') \<and> dom (ent w') = dom (ent w)"
  using assms(3,4)
proof (induction "store_potential (dc_MaxAttempts (sv_cfg s)) (ent w)" arbitrary: w
    rule: less_induct)
  case less
  let ?M = "dc_MaxAttempts (sv_cfg s)"
  obtain q w1 where q: "DispatchBatch s err_text w = (q, w1)" by (cases "DispatchBatch s err_text w")
  from DispatchBatch_effect [OF frame repo less.prems(1) q] obtain cs where
    cs: "I w1" "batch_effect s err_text (ent w) (ent w1) cs"
      "\<forall>j e. q = Ret (j, e) \<longrightarrow> j = int (length cs)" by blast
  from batch_effect_potential [OF cs(2) refl less.prems(2)]
  have pot: "store_inv ?M (ent w1)" "dom (ent w1) = dom (ent w)"
    "store_potential ?M (ent w1) + length cs \<le> store_potential ?M (ent w)" by simp_all
  show ?case
  proof (cases q)
    case (Panics m)
    with q pot cs(1) show ?thesis by (simp add: drain.simps)
  next
    case (Ret x)
    obtain j e where x: "x = (j, e)" by (cases x)
    show ?thesis
    proof (cases "drain_over j k (stopped w1)")
      case True
      with q Ret x pot cs(1) show ?thesis by (simp add: drain.simps)
    next
      case False
      with cs(3) Ret x have "0 < length cs" by (auto simp: drain_over_def)
      with pot(3) have "store_potential ?M (ent w1) < store_potential ?M (ent w)" by linarith
      from less.hyps [OF this cs(1) pot(1)] obtain r w' where
        "drain (DispatchBatch s err_text) k stopped w1 = Some (r, w')" "I w'"
        "store_inv ?M (ent w')" "dom (ent w') = dom (ent w1)" by blast
      moreover have "drain (DispatchBatch s err_text) k stopped w =
          drain (DispatchBatch s err_text) k stopped w1"
        using q Ret x False by (subst drain.simps) simp
      ultimately show ?thesis using pot(2) by simp
    qed
  qed
qed

end


section \<open>What a sweep does\<close>

definition sweep_frame :: "('w \<Rightarrow> bool) \<Rightarrow> ('w \<Rightarrow> 'b) \<Rightarrow> 'w dispatcher \<Rightarrow> bool" where
  "sweep_frame J obs d \<longleftrightarrow>
     preserves J obs (di_Clock d) \<and>
     (\<forall>draw. di_Jitter d = Some draw \<longrightarrow> preserves J obs draw)"

definition recovered_as :: "int \<Rightarrow> notification \<Rightarrow> notification \<Rightarrow> bool" where
  "recovered_as M n m \<longleftrightarrow> (\<exists>now retryAfter. RecoverStalled n now retryAfter M = Inr m)"

lemma recovered_asD:
  assumes "recovered_as M n m"
  shows "row_step M n m" "same_identity n m" "n_ID m = n_ID n"
    "n_Attempts m = n_Attempts n + 1"
    "n_Status m = (if M \<le> n_Attempts n + 1 then StatusDead else StatusPending)"
proof -
  from assms obtain now d where rs: "RecoverStalled n now d M = Inr m"
    by (auto simp: recovered_as_def)
  then show "row_step M n m" by (rule row_step.stalled)
  from state_change_identity(4) [OF rs] show "same_identity n m" .
  then show "n_ID m = n_ID n" by (simp add: same_identity_def)
  from rs show "n_Attempts m = n_Attempts n + 1"
    "n_Status m = (if M \<le> n_Attempts n + 1 then StatusDead else StatusPending)"
    by (auto simp: RecoverStalled_eq split: if_splits)
qed

text \<open>
  A claimed row is recovered or left as it was; the count is of rows recovered, and without
  an error it is all of them.
\<close>

definition sweep_effect :: "int \<Rightarrow> store \<Rightarrow> store \<Rightarrow> notification list \<Rightarrow> bool" where
  "sweep_effect M E E' cs \<longleftrightarrow>
     distinct (map n_ID cs) \<and>
     (\<forall>c \<in> set cs. n_Status c = StatusSending \<and> E (n_ID c) = Some c) \<and>
     (\<forall>i. i \<notin> n_ID ` set cs \<longrightarrow> E' i = E i) \<and>
     (\<forall>c \<in> set cs. E' (n_ID c) = Some c \<or> (\<exists>m. recovered_as M c m \<and> E' (n_ID c) = Some m))"

definition all_recovered :: "int \<Rightarrow> store \<Rightarrow> notification list \<Rightarrow> bool" where
  "all_recovered M E' cs \<longleftrightarrow>
     (\<forall>c \<in> set cs. \<exists>m. recovered_as M c m \<and> E' (n_ID c) = Some m)"

context outbox_port
begin

lemma recover_all_rows:
  assumes frame: "sweep_frame I ent d" and repo: "di_Notifications d = R"
    and M: "M = cf_MaxAttempts (di_cfg d)"
  shows "I w \<Longrightarrow> distinct (map n_ID cs) \<Longrightarrow>
    \<forall>c \<in> set cs. n_Status c = StatusSending \<and> ent w (n_ID c) = Some c \<Longrightarrow>
    recover_all d now (map Some cs) w = (r, w') \<Longrightarrow>
    I w' \<and> sweep_effect M (ent w) (ent w') cs \<and>
    (\<forall>k errs. r = Ret (k, errs) \<longrightarrow> 0 \<le> k \<and> k + int (length errs) = int (length cs) \<and>
       (errs = [] \<longrightarrow> all_recovered M (ent w') cs))"
proof (induction cs arbitrary: w r w')
  case Nil
  then show ?case by (auto simp: sweep_effect_def all_recovered_def)
next
  case (Cons c cs)
  let ?wait = "BackoffWithJitter (n_Attempts c) (cf_BackoffBase (di_cfg d))
    (cf_BackoffCap (di_cfg d)) (di_Jitter d)"
  have waits: "preserves I ent ?wait"
    using frame by (auto simp: sweep_frame_def)
  obtain q w1 where q: "?wait w = (q, w1)" by (cases "?wait w")
  from preservesD [OF waits Cons.prems(1) q] have w1: "I w1" "ent w1 = ent w" by simp_all
  show ?case
  proof (cases q)
    case (Panics m)
    with Cons.prems(4) q have "r = Panics m" "w' = w1" by (auto simp: bindp_def)
    with w1 Cons.prems(2,3) show ?thesis by (auto simp: sweep_effect_def)
  next
    case (Ret retryAfter)
    obtain m where m: "RecoverStalled c now retryAfter M = Inr m"
      using Cons.prems(3) by (cases "M \<le> n_Attempts c + 1") (auto simp: RecoverStalled_eq)
    then have rec: "recovered_as M c m" by (auto simp: recovered_as_def)
    note same = recovered_asD(2,3) [OF rec]
    obtain z w2 where save: "nrp_Save R (Some m) w1 = (Ret z, w2)" "I w2"
        "saved_into (ent w1) (ent w2) m z"
      using save_total [OF w1(1)] by metis
    have w2: "ent w2 = ent w \<and> z \<noteq> None \<or> ent w2 = (ent w)(n_ID c \<mapsto> m)"
      using save(3) Cons.prems(3) w1(2) same settled_same_identity [OF same(1)]
      by (auto simp: saved_into_def)
    obtain y w3 where y: "recover_all d now (map Some cs) w2 = (y, w3)"
      by (cases "recover_all d now (map Some cs) w2")
    have others: "n_ID e \<noteq> n_ID c" if "e \<in> set cs" for e
      using that Cons.prems(2) by (auto simp: image_iff)
    then have "\<forall>e \<in> set cs. n_Status e = StatusSending \<and> ent w2 (n_ID e) = Some e"
      using Cons.prems(3) w2 by auto
    from Cons.IH [OF save(2) _ this y] Cons.prems(2)
    have w3: "I w3" "sweep_effect M (ent w2) (ent w3) cs"
      "\<forall>k errs. y = Ret (k, errs) \<longrightarrow> 0 \<le> k \<and> k + int (length errs) = int (length cs) \<and>
         (errs = [] \<longrightarrow> all_recovered M (ent w3) cs)" by simp_all
    have "n_ID c \<notin> n_ID ` set cs" using Cons.prems(2) by simp
    with w3(2) have c: "ent w3 (n_ID c) = ent w2 (n_ID c)" by (simp add: sweep_effect_def)
    have "w' = w3" using Cons.prems(4) q Ret m save(1) y repo M
      by (cases y) (auto simp: bindp_def split: option.splits prod.splits)
    moreover have "sweep_effect M (ent w) (ent w3) (c # cs)"
      using w3(2) w2 c rec Cons.prems(2,3) others
      unfolding sweep_effect_def by auto
    moreover have "0 \<le> k \<and> k + int (length errs) = int (length (c # cs)) \<and>
        (errs = [] \<longrightarrow> all_recovered M (ent w3) (c # cs))" if "r = Ret (k, errs)" for k errs
      using that Cons.prems(4) q Ret m save(1) y repo M w3(3) w2 c rec
      by (cases y; cases z) (auto simp: bindp_def all_recovered_def split: prod.splits)
    ultimately show ?thesis using w3(1) by blast
  qed
qed

lemma Sweep_effect:
  assumes frame: "sweep_frame I ent d" and repo: "di_Notifications d = R"
    and I: "I w" and run: "Sweep d w = (r, w')"
  shows "I w' \<and> (\<exists>cs. sweep_effect (cf_MaxAttempts (di_cfg d)) (ent w) (ent w') cs \<and>
    length cs \<le> nat (cf_BatchSize (di_cfg d)) \<and>
    (\<forall>k e. r = Ret (k, e) \<longrightarrow> 0 \<le> k \<and> k \<le> int (length cs) \<and>
       (e = None \<longrightarrow> k = int (length cs) \<and>
          all_recovered (cf_MaxAttempts (di_cfg d)) (ent w') cs)))"
proof -
  have clock: "preserves I ent (di_Clock d)" using frame by (simp add: sweep_frame_def)
  obtain rc w1 where clk: "di_Clock d w = (rc, w1)" by (cases "di_Clock d w")
  from preservesD [OF clock I clk] have w1: "I w1" "ent w1 = ent w" by simp_all
  have nil: "sweep_effect M E E []" "all_recovered M E []" for M E
    by (simp_all add: sweep_effect_def all_recovered_def)
  show ?thesis
  proof (cases rc)
    case (Panics m)
    with run clk w1 nil show ?thesis
      by (auto simp: Sweep_def bindp_def intro!: exI [of _ "[]"])
  next
    case (Ret now)
    let ?before = "time_Add now (- cf_StalledAfter (di_cfg d))"
    obtain q w2 where q: "nrp_ClaimStalled R (cf_BatchSize (di_cfg d)) ?before now w1 = (Ret q, w2)"
        "I w2"
      using stalled_total [OF w1(1)] by metis
    show ?thesis
    proof (cases q)
      case (Inl e)
      with stalled_err [OF w1(1)] q have "ent w2 = ent w1" by blast
      with run clk Ret q repo Inl w1 nil show ?thesis
        by (auto simp: Sweep_def bindp_def intro!: exI [of _ "[]"])
    next
      case (Inr ns)
      with stalled_ok [OF w1(1)] q obtain cs where cs: "ns = map Some cs"
          "stalled_from (ent w) (ent w2) (cf_BatchSize (di_cfg d)) cs"
        unfolding w1(2) by blast
      obtain z w3 where z: "recover_all d now (map Some cs) w2 = (z, w3)"
        by (cases "recover_all d now (map Some cs) w2")
      from cs(2) have claimed: "distinct (map n_ID cs)" "ent w2 = ent w"
          "\<forall>c \<in> set cs. n_Status c = StatusSending \<and> ent w2 (n_ID c) = Some c"
          "length cs \<le> nat (cf_BatchSize (di_cfg d))"
        by (simp_all add: stalled_from_def)
      note rows = recover_all_rows [OF frame repo refl q(2) claimed(1,3) z]
      have "w' = w3"
        using run clk Ret q repo Inr cs(1) z
        by (cases z) (auto simp: Sweep_def bindp_def split: prod.splits)
      moreover have "0 \<le> k \<and> k \<le> int (length cs) \<and> (e = None \<longrightarrow> k = int (length cs) \<and>
          all_recovered (cf_MaxAttempts (di_cfg d)) (ent w3) cs)" if "r = Ret (k, e)" for k e
        using that run clk Ret q repo Inr cs(1) z rows
        by (cases z) (fastforce simp: Sweep_def bindp_def split: prod.splits)+
      ultimately show ?thesis using rows claimed(2,4) by auto
    qed
  qed
qed

end


section \<open>Start and Stop\<close>

definition lifecycle_inv :: "dispatcher_config \<Rightarrow> lifecycle \<Rightarrow> bool" where
  "lifecycle_inv cfg s \<longleftrightarrow>
     (\<not> lc_started s \<longrightarrow> lc_tasks s = [] \<and> \<not> lc_stopClaiming s) \<and>
     (lc_started s \<longrightarrow> length (lc_tasks s) = nat (cf_Workers cfg) + 1) \<and>
     (lc_stopping s \<longrightarrow> lc_stopOnce s \<and> lc_stopClaiming s) \<and>
     (lc_stopClaiming s \<longrightarrow> lc_stopOnce s) \<and>
     (Returned \<in> set (lc_tasks s) \<longrightarrow> lc_stopClaiming s) \<and>
     (lc_abortWork s \<longrightarrow> lc_stopClaiming s \<and> (all_returned s \<or> lc_stopErr s \<noteq> None)) \<and>
     (lc_stopClaiming s \<and> \<not> lc_stopping s \<longrightarrow> lc_abortWork s)"

lemmas goroutine_defs = goroutine_at_def goroutine_to_def

lemma goroutine_to_fields [simp]:
  "lc_started (goroutine_to i g s) = lc_started s"
  "lc_stopClaiming (goroutine_to i g s) = lc_stopClaiming s"
  by (simp_all add: goroutine_to_def)

lemma set_list_update_mem: "x \<in> set (xs[i := y]) \<Longrightarrow> x = y \<or> x \<in> set xs"
  using set_update_subset_insert by fastforce

lemma not_all_returned: "goroutine_at i g s \<Longrightarrow> g \<noteq> Returned \<Longrightarrow> \<not> all_returned s"
  by (auto simp: all_returned_def goroutine_at_def)

lemma lifecycle_inv_goroutine:
  assumes "lifecycle_inv cfg s" and "goroutine_at i g s" and "g \<noteq> Returned"
    and "h = Returned \<longrightarrow> lc_stopClaiming s"
  shows "lifecycle_inv cfg (goroutine_to i h s)"
  using assms not_all_returned [OF assms(2,3)]
  by (auto simp: lifecycle_inv_def goroutine_defs dest!: set_list_update_mem)

lemma lifecycle_inv_step:
  "lifecycle_step cfg e s s' \<Longrightarrow> lifecycle_inv cfg s \<Longrightarrow> lifecycle_inv cfg s'"
proof (induction rule: lifecycle_step.induct)
  case (tick i s)
  then show ?case by (intro lifecycle_inv_goroutine) auto
next
  case (batch_done i s claimed)
  then show ?case by (intro lifecycle_inv_goroutine) auto
next
  case (sweep_done i s)
  then show ?case by (intro lifecycle_inv_goroutine) auto
next
  case (claim_done i s)
  then show ?case by (intro lifecycle_inv_goroutine) auto
qed (auto simp: lifecycle_inv_def all_returned_def)

lemma lifecycle_inv_reachable: "lifecycle_reachable cfg s \<Longrightarrow> lifecycle_inv cfg s"
proof (induction rule: lifecycle_reachable.induct)
  case init
  then show ?case by (simp add: lifecycle_inv_def lifecycle_init_def)
qed (rule lifecycle_inv_step)

text \<open>A returned goroutine stays returned, so a drained dispatcher is quiet for good.\<close>

lemma drained_is_final:
  "lifecycle_step cfg e s s' \<Longrightarrow> lc_started s \<Longrightarrow> all_returned s \<Longrightarrow>
     all_returned s' \<and> lc_tasks s' = lc_tasks s"
  by (induction rule: lifecycle_step.induct)
    (auto dest: not_all_returned simp: all_returned_def)

text \<open>
  Once claiming is stopped, a goroutine is one step from its \<open>select\<close> and two from its return:
  only a tick takes it further away.
\<close>

fun steps_left :: "goroutine \<Rightarrow> nat" where
  "steps_left Selecting = 1"
| "steps_left Dispatching = 2"
| "steps_left Sweeping = 2"
| "steps_left Returned = 0"

definition unfinished :: "lifecycle \<Rightarrow> nat" where
  "unfinished s = (\<Sum>t \<leftarrow> lc_tasks s. steps_left t)"

definition in_flight :: "nat \<Rightarrow> lifecycle \<Rightarrow> nat" where
  "in_flight i s = (if goroutine_at i Dispatching s \<or> goroutine_at i Sweeping s then 1 else 0)"

fun is_tick :: "lifecycle_event \<Rightarrow> bool" where
  "is_tick (Tick i) = True"
| "is_tick _ = False"

fun ends_work :: "nat \<Rightarrow> lifecycle_event \<Rightarrow> bool" where
  \<comment> \<open>goroutine \<open>i\<close> ends a batch or a sweep\<close>
  "ends_work i (BatchDone j claimed) = (i = j)"
| "ends_work i (SweepDone j) = (i = j)"
| "ends_work i _ = False"

fun progress :: "lifecycle_event \<Rightarrow> bool" where
  \<comment> \<open>a batch or a sweep ends, or a goroutine returns\<close>
  "progress (BatchDone i claimed) = True"
| "progress (SweepDone i) = True"
| "progress (ClaimDone i) = True"
| "progress _ = False"

lemma unfinished_to:
  "goroutine_at i g s \<Longrightarrow>
     unfinished (goroutine_to i h s) + steps_left g = unfinished s + steps_left h"
proof -
  have "i < length xs \<Longrightarrow>
      sum_list (map steps_left (xs[i := h])) + steps_left (xs ! i) =
      sum_list (map steps_left xs) + steps_left h" for xs
    by (induction xs arbitrary: i) (auto split: nat.split)
  then show "goroutine_at i g s \<Longrightarrow> ?thesis"
    by (auto simp: unfinished_def goroutine_defs)
qed

lemma in_flight_to:
  "goroutine_at i g s \<Longrightarrow> in_flight j (goroutine_to i h s) =
     (if j = i then if h = Dispatching \<or> h = Sweeping then 1 else 0 else in_flight j s)"
  by (auto simp: in_flight_def goroutine_defs)

lemma in_flight_at:
  "goroutine_at i g s \<Longrightarrow> in_flight i s = (if g = Dispatching \<or> g = Sweeping then 1 else 0)"
  by (auto simp: in_flight_def goroutine_at_def)

lemma unfinished_le: "unfinished s \<le> 2 * length (lc_tasks s)"
proof -
  have "steps_left g \<le> 2" for g by (cases g) simp_all
  then have "sum_list (map steps_left xs) \<le> (\<Sum>t \<leftarrow> xs. 2)" for xs
    by (rule sum_list_mono)
  then show ?thesis by (simp add: unfinished_def sum_list_triv mult.commute)
qed

text \<open>The two balances, one step at a time and over a run.\<close>

definition stop_balance :: "nat \<Rightarrow> lifecycle_event list \<Rightarrow> lifecycle \<Rightarrow> lifecycle \<Rightarrow> bool" where
  "stop_balance i es s s' \<longleftrightarrow>
     length (filter (ends_work i) es) + in_flight i s' =
       length (filter (\<lambda>e. e = Tick i) es) + in_flight i s \<and>
     length (filter progress es) + unfinished s' = length (filter is_tick es) + unfinished s"

lemma stop_balance_step:
  "lifecycle_step cfg e s s' \<Longrightarrow> lc_started s \<Longrightarrow> lc_stopClaiming s \<Longrightarrow>
     lc_started s' \<and> lc_stopClaiming s' \<and> stop_balance j [e] s s'"
proof (induction rule: lifecycle_step.induct)
  case (tick i s)
  let ?g = "if i < nat (cf_Workers cfg) then Dispatching else Sweeping"
  show ?case
    using tick unfinished_to [OF tick(1), of ?g] in_flight_to [OF tick(1), of j ?g]
      in_flight_at [OF tick(1)]
    by (cases "j = i") (auto simp: stop_balance_def split: if_splits)
next
  case (batch_done i s claimed)
  then show ?case
    using unfinished_to [OF batch_done(1), of Selecting] in_flight_at [OF batch_done(1)]
      in_flight_to [OF batch_done(1), of j Selecting]
    by (cases "j = i") (simp_all add: stop_balance_def drain_over_def)
next
  case (sweep_done i s)
  then show ?case
    using unfinished_to [OF sweep_done(1), of Selecting] in_flight_at [OF sweep_done(1)]
      in_flight_to [OF sweep_done(1), of j Selecting]
    by (cases "j = i") (simp_all add: stop_balance_def)
next
  case (claim_done i s)
  then show ?case
    using unfinished_to [OF claim_done(1), of Returned] in_flight_at [OF claim_done(1)]
      in_flight_to [OF claim_done(1), of j Returned]
    by (cases "j = i") (simp_all add: stop_balance_def)
qed (simp_all add: stop_balance_def unfinished_def in_flight_def goroutine_at_def)

lemma stop_balance_run:
  "lifecycle_run cfg s es s' \<Longrightarrow> lc_started s \<Longrightarrow> lc_stopClaiming s \<Longrightarrow>
     lc_stopClaiming s' \<and> stop_balance j es s s'"
proof (induction rule: lifecycle_run.induct)
  case (stays s)
  then show ?case by (simp add: stop_balance_def)
next
  case (moves e s s' es s'')
  from stop_balance_step [OF moves(1,4,5), of j] moves(3)
  have "stop_balance j [e] s s'" "stop_balance j es s' s''" "lc_stopClaiming s''" by simp_all
  then show ?case by (auto simp: stop_balance_def split: if_splits)
qed

lemma stop_not_stuck:
  assumes "lc_stopClaiming s" and "\<not> all_returned s"
  shows "\<exists>e s'. progress e \<and> lifecycle_step cfg e s s'"
proof -
  from assms(2) obtain t where "t \<in> set (lc_tasks s)" "t \<noteq> Returned" by (auto simp: all_returned_def)
  then obtain i where i: "goroutine_at i t s" by (auto simp: goroutine_at_def in_set_conv_nth)
  with \<open>t \<noteq> Returned\<close> assms(1) show ?thesis
    by (cases t) (metis progress.simps lifecycle_step.intros(3-5))+
qed

text \<open>A \<open>Stop\<close> spent before \<open>Start\<close> leaves goroutines that nothing stops.\<close>

lemma stop_spent_stays:
  "lifecycle_step cfg e s s' \<Longrightarrow> lc_stopOnce s \<Longrightarrow> \<not> lc_stopClaiming s \<Longrightarrow> \<not> lc_stopping s \<Longrightarrow>
     lc_stopOnce s' \<and> \<not> lc_stopClaiming s' \<and> \<not> lc_stopping s'"
  by (induction rule: lifecycle_step.induct) (auto simp: goroutine_defs)

end
