(* ===== verification/NotificationModule.thy ===== *)
theory NotificationModule
  imports Outbox Dispatcher
begin

text \<open>
  The notification module put together: the service and the dispatcher over the stored
  outbox and preferences, as \<open>modules/notification/module.go\<close> wires them. The contracts of
  the ports are discharged for one invariant of the whole store, and the facts about the
  outbox that need its rows rather than its entities are proved here.
\<close>

section \<open>One invariant for the store\<close>

definition store_ok :: "'e outbox_db_scheme \<Rightarrow> bool" where
  "store_ok db \<longleftrightarrow> outbox_inv db \<and> prefs_inv db"

lemma repo_ops_preferences:
  "d_preferences (snd (repo_Enqueue n db)) = d_preferences db"
  "d_preferences (snd (repo_ClaimBatch k now db)) = d_preferences db"
  "d_preferences (snd (repo_ClaimStalled k t now db)) = d_preferences db"
  "d_preferences (snd (repo_Save n db)) = d_preferences db"
  by (auto simp: repo_Enqueue_def repo_ClaimBatch_def repo_ClaimStalled_def repo_Save_def Let_def
      dest!: next_env_split split: option.splits prod.splits sum.splits)

lemma prefs_ops_notifications:
  "d_notifications (snd (prefs_ListForUser u db)) = d_notifications db"
  "d_notifications (snd (prefs_Upsert ps db)) = d_notifications db"
  by (auto simp: prefs_ListForUser_def prefs_Upsert_eq Let_def
      dest!: next_env_split split: option.splits prod.splits)

lemma prefs_ops_env:
  "script_ok (d_env db) \<Longrightarrow> script_ok (d_env (snd (prefs_ListForUser u db)))"
  "script_ok (d_env db) \<Longrightarrow> script_ok (d_env (snd (prefs_Upsert ps db)))"
  by (auto simp: prefs_ListForUser_def prefs_Upsert_eq Let_def
      dest!: next_env_script split: option.splits prod.splits)

lemma prefs_inv_repo_ops:
  assumes "prefs_inv db"
  shows "prefs_inv (snd (repo_Enqueue n db))" "prefs_inv (snd (repo_ClaimBatch k now db))"
    "prefs_inv (snd (repo_ClaimStalled k t now db))" "prefs_inv (snd (repo_Save n db))"
  using assms by (simp_all add: prefs_inv_def repo_ops_preferences)

lemma outbox_inv_prefs_ops:
  assumes "outbox_inv db"
  shows "outbox_inv (snd (prefs_ListForUser u db))" "outbox_inv (snd (prefs_Upsert ps db))"
  using assms by (simp_all add: outbox_inv_def prefs_ops_notifications prefs_ops_env)

lemma store_okD: "store_ok db \<Longrightarrow> outbox_inv db" "store_ok db \<Longrightarrow> prefs_inv db"
  by (simp_all add: store_ok_def)

text \<open>A returning operation, told through its result and its effect.\<close>

lemma returning_run:
  "\<exists>r. fst (p w) = Ret r \<Longrightarrow> J (snd (p w)) \<Longrightarrow> \<exists>r w'. p w = (Ret r, w') \<and> J w'"
  by (metis prod.collapse)

interpretation store: outbox_port outbox_repo store_ok entities
proof
  fix db :: "'e outbox_db_scheme" and k t now ns db' e n
  assume ok: "store_ok db"
  note inv = store_okD [OF ok]
  show "\<exists>r w'. nrp_ClaimBatch outbox_repo k now db = (Ret r, w') \<and> store_ok w'"
    using repo_ClaimBatch_Ret outbox_inv_ops(2) [OF inv(1)] prefs_inv_repo_ops(2) [OF inv(2)]
    by (simp, intro returning_run) (auto simp: store_ok_def)
  show "nrp_ClaimBatch outbox_repo k now db = (Ret (Inr ns), db') \<Longrightarrow>
      \<exists>cs. ns = map Some cs \<and> claimed_from (entities db) (entities db') k now cs"
    by (rule outbox.claim_ok [OF inv(1)])
  show "nrp_ClaimBatch outbox_repo k now db = (Ret (Inl e), db') \<Longrightarrow> entities db' = entities db"
    by (rule outbox.claim_err [OF inv(1)])
  show "\<exists>r w'. nrp_ClaimStalled outbox_repo k t now db = (Ret r, w') \<and> store_ok w'"
    using repo_ClaimStalled_Ret outbox_inv_ops(3) [OF inv(1)] prefs_inv_repo_ops(3) [OF inv(2)]
    by (simp, intro returning_run) (auto simp: store_ok_def)
  show "nrp_ClaimStalled outbox_repo k t now db = (Ret (Inr ns), db') \<Longrightarrow>
      \<exists>cs. ns = map Some cs \<and> stalled_from (entities db) (entities db') k cs"
    by (rule outbox.stalled_ok [OF inv(1)])
  show "nrp_ClaimStalled outbox_repo k t now db = (Ret (Inl e), db') \<Longrightarrow>
      entities db' = entities db"
    by (rule outbox.stalled_err [OF inv(1)])
  obtain r w' where save: "nrp_Save outbox_repo (Some n) db = (Ret r, w')" "outbox_inv w'"
      "saved_into (entities db) (entities w') n r"
    using outbox.save_total [OF inv(1)] by metis
  then have "prefs_inv w'" using prefs_inv_repo_ops(4) [OF inv(2), of "Some n"] by simp
  with save show "\<exists>r w'. nrp_Save outbox_repo (Some n) db = (Ret r, w') \<and> store_ok w' \<and>
      saved_into (entities db) (entities w') n r"
    by (auto simp: store_ok_def)
qed

interpretation module: service_ports outbox_repo prefs_repo store_ok entities decision_at
proof
  fix db :: "'e outbox_db_scheme" and n db' e i j m m' u ps ch cat r
  assume ok: "store_ok db"
  note inv = store_okD [OF ok]
  show "\<exists>r w'. nrp_Enqueue outbox_repo (Some n) db = (Ret r, w') \<and> store_ok w'"
    using repo_Enqueue_Ret outbox_inv_ops(1) [OF inv(1)] prefs_inv_repo_ops(1) [OF inv(2)]
    by (simp, intro returning_run) (auto simp: store_ok_def)
  show "entities db (n_ID n) = None \<and> entities db' = (entities db)(n_ID n \<mapsto> n)"
    if "n_ID n \<noteq> uuid_Nil" "n_Status n = StatusPending" "n_CreatedAt n \<noteq> 0"
      "n_NextAttemptAt n \<noteq> 0" "n_Payload n \<noteq> None"
      "nrp_Enqueue outbox_repo (Some n) db = (Ret None, db')"
    by (rule outbox_enqueue.enqueue_ok [OF inv(1) that])
  show "entities db' = entities db \<and> n_IdempotencyKey n \<noteq> [] \<and>
      (\<exists>i m. entities db i = Some m \<and> n_IdempotencyKey m = n_IdempotencyKey n)"
    if "nrp_Enqueue outbox_repo (Some n) db = (Ret (Some e), db')"
      "errors_Is e ErrDuplicateIdempotencyKey"
    by (rule outbox_enqueue.enqueue_dup [OF inv(1) that])
  show "entities db' i = Some m" if "nrp_Enqueue outbox_repo (Some n) db = (q, db')" "entities db i = Some m" for q
    by (rule outbox_enqueue.enqueue_grows [OF inv(1) that])
  show "i = j" if "entities db i = Some m" "entities db j = Some m'"
    "n_IdempotencyKey m \<noteq> []" "n_IdempotencyKey m' = n_IdempotencyKey m"
    by (rule outbox_enqueue.keys_unique [OF inv(1) that])
  obtain q w' where lst: "prefs_ListForUser u db = (Ret q, w')" "prefs_inv w'"
      "decision_at w' = decision_at db"
    using prefs.list_total [OF inv(2), of u] by auto
  then have "outbox_inv w'" using outbox_inv_prefs_ops(1) [OF inv(1), of u] by simp
  with lst show "\<exists>r w'. prp_ListForUser prefs_repo u db = (Ret r, w') \<and> store_ok w' \<and>
      decision_at w' = decision_at db"
    by (auto simp: store_ok_def)
  show "stored_enabled ps ch cat = (decision_at db u ch cat \<noteq> Some False)"
    if "prp_ListForUser prefs_repo u db = (Ret (Inr ps), db')"
    by (rule prefs.list_ok [OF inv(2) that])
  obtain q2 w2 where ups: "prefs_Upsert ps db = (Ret q2, w2)" "prefs_inv w2"
    using prefs.upsert_total [OF inv(2), of ps] by auto
  then have "outbox_inv w2" using outbox_inv_prefs_ops(2) [OF inv(1), of ps] by simp
  with ups show "\<exists>r w'. prp_Upsert prefs_repo ps db = (Ret r, w') \<and> store_ok w'"
    by (auto simp: store_ok_def)
  show "decision_at db' u ch cat =
        (case find (\<lambda>p. p_UserID p = u \<and> p_Channel p = ch \<and> p_Category p = cat) ps of
           Some p \<Rightarrow> Some (p_Enabled p) | None \<Rightarrow> decision_at db u ch cat)"
    if "prp_Upsert prefs_repo ps db = (Ret None, db')"
    by (rule prefs.upsert_ok [OF inv(2) that])
  show "decision_at db' = decision_at db"
    if "prp_Upsert prefs_repo ps db = (Ret (Some e), db')"
    by (rule prefs.upsert_err [OF inv(2) that])
  show "entities db' = entities db" if "prp_ListForUser prefs_repo u db = (r, db')"
    using that prefs_ops_notifications(1) [of u db] by (simp add: entities_def)
qed

section \<open>Claims at the level of rows\<close>

lemma take_all_of: "length (take n xs) < n \<Longrightarrow> take n xs = xs"
  by simp

text \<open>A claim takes the oldest due rows, and all of them when the batch is not filled.\<close>

lemma claimable_oldest:
  assumes "distinct (map nr_ID rows)" and "r \<in> set rows" "nr_Status r = StatusPending"
    "nr_NextAttemptAt r \<le> now" "nr_ID r \<notin> set locked" "nr_ID r \<notin> set (claimable k now locked rows)"
  shows "length (claimable k now locked rows) = nat k"
    and "s \<in> set rows \<Longrightarrow> nr_ID s \<in> set (claimable k now locked rows) \<Longrightarrow>
      nr_NextAttemptAt s \<le> nr_NextAttemptAt r"
proof -
  let ?due = "filter (\<lambda>r. nr_Status r = StatusPending \<and> nr_NextAttemptAt r \<le> now \<and>
      nr_ID r \<notin> set locked) rows"
  let ?taken = "take (nat k) (sort_key nr_NextAttemptAt ?due)"
  have eq: "claimable k now locked rows = map nr_ID ?taken"
    by (simp add: claimable_def take_limit_def)
  have due: "r \<in> set ?due" using assms(2-5) by simp
  have out: "r \<notin> set ?taken" using assms(6) eq by auto
  show "length (claimable k now locked rows) = nat k"
  proof (rule ccontr)
    assume "length (claimable k now locked rows) \<noteq> nat k"
    then have "length ?taken < nat k" by (simp add: eq min_def split: if_splits)
    then have "?taken = sort_key nr_NextAttemptAt ?due" by (rule take_all_of)
    then have "set ?taken = set ?due" using set_sort by simp
    with due out show False by blast
  qed
  show "nr_NextAttemptAt s \<le> nr_NextAttemptAt r"
    if s: "s \<in> set rows" "nr_ID s \<in> set (claimable k now locked rows)"
  proof -
    from s(2) eq obtain s' where s': "s' \<in> set ?taken" "nr_ID s' = nr_ID s" by auto
    from set_take_sort_key [of "nat k" nr_NextAttemptAt ?due] s'(1) have "s' \<in> set ?due" by blast
    then have "s' \<in> set rows" by simp
    with s'(2) s(1) assms(1) have "s' = s" by (auto simp: distinct_map dest: inj_onD)
    with take_sort_key_le [OF _ due out] s'(1) show ?thesis by blast
  qed
qed

lemma claimed_ids:
  assumes "wf_db db" and "0 < k" and "repo_ClaimBatch k now db = (Ret (Inr ns), db')"
  shows "map_option n_ID ` set ns =
      Some ` set (claimable k now (se_locked (fst (next_env db))) (d_notifications db))"
    and "length ns = length (claimable k now (se_locked (fst (next_env db))) (d_notifications db))"
proof -
  let ?ids = "claimable k now (se_locked (fst (next_env db))) (d_notifications db)"
  let ?f = "\<lambda>r. r\<lparr>nr_Status := StatusSending, nr_ClaimedAt := Some now\<rparr>"
  have dist: "distinct (map nr_ID (d_notifications db))" using assms(1) by (simp add: outbox_wf_def)
  have sub: "set ?ids \<subseteq> nr_ID ` set (d_notifications db)" using claimable_mem by fastforce
  obtain env db1 where e: "next_env db = (env, db1)" by (cases "next_env db")
  have ns: "ns = returning ?ids (update_rows ?ids ?f (d_notifications db))"
    using assms(2,3) next_env_split [OF e]
    by (auto simp: repo_ClaimBatch_def Let_def e split: option.splits)
  obtain cs where "returning ?ids (update_rows ?ids ?f (d_notifications db)) = map Some cs"
    "set (map n_ID cs) = set ?ids" "length cs = length ?ids"
    using returning_spec [OF dist _ claimable_distinct [OF dist] sub, of ?f] by force
  then show "map_option n_ID ` set ns = Some ` set ?ids" "length ns = length ?ids"
    unfolding ns by (auto simp: image_image simp flip: image_image [of Some n_ID])
qed

text \<open>Two claims in a row never hand out the same row.\<close>

lemma claims_disjoint:
  assumes "claimed_from E E1 k now cs" and "claimed_from E1 E2 k' now' ds"
  shows "n_ID ` set cs \<inter> n_ID ` set ds = {}"
proof (rule ccontr)
  assume "n_ID ` set cs \<inter> n_ID ` set ds \<noteq> {}"
  then obtain c d where "c \<in> set cs" "d \<in> set ds" "n_ID c = n_ID d" by auto
  with assms have "n_Status c = StatusSending" "E1 (n_ID c) = Some c"
    "E1 (n_ID c) = Some (d\<lparr>n_Status := StatusPending\<rparr>)"
    by (auto simp: claimed_from_def)
  then show False by (auto simp: status_defs)
qed


section \<open>Stalled claims and the mailbox at the level of rows\<close>

lemma finite_entities: "finite (dom (entities db))"
proof -
  have "dom (entities db) \<subseteq> nr_ID ` set (d_notifications db)"
    by (auto simp: entities_def elim!: entity_at_SomeE)
  then show ?thesis using finite_subset by blast
qed

text \<open>A re-stamped row is out of reach of every sweep with an older cut-off.\<close>

lemma stalled_ids_after_claim:
  assumes "before' \<le> now" and "i \<in> set ids"
  shows "i \<notin> set (stalled_ids k before' locked
    (update_rows ids (\<lambda>r. r\<lparr>nr_ClaimedAt := Some now\<rparr>) rows))"
proof
  assume "i \<in> set (stalled_ids k before' locked
    (update_rows ids (\<lambda>r. r\<lparr>nr_ClaimedAt := Some now\<rparr>) rows))"
  then obtain r where r: "r \<in> set (update_rows ids (\<lambda>r. r\<lparr>nr_ClaimedAt := Some now\<rparr>) rows)"
      "nr_ID r = i" "\<exists>t. nr_ClaimedAt r = Some t \<and> t < before'"
    using stalled_ids_mem by blast
  with assms(2) have "nr_ClaimedAt r = Some now"
    by (auto simp: update_rows_def split: if_splits)
  with r(3) assms(1) show False by simp
qed

lemma stalled_claims_ids:
  assumes "wf_db db" and "repo_ClaimStalled k before now db = (Ret (Inr ns), db')"
  shows "\<exists>ids. map_option n_ID ` set ns = Some ` set ids \<and>
    (\<forall>i \<in> set ids. i \<in> set (stalled_ids k before (se_locked (fst (next_env db))) (d_notifications db))) \<and>
    (ids \<noteq> [] \<longrightarrow> d_notifications db' =
       update_rows ids (\<lambda>r. r\<lparr>nr_ClaimedAt := Some now\<rparr>) (d_notifications db))"
  using repo_ClaimStalled_Inr [OF assms(2)]
proof (elim disjE conjE)
  assume "ns = []"
  then show ?thesis by (intro exI [of _ "[]"]) simp
next
  let ?ids = "stalled_ids k before (se_locked (fst (next_env db))) (d_notifications db)"
  let ?f = "\<lambda>r :: notification_row. r\<lparr>nr_ClaimedAt := Some now\<rparr>"
  assume ns: "ns = returning ?ids (d_notifications db')"
    and tab: "d_notifications db' = update_rows ?ids ?f (d_notifications db)"
  have dist: "distinct (map nr_ID (d_notifications db))" using assms(1) by (simp add: outbox_wf_def)
  have sub: "set ?ids \<subseteq> nr_ID ` set (d_notifications db)" using stalled_ids_mem by fastforce
  obtain cs where "returning ?ids (update_rows ?ids ?f (d_notifications db)) = map Some cs"
    "set (map n_ID cs) = set ?ids"
    using returning_spec [OF dist _ stalled_ids_distinct [OF dist] sub, of ?f] by force
  then have "map_option n_ID ` set ns = Some ` set ?ids"
    unfolding ns tab by (auto simp: image_image simp flip: image_image [of Some n_ID])
  with tab show ?thesis by blast
qed

lemma repo_MarkRead_eq:
  assumes "d_env db = []"
  shows "repo_MarkRead u i now db =
    (if \<exists>r \<in> set (d_notifications db). nr_ID r = i \<and> in_mailbox u r
     then (Ret None, db\<lparr>d_notifications := map (\<lambda>r. if nr_ID r = i \<and> in_mailbox u r
            then r\<lparr>nr_ReadAt := Some (case nr_ReadAt r of None \<Rightarrow> now | Some t \<Rightarrow> t)\<rparr> else r)
            (d_notifications db)\<rparr>)
     else (Ret (Some ErrNotFound), db))"
proof -
  have env: "next_env db = (quiet, db)" by (simp add: next_env_def assms)
  have none: "\<not> (\<exists>r \<in> set rows. P r) \<Longrightarrow> map (\<lambda>r. if P r then f r else r) rows = rows" for P f rows
    by (auto intro: map_idI)
  show ?thesis
    by (auto simp: repo_MarkRead_def Let_def env affected_err_def matching_def filter_empty_conv none)
qed

end
