(* ===== verification/Http.thy ===== *)
theory Http
  imports Notification
begin

text \<open>
  The part of \<open>net/http\<close> the handlers use, and the response layer of \<open>internal/httpx\<close>:
  problem documents, the canonical 401, the fallback handlers, the request id, the security
  headers, the probes and the recovery middleware. A handler is a program over a web world:
  the response writer and the world of the application. Header keys are the literals of the
  source; other log lines than that of a panic are left out. A body is the value handed to the JSON encoder.
\<close>

section \<open>Requests and responses\<close>

record principal =
  pl_Subject :: string
  pl_Scopes :: "string list option"
  pl_Extra :: "(string \<rightharpoonup> string) option"

text \<open>
  \<open>*http.Request\<close>; the last five fields are the values middleware stores in its context. The
  request-scoped logger is known by the request id and the client address bound to it.
\<close>

record http_request =
  rq_Method :: string
  rq_Path :: string
  rq_Header :: "string \<Rightarrow> string list"
  rq_Query :: "string \<Rightarrow> string list"
  rq_URLParam :: "string \<Rightarrow> string"
  rq_Cookies :: "(string \<times> string) list"
  rq_Body :: "string option"
  rq_RemoteAddr :: string
  rq_RequestID :: string
  rq_ClientIP :: "string option"
  rq_Principal :: "principal option"
  rq_Logger :: "(string \<times> string) option"

definition get_first :: "(string \<Rightarrow> string list) \<Rightarrow> string \<Rightarrow> string" where
  \<comment> \<open>\<open>Header.Get\<close> and \<open>url.Values.Get\<close>\<close>
  "get_first h k = (case h k of [] \<Rightarrow> [] | v # _ \<Rightarrow> v)"

record cookie =
  ck_Name :: string
  ck_Value :: string
  ck_Path :: string
  ck_MaxAge :: int
  ck_HttpOnly :: bool
  ck_Secure :: bool
  ck_SameSite :: string

record http_header =
  hd_Fields :: "string \<Rightarrow> string list"
  hd_Cookies :: "cookie list"

datatype body = BJson json | BText string

text \<open>
  \<open>rw_Sent\<close> is the status and the headers as they were when the first \<open>WriteHeader\<close> or
  \<open>Write\<close> committed them; \<open>rw_Calls\<close> counts these calls.
\<close>

record response_writer =
  rw_Header :: http_header
  rw_Sent :: "(int \<times> http_header) option"
  rw_Body :: "body list"
  rw_Calls :: nat

record 'w web =
  wb_Writer :: response_writer
  wb_World :: 'w

type_synonym 'w handler = "http_request \<Rightarrow> ('w web, unit) prog"
type_synonym 'w middleware = "'w handler \<Rightarrow> 'w handler"

definition fresh_writer :: response_writer where
  "fresh_writer =
     \<lparr>rw_Header = \<lparr>hd_Fields = (\<lambda>_. []), hd_Cookies = []\<rparr>, rw_Sent = None, rw_Body = [],
      rw_Calls = 0\<rparr>"

definition on_writer :: "(response_writer \<Rightarrow> response_writer) \<Rightarrow> ('w web, unit) prog" where
  "on_writer f = (\<lambda>w. (Ret (), w\<lparr>wb_Writer := f (wb_Writer w)\<rparr>))"

definition in_world :: "('w, 'a) prog \<Rightarrow> ('w web, 'a) prog" where
  "in_world p = (\<lambda>w. case p (wb_World w) of (r, x) \<Rightarrow> (r, w\<lparr>wb_World := x\<rparr>))"

definition header_Set :: "string \<Rightarrow> string \<Rightarrow> ('w web, unit) prog" where
  "header_Set k v =
     on_writer (rw_Header_update (hd_Fields_update (\<lambda>h. h(k := [v]))))"

definition header_Add :: "string \<Rightarrow> string \<Rightarrow> ('w web, unit) prog" where
  "header_Add k v =
     on_writer (rw_Header_update (hd_Fields_update (\<lambda>h. h(k := h k @ [v]))))"

definition SetCookie :: "cookie \<Rightarrow> ('w web, unit) prog" where
  "SetCookie c = on_writer (rw_Header_update (hd_Cookies_update (\<lambda>cs. cs @ [c])))"

definition commit_status :: "int \<Rightarrow> response_writer \<Rightarrow> response_writer" where
  "commit_status code rw =
     rw\<lparr>rw_Calls := rw_Calls rw + 1,
        rw_Sent := (case rw_Sent rw of None \<Rightarrow> Some (code, rw_Header rw) | Some s \<Rightarrow> Some s)\<rparr>"

definition WriteHeader :: "int \<Rightarrow> ('w web, unit) prog" where
  \<comment> \<open>a second call is superfluous: logged by \<open>net/http\<close>, otherwise ignored\<close>
  "WriteHeader code = on_writer (commit_status code)"

definition Write_body :: "body \<Rightarrow> ('w web, unit) prog" where
  "Write_body b = on_writer (\<lambda>rw. (commit_status 200 rw)\<lparr>rw_Body := rw_Body rw @ [b]\<rparr>)"

lemmas web_ops = on_writer_def header_Set_def header_Add_def SetCookie_def WriteHeader_def
  Write_body_def commit_status_def

text \<open>The answer a client sees once the handler is done.\<close>

definition answered :: "response_writer \<Rightarrow> int \<times> http_header \<times> body list" where
  "answered rw =
     (case rw_Sent rw of None \<Rightarrow> (200, rw_Header rw, rw_Body rw)
      | Some (code, h) \<Rightarrow> (code, h, rw_Body rw))"

section \<open>Problem documents\<close>

definition omitempty :: "string \<Rightarrow> string \<Rightarrow> (string \<times> json) list" where
  "omitempty k v = (if v = [] then [] else [(k, JStr v)])"

record problem =
  pb_Type :: string
  pb_Title :: string
  pb_Status :: int
  pb_Detail :: string
  pb_Instance :: string
  pb_RequestID :: string

definition problem_json :: "problem \<Rightarrow> json" where
  "problem_json p =
     JObj ([(''type'', JStr (pb_Type p)), (''title'', JStr (pb_Title p)),
            (''status'', JNum (pb_Status p))] @
           omitempty ''detail'' (pb_Detail p) @ omitempty ''instance'' (pb_Instance p) @
           omitempty ''request_id'' (pb_RequestID p))"

definition ProblemContentType :: string where
  "ProblemContentType = ''application/problem+json''"

definition WriteProblem ::
  "http_request \<Rightarrow> int \<Rightarrow> string \<Rightarrow> string \<Rightarrow> string \<Rightarrow> ('w web, unit) prog" where
  "WriteProblem r status typ title detail =
     (let p = \<lparr>pb_Type = typ, pb_Title = title, pb_Status = status, pb_Detail = detail,
               pb_Instance = rq_Path r, pb_RequestID = rq_RequestID r\<rparr> in
      bindp (header_Set ''Content-Type'' ProblemContentType) (\<lambda>_.
      bindp (header_Set ''X-Content-Type-Options'' ''nosniff'') (\<lambda>_.
      bindp (WriteHeader status) (\<lambda>_.
      Write_body (BJson (problem_json p))))))"

definition Unauthorized :: "'w handler" where
  "Unauthorized r =
     bindp (header_Set ''WWW-Authenticate'' ''Bearer realm=\"api\"'') (\<lambda>_.
       WriteProblem r 401 ''about:blank'' ''Unauthorized'' ''authentication required'')"

definition NotFound :: "'w handler" where
  "NotFound r = WriteProblem r 404 ''not_found'' ''Not Found'' ''No route matches this path.''"

definition probeMethods :: "string list" where
  "probeMethods =
     [''GET'', ''HEAD'', ''POST'', ''PUT'', ''PATCH'', ''DELETE'', ''CONNECT'', ''OPTIONS'', ''TRACE'']"

text \<open>\<open>chi.Routes\<close> is the question whether a method and a path match a route.\<close>

definition allowedMethods :: "(string \<Rightarrow> string \<Rightarrow> bool) option \<Rightarrow> string \<Rightarrow> string list" where
  "allowedMethods routes path =
     (case routes of None \<Rightarrow> [] | Some mtch \<Rightarrow> filter (\<lambda>m. mtch m path) probeMethods)"

fun strings_Join :: "string \<Rightarrow> string list \<Rightarrow> string" where
  "strings_Join sep [] = []"
| "strings_Join sep [s] = s"
| "strings_Join sep (s # ss) = s @ sep @ strings_Join sep ss"

definition MethodNotAllowed :: "(string \<Rightarrow> string \<Rightarrow> bool) option \<Rightarrow> 'w handler" where
  "MethodNotAllowed routes r =
     (let allowed = allowedMethods routes (rq_Path r) in
      bindp (if allowed \<noteq> [] then header_Set ''Allow'' (strings_Join '', '' allowed) else retp ()) (\<lambda>_.
        WriteProblem r 405 ''method_not_allowed'' ''Method Not Allowed''
          (''This path does not accept '' @ rq_Method r @ ''.'')))"

definition EchoRequestID :: "'w middleware" where
  "EchoRequestID nxt r =
     bindp (if rq_RequestID r \<noteq> [] then header_Set ''X-Request-Id'' (rq_RequestID r) else retp ())
       (\<lambda>_. nxt r)"

section \<open>Security headers\<close>

definition has_prefix :: "string \<Rightarrow> string \<Rightarrow> bool" where
  "has_prefix s p \<longleftrightarrow> take (length p) s = p"

definition trim_prefix :: "string \<Rightarrow> string \<Rightarrow> string" where
  "trim_prefix s p = (if has_prefix s p then drop (length p) s else s)"

definition quoted :: "string \<Rightarrow> string" where
  "quoted s = CHR 0x27 # s @ [CHR 0x27]"

definition apiCSP :: string where
  "apiCSP = ''default-src '' @ quoted ''none''"

definition swaggerCSP :: string where
  "swaggerCSP =
     ''default-src '' @ quoted ''self'' @ ''; script-src '' @ quoted ''self'' @ '' '' @
     quoted ''unsafe-inline'' @ ''; style-src '' @ quoted ''self'' @ '' '' @
     quoted ''unsafe-inline'' @ ''; img-src '' @ quoted ''self'' @ '' data:''"

definition SecurityHeaders :: "bool \<Rightarrow> 'w middleware" where
  "SecurityHeaders enableHSTS nxt r =
     bindp (header_Set ''X-Content-Type-Options'' ''nosniff'') (\<lambda>_.
     bindp (header_Set ''X-Frame-Options'' ''DENY'') (\<lambda>_.
     bindp (header_Set ''Referrer-Policy'' ''no-referrer'') (\<lambda>_.
     bindp (header_Set ''Content-Security-Policy''
              (if has_prefix (rq_Path r) ''/swagger/'' then swaggerCSP else apiCSP)) (\<lambda>_.
     bindp (if enableHSTS
            then header_Set ''Strict-Transport-Security'' ''max-age=31536000; includeSubDomains''
            else retp ()) (\<lambda>_.
     nxt r)))))"

section \<open>Recovery\<close>

text \<open>A panic value is known by the text it prints; \<open>http.ErrAbortHandler\<close> by its own.\<close>

definition ErrAbortHandler :: string where
  "ErrAbortHandler = ''net/http: abort Handler''"

definition write_calls :: "('w web, nat) prog" where
  "write_calls = (\<lambda>w. (Ret (rw_Calls (wb_Writer w)), w))"

text \<open>The line of a recovered panic; the stack is left out.\<close>

record panic_line =
  pn_Logger :: "(string \<times> string) option"
  pn_Panic :: string
  pn_Method :: string
  pn_Path :: string

definition Recovery :: "(panic_line \<Rightarrow> ('w, unit) prog) \<Rightarrow> 'w middleware" where
  \<comment> \<open>\<open>statusRecorder.wrote\<close>: a \<open>Write\<close> or \<open>WriteHeader\<close> since the recorder was made. Without a
    logger in the context the one passed in writes the line.\<close>
  "Recovery log nxt r =
     bindp write_calls (\<lambda>made.
     recoverp (nxt r) (\<lambda>rec.
       if rec = ErrAbortHandler then panicp rec
       else
         bindp (in_world (log \<lparr>pn_Logger = rq_Logger r, pn_Panic = rec, pn_Method = rq_Method r,
                               pn_Path = rq_Path r\<rparr>)) (\<lambda>_.
         bindp write_calls (\<lambda>seen.
         if made < seen then retp ()
         else WriteProblem r 500 ''internal_error'' ''Internal Server Error''
                ''An unexpected error occurred.''))))"

section \<open>Probes\<close>

definition writeHealth :: "string \<Rightarrow> int \<Rightarrow> string \<Rightarrow> ('w web, unit) prog" where
  "writeHealth version status state =
     bindp (header_Set ''Content-Type'' ''application/json'') (\<lambda>_.
     bindp (WriteHeader status) (\<lambda>_.
     Write_body (BJson (JObj [(''status'', JStr state), (''version'', JStr version)]))))"

definition healthzHandler :: "string \<Rightarrow> 'w handler" where
  "healthzHandler version r = writeHealth version 200 ''ok''"

definition readyzHandler ::
  "string \<Rightarrow> ('w, goerr option) prog option \<Rightarrow> ('w, bool) prog option \<Rightarrow> 'w handler" where
  "readyzHandler version pinger draining r =
     bindp (case draining of None \<Rightarrow> retp False | Some d \<Rightarrow> in_world d) (\<lambda>stopping.
     if stopping then writeHealth version 503 ''draining''
     else case pinger of
       None \<Rightarrow> writeHealth version 503 ''unavailable''
     | Some ping \<Rightarrow>
         bindp (in_world ping) (\<lambda>err.
           if err \<noteq> None then writeHealth version 503 ''unavailable''
           else writeHealth version 200 ''ok''))"

section \<open>What they answer\<close>

lemma Write_body_run:
  "Write_body b w = (Ret (), w\<lparr>wb_Writer := (commit_status 200 (wb_Writer w))\<lparr>rw_Body := rw_Body (wb_Writer w) @ [b]\<rparr>\<rparr>)"
  by (simp add: Write_body_def on_writer_def)

lemma write_calls_run [simp]: "write_calls w = (Ret (rw_Calls (wb_Writer w)), w)"
  by (simp add: write_calls_def)

lemma WriteProblem_answers:
  assumes "rw_Sent (wb_Writer w) = None" and "rw_Body (wb_Writer w) = []"
  shows "\<exists>w' h. WriteProblem r status typ title detail w = (Ret (), w') \<and>
    answered (wb_Writer w') = (status, h, [BJson (problem_json
      \<lparr>pb_Type = typ, pb_Title = title, pb_Status = status, pb_Detail = detail,
       pb_Instance = rq_Path r, pb_RequestID = rq_RequestID r\<rparr>)]) \<and>
    h = (rw_Header (wb_Writer w))\<lparr>hd_Fields := (hd_Fields (rw_Header (wb_Writer w)))
      (''Content-Type'' := [ProblemContentType], ''X-Content-Type-Options'' := [''nosniff''])\<rparr> \<and>
    wb_World w' = wb_World w"
  using assms by (simp add: WriteProblem_def web_ops bindp_def Let_def answered_def)

end
