(* ===== verification/GoBase64.thy ===== *)
theory GoBase64
  imports Sha256
begin

text \<open>
  \<open>encoding/base64\<close>'s \<open>RawURLEncoding\<close>: the url alphabet, no padding. The decoder skips line
  breaks and does not look at the unused low bits of a last, partial group (it is not strict).
\<close>

definition b64_alphabet :: string where
  "b64_alphabet = ''ABCDEFGHIJKLMNOPQRSTUVWXYZabcdefghijklmnopqrstuvwxyz0123456789-_''"

fun b64_groups :: "nat list \<Rightarrow> nat list" where
  "b64_groups (a # b # c # bs) =
     [a div 4, a mod 4 * 16 + b div 16, b mod 16 * 4 + c div 64, c mod 64] @ b64_groups bs"
| "b64_groups [a, b] = [a div 4, a mod 4 * 16 + b div 16, b mod 16 * 4]"
| "b64_groups [a] = [a div 4, a mod 4 * 16]"
| "b64_groups [] = []"

definition base64url_Encode :: "byte8 list \<Rightarrow> string" where
  "base64url_Encode bs = map ((!) b64_alphabet) (b64_groups (map unat bs))"

fun b64_ungroup :: "nat list \<Rightarrow> nat list option" where
  "b64_ungroup (p # q # r # s # cs) =
     map_option ((@) [p * 4 + q div 16, q mod 16 * 16 + r div 4, r mod 4 * 64 + s])
       (b64_ungroup cs)"
| "b64_ungroup [p, q, r] = Some [p * 4 + q div 16, q mod 16 * 16 + r div 4]"
| "b64_ungroup [p, q] = Some [p * 4 + q div 16]"
| "b64_ungroup [p] = None"
| "b64_ungroup [] = Some []"

fun b64_index :: "string \<Rightarrow> char \<Rightarrow> nat option" where
  "b64_index [] c = None"
| "b64_index (x # xs) c = (if x = c then Some 0 else map_option Suc (b64_index xs c))"

definition b64_sextets :: "string \<Rightarrow> nat list option" where
  "b64_sextets s = those (map (b64_index b64_alphabet) s)"

definition base64url_Decode :: "string \<Rightarrow> byte8 list option" where
  "base64url_Decode s =
     (case b64_sextets (filter (\<lambda>c. c \<noteq> CHR 0x0A \<and> c \<noteq> CHR 0x0D) s) of
        None \<Rightarrow> None
      | Some cs \<Rightarrow> map_option (map word_of_nat) (b64_ungroup cs))"

section \<open>The round trip\<close>

lemma unat_byte_less: "unat (b :: byte8) < 256"
  using unsigned_less [of b, where ?'a = nat] by simp

lemma b64_groups_less: "list_all (\<lambda>b. b < 256) bs \<Longrightarrow> i \<in> set (b64_groups bs) \<Longrightarrow> i < 64"
proof (induction bs rule: b64_groups.induct)
  case (1 a b c bs)
  then have "a div 4 < 64" "a mod 4 * 16 + b div 16 < 64" "b mod 16 * 4 + c div 64 < 64" "c mod 64 < 64"
    by (simp_all, (linarith+)?)
  with 1 show ?case by auto
next
  case (2 a b)
  then have "a div 4 < 64" "a mod 4 * 16 + b div 16 < 64" "b mod 16 * 4 < 64" by (simp_all, (linarith+)?)
  with 2 show ?case by auto
next
  case (3 a)
  then have "a div 4 < 64" "a mod 4 * 16 < 64" by (simp_all, (linarith+)?)
  with 3 show ?case by auto
qed simp

lemma byte_groups:
  fixes n :: nat
  assumes "n < 256"
  shows "n div 16 mod 16 = n div 16" and "n div 64 mod 4 = n div 64" and "n div 64 div 4 = 0" and "n div 16 div 16 = 0"
    and "n div 16 * 16 + n mod 16 = n" and "n div 64 * 64 + n mod 64 = n"
    and "n div 4 * 4 + n mod 4 = n"
  using assms by (simp_all add: less_mult_imp_div_less)

lemma b64_ungroup_groups: "list_all (\<lambda>b. b < 256) bs \<Longrightarrow> b64_ungroup (b64_groups bs) = Some bs"
proof (induction bs rule: b64_groups.induct)
  case (1 a b c bs)
  have "a div 4 * 4 + (a mod 4 * 16 + b div 16) div 16 = a"
    "(a mod 4 * 16 + b div 16) mod 16 * 16 + (b mod 16 * 4 + c div 64) div 4 = b"
    "(b mod 16 * 4 + c div 64) mod 4 * 64 + c mod 64 = c"
    using 1(2) by (simp_all add: byte_groups)
  with 1 show ?case by simp
next
  case (2 a b)
  have "a div 4 * 4 + (a mod 4 * 16 + b div 16) div 16 = a"
    "(a mod 4 * 16 + b div 16) mod 16 * 16 + (b mod 16 * 4) div 4 = b"
    using 2 by (simp_all add: byte_groups)
  then show ?case by simp
next
  case (3 a)
  then show ?case by simp
qed simp

lemma b64_index_nth: "distinct xs \<Longrightarrow> i < length xs \<Longrightarrow> b64_index xs (xs ! i) = Some i"
  by (induction xs arbitrary: i) (auto simp: nth_Cons split: nat.splits)

lemma length_b64_alphabet: "length b64_alphabet = 64"
  by (simp add: b64_alphabet_def)

lemma distinct_b64_alphabet: "distinct b64_alphabet"
  by (simp add: b64_alphabet_def)

lemma b64_alphabet_no_breaks: "CHR 0x0A \<notin> set b64_alphabet" "CHR 0x0D \<notin> set b64_alphabet"
  by (simp_all add: b64_alphabet_def)

lemma those_map_Some: "(\<And>x. x \<in> set xs \<Longrightarrow> f x = Some (g x)) \<Longrightarrow> those (map f xs) = Some (map g xs)"
  by (induction xs) simp_all

lemma base64url_round_trip [simp]: "base64url_Decode (base64url_Encode bs) = Some bs"
proof -
  let ?ns = "b64_groups (map unat bs)"
  have small: "list_all (\<lambda>b. b < 256) (map unat bs)"
    by (simp add: list_all_iff unat_byte_less)
  have less: "i < 64" if "i \<in> set ?ns" for i using b64_groups_less [OF small that] .
  have mem: "b64_alphabet ! i \<in> set b64_alphabet" if "i \<in> set ?ns" for i
    using less [OF that] by (simp add: length_b64_alphabet)
  have "filter (\<lambda>c. c \<noteq> CHR 0x0A \<and> c \<noteq> CHR 0x0D) (base64url_Encode bs) = base64url_Encode bs"
    unfolding base64url_Encode_def using mem b64_alphabet_no_breaks
    by (intro filter_True) (auto, metis+)
  moreover have "b64_sextets (base64url_Encode bs) = Some ?ns"
    unfolding b64_sextets_def base64url_Encode_def map_map
    by (subst those_map_Some [where g = id])
      (auto simp: b64_index_nth [OF distinct_b64_alphabet] length_b64_alphabet less)
  ultimately show ?thesis
    by (simp add: base64url_Decode_def b64_ungroup_groups [OF small] comp_def)
qed

lemma base64url_inj: "base64url_Encode bs = base64url_Encode cs \<longleftrightarrow> bs = cs"
  by (metis base64url_round_trip option.inject)

lemma base64url_Encode_eq_Nil: "base64url_Encode bs = [] \<longleftrightarrow> bs = []"
  using base64url_inj [of bs "[]"] by (simp add: base64url_Encode_def)

end
