(* ===== verification/Token.thy ===== *)
theory Token
  imports Identity GoFloat GoUtf8 GoBase64 "HOL-Library.AList"
begin

text \<open>
  The token service (\<open>modules/identity/infrastructure/token\<close>): keys and their thumbprints, the
  issuing of access, id and second-factor tokens, validation with key selection and token
  class, key rotation and the published key set. \<open>github.com/golang-jwt/jwt\<close>, the reading of
  key files and the clock are parameters; what the code relies on of the library is
  \<open>jwt_pkg_ok\<close>.
\<close>

section \<open>Keys and thumbprints\<close>

text \<open>\<open>crypto/rsa.PublicKey\<close>; \<open>E\<close> is a Go int.\<close>

record rsa_public =
  rsa_N :: nat
  rsa_E :: "64 word"

function big_endian :: "nat \<Rightarrow> byte8 list" where
  \<comment> \<open>\<open>big.Int.Bytes\<close>: no leading zero, empty for zero\<close>
  "big_endian n = (if n = 0 then [] else big_endian (n div 256) @ [word_of_nat (n mod 256)])"
  by pat_completeness auto
termination by (relation "measure id") auto

declare big_endian.simps [simp del]

definition be_uint64 :: "64 word \<Rightarrow> byte8 list" where
  \<comment> \<open>\<open>binary.BigEndian.PutUint64\<close>\<close>
  "be_uint64 e = map (\<lambda>i. ucast (drop_bit (8 * i) e)) (rev [0..<8])"

fun strip_zeros :: "byte8 list \<Rightarrow> byte8 list" where
  \<comment> \<open>drops leading zeros but keeps the last byte\<close>
  "strip_zeros (b # c # bs) = (if b = 0 then strip_zeros (c # bs) else b # c # bs)"
| "strip_zeros bs = bs"

definition exponentBytes :: "64 word \<Rightarrow> byte8 list" where
  "exponentBytes e = strip_zeros (be_uint64 e)"

text \<open>The \<open>%q\<close> of base64url text only puts it between quotes.\<close>

definition Kid :: "rsa_public \<Rightarrow> string" where
  "Kid pub =
     (let n = base64url_Encode (big_endian (rsa_N pub));
          e = base64url_Encode (exponentBytes (rsa_E pub));
          canonical = ''{\"e\":\"'' @ e @ ''\",\"kty\":\"RSA\",\"n\":\"'' @ n @ ''\"}''
      in base64url_Encode (sha256_Sum256 (bytes_of canonical)))"

record jwk =
  jk_Kty :: string
  jk_Use :: string
  jk_Alg :: string
  jk_Kid :: string
  jk_N :: string
  jk_E :: string

definition rs256Alg :: string where
  "rs256Alg = ''RS256''"

definition toJWK :: "rsa_public \<Rightarrow> jwk" where
  "toJWK pub =
     \<lparr>jk_Kty = ''RSA'', jk_Use = ''sig'', jk_Alg = rs256Alg, jk_Kid = Kid pub,
      jk_N = base64url_Encode (big_endian (rsa_N pub)),
      jk_E = base64url_Encode (exponentBytes (rsa_E pub))\<rparr>"

section \<open>Claims\<close>

text \<open>
  A value of \<open>jwt.MapClaims\<close>. The code mints strings and int64 times; a parsed token has
  JSON values, so its numbers are float64.
\<close>

datatype jclaim =
    JInt64 int
  | JFloat64 float64
  | JString string
  | JArray "jclaim list"
  | JOther

type_synonym map_claims = "string \<rightharpoonup> jclaim"

definition getString :: "map_claims \<Rightarrow> string \<Rightarrow> string" where
  "getString c key = (case c key of Some (JString v) \<Rightarrow> v | _ \<Rightarrow> [])"

definition getStringSlice :: "map_claims \<Rightarrow> string \<Rightarrow> string list" where
  "getStringSlice c key =
     (case c key of
        Some (JArray raw) \<Rightarrow> map (\<lambda>r. case r of JString s \<Rightarrow> s | _ \<Rightarrow> []) raw
      | _ \<Rightarrow> [])"

fun int64_of_float :: "float64 \<Rightarrow> int" where
  \<comment> \<open>\<open>int64(f)\<close> truncates; out of range the value is the one amd64 gives\<close>
  "int64_of_float (Float m e) =
     (let t = (if 0 \<le> e then m * 2 ^ nat e else sgn m * (\<bar>m\<bar> div 2 ^ nat (- e))) in
      if - (2 ^ 63) \<le> t \<and> t < 2 ^ 63 then t else - (2 ^ 63))"

definition getInt64 :: "map_claims \<Rightarrow> string \<Rightarrow> int" where
  "getInt64 c key = (case c key of Some (JFloat64 f) \<Rightarrow> int64_of_float f | _ \<Rightarrow> 0)"

text \<open>What a minted claim is after the JSON encoding: an integer comes back as the nearest float64.\<close>

definition float64_of_int :: "int \<Rightarrow> float64" where
  "float64_of_int i =
     (let n = nat \<bar>i\<bar>; s = bitlen n - 53 in Float (sgn i * int (round_mant s n)) (int s))"

fun wire_claim :: "jclaim \<Rightarrow> jclaim" where
  "wire_claim (JInt64 i) = JFloat64 (float64_of_int i)"
| "wire_claim (JArray cs) = JArray (map wire_claim cs)"
| "wire_claim c = c"

definition wire_claims :: "map_claims \<Rightarrow> map_claims" where
  "wire_claims c = map_option wire_claim \<circ> c"

definition Unix :: "time \<Rightarrow> int" where
  \<comment> \<open>\<open>Time.Unix\<close>; Go's zero time is 62135596800 seconds before the epoch\<close>
  "Unix t = t div 1000000000 - 62135596800"

definition unix_instant :: "int \<Rightarrow> time" where
  "unix_instant k = (k + 62135596800) * 1000000000"

section \<open>The JWT library\<close>

record jwt_token =
  jt_Method :: string
  jt_Header :: map_claims
  jt_Claims :: map_claims
  jt_Valid :: bool

record parser_options =
  po_ValidMethods :: "string list"
  po_Issuer :: string
  po_Audience :: string
  po_ExpirationRequired :: bool
  po_Leeway :: duration

text \<open>
  \<open>SignedString\<close> of a token with the given header and claims, and \<open>ParseWithClaims\<close> with a
  key function and options. \<open>jwt_Decode\<close> reads header and claims without checking anything,
  \<open>jwt_Verifies\<close> checks an RS256 signature; the code calls neither, they state the laws.
\<close>

record ('w, 'priv) jwt_pkg =
  jwt_SignedString :: "map_claims \<Rightarrow> map_claims \<Rightarrow> 'priv \<Rightarrow> ('w, goerr + string) prog"
  jwt_ParseWithClaims ::
    "string \<Rightarrow> (jwt_token \<Rightarrow> goerr + rsa_public) \<Rightarrow> parser_options \<Rightarrow> ('w, goerr + jwt_token) prog"
  jwt_Decode :: "string \<Rightarrow> jwt_token option"
  jwt_Verifies :: "rsa_public \<Rightarrow> string \<Rightarrow> bool"

record 'priv jwt_service =
  js_privateKey :: 'priv
  js_publicKey :: rsa_public
  js_issuer :: string
  js_audience :: string
  js_leeway :: duration
  js_signingKid :: string
  js_verificationKeys :: "(string \<times> rsa_public) list"

text \<open>
  The map of verification keys is a list of its entries in the order a range over it visits
  them; a key is entered with \<open>AList\<close>'s update.
\<close>

definition defaultLeeway :: duration where
  "defaultLeeway = 30000000000"

text \<open>
  The standard library around the key files: \<open>os.ReadFile\<close>, \<open>pem.Decode\<close> (the bytes of the first
  block), and the two parsers of \<open>crypto/x509\<close>; a public key that is not RSA is \<open>None\<close>.
\<close>

record ('w, 'priv) key_files =
  kf_ReadFile :: "string \<Rightarrow> ('w, goerr + byte8 list) prog"
  kf_pem_Decode :: "byte8 list \<Rightarrow> byte8 list option"
  kf_ParsePKCS1PrivateKey :: "byte8 list \<Rightarrow> goerr + 'priv"
  kf_ParsePKIXPublicKey :: "byte8 list \<Rightarrow> goerr + rsa_public option"

definition loadRSAPrivateKey :: "('w, 'priv) key_files \<Rightarrow> string \<Rightarrow> ('w, goerr + 'priv) prog" where
  "loadRSAPrivateKey F path =
     bindp (kf_ReadFile F path) (\<lambda>r.
     case r of Inl err \<Rightarrow> retp (Inl err) | Inr data \<Rightarrow>
     case kf_pem_Decode F data of
       None \<Rightarrow> retp (Inl (New ''pem decode failed''))
     | Some block \<Rightarrow> retp (kf_ParsePKCS1PrivateKey F block))"

definition loadRSAPublicKey :: "('w, 'priv) key_files \<Rightarrow> string \<Rightarrow> ('w, goerr + rsa_public) prog" where
  "loadRSAPublicKey F path =
     bindp (kf_ReadFile F path) (\<lambda>r.
     case r of Inl err \<Rightarrow> retp (Inl err) | Inr data \<Rightarrow>
     case kf_pem_Decode F data of
       None \<Rightarrow> retp (Inl (New ''pem decode failed''))
     | Some block \<Rightarrow>
         (case kf_ParsePKIXPublicKey F block of
            Inl err \<Rightarrow> retp (Inl err)
          | Inr None \<Rightarrow> retp (Inl (New ''not RSA public key''))
          | Inr (Some rsaPub) \<Rightarrow> retp (Inr rsaPub)))"

definition NewJWTService ::
  "('w, 'priv) key_files \<Rightarrow> string \<Rightarrow> string \<Rightarrow> string \<Rightarrow> string \<Rightarrow> duration \<Rightarrow>
   ('w, goerr + 'priv jwt_service) prog" where
  "NewJWTService F privateKeyPath publicKeyPath issuer audience leeway =
     bindp (loadRSAPrivateKey F privateKeyPath) (\<lambda>r.
     case r of Inl err \<Rightarrow> retp (Inl err) | Inr priv \<Rightarrow>
     bindp (loadRSAPublicKey F publicKeyPath) (\<lambda>r.
     case r of Inl err \<Rightarrow> retp (Inl err) | Inr pub \<Rightarrow>
     let leeway = (if sint leeway \<le> 0 then defaultLeeway else leeway); signingKid = Kid pub in
     retp (Inr
       \<lparr>js_privateKey = priv, js_publicKey = pub, js_issuer = issuer, js_audience = audience,
        js_leeway = leeway, js_signingKid = signingKid,
        js_verificationKeys = [(signingKid, pub)]\<rparr>)))"

definition WithPreviousKey ::
  "('w, 'priv) key_files \<Rightarrow> 'priv jwt_service \<Rightarrow> string \<Rightarrow>
   ('w, goerr option \<times> 'priv jwt_service) prog" where
  "WithPreviousKey F s path =
     bindp (loadRSAPublicKey F path) (\<lambda>r.
     case r of
       Inl err \<Rightarrow> retp (Some (Errorf ''load previous public key: %w'' [] [err]), s)
     | Inr pub \<Rightarrow>
         let kid = Kid pub in
         if kid = js_signingKid s
         then retp (Some (New ''previous key is the same as the signing key''), s)
         else retp (None, s\<lparr>js_verificationKeys := AList.update kid pub (js_verificationKeys s)\<rparr>))"

section \<open>Issuing\<close>

definition sign :: "('w, 'priv) jwt_pkg \<Rightarrow> 'priv jwt_service \<Rightarrow> map_claims \<Rightarrow> ('w, goerr + string) prog" where
  \<comment> \<open>\<open>NewWithClaims\<close> sets \<open>typ\<close> and \<open>alg\<close>\<close>
  "sign J s cl =
     (let header = [''typ'' \<mapsto> JString ''JWT'', ''alg'' \<mapsto> JString rs256Alg];
          header = (if js_signingKid s \<noteq> [] then header(''kid'' \<mapsto> JString (js_signingKid s)) else header)
      in jwt_SignedString J header cl (js_privateKey s))"

definition access_claims :: "uuid_pkg \<Rightarrow> 'priv jwt_service \<Rightarrow> user \<Rightarrow> duration \<Rightarrow> time \<Rightarrow> map_claims" where
  "access_claims U s user ttl now =
     [''sub'' \<mapsto> JString (uuid_String U (u_ID user)), ''email'' \<mapsto> JString (u_Email user),
      ''name'' \<mapsto> JString (u_Name user), ''scope'' \<mapsto> JString ''access'',
      ''cls'' \<mapsto> JString ClassAccess, ''iss'' \<mapsto> JString (js_issuer s),
      ''aud'' \<mapsto> JString (js_audience s), ''iat'' \<mapsto> JInt64 (Unix now),
      ''exp'' \<mapsto> JInt64 (Unix (time_Add now ttl))]"

definition IssueAccessToken ::
  "('w, time) prog \<Rightarrow> uuid_pkg \<Rightarrow> ('w, 'priv) jwt_pkg \<Rightarrow> 'priv jwt_service \<Rightarrow> user \<Rightarrow> duration \<Rightarrow>
   ('w, goerr + string) prog" where
  "IssueAccessToken Now U J s user ttl =
     bindp Now (\<lambda>now. sign J s (access_claims U s user ttl now))"

definition id_claims :: "uuid_pkg \<Rightarrow> 'priv jwt_service \<Rightarrow> user \<Rightarrow> string \<Rightarrow> time \<Rightarrow> map_claims" where
  "id_claims U s user clientID now =
     [''sub'' \<mapsto> JString (uuid_String U (u_ID user)), ''email'' \<mapsto> JString (u_Email user),
      ''name'' \<mapsto> JString (u_Name user), ''aud'' \<mapsto> JString clientID,
      ''iss'' \<mapsto> JString (js_issuer s), ''cls'' \<mapsto> JString ClassID, ''iat'' \<mapsto> JInt64 (Unix now),
      ''exp'' \<mapsto> JInt64 (Unix (time_Add now 900000000000)),
      ''scope'' \<mapsto> JString ''openid profile email'']"

definition IssueIDToken ::
  "('w, time) prog \<Rightarrow> uuid_pkg \<Rightarrow> ('w, 'priv) jwt_pkg \<Rightarrow> 'priv jwt_service \<Rightarrow> user \<Rightarrow> string \<Rightarrow>
   ('w, goerr + string) prog" where
  "IssueIDToken Now U J s user clientID =
     bindp Now (\<lambda>now. sign J s (id_claims U s user clientID now))"

definition mfa_claims :: "uuid_pkg \<Rightarrow> 'priv jwt_service \<Rightarrow> user \<Rightarrow> time \<Rightarrow> map_claims" where
  "mfa_claims U s user now =
     [''sub'' \<mapsto> JString (uuid_String U (u_ID user)), ''scope'' \<mapsto> JString ''mfa'',
      ''cls'' \<mapsto> JString ClassMFA, ''iss'' \<mapsto> JString (js_issuer s),
      ''aud'' \<mapsto> JString (js_audience s), ''iat'' \<mapsto> JInt64 (Unix now),
      ''exp'' \<mapsto> JInt64 (Unix (time_Add now 300000000000))]"

definition IssueMFAToken ::
  "('w, time) prog \<Rightarrow> uuid_pkg \<Rightarrow> ('w, 'priv) jwt_pkg \<Rightarrow> 'priv jwt_service \<Rightarrow> user \<Rightarrow>
   ('w, goerr + string) prog" where
  "IssueMFAToken Now U J s user = bindp Now (\<lambda>now. sign J s (mfa_claims U s user now))"

section \<open>Validation\<close>

definition keyFor :: "'priv jwt_service \<Rightarrow> jwt_token \<Rightarrow> goerr + rsa_public" where
  "keyFor s token =
     (case jt_Header token ''kid'' of
        None \<Rightarrow> Inr (js_publicKey s)
      | Some (JString kid) \<Rightarrow>
          (case map_of (js_verificationKeys s) kid of
             None \<Rightarrow> Inl (Errorf ''token: unknown key id %q'' [OStr kid] [])
           | Some key \<Rightarrow> Inr key)
      | Some _ \<Rightarrow> Inl (New ''token: kid header is not a string''))"

definition key_function :: "'priv jwt_service \<Rightarrow> jwt_token \<Rightarrow> goerr + rsa_public" where
  \<comment> \<open>the key function \<open>Validate\<close> hands to the parser\<close>
  "key_function s token =
     (if jt_Method token \<noteq> rs256Alg
      then Inl (Errorf ''unexpected signing method: %v'' [OStr (getString (jt_Header token) ''alg'')] [])
      else keyFor s token)"

definition parse_options :: "'priv jwt_service \<Rightarrow> parser_options" where
  "parse_options s =
     \<lparr>po_ValidMethods = [rs256Alg], po_Issuer = js_issuer s, po_Audience = js_audience s,
      po_ExpirationRequired = True, po_Leeway = js_leeway s\<rparr>"

definition claims_of :: "map_claims \<Rightarrow> claims" where
  "claims_of c =
     \<lparr>cl_Subject = getString c ''sub'', cl_Email = getString c ''email'',
      cl_Name = getString c ''name'', cl_Roles = getStringSlice c ''roles'',
      cl_Permissions = getStringSlice c ''permissions'', cl_Scope = getString c ''scope'',
      cl_Class = getString c ''cls'', cl_IssuedAt = getInt64 c ''iat'',
      cl_ExpiresAt = getInt64 c ''exp''\<rparr>"

definition Validate ::
  "('w, 'priv) jwt_pkg \<Rightarrow> 'priv jwt_service \<Rightarrow> string \<Rightarrow> token_class \<Rightarrow> ('w, goerr + claims) prog" where
  "Validate J s tokenStr want =
     bindp (jwt_ParseWithClaims J tokenStr (key_function s) (parse_options s)) (\<lambda>r.
     case r of
       Inl err \<Rightarrow> retp (Inl (Errorf ''parse token: %w'' [] [err]))
     | Inr parsed \<Rightarrow>
         if \<not> jt_Valid parsed then retp (Inl (New ''invalid token''))
         else
           let cls = getString (jt_Claims parsed) ''cls'' in
           if cls \<noteq> want
           then retp (Inl (Errorf ''%w: got %q, want %q'' [OStr cls, OStr want] [ErrWrongTokenClass]))
           else retp (Inr (claims_of (jt_Claims parsed))))"

definition JWTService ::
  "('w, time) prog \<Rightarrow> uuid_pkg \<Rightarrow> ('w, 'priv) jwt_pkg \<Rightarrow> 'priv jwt_service \<Rightarrow> 'w token_issuer" where
  \<comment> \<open>the service as the domain's \<open>TokenIssuer\<close>; a failed signature is an empty id token\<close>
  "JWTService Now U J s =
     \<lparr>tip_IssueAccessToken = IssueAccessToken Now U J s,
      tip_IssueIDToken = (\<lambda>user clientID. bindp (IssueIDToken Now U J s user clientID) (\<lambda>r.
        case r of Inl err \<Rightarrow> retp ([], Some err) | Inr tok \<Rightarrow> retp (tok, None))),
      tip_IssueMFAToken = IssueMFAToken Now U J s,
      tip_Validate = Validate J s\<rparr>"

section \<open>The published key set\<close>

definition JWKS :: "'priv jwt_service \<Rightarrow> jwk list" where
  \<comment> \<open>the public key is never nil in a service \<open>NewJWTService\<close> returned\<close>
  "JWKS s =
     toJWK (js_publicKey s) #
     map (\<lambda>(kid, pub). toJWK pub) (filter (\<lambda>(kid, pub). kid \<noteq> js_signingKid s) (js_verificationKeys s))"

section \<open>What the code relies on of the library\<close>

definition audience_has :: "map_claims \<Rightarrow> string \<Rightarrow> bool" where
  "audience_has c a \<longleftrightarrow>
     (case c ''aud'' of
        Some (JString x) \<Rightarrow> x = a | Some (JArray xs) \<Rightarrow> JString a \<in> set xs | _ \<Rightarrow> False)"

definition checks_out :: "parser_options \<Rightarrow> time \<Rightarrow> map_claims \<Rightarrow> bool" where
  \<comment> \<open>issuer, audience and a required expiry that has not passed by more than the leeway\<close>
  "checks_out opts now c \<longleftrightarrow>
     c ''iss'' = Some (JString (po_Issuer opts)) \<and> audience_has c (po_Audience opts) \<and>
     (case c ''exp'' of
        Some (JFloat64 f) \<Rightarrow> now < unix_instant (int64_of_float f) + sint (po_Leeway opts)
      | _ \<Rightarrow> False)"

definition utf8_claims :: "map_claims \<Rightarrow> bool" where
  "utf8_claims c \<longleftrightarrow> (\<forall>k v. c k = Some (JString v) \<longrightarrow> ValidString v)"

text \<open>
  The documented behaviour of the library, for a non-empty issuer and audience and a required
  expiry. Parsing reads the clock, changes nothing and does not panic; a token it accepts decodes, has an
  accepted method, verifies under the key the key function picked and passes the checks.
  Conversely such a token, without a \<open>nbf\<close>, is accepted. A signed token decodes to its header
  and claims after the JSON encoding, which keeps valid UTF-8, and verifies under the public
  half of its key.
\<close>

definition checked_options :: "parser_options \<Rightarrow> bool" where
  "checked_options opts \<longleftrightarrow>
     po_ExpirationRequired opts \<and> po_Issuer opts \<noteq> [] \<and> po_Audience opts \<noteq> []"

definition jwt_parse_sound :: "('w, time) prog \<Rightarrow> ('w, 'priv) jwt_pkg \<Rightarrow> bool" where
  "jwt_parse_sound Now J \<longleftrightarrow>
     (\<forall>s kf opts w r w' now.
        checked_options opts \<longrightarrow> Now w = (Ret now, w) \<longrightarrow>
        jwt_ParseWithClaims J s kf opts w = (r, w') \<longrightarrow>
        w' = w \<and> (\<exists>x. r = Ret x) \<and>
        (\<forall>tok. r = Ret (Inr tok) \<longrightarrow>
          (\<exists>raw key. jwt_Decode J s = Some raw \<and> tok = raw\<lparr>jt_Valid := True\<rparr> \<and>
             jt_Method raw \<in> set (po_ValidMethods opts) \<and> kf raw = Inr key \<and>
             jwt_Verifies J key s \<and> checks_out opts now (jt_Claims raw))))"

definition jwt_parse_complete :: "('w, time) prog \<Rightarrow> ('w, 'priv) jwt_pkg \<Rightarrow> bool" where
  "jwt_parse_complete Now J \<longleftrightarrow>
     (\<forall>s kf opts w raw key now.
        checked_options opts \<longrightarrow> Now w = (Ret now, w) \<longrightarrow> jwt_Decode J s = Some raw \<longrightarrow>
        jt_Method raw \<in> set (po_ValidMethods opts) \<longrightarrow> kf raw = Inr key \<longrightarrow>
        jwt_Verifies J key s \<longrightarrow> checks_out opts now (jt_Claims raw) \<longrightarrow>
        jt_Claims raw ''nbf'' = None \<longrightarrow>
        jwt_ParseWithClaims J s kf opts w = (Ret (Inr (raw\<lparr>jt_Valid := True\<rparr>)), w))"

definition jwt_sign_ok :: "('priv \<Rightarrow> rsa_public) \<Rightarrow> ('w, 'priv) jwt_pkg \<Rightarrow> bool" where
  "jwt_sign_ok public_half J \<longleftrightarrow>
     (\<forall>hdr cl priv w s w'.
        hdr ''alg'' = Some (JString rs256Alg) \<longrightarrow> utf8_claims hdr \<longrightarrow> utf8_claims cl \<longrightarrow>
        jwt_SignedString J hdr cl priv w = (Ret (Inr s), w') \<longrightarrow>
        jwt_Decode J s =
          Some \<lparr>jt_Method = rs256Alg, jt_Header = wire_claims hdr, jt_Claims = wire_claims cl,
                jt_Valid = False\<rparr> \<and>
        jwt_Verifies J (public_half priv) s)"

definition jwt_pkg_ok ::
  "('w, time) prog \<Rightarrow> ('priv \<Rightarrow> rsa_public) \<Rightarrow> ('w, 'priv) jwt_pkg \<Rightarrow> bool" where
  "jwt_pkg_ok Now public_half J \<longleftrightarrow>
     jwt_parse_sound Now J \<and> jwt_parse_complete Now J \<and> jwt_sign_ok public_half J"

definition service_ok :: "('priv \<Rightarrow> rsa_public) \<Rightarrow> 'priv jwt_service \<Rightarrow> bool" where
  \<comment> \<open>the key pair matches, every key is filed under its thumbprint, the names are usable\<close>
  "service_ok public_half s \<longleftrightarrow>
     js_publicKey s = public_half (js_privateKey s) \<and>
     js_signingKid s = Kid (js_publicKey s) \<and>
     map_of (js_verificationKeys s) (js_signingKid s) = Some (js_publicKey s) \<and>
     (\<forall>(kid, pub) \<in> set (js_verificationKeys s). kid = Kid pub) \<and>
     distinct (map fst (js_verificationKeys s)) \<and>
     js_issuer s \<noteq> [] \<and> js_audience s \<noteq> [] \<and>
     ValidString (js_issuer s) \<and> ValidString (js_audience s) \<and> 0 < sint (js_leeway s)"

section \<open>Lemmas\<close>


lemma ValidString_ascii: "list_all (\<lambda>c. byte c < 128) s \<Longrightarrow> ValidString s"
proof (induction s)
  case (Cons c s)
  then have "rune_len (c # s) = 1" by (simp add: rune_len_def first_size_def Let_def)
  with Cons show ?case by (simp add: ValidString_iff)
qed simp

lemma Kid_utf8: "ValidString (Kid pub)"
proof -
  have "list_all (\<lambda>c. byte c < 128) b64_alphabet" by (simp add: b64_alphabet_def byte_def)
  then have "byte (b64_alphabet ! i) < 128" if "i < 64" for i
    using that by (simp add: list_all_length length_b64_alphabet)
  moreover have "i < 64" if "i \<in> set (b64_groups (map unat (bs :: byte8 list)))" for i bs
    using b64_groups_less [OF _ that] by (simp add: list_all_iff unat_byte_less)
  ultimately show ?thesis
    by (intro ValidString_ascii) (auto simp: Kid_def Let_def base64url_Encode_def list_all_iff)
qed

lemma Kid_nonempty: "Kid pub \<noteq> []"
proof -
  have "sha256_Sum256 m \<noteq> []" for m by (metis length_sha256 list.size(3) zero_neq_numeral)
  then show ?thesis unfolding Kid_def Let_def base64url_Encode_eq_Nil .
qed

lemma int64_float_round_trip:
  assumes "\<bar>i\<bar> < 2 ^ 53"
  shows "int64_of_float (float64_of_int i) = i"
proof -
  have "bitlen (nat \<bar>i\<bar>) \<le> bitlen (2 ^ 53 - 1)" using assms by (intro bitlen_mono) simp
  also have "bitlen (2 ^ 53 - 1) = Suc 52" by (rule bitlen_unique) simp_all
  finally have "float64_of_int i = Float i 0"
    by (simp add: float64_of_int_def Let_def sgn_mult_abs)
  moreover have "- (2 ^ 63) \<le> i" "i < 2 ^ 63" using assms by simp_all
  ultimately show ?thesis by simp
qed

lemma unix_instant_Unix: "t - 1000000000 < unix_instant (Unix t) \<and> unix_instant (Unix t) \<le> t"
proof -
  have "t = t div 1000000000 * 1000000000 + t mod 1000000000" by simp
  moreover have "0 \<le> t mod 1000000000" "t mod 1000000000 < 1000000000" by simp_all
  moreover have "unix_instant (Unix t) = t div 1000000000 * 1000000000"
    by (simp add: unix_instant_def Unix_def)
  ultimately show ?thesis by linarith
qed

lemma parse_options_sel [simp]:
  "po_ValidMethods (parse_options s) = [rs256Alg]" "po_Issuer (parse_options s) = js_issuer s"
  "po_Audience (parse_options s) = js_audience s" "po_ExpirationRequired (parse_options s)"
  "po_Leeway (parse_options s) = js_leeway s"
  by (simp_all add: parse_options_def)

lemma service_okD:
  assumes "service_ok public_half s"
  shows "js_publicKey s = public_half (js_privateKey s)" and "js_signingKid s = Kid (js_publicKey s)"
    and "map_of (js_verificationKeys s) (js_signingKid s) = Some (js_publicKey s)"
    and "js_issuer s \<noteq> []" and "js_audience s \<noteq> []"
    and "ValidString (js_issuer s)" and "ValidString (js_audience s)" and "0 < sint (js_leeway s)"
    and "distinct (map fst (js_verificationKeys s))"
  using assms unfolding service_ok_def by blast+

lemma service_ok_Kid:
  "service_ok public_half s \<Longrightarrow> map_of (js_verificationKeys s) kid = Some pub \<Longrightarrow> kid = Kid pub"
  by (auto simp: service_ok_def dest!: map_of_SomeD)

lemma NewJWTService_ok:
  assumes "NewJWTService F priv_path pub_path iss aud leeway w = (Ret (Inr s), w')"
    and "js_publicKey s = public_half (js_privateKey s)"
    and "iss \<noteq> []" "aud \<noteq> []" "ValidString iss" "ValidString aud"
  shows "service_ok public_half s"
  using assms
  by (auto simp: NewJWTService_def Let_def service_ok_def defaultLeeway_def elim!: runE)

lemma WithPreviousKey_ok:
  assumes "service_ok public_half s" and "WithPreviousKey F s path w = (Ret (None, s'), w')"
  shows "service_ok public_half s'" and "js_signingKid s' = js_signingKid s"
    and "\<exists>pub. Kid pub \<noteq> js_signingKid s \<and>
      js_verificationKeys s' = AList.update (Kid pub) pub (js_verificationKeys s)"
    and "s' = s\<lparr>js_verificationKeys := js_verificationKeys s'\<rparr>"
proof -
  from assms(2) obtain pub where pub: "Kid pub \<noteq> js_signingKid s"
    "s' = s\<lparr>js_verificationKeys := AList.update (Kid pub) pub (js_verificationKeys s)\<rparr>"
    by (auto simp: WithPreviousKey_def Let_def elim!: runE split: if_splits)
  then show "js_signingKid s' = js_signingKid s"
    and "\<exists>pub. Kid pub \<noteq> js_signingKid s \<and>
      js_verificationKeys s' = AList.update (Kid pub) pub (js_verificationKeys s)"
    and "s' = s\<lparr>js_verificationKeys := js_verificationKeys s'\<rparr>" by auto
  have upd: "set (AList.update (Kid pub) pub kvs) \<subseteq> insert (Kid pub, pub) (set kvs)" for kvs
    by (induction kvs) auto
  have filed: "\<forall>(kid, pub) \<in> set (AList.update (Kid pub) pub (js_verificationKeys s)). kid = Kid pub"
    using assms(1) upd [of "js_verificationKeys s"] unfolding service_ok_def by blast
  show "service_ok public_half s'"
    using assms(1) pub(1) filed unfolding service_ok_def pub(2)
    by (auto simp: update_conv' distinct_update)
qed

text \<open>A minted token, read back.\<close>

lemma wire_claims_apply: "wire_claims c k = map_option wire_claim (c k)"
  by (simp add: wire_claims_def)

definition minted :: "('w, 'priv) jwt_pkg \<Rightarrow> 'priv jwt_service \<Rightarrow> map_claims \<Rightarrow> string \<Rightarrow> bool" where
  \<comment> \<open>the text is a token of the service with these claims\<close>
  "minted J s cl tok \<longleftrightarrow>
     (\<exists>hdr. jwt_Decode J tok =
        Some \<lparr>jt_Method = rs256Alg, jt_Header = hdr, jt_Claims = wire_claims cl, jt_Valid = False\<rparr> \<and>
        hdr ''kid'' = Some (JString (js_signingKid s))) \<and>
     jwt_Verifies J (js_publicKey s) tok"

lemma sign_minted:
  assumes "jwt_pkg_ok Now public_half J" and "service_ok public_half s" and "utf8_claims cl"
    and "sign J s cl w = (Ret (Inr tok), w')"
  shows "minted J s cl tok"
proof -
  note ok = service_okD [OF assms(2)]
  let ?hdr = "[''typ'' \<mapsto> JString ''JWT'', ''alg'' \<mapsto> JString rs256Alg,
    ''kid'' \<mapsto> JString (js_signingKid s)]"
  have kid: "js_signingKid s \<noteq> []" using ok(2) Kid_nonempty by simp
  have "jwt_SignedString J ?hdr cl (js_privateKey s) w = (Ret (Inr tok), w')"
    using assms(4) kid by (simp add: sign_def Let_def)
  moreover have "utf8_claims ?hdr"
    using ok(2) Kid_utf8 by (auto simp: utf8_claims_def rs256Alg_def byte_def intro!: ValidString_ascii split: if_splits)
  moreover have "?hdr ''alg'' = Some (JString rs256Alg)" by simp
  ultimately have "jwt_Decode J tok =
      Some \<lparr>jt_Method = rs256Alg, jt_Header = wire_claims ?hdr, jt_Claims = wire_claims cl,
            jt_Valid = False\<rparr> \<and> jwt_Verifies J (public_half (js_privateKey s)) tok"
    using assms(1,3) unfolding jwt_pkg_ok_def jwt_sign_ok_def by blast
  then show ?thesis using ok(1) by (auto simp: minted_def wire_claims_apply)
qed

lemma parse_options_checked: "service_ok public_half s \<Longrightarrow> checked_options (parse_options s)"
  by (simp add: checked_options_def service_ok_def)

lemma jwt_parse_accepts:
  assumes "jwt_pkg_ok Now public_half J" and "checked_options opts" and "Now w = (Ret now, w)"
    and "jwt_ParseWithClaims J tok kf opts w = (Ret (Inr parsed), w')"
  shows "w' = w \<and> (\<exists>raw key. jwt_Decode J tok = Some raw \<and> parsed = raw\<lparr>jt_Valid := True\<rparr> \<and>
    jt_Method raw \<in> set (po_ValidMethods opts) \<and> kf raw = Inr key \<and> jwt_Verifies J key tok \<and>
    checks_out opts now (jt_Claims raw))"
  using assms unfolding jwt_pkg_ok_def jwt_parse_sound_def by blast

lemma jwt_parse_quiet:
  assumes "jwt_pkg_ok Now public_half J" and "checked_options opts" and "Now w = (Ret now, w)"
    and "jwt_ParseWithClaims J tok kf opts w = (r, w')"
  shows "w' = w \<and> (\<exists>x. r = Ret x)"
  using assms unfolding jwt_pkg_ok_def jwt_parse_sound_def by blast

lemma jwt_parse_accepted:
  assumes "jwt_pkg_ok Now public_half J" and "checked_options opts" and "Now w = (Ret now, w)"
    and "jwt_Decode J tok = Some raw" and "jt_Method raw \<in> set (po_ValidMethods opts)"
    and "kf raw = Inr key" and "jwt_Verifies J key tok"
    and "checks_out opts now (jt_Claims raw)" and "jt_Claims raw ''nbf'' = None"
  shows "jwt_ParseWithClaims J tok kf opts w = (Ret (Inr (raw\<lparr>jt_Valid := True\<rparr>)), w)"
  using assms unfolding jwt_pkg_ok_def jwt_parse_complete_def by blast

definition vouched ::
  "('w, 'priv) jwt_pkg \<Rightarrow> 'priv jwt_service \<Rightarrow> time \<Rightarrow> string \<Rightarrow> claims \<Rightarrow> bool" where
  \<comment> \<open>the text is an RS256 token signed under a key the service holds, with the service's issuer
    and audience, not expired, and carries these claims\<close>
  "vouched J s now tok c \<longleftrightarrow>
     (\<exists>raw key. jwt_Decode J tok = Some raw \<and> jt_Method raw = rs256Alg \<and>
        key \<in> insert (js_publicKey s) (snd ` set (js_verificationKeys s)) \<and>
        (\<forall>kid. jt_Header raw ''kid'' = Some (JString kid) \<longrightarrow> kid = Kid key) \<and>
        jwt_Verifies J key tok \<and>
        jt_Claims raw ''iss'' = Some (JString (js_issuer s)) \<and>
        audience_has (jt_Claims raw) (js_audience s) \<and>
        now < unix_instant (cl_ExpiresAt c) + sint (js_leeway s) \<and>
        c = claims_of (jt_Claims raw))"

lemma keyFor_cases:
  assumes "service_ok public_half s" and "keyFor s raw = Inr key"
  shows "key \<in> insert (js_publicKey s) (snd ` set (js_verificationKeys s))"
    and "jt_Header raw ''kid'' = Some (JString kid) \<Longrightarrow> kid = Kid key"
  using assms service_ok_Kid [OF assms(1)]
  by (auto simp: keyFor_def split: option.splits jclaim.splits dest!: map_of_SomeD intro: rev_image_eqI)

lemma Validate_vouched:
  assumes "jwt_pkg_ok Now public_half J" and "service_ok public_half s"
    and "Now w = (Ret now, w)" and "Validate J s tok want w = (Ret (Inr c), w')"
  shows "vouched J s now tok c \<and> cl_Class c = want \<and> w' = w"
proof -
  note ok = service_okD [OF assms(2)]
  from assms(4) obtain parsed where
    parse: "jwt_ParseWithClaims J tok (key_function s) (parse_options s) w = (Ret (Inr parsed), w')"
    and cls: "getString (jt_Claims parsed) ''cls'' = want" and c: "c = claims_of (jt_Claims parsed)"
    unfolding Validate_def by (auto simp: Let_def elim!: runE split: if_splits)
  from jwt_parse_accepts [OF assms(1) parse_options_checked [OF assms(2)] assms(3) parse]
  obtain raw key where
    raw: "w' = w" "jwt_Decode J tok = Some raw" "parsed = raw\<lparr>jt_Valid := True\<rparr>"
    "jt_Method raw = rs256Alg" "key_function s raw = Inr key" "jwt_Verifies J key tok"
    "checks_out (parse_options s) now (jt_Claims raw)"
    by auto
  then have "keyFor s raw = Inr key" by (simp add: key_function_def)
  note key = keyFor_cases [OF assms(2) this]
  from raw(7) c raw(3) have "now < unix_instant (cl_ExpiresAt c) + sint (js_leeway s)"
    by (auto simp: checks_out_def claims_of_def getInt64_def split: option.splits jclaim.splits)
  with raw key c cls show ?thesis
    unfolding vouched_def checks_out_def
    by (auto simp: claims_of_def intro!: exI [of _ raw] exI [of _ key])
qed

lemma Validate_minted:
  assumes "jwt_pkg_ok Now public_half J" and "service_ok public_half s'" and "Now w = (Ret now, w)"
    and "minted J s cl tok"
    and "map_of (js_verificationKeys s') (js_signingKid s) = Some (js_publicKey s)"
    and "cl ''iss'' = Some (JString (js_issuer s'))" and "cl ''aud'' = Some (JString (js_audience s'))"
    and "cl ''exp'' = Some (JInt64 e)" and "\<bar>e\<bar> < 2 ^ 53" and "cl ''nbf'' = None"
    and "now < unix_instant e + sint (js_leeway s')"
  shows "Validate J s' tok want w =
    (Ret (if getString (wire_claims cl) ''cls'' = want then Inr (claims_of (wire_claims cl))
          else Inl (Errorf ''%w: got %q, want %q''
            [OStr (getString (wire_claims cl) ''cls''), OStr want] [ErrWrongTokenClass])), w)"
proof -
  note ok = service_okD [OF assms(2)]
  from assms(4) obtain hdr where hdr: "jwt_Decode J tok =
      Some \<lparr>jt_Method = rs256Alg, jt_Header = hdr, jt_Claims = wire_claims cl, jt_Valid = False\<rparr>"
    (is "_ = Some ?raw") "hdr ''kid'' = Some (JString (js_signingKid s))" "jwt_Verifies J (js_publicKey s) tok"
    by (auto simp: minted_def)
  have "jwt_ParseWithClaims J tok (key_function s') (parse_options s') w =
      (Ret (Inr (?raw\<lparr>jt_Valid := True\<rparr>)), w)"
  proof (rule jwt_parse_accepted [OF assms(1) parse_options_checked [OF assms(2)] assms(3) hdr(1) _ _ hdr(3)])
    show "checks_out (parse_options s') now (jt_Claims ?raw)"
      using assms(6,7,8,11) int64_float_round_trip [OF assms(9)]
      by (simp add: checks_out_def wire_claims_apply audience_has_def)
  qed (use ok assms(5,10) hdr(2) in
    \<open>simp_all add: key_function_def keyFor_def wire_claims_apply\<close>)
  then show ?thesis by (simp add: Validate_def bindp_def Let_def)
qed

lemma Validate_unknown_key:
  assumes "jwt_pkg_ok Now public_half J" and "service_ok public_half s'" and "Now w = (Ret now, w)"
    and "minted J s cl tok" and "js_signingKid s \<notin> fst ` set (js_verificationKeys s')"
  shows "Validate J s' tok want w \<noteq> (Ret (Inr c), w')"
proof
  assume "Validate J s' tok want w = (Ret (Inr c), w')"
  then obtain parsed w1 where
    parse: "jwt_ParseWithClaims J tok (key_function s') (parse_options s') w = (Ret (Inr parsed), w1)"
    unfolding Validate_def by (auto elim!: runE)
  obtain raw key where raw: "jwt_Decode J tok = Some raw" "key_function s' raw = Inr key"
    using jwt_parse_accepts [OF assms(1) parse_options_checked [OF assms(2)] assms(3) parse] by blast
  then show False
    using assms(4,5)
    by (auto simp: minted_def key_function_def keyFor_def split: if_splits option.splits
        dest!: map_of_SomeD intro: rev_image_eqI)
qed

lemma Validate_returns:
  assumes "jwt_pkg_ok Now public_half J" and "service_ok public_half s" and "Now w = (Ret now, w)"
  shows "\<exists>x. Validate J s tok want w = (Ret x, w)"
proof -
  obtain r w' where parse:
    "jwt_ParseWithClaims J tok (key_function s) (parse_options s) w = (r, w')" by fastforce
  from jwt_parse_quiet [OF assms(1) parse_options_checked [OF assms(2)] assms(3) this]
  obtain x where "w' = w" "r = Ret x" by auto
  with parse show ?thesis by (cases x) (auto simp: Validate_def bindp_def Let_def)
qed

section \<open>Issued tokens\<close>

text \<open>
  A token the service issued for a user, of which class, and the instant its lifetime ends. An
  id token is for the service's own audience, as the module wires it.
\<close>

definition issued ::
  "('w, time) prog \<Rightarrow> uuid_pkg \<Rightarrow> ('w, 'priv) jwt_pkg \<Rightarrow> 'priv jwt_service \<Rightarrow> user \<Rightarrow>
   token_class \<Rightarrow> time \<Rightarrow> string \<Rightarrow> bool" where
  "issued Now U J s u cls ending tok \<longleftrightarrow>
     (\<exists>w w' now. Now w = (Ret now, w) \<and>
        ((\<exists>ttl. cls = ClassAccess \<and> ending = time_Add now ttl \<and>
            IssueAccessToken Now U J s u ttl w = (Ret (Inr tok), w')) \<or>
         (cls = ClassMFA \<and> ending = time_Add now 300000000000 \<and>
            IssueMFAToken Now U J s u w = (Ret (Inr tok), w')) \<or>
         (cls = ClassID \<and> ending = time_Add now 900000000000 \<and>
            IssueIDToken Now U J s u (js_audience s) w = (Ret (Inr tok), w'))))"

definition utf8_user :: "uuid_pkg \<Rightarrow> user \<Rightarrow> bool" where
  "utf8_user U u \<longleftrightarrow>
     ValidString (uuid_String U (u_ID u)) \<and> ValidString (u_Email u) \<and> ValidString (u_Name u)"

lemmas class_defs = ClassAccess_def ClassMFA_def ClassID_def

lemma issued_minted:
  assumes "jwt_pkg_ok Now public_half J" and "service_ok public_half s" and "utf8_user U u"
    and "issued Now U J s u cls ending tok"
  obtains cl where "minted J s cl tok" "cl ''sub'' = Some (JString (uuid_String U (u_ID u)))"
    "cl ''cls'' = Some (JString cls)" "cl ''iss'' = Some (JString (js_issuer s))"
    "cl ''aud'' = Some (JString (js_audience s))" "cl ''exp'' = Some (JInt64 (Unix ending))"
    "cl ''nbf'' = None"
proof -
  note ok = service_okD [OF assms(2)]
  have ascii: "ValidString ''access''" "ValidString ''mfa''" "ValidString ''id''"
    "ValidString ''openid profile email''"
    by (simp_all add: ValidString_ascii byte_def)
  have utf8: "utf8_claims (access_claims U s u ttl now)" "utf8_claims (mfa_claims U s u now)"
    "utf8_claims (id_claims U s u (js_audience s) now)" for ttl now
    using assms(3) ok(6,7) ascii unfolding utf8_claims_def utf8_user_def class_defs
      access_claims_def mfa_claims_def id_claims_def by simp_all
  note minted = sign_minted [OF assms(1,2)]
  from assms(4) obtain w w' now where "Now w = (Ret now, w)" and
    "(\<exists>ttl. cls = ClassAccess \<and> ending = time_Add now ttl \<and>
        IssueAccessToken Now U J s u ttl w = (Ret (Inr tok), w')) \<or>
     (cls = ClassMFA \<and> ending = time_Add now 300000000000 \<and>
        IssueMFAToken Now U J s u w = (Ret (Inr tok), w')) \<or>
     (cls = ClassID \<and> ending = time_Add now 900000000000 \<and>
        IssueIDToken Now U J s u (js_audience s) w = (Ret (Inr tok), w'))"
    unfolding issued_def by blast
  then consider
      ttl where "cls = ClassAccess" "ending = time_Add now ttl"
        "sign J s (access_claims U s u ttl now) w = (Ret (Inr tok), w')"
    | "cls = ClassMFA" "ending = time_Add now 300000000000"
        "sign J s (mfa_claims U s u now) w = (Ret (Inr tok), w')"
    | "cls = ClassID" "ending = time_Add now 900000000000"
        "sign J s (id_claims U s u (js_audience s) now) w = (Ret (Inr tok), w')"
    by (auto simp: IssueAccessToken_def IssueMFAToken_def IssueIDToken_def bindp_def)
  then show thesis
  proof cases
    case 1
    show ?thesis by (rule that [OF minted [OF utf8(1) 1(3)]]) (simp_all add: access_claims_def 1)
  next
    case 2
    show ?thesis by (rule that [OF minted [OF utf8(2) 2(3)]]) (simp_all add: mfa_claims_def 2)
  next
    case 3
    show ?thesis by (rule that [OF minted [OF utf8(3) 3(3)]]) (simp_all add: id_claims_def 3)
  qed
qed

lemma issued_validates:
  assumes "jwt_pkg_ok Now public_half J" and "service_ok public_half s" and "service_ok public_half s'"
    and "utf8_user U u" and "issued Now U J s u cls ending tok"
    and "map_of (js_verificationKeys s') (js_signingKid s) = Some (js_publicKey s)"
    and "js_issuer s' = js_issuer s" and "js_audience s' = js_audience s"
    and "\<bar>Unix ending\<bar> < 2 ^ 53" and "1000000000 \<le> sint (js_leeway s')"
    and "Now w = (Ret now, w)" and "now < ending"
  shows "\<exists>r. Validate J s' tok want w = (Ret r, w) \<and>
    (if want = cls
     then \<exists>c. r = Inr c \<and> cl_Subject c = uuid_String U (u_ID u) \<and> cl_Class c = cls \<and>
            cl_ExpiresAt c = Unix ending
     else \<exists>e. r = Inl e \<and> errors_Is e ErrWrongTokenClass)"
proof -
  from issued_minted [OF assms(1,2,4,5)] obtain cl where
    cl: "minted J s cl tok" "cl ''sub'' = Some (JString (uuid_String U (u_ID u)))"
      "cl ''cls'' = Some (JString cls)" "cl ''iss'' = Some (JString (js_issuer s))"
      "cl ''aud'' = Some (JString (js_audience s))" "cl ''exp'' = Some (JInt64 (Unix ending))"
      "cl ''nbf'' = None" .
  have "now < unix_instant (Unix ending) + sint (js_leeway s')"
    using unix_instant_Unix [of ending] assms(10,12) by linarith
  from Validate_minted [OF assms(1,3,11) cl(1) assms(6) _ _ cl(6) assms(9) cl(7) this, of want]
  have "Validate J s' tok want w =
    (Ret (if cls = want then Inr (claims_of (wire_claims cl))
          else Inl (Errorf ''%w: got %q, want %q'' [OStr cls, OStr want] [ErrWrongTokenClass])), w)"
    using cl assms(7,8) by (simp add: wire_claims_apply getString_def)
  then show ?thesis
    using cl int64_float_round_trip [OF assms(9)]
    by (auto simp: claims_of_def wire_claims_apply getString_def getInt64_def)
qed

end
