(* ===== verification/AuthHttp.thy ===== *)
theory AuthHttp
  imports Http Token Auth
begin

text \<open>
  The HTTP layer of the identity module (\<open>modules/identity/transport\<close>) over the authentication
  contract of \<open>internal/authn\<close>: the middleware that turns a verified access token into a
  principal, the six handlers, the route table and the key set endpoint, and the audit stream
  adapter (\<open>infrastructure/auditlog\<close>, \<open>internal/audit\<close>). Decoding a JSON body is a parameter:
  from the text, the decoded request (possibly partly filled) and an error. Cloning the slices
  of a principal is not visible in values.
\<close>

section \<open>The caller of a request\<close>

definition WithPrincipal :: "http_request \<Rightarrow> principal \<Rightarrow> http_request" where
  "WithPrincipal r p = r\<lparr>rq_Principal := Some p\<rparr>"

definition FromContext :: "http_request \<Rightarrow> principal option" where
  "FromContext r = rq_Principal r"

definition MustFromContext :: "http_request \<Rightarrow> ('w, principal) prog" where
  "MustFromContext r =
     (case FromContext r of
        None \<Rightarrow> panicp ''authn: no Principal in context: this handler is not behind an authn.Middleware''
      | Some p \<Rightarrow>
          if pl_Subject p = [] then panicp ''authn: Principal in context has an empty Subject''
          else retp p)"

definition AuthRequired :: "'w token_issuer \<Rightarrow> 'w middleware" where
  "AuthRequired tokenIssuer nxt r =
     (let header = get_first (rq_Header r) ''Authorization'' in
      if \<not> has_prefix header ''Bearer '' then Unauthorized r
      else
        let tokenStr = trim_prefix header ''Bearer '' in
        bindp (in_world (tip_Validate tokenIssuer tokenStr ClassAccess)) (\<lambda>res.
        case res of
          Inl err \<Rightarrow> Unauthorized r
        | Inr claims \<Rightarrow>
            if cl_Subject claims = [] then Unauthorized r
            else nxt (WithPrincipal r
                   \<lparr>pl_Subject = cl_Subject claims, pl_Scopes = None, pl_Extra = None\<rparr>)))"

section \<open>Bodies\<close>

definition strings_json :: "string list \<Rightarrow> json" where
  "strings_json xs = JArr (map JStr xs)"

definition token_json :: "token_response \<Rightarrow> json" where
  "token_json t =
     JObj ([(''access_token'', JStr (tr_AccessToken t)), (''token_type'', JStr (tr_TokenType t)),
            (''expires_in'', JNum (tr_ExpiresIn t))] @
           omitempty ''refresh_token'' (tr_RefreshToken t) @
           omitempty ''id_token'' (tr_IDToken t) @ omitempty ''scope'' (tr_Scope t))"

definition user_json :: "user_dto \<Rightarrow> json" where
  "user_json u =
     JObj [(''id'', JStr (ud_ID u)), (''email'', JStr (ud_Email u)), (''name'', JStr (ud_Name u)),
           (''roles'', strings_json (ud_Roles u)), (''permissions'', strings_json (ud_Permissions u))]"

definition mfa_required_json :: "string \<Rightarrow> user_dto \<Rightarrow> json" where
  "mfa_required_json mfaToken u =
     JObj [(''mfa_required'', JBool True), (''mfa_token'', JStr mfaToken), (''user'', user_json u)]"

definition mfa_setup_json :: "mfa_setup_response \<Rightarrow> json" where
  "mfa_setup_json m = JObj [(''secret'', JStr (mr_Secret m)), (''qrCodeUrl'', JStr (mr_QRCodeURL m))]"

definition writeJSON :: "int \<Rightarrow> json \<Rightarrow> ('w web, unit) prog" where
  "writeJSON status v =
     bindp (header_Set ''Content-Type'' ''application/json'') (\<lambda>_.
     bindp (WriteHeader status) (\<lambda>_. Write_body (BJson v)))"

definition writeOAuth2Error :: "string \<Rightarrow> string \<Rightarrow> int \<Rightarrow> ('w web, unit) prog" where
  "writeOAuth2Error errCode description status =
     bindp (header_Set ''Content-Type'' ''application/json'') (\<lambda>_.
     bindp (WriteHeader status) (\<lambda>_.
     Write_body (BJson (JObj ((''error'', JStr errCode) # omitempty ''error_description'' description)))))"

definition writeProblemDetails :: "string \<Rightarrow> string \<Rightarrow> int \<Rightarrow> string \<Rightarrow> ('w web, unit) prog" where
  "writeProblemDetails typ title status detail =
     bindp (header_Set ''Content-Type'' ''application/problem+json'') (\<lambda>_.
     bindp (WriteHeader status) (\<lambda>_.
     Write_body (BJson (JObj [(''type'', JStr typ), (''title'', JStr title),
       (''status'', JNum status), (''detail'', JStr detail)]))))"

definition refresh_cookie :: "string \<Rightarrow> int \<Rightarrow> cookie" where
  "refresh_cookie v maxAge =
     \<lparr>ck_Name = ''refresh_token'', ck_Value = v, ck_Path = ''/'', ck_MaxAge = maxAge,
      ck_HttpOnly = True, ck_Secure = True, ck_SameSite = ''Strict''\<rparr>"

definition setRefreshCookie :: "string \<Rightarrow> duration \<Rightarrow> ('w web, unit) prog" where
  "setRefreshCookie tok ttl = SetCookie (refresh_cookie tok (Seconds_int ttl))"

definition clearRefreshCookie :: "('w web, unit) prog" where
  "clearRefreshCookie = SetCookie (refresh_cookie [] (- 1))"

record auth_bodies =
  ab_Login :: "string \<Rightarrow> login_request \<times> goerr option"
  ab_MfaVerifySetup :: "string \<Rightarrow> string \<times> goerr option"
  ab_MfaVerify :: "string \<Rightarrow> mfa_verify_request \<times> goerr option"
  ab_Refresh :: "string \<Rightarrow> string \<times> goerr option"

definition decode_body :: "(string \<Rightarrow> 'a \<times> goerr option) \<Rightarrow> http_request \<Rightarrow> ('w, 'a \<times> goerr option) prog" where
  "decode_body D r =
     (case rq_Body r of None \<Rightarrow> panicp ''nil pointer dereference'' | Some b \<Rightarrow> retp (D b))"

section \<open>The handlers\<close>

text \<open>The \<open>AuthService\<close> interface the handler depends on.\<close>

record 'w auth_api =
  aa_Login :: "login_request \<Rightarrow> ('w, login_error + token_response) prog"
  aa_Logout :: "string \<Rightarrow> ('w, goerr option) prog"
  aa_SetupMFA :: "string \<Rightarrow> ('w, goerr + mfa_setup_response) prog"
  aa_VerifyMFASetup :: "string \<Rightarrow> string \<Rightarrow> ('w, goerr + string list) prog"
  aa_VerifyMFA :: "string \<Rightarrow> mfa_verify_request \<Rightarrow> ('w, goerr + token_response) prog"
  aa_Refresh :: "string \<Rightarrow> ('w, goerr + token_response) prog"

record 'w auth_handler =
  ah_svc :: "'w auth_api"
  ah_refreshTTL :: duration
  ah_authMW :: "'w middleware"
  ah_keys :: "jwk list option"
  ah_bodies :: auth_bodies

definition hand_over_tokens :: "'w auth_handler \<Rightarrow> token_response \<Rightarrow> ('w web, unit) prog" where
  \<comment> \<open>the refresh token goes into the cookie and out of the body\<close>
  "hand_over_tokens h resp =
     bindp (setRefreshCookie (tr_RefreshToken resp) (ah_refreshTTL h)) (\<lambda>_.
       writeJSON 200 (token_json (resp\<lparr>tr_RefreshToken := []\<rparr>)))"

definition HandleLogin :: "'w auth_handler \<Rightarrow> 'w handler" where
  "HandleLogin h r =
     bindp (decode_body (ab_Login (ah_bodies h)) r) (\<lambda>(req, err).
     if err \<noteq> None then writeOAuth2Error ''invalid_request'' ''malformed request'' 400
     else bindp (in_world (aa_Login (ah_svc h) req)) (\<lambda>res.
     case res of
       Inl (MFARequired tok u) \<Rightarrow> writeJSON 202 (mfa_required_json tok u)
     | Inl (LoginErr e) \<Rightarrow>
         if errors_Is e ErrInvalidCredentials
         then writeOAuth2Error ''invalid_grant'' ''Invalid email or password'' 400
         else if errors_Is e ErrAccountLocked
         then writeProblemDetails ''account_locked'' ''Account locked'' 423 ''Too many failed attempts''
         else writeProblemDetails ''internal_error'' ''Internal server error'' 500 []
     | Inr resp \<Rightarrow> hand_over_tokens h resp))"

definition HandleLogout :: "'w auth_handler \<Rightarrow> 'w handler" where
  "HandleLogout h r =
     bindp (MustFromContext r) (\<lambda>p.
     bindp (in_world (aa_Logout (ah_svc h) (pl_Subject p))) (\<lambda>err.
     if err \<noteq> None then writeProblemDetails ''internal_error'' ''Logout failed'' 500 []
     else bindp clearRefreshCookie (\<lambda>_. WriteHeader 204)))"

definition MFASetup :: "'w auth_handler \<Rightarrow> 'w handler" where
  "MFASetup h r =
     bindp (MustFromContext r) (\<lambda>p.
     bindp (in_world (aa_SetupMFA (ah_svc h) (pl_Subject p))) (\<lambda>res.
     case res of
       Inl err \<Rightarrow> writeProblemDetails ''internal_error'' ''MFA setup failed'' 500 []
     | Inr resp \<Rightarrow> writeJSON 200 (mfa_setup_json resp)))"

definition MFAVerifySetup :: "'w auth_handler \<Rightarrow> 'w handler" where
  "MFAVerifySetup h r =
     bindp (MustFromContext r) (\<lambda>p.
     bindp (decode_body (ab_MfaVerifySetup (ah_bodies h)) r) (\<lambda>(code, err).
     if err \<noteq> None then writeProblemDetails ''bad_request'' ''Invalid request'' 400 []
     else bindp (in_world (aa_VerifyMFASetup (ah_svc h) (pl_Subject p) code)) (\<lambda>res.
     case res of
       Inl e \<Rightarrow>
         if errors_Is e ErrMFANotStarted
         then writeProblemDetails ''mfa_not_started'' ''Call /auth/mfa/setup before confirming'' 400 []
         else if e = ErrInvalidMFACode
         then writeProblemDetails ''invalid_code'' ''Invalid TOTP code'' 400 []
         else writeProblemDetails ''internal_error'' ''Verification failed'' 500 []
     | Inr codes \<Rightarrow> writeJSON 200 (JObj [(''backup_codes'', strings_json codes)]))))"

definition MFAVerify :: "'w auth_handler \<Rightarrow> 'w handler" where
  "MFAVerify h r =
     (let authHeader = get_first (rq_Header r) ''Authorization'' in
      if \<not> has_prefix authHeader ''Bearer ''
      then writeOAuth2Error ''invalid_request'' ''Missing mfa token'' 401
      else
        let mfaToken = trim_prefix authHeader ''Bearer '' in
        bindp (decode_body (ab_MfaVerify (ah_bodies h)) r) (\<lambda>(req, err).
        if err \<noteq> None then writeOAuth2Error ''invalid_request'' ''Invalid body'' 400
        else bindp (in_world (aa_VerifyMFA (ah_svc h) mfaToken req)) (\<lambda>res.
        case res of
          Inl e \<Rightarrow>
            if errors_Is e ErrInvalidMFAToken
            then writeOAuth2Error ''invalid_token'' ''Invalid MFA token'' 401
            else if errors_Is e ErrInvalidMFACode
            then writeOAuth2Error ''invalid_grant'' ''Invalid code'' 400
            else writeOAuth2Error ''server_error'' ''Internal error'' 500
        | Inr resp \<Rightarrow> hand_over_tokens h resp)))"

definition presented_token :: "'w auth_handler \<Rightarrow> http_request \<Rightarrow> string" where
  \<comment> \<open>the body's refresh token, or the cookie's; a malformed body is no error\<close>
  "presented_token h r =
     (let inBody = (case rq_Body r of None \<Rightarrow> [] | Some b \<Rightarrow> fst (ab_Refresh (ah_bodies h) b)) in
      if inBody = [] then (case map_of (rq_Cookies r) ''refresh_token'' of None \<Rightarrow> [] | Some v \<Rightarrow> v)
      else inBody)"

definition HandleRefresh :: "'w auth_handler \<Rightarrow> 'w handler" where
  "HandleRefresh h r =
     (let refreshToken = presented_token h r in
      if refreshToken = [] then writeOAuth2Error ''invalid_request'' ''refresh token missing'' 400
      else bindp (in_world (aa_Refresh (ah_svc h) refreshToken)) (\<lambda>res.
      case res of
        Inl e \<Rightarrow>
          if errors_Is e ErrRefreshTokenInvalid
          then writeOAuth2Error ''invalid_grant'' ''Invalid or expired refresh token'' 400
          else writeProblemDetails ''internal_error'' ''Internal error'' 500 []
      | Inr resp \<Rightarrow> hand_over_tokens h resp))"

section \<open>Routes\<close>

definition jwk_json :: "jwk \<Rightarrow> json" where
  "jwk_json k =
     JObj [(''kty'', JStr (jk_Kty k)), (''use'', JStr (jk_Use k)), (''alg'', JStr (jk_Alg k)),
           (''kid'', JStr (jk_Kid k)), (''n'', JStr (jk_N k)), (''e'', JStr (jk_E k))]"

definition JWKSHandler :: "jwk list \<Rightarrow> 'w handler" where
  "JWKSHandler keys r =
     bindp (header_Set ''Content-Type'' ''application/jwk-set+json'') (\<lambda>_.
     bindp (header_Set ''Cache-Control'' ''public, max-age=300'') (\<lambda>_.
     bindp (WriteHeader 200) (\<lambda>_.
     Write_body (BJson (JObj [(''keys'', JArr (map jwk_json keys))])))))"

text \<open>A route is a method, a path below the mount point and what serves it.\<close>

type_synonym 'w route = "string \<times> string \<times> 'w handler"

definition AuthRoutes :: "'w auth_handler \<Rightarrow> 'w route list" where
  "AuthRoutes h =
     [(''POST'', ''/auth/login'', HandleLogin h),
      (''POST'', ''/auth/refresh'', HandleRefresh h),
      (''POST'', ''/auth/mfa/verify'', MFAVerify h),
      (''POST'', ''/auth/logout'', ah_authMW h (HandleLogout h)),
      (''POST'', ''/auth/mfa/setup'', ah_authMW h (MFASetup h)),
      (''POST'', ''/auth/mfa/setup/verify'', ah_authMW h (MFAVerifySetup h))] @
     (case ah_keys h of None \<Rightarrow> [] | Some keys \<Rightarrow> [(''GET'', ''/.well-known/jwks.json'', JWKSHandler keys)])"

end
