(* ===== verification/Profile.thy ===== *)
theory Profile
  imports AuthHttp Sql
begin

text \<open>
  The user module (\<open>modules/user\<close>): the profile of an authenticated identity, its repository over
  the table \<open>users\<close>, the two use cases, the handlers and the route table. The world holds the
  profile rows, the ids of \<open>auth_users\<close> their foreign key refers to, and the script of statement
  environments of Sql.
\<close>

section \<open>The profile and its table\<close>

record profile =
  pf_ID :: uuid
  pf_CreatedAt :: time
  pf_UpdatedAt :: time

definition ErrUserNotFound :: goerr where
  "ErrUserNotFound = New ''user not found''"

record profile_row =
  pw_ID :: uuid
  pw_CreatedAt :: time
  pw_UpdatedAt :: time

record profile_db =
  pd_users :: "profile_row list"
  pd_identities :: "uuid list"
  pd_env :: "stmt_env list"

definition toDomain_profile :: "profile_row \<Rightarrow> profile" where
  "toDomain_profile row =
     \<lparr>pf_ID = pw_ID row, pf_CreatedAt = pw_CreatedAt row, pf_UpdatedAt = pw_UpdatedAt row\<rparr>"

definition next_profile_stmt :: "'e profile_db_scheme \<Rightarrow> stmt_env \<times> 'e profile_db_scheme" where
  "next_profile_stmt db =
     (case pd_env db of [] \<Rightarrow> (quiet, db) | e # es \<Rightarrow> (e, db\<lparr>pd_env := es\<rparr>))"

definition profile_fk_error :: goerr where
  "profile_fk_error = PgError pgCodeForeignKeyViolation ''users_id_fkey''"

definition profiles_EnsureExists :: "uuid \<Rightarrow> ('e profile_db_scheme, goerr option) prog" where
  \<comment> \<open>one statement; the column defaults are the transaction's \<open>now()\<close>\<close>
  "profiles_EnsureExists i db =
     (case next_profile_stmt db of (env, db) \<Rightarrow>
        (case se_fault env of
           Some err \<Rightarrow> (Ret (Some (Translate_err err)), db)
         | None \<Rightarrow>
             if i \<in> pw_ID ` set (pd_users db) then (Ret None, db)
             else if i \<notin> set (pd_identities db) then (Ret (Some (Translate_err profile_fk_error)), db)
             else (Ret None, db\<lparr>pd_users := pd_users db @
                     [\<lparr>pw_ID = i, pw_CreatedAt = se_now env, pw_UpdatedAt = se_now env\<rparr>]\<rparr>)))"

definition profiles_GetByID :: "uuid \<Rightarrow> ('e profile_db_scheme, goerr + profile option) prog" where
  "profiles_GetByID i db =
     (case next_profile_stmt db of (env, db) \<Rightarrow>
        (case (case se_fault env of
                 Some err \<Rightarrow> Inl err
               | None \<Rightarrow> (case find (\<lambda>row. pw_ID row = i) (pd_users db) of
                   None \<Rightarrow> Inl sql_ErrNoRows | Some row \<Rightarrow> Inr row)) of
           Inl err \<Rightarrow>
             if errors_Is err sql_ErrNoRows then (Ret (Inl ErrUserNotFound), db)
             else (Ret (Inl (Translate_err err)), db)
         | Inr row \<Rightarrow> (Ret (Inr (Some (toDomain_profile row))), db)))"

section \<open>The use cases\<close>

record 'w profile_repository =
  pr_EnsureExists :: "uuid \<Rightarrow> ('w, goerr option) prog"
  pr_GetByID :: "uuid \<Rightarrow> ('w, goerr + profile option) prog"

record user_response =
  us_ID :: uuid
  us_CreatedAt :: time
  us_UpdatedAt :: time

definition ToUserResponse :: "profile \<Rightarrow> user_response" where
  "ToUserResponse u = \<lparr>us_ID = pf_ID u, us_CreatedAt = pf_CreatedAt u, us_UpdatedAt = pf_UpdatedAt u\<rparr>"

definition GetOwnProfile :: "'w profile_repository \<Rightarrow> uuid \<Rightarrow> ('w, goerr + user_response) prog" where
  "GetOwnProfile R who =
     bindp (pr_GetByID R who) (\<lambda>r.
       case r of
         Inl err \<Rightarrow> retp (Inl err)
       | Inr None \<Rightarrow> retp (Inl ErrUserNotFound)
       | Inr (Some u) \<Rightarrow> retp (Inr (ToUserResponse u)))"

definition EnsureOwnProfile :: "'w profile_repository \<Rightarrow> uuid \<Rightarrow> ('w, goerr + user_response) prog" where
  "EnsureOwnProfile R who =
     bindp (pr_EnsureExists R who) (\<lambda>err.
       case err of Some e \<Rightarrow> retp (Inl e) | None \<Rightarrow> GetOwnProfile R who)"

section \<open>The HTTP layer\<close>

record 'w user_api =
  ua_EnsureOwnProfile :: "uuid \<Rightarrow> ('w, goerr + user_response) prog"
  ua_GetOwnProfile :: "uuid \<Rightarrow> ('w, goerr + user_response) prog"

record 'w user_handler =
  uh_svc :: "'w user_api"
  uh_authMW :: "'w middleware"
  uh_uuid :: uuid_pkg
  uh_time :: "time \<Rightarrow> string"

definition user_response_json :: "'w user_handler \<Rightarrow> user_response \<Rightarrow> json" where
  "user_response_json h u =
     JObj [(''id'', JStr (uuid_String (uh_uuid h) (us_ID u))),
           (''created_at'', JStr (uh_time h (us_CreatedAt u))),
           (''updated_at'', JStr (uh_time h (us_UpdatedAt u)))]"

definition profile_caller :: "uuid_pkg \<Rightarrow> http_request \<Rightarrow> uuid option" where
  "profile_caller U r =
     (case FromContext r of
        None \<Rightarrow> None
      | Some p \<Rightarrow> (case uuid_Parse U (pl_Subject p) of Inl _ \<Rightarrow> None | Inr i \<Rightarrow> Some i))"

definition write_profile :: "int \<Rightarrow> json \<Rightarrow> ('w web, unit) prog" where
  "write_profile status v =
     bindp (header_Set ''Content-Type'' ''application/json'') (\<lambda>_.
     bindp (WriteHeader status) (\<lambda>_. Write_body (BJson v)))"

definition HandleEnsureOwnProfile :: "'w user_handler \<Rightarrow> 'w handler" where
  "HandleEnsureOwnProfile h r =
     (case profile_caller (uh_uuid h) r of
        None \<Rightarrow> Unauthorized r
      | Some i \<Rightarrow>
          bindp (in_world (ua_EnsureOwnProfile (uh_svc h) i)) (\<lambda>res.
          case res of
            Inl err \<Rightarrow> WriteProblem r 500 ''internal_error'' ''Internal Server Error''
              ''The profile could not be created.''
          | Inr resp \<Rightarrow> write_profile 200 (user_response_json h resp)))"

definition HandleGetOwnProfile :: "'w user_handler \<Rightarrow> 'w handler" where
  "HandleGetOwnProfile h r =
     (case profile_caller (uh_uuid h) r of
        None \<Rightarrow> Unauthorized r
      | Some i \<Rightarrow>
          bindp (in_world (ua_GetOwnProfile (uh_svc h) i)) (\<lambda>res.
          case res of
            Inl err \<Rightarrow>
              if errors_Is err ErrUserNotFound
              then WriteProblem r 404 ''not_found'' ''Not Found'' ''You have no profile yet.''
              else WriteProblem r 500 ''internal_error'' ''Internal Server Error''
                ''The profile could not be retrieved.''
          | Inr resp \<Rightarrow> write_profile 200 (user_response_json h resp)))"

definition UserRoutes :: "'w user_handler \<Rightarrow> (string \<times> string \<times> 'w handler) list" where
  "UserRoutes h =
     [(''POST'', ''/users/me'', uh_authMW h (HandleEnsureOwnProfile h)),
      (''GET'', ''/users/me'', uh_authMW h (HandleGetOwnProfile h))]"

text \<open>The module, over the table: no middleware, no module.\<close>

definition profile_repo :: "'e profile_db_scheme profile_repository" where
  "profile_repo = \<lparr>pr_EnsureExists = profiles_EnsureExists, pr_GetByID = profiles_GetByID\<rparr>"

definition NewUserService :: "'w profile_repository \<Rightarrow> 'w user_api" where
  "NewUserService R = \<lparr>ua_EnsureOwnProfile = EnsureOwnProfile R, ua_GetOwnProfile = GetOwnProfile R\<rparr>"

definition user_Validate :: "'w middleware option \<Rightarrow> goerr option" where
  "user_Validate authMW = (if authMW = None then Some (New ''user: auth middleware is required'') else None)"

definition NewUserModule ::
  "'w profile_repository \<Rightarrow> uuid_pkg \<Rightarrow> (time \<Rightarrow> string) \<Rightarrow> 'w middleware option \<Rightarrow>
   goerr + 'w user_handler" where
  \<comment> \<open>over the repository of the host's handle\<close>
  "NewUserModule R U fmt authMW =
     (case user_Validate authMW of
        Some err \<Rightarrow> Inl (Errorf ''user: invalid config: %w'' [] [err])
      | None \<Rightarrow> Inr \<lparr>uh_svc = NewUserService R, uh_authMW = the authMW, uh_uuid = U, uh_time = fmt\<rparr>)"

section \<open>The store of profiles\<close>

text \<open>The abstract content of the table, and its invariant: one profile per id, each of an identity.\<close>

definition profile_at :: "'e profile_db_scheme \<Rightarrow> uuid \<Rightarrow> profile option" where
  "profile_at db i = map_option toDomain_profile (find (\<lambda>row. pw_ID row = i) (pd_users db))"

definition profiles_inv :: "'e profile_db_scheme \<Rightarrow> bool" where
  "profiles_inv db \<longleftrightarrow>
     distinct (map pw_ID (pd_users db)) \<and> pw_ID ` set (pd_users db) \<subseteq> set (pd_identities db)"

lemma profile_at_None: "profile_at db i = None \<longleftrightarrow> i \<notin> pw_ID ` set (pd_users db)"
  by (auto simp: profile_at_def find_None_iff)

lemma profile_at_ID: "profile_at db i = Some p \<Longrightarrow> pf_ID p = i"
  by (auto simp: profile_at_def toDomain_profile_def dest!: find_Some_mem)

lemma find_append_other: "j \<noteq> pw_ID x \<Longrightarrow> find (\<lambda>row. pw_ID row = j) (rows @ [x]) = find (\<lambda>row. pw_ID row = j) rows"
  by (induction rows) auto

lemma find_append_new:
  "pw_ID x \<notin> pw_ID ` set rows \<Longrightarrow> find (\<lambda>row. pw_ID row = pw_ID x) (rows @ [x]) = Some x"
  by (induction rows) auto

lemma profiles_EnsureExists_cases:
  assumes "profiles_EnsureExists i db = (r, db')"
  shows "(\<exists>e. r = Ret (Some e) \<and> profile_at db' = profile_at db \<and> pd_users db' = pd_users db) \<or>
    (r = Ret None \<and> profile_at db i \<noteq> None \<and> profile_at db' = profile_at db \<and> pd_users db' = pd_users db) \<or>
    (r = Ret None \<and> profile_at db i = None \<and> i \<in> set (pd_identities db) \<and>
      (\<exists>t. profile_at db' = (profile_at db)(i \<mapsto> \<lparr>pf_ID = i, pf_CreatedAt = t, pf_UpdatedAt = t\<rparr>) \<and>
        pd_users db' = pd_users db @ [\<lparr>pw_ID = i, pw_CreatedAt = t, pw_UpdatedAt = t\<rparr>]))"
proof (cases "next_profile_stmt db")
  case (Pair env db1)
  then have same: "pd_users db1 = pd_users db" "pd_identities db1 = pd_identities db"
    by (auto simp: next_profile_stmt_def split: list.splits)
  then have at: "profile_at db1 = profile_at db" by (simp add: profile_at_def fun_eq_iff)
  let ?row = "\<lparr>pw_ID = i, pw_CreatedAt = se_now env, pw_UpdatedAt = se_now env\<rparr>"
  have new: "profile_at (db1\<lparr>pd_users := pd_users db1 @ [?row]\<rparr>) =
      (profile_at db)(i \<mapsto> \<lparr>pf_ID = i, pf_CreatedAt = se_now env, pf_UpdatedAt = se_now env\<rparr>)"
    if "profile_at db i = None"
  proof
    fix j
    show "profile_at (db1\<lparr>pd_users := pd_users db1 @ [?row]\<rparr>) j =
      ((profile_at db)(i \<mapsto> \<lparr>pf_ID = i, pf_CreatedAt = se_now env, pf_UpdatedAt = se_now env\<rparr>)) j"
    proof (cases "j = i")
      case True
      with that find_append_new [of ?row "pd_users db"] show ?thesis
        by (simp add: same profile_at_None) (simp add: profile_at_def toDomain_profile_def)
    next
      case False
      with find_append_other [of j ?row "pd_users db"] show ?thesis by (simp add: same profile_at_def)
    qed
  qed
  have none: "profile_at db i = None \<longleftrightarrow> i \<notin> pw_ID ` set (pd_users db1)"
    by (simp add: profile_at_None same)
  show ?thesis
  proof (cases "se_fault env")
    case (Some err)
    with assms Pair same at show ?thesis by (auto simp: profiles_EnsureExists_def)
  next
    case None
    with assms Pair have run: "(r, db') =
        (if profile_at db i \<noteq> None then (Ret None, db1)
         else if i \<notin> set (pd_identities db1) then (Ret (Some (Translate_err profile_fk_error)), db1)
         else (Ret None, db1\<lparr>pd_users := pd_users db1 @ [?row]\<rparr>))"
      by (simp add: profiles_EnsureExists_def none)
    show ?thesis
    proof (cases "profile_at db i")
      case None
      with run new same at show ?thesis by (auto split: if_splits)
    qed (use run same at in auto)
  qed
qed

lemma profiles_GetByID_cases:
  assumes "profiles_GetByID i db = (r, db')"
  shows "pd_users db' = pd_users db \<and> pd_identities db' = pd_identities db \<and> profile_at db' = profile_at db \<and>
    ((\<exists>e. r = Ret (Inl e)) \<or> (\<exists>p. r = Ret (Inr (Some p)) \<and> profile_at db i = Some p))"
proof (cases "next_profile_stmt db")
  case (Pair env db1)
  then have same: "pd_users db1 = pd_users db" "pd_identities db1 = pd_identities db"
    by (auto simp: next_profile_stmt_def split: list.splits)
  then have "profile_at db1 = profile_at db" by (simp add: profile_at_def fun_eq_iff)
  with assms Pair same show ?thesis
    by (auto simp: profiles_GetByID_def profile_at_def split: option.splits if_splits sum.splits)
qed

lemma EnsureOwnProfile_run:
  assumes "EnsureOwnProfile profile_repo i db = (Ret (Inr u), db')"
  shows "\<exists>p. profile_at db' i = Some p \<and> u = ToUserResponse p \<and>
    (\<forall>j. j \<noteq> i \<longrightarrow> profile_at db' j = profile_at db j) \<and> (\<forall>q. profile_at db i = Some q \<longrightarrow> p = q)"
proof -
  obtain db1 where ens: "profiles_EnsureExists i db = (Ret None, db1)"
    and got: "GetOwnProfile profile_repo i db1 = (Ret (Inr u), db')"
    using assms by (auto simp: EnsureOwnProfile_def profile_repo_def elim!: bindp_RetE split: option.splits)
  obtain p where p: "profiles_GetByID i db1 = (Ret (Inr (Some p)), db')" "u = ToUserResponse p"
    using got by (auto simp: GetOwnProfile_def profile_repo_def elim!: bindp_RetE split: sum.splits option.splits)
  from profiles_GetByID_cases [OF p(1)] have "profile_at db' = profile_at db1" "profile_at db1 i = Some p"
    by auto
  with profiles_EnsureExists_cases [OF ens] p(2) show ?thesis by auto
qed

text \<open>Without faults of the driver, an identity has its profile after one call.\<close>

definition no_faults :: "'e profile_db_scheme \<Rightarrow> bool" where
  "no_faults db \<longleftrightarrow> (\<forall>e \<in> set (pd_env db). se_fault e = None)"

lemma no_faults_stmt:
  assumes "no_faults db"
  obtains env db1 where "next_profile_stmt db = (env, db1)" "se_fault env = None" "no_faults db1"
    "pd_users db1 = pd_users db" "pd_identities db1 = pd_identities db"
proof (cases "pd_env db")
  case Nil
  then show ?thesis using assms that [of quiet db] by (simp add: next_profile_stmt_def quiet_def)
next
  case (Cons e es)
  then show ?thesis using assms that [of e "db\<lparr>pd_env := es\<rparr>"]
    by (simp add: next_profile_stmt_def no_faults_def)
qed

lemma EnsureOwnProfile_ok:
  assumes "no_faults db" and "i \<in> set (pd_identities db)"
  shows "\<exists>u db'. EnsureOwnProfile profile_repo i db = (Ret (Inr u), db') \<and> no_faults db' \<and>
    pd_identities db' = pd_identities db"
proof -
  obtain env db1 where nx: "next_profile_stmt db = (env, db1)" "se_fault env = None" "no_faults db1"
      "pd_users db1 = pd_users db" "pd_identities db1 = pd_identities db"
    using assms(1) by (rule no_faults_stmt)
  have "\<exists>db2. profiles_EnsureExists i db = (Ret None, db2) \<and> no_faults db2 \<and>
      i \<in> pw_ID ` set (pd_users db2) \<and> pd_identities db2 = pd_identities db"
    using nx assms(2) by (auto simp: profiles_EnsureExists_def no_faults_def)
  then obtain db2 where db2: "profiles_EnsureExists i db = (Ret None, db2)" "no_faults db2"
      "i \<in> pw_ID ` set (pd_users db2)" "pd_identities db2 = pd_identities db" by blast
  obtain env2 db3 where nx2: "next_profile_stmt db2 = (env2, db3)" "se_fault env2 = None" "no_faults db3"
      "pd_users db3 = pd_users db2" "pd_identities db3 = pd_identities db2"
    using db2(2) by (rule no_faults_stmt)
  obtain row where "find (\<lambda>row. pw_ID row = i) (pd_users db2) = Some row"
    using db2(3) by (cases "find (\<lambda>row. pw_ID row = i) (pd_users db2)") (auto simp: find_None_iff)
  with nx2 have "profiles_GetByID i db2 = (Ret (Inr (Some (toDomain_profile row))), db3)"
    by (simp add: profiles_GetByID_def)
  with db2 nx2 show ?thesis
    by (simp add: EnsureOwnProfile_def GetOwnProfile_def profile_repo_def bindp_def)
qed

lemma profiles_inv_EnsureExists:
  assumes "profiles_inv db" and "profiles_EnsureExists i db = (r, db')"
  shows "profiles_inv db'"
proof -
  have "pd_identities db' = pd_identities db"
    using assms(2) by (auto simp: profiles_EnsureExists_def next_profile_stmt_def split: prod.splits
        list.splits option.splits if_splits)
  moreover consider "pd_users db' = pd_users db"
    | t where "i \<in> set (pd_identities db)" "profile_at db i = None"
        "pd_users db' = pd_users db @ [\<lparr>pw_ID = i, pw_CreatedAt = t, pw_UpdatedAt = t\<rparr>]"
    using profiles_EnsureExists_cases [OF assms(2)] by blast
  then show ?thesis
    using assms(1) calculation by cases (auto simp: profiles_inv_def profile_at_None image_iff)
qed

end
