(* ===== verification/AppStore.thy ===== *)
theory AppStore
  imports IdentityStore NotificationModule Profile
begin

text \<open>
  One database for the modules. The world of the assembled application holds the identity tables and
  a script that has, beside the identity statements', the outbox with its own, the profile rows with
  theirs, and the lines the composition root logs. A repository of a module works on its part of it;
  the foreign key of the profiles refers to the accounts of the same world. The contract of the
  notification service carries over from the part to the whole.
\<close>

section \<open>Programs on a part of the world\<close>

definition zoom :: "('w \<Rightarrow> 'v) \<Rightarrow> ('v \<Rightarrow> 'w \<Rightarrow> 'w) \<Rightarrow> ('v, 'a) prog \<Rightarrow> ('w, 'a) prog" where
  "zoom get put p w = (case p (get w) of (r, v) \<Rightarrow> (r, put v w))"

lemma zoom_Ret: "zoom get put p w = (Ret r, w') \<longleftrightarrow> (\<exists>v. p (get w) = (Ret r, v) \<and> w' = put v w)"
  by (auto simp: zoom_def split: prod.splits)

lemma zoom_run: "zoom get put p w = (r, w') \<longleftrightarrow> (\<exists>v. p (get w) = (r, v) \<and> w' = put v w)"
  by (auto simp: zoom_def split: prod.splits)

definition zoom_preferences ::
  "('w \<Rightarrow> 'v) \<Rightarrow> ('v \<Rightarrow> 'w \<Rightarrow> 'w) \<Rightarrow> 'v preference_repository \<Rightarrow> 'w preference_repository" where
  "zoom_preferences get put P =
     \<lparr>prp_ListForUser = (\<lambda>u. zoom get put (prp_ListForUser P u)),
      prp_Upsert = (\<lambda>ps. zoom get put (prp_Upsert P ps))\<rparr>"

definition zoom_notifications ::
  "('w \<Rightarrow> 'v) \<Rightarrow> ('v \<Rightarrow> 'w \<Rightarrow> 'w) \<Rightarrow> 'v notification_repository \<Rightarrow> 'w notification_repository" where
  "zoom_notifications get put R =
     \<lparr>nrp_Enqueue = (\<lambda>n. zoom get put (nrp_Enqueue R n)),
      nrp_ClaimBatch = (\<lambda>k now. zoom get put (nrp_ClaimBatch R k now)),
      nrp_ClaimStalled = (\<lambda>k t now. zoom get put (nrp_ClaimStalled R k t now)),
      nrp_Save = (\<lambda>n. zoom get put (nrp_Save R n)),
      nrp_ListForRecipient = (\<lambda>u f. zoom get put (nrp_ListForRecipient R u f)),
      nrp_MarkRead = (\<lambda>u i now. zoom get put (nrp_MarkRead R u i now)),
      nrp_MarkAllRead = (\<lambda>u now. zoom get put (nrp_MarkAllRead R u now))\<rparr>"

text \<open>The contract of the notification service over a part of a world holds of the whole.\<close>

lemma zoom_repository_sel [simp]:
  "nrp_Enqueue (zoom_notifications get put R) n = zoom get put (nrp_Enqueue R n)"
  "prp_ListForUser (zoom_preferences get put P) u = zoom get put (prp_ListForUser P u)"
  "prp_Upsert (zoom_preferences get put P) ps = zoom get put (prp_Upsert P ps)"
  by (simp_all add: zoom_notifications_def zoom_preferences_def)

locale zoomed_service = service_ports R P I ent decision
  for R :: "'v notification_repository" and P :: "'v preference_repository"
    and I :: "'v \<Rightarrow> bool" and ent :: "'v \<Rightarrow> store"
    and decision :: "'v \<Rightarrow> uuid \<Rightarrow> channel \<Rightarrow> category \<Rightarrow> bool option" +
  fixes get :: "'w \<Rightarrow> 'v" and put :: "'v \<Rightarrow> 'w \<Rightarrow> 'w"
  assumes get_put: "get (put v w) = v"

sublocale zoomed_service \<subseteq> whole: service_ports "zoom_notifications get put R" "zoom_preferences get put P"
    "\<lambda>w. I (get w)" "\<lambda>w. ent (get w)" "\<lambda>w. decision (get w)"
proof
  fix w n w' e i j m m' u ps ch cat r
  assume I: "I (get w)"
  show "\<exists>r w'. nrp_Enqueue (zoom_notifications get put R) (Some n) w = (Ret r, w') \<and> I (get w')"
    using enq.enqueue_total [OF I, of n] by (auto simp: zoom_Ret get_put)
  show "ent (get w) (n_ID n) = None \<and> ent (get w') = (ent (get w))(n_ID n \<mapsto> n)"
    if "n_ID n \<noteq> uuid_Nil" "n_Status n = StatusPending" "n_CreatedAt n \<noteq> 0" "n_NextAttemptAt n \<noteq> 0"
      "n_Payload n \<noteq> None" "nrp_Enqueue (zoom_notifications get put R) (Some n) w = (Ret None, w')"
    using enq.enqueue_ok [OF I that(1-5)] that(6) by (auto simp: zoom_Ret get_put)
  show "ent (get w') = ent (get w) \<and> n_IdempotencyKey n \<noteq> [] \<and>
      (\<exists>i m. ent (get w) i = Some m \<and> n_IdempotencyKey m = n_IdempotencyKey n)"
    if "nrp_Enqueue (zoom_notifications get put R) (Some n) w = (Ret (Some e), w')"
      "errors_Is e ErrDuplicateIdempotencyKey"
    using enq.enqueue_dup [OF I] that by (auto simp: zoom_Ret get_put)
  show "ent (get w') i = Some m" if "nrp_Enqueue (zoom_notifications get put R) (Some n) w = (q, w')"
      "ent (get w) i = Some m" for q
    using enq.enqueue_grows [OF I] that by (auto simp: zoom_run get_put)
  show "i = j" if "ent (get w) i = Some m" "ent (get w) j = Some m'"
    "n_IdempotencyKey m \<noteq> []" "n_IdempotencyKey m' = n_IdempotencyKey m"
    by (rule enq.keys_unique [OF I that])
  show "\<exists>r w'. prp_ListForUser (zoom_preferences get put P) u w = (Ret r, w') \<and> I (get w') \<and>
      decision (get w') = decision (get w)"
    using prefp.list_total [OF I, of u] by (auto simp: zoom_Ret get_put)
  show "stored_enabled ps ch cat = (decision (get w) u ch cat \<noteq> Some False)"
    if "prp_ListForUser (zoom_preferences get put P) u w = (Ret (Inr ps), w')"
    using prefp.list_ok [OF I] that by (auto simp: zoom_Ret)
  show "\<exists>r w'. prp_Upsert (zoom_preferences get put P) ps w = (Ret r, w') \<and> I (get w')"
    using prefp.upsert_total [OF I, of ps] by (auto simp: zoom_Ret get_put)
  show "decision (get w') u ch cat =
        (case find (\<lambda>p. p_UserID p = u \<and> p_Channel p = ch \<and> p_Category p = cat) ps of
           Some p \<Rightarrow> Some (p_Enabled p) | None \<Rightarrow> decision (get w) u ch cat)"
    if "prp_Upsert (zoom_preferences get put P) ps w = (Ret None, w')"
    using prefp.upsert_ok [OF I] that by (auto simp: zoom_Ret get_put)
  show "decision (get w') = decision (get w)"
    if "prp_Upsert (zoom_preferences get put P) ps w = (Ret (Some e), w')"
    using prefp.upsert_err [OF I] that by (auto simp: zoom_Ret get_put)
  show "ent (get w') = ent (get w)" if "prp_ListForUser (zoom_preferences get put P) u w = (r, w')"
    using list_ent [OF I] that by (auto simp: zoom_run get_put)
qed

section \<open>The application's database\<close>

datatype app_line =
    NotAUUID goerr string string
  | EnqueueFailed goerr string channel string
  | ModulesRegistered "string list"

record app_script = id_script +
  ap_outbox :: outbox_db
  ap_profiles :: "profile_row list"
  ap_profile_env :: "stmt_env list"
  ap_log :: "app_line list"

type_synonym 'e app_world = "id_tables \<times> 'e app_script_scheme"

definition get_outbox :: "'e app_world \<Rightarrow> outbox_db" where
  "get_outbox w = ap_outbox (snd w)"

definition put_outbox :: "outbox_db \<Rightarrow> 'e app_world \<Rightarrow> 'e app_world" where
  "put_outbox db w = (fst w, (snd w)\<lparr>ap_outbox := db\<rparr>)"

definition get_profiles :: "'e app_world \<Rightarrow> profile_db" where
  \<comment> \<open>\<open>users.id\<close> references \<open>auth_users.id\<close>\<close>
  "get_profiles w =
     \<lparr>pd_users = ap_profiles (snd w), pd_identities = map ur_ID (it_users (fst w)),
      pd_env = ap_profile_env (snd w)\<rparr>"

definition put_profiles :: "profile_db \<Rightarrow> 'e app_world \<Rightarrow> 'e app_world" where
  \<comment> \<open>a profile statement never writes the accounts\<close>
  "put_profiles db w = (fst w, (snd w)\<lparr>ap_profiles := pd_users db, ap_profile_env := pd_env db\<rparr>)"

definition log_line :: "app_line \<Rightarrow> ('e app_world, unit) prog" where
  "log_line l w = (Ret (), (fst w, (snd w)\<lparr>ap_log := ap_log (snd w) @ [l]\<rparr>))"

definition app_notifications :: "'e app_world notification_repository" where
  "app_notifications = zoom_notifications get_outbox put_outbox outbox_repo"

definition app_preferences :: "'e app_world preference_repository" where
  "app_preferences = zoom_preferences get_outbox put_outbox prefs_repo"

definition app_profiles :: "'e app_world profile_repository" where
  "app_profiles =
     \<lparr>pr_EnsureExists = (\<lambda>i. zoom get_profiles put_profiles (profiles_EnsureExists i)),
      pr_GetByID = (\<lambda>i. zoom get_profiles put_profiles (profiles_GetByID i))\<rparr>"

lemma get_put_outbox [simp]: "get_outbox (put_outbox db w) = db"
  by (simp add: get_outbox_def put_outbox_def)

lemma put_outbox_accounts [simp]: "fst (put_outbox db w) = fst w"
  by (simp add: put_outbox_def)

lemma get_outbox_log [simp]: "get_outbox (fst w, (snd w)\<lparr>ap_log := l\<rparr>) = get_outbox w"
  by (simp add: get_outbox_def)

interpretation app: zoomed_service outbox_repo prefs_repo store_ok entities decision_at get_outbox put_outbox
  by unfold_locales simp

text \<open>
  A profile statement of the module, run on the part, leaves the accounts as they are, so writing
  the part back loses nothing.
\<close>

lemma profiles_keep_identities:
  "profiles_EnsureExists i db = (r, db') \<Longrightarrow> pd_identities db' = pd_identities db"
  "profiles_GetByID i db = (q, db') \<Longrightarrow> pd_identities db' = pd_identities db"
  by (auto simp: profiles_EnsureExists_def profiles_GetByID_def next_profile_stmt_def
      split: prod.splits list.splits option.splits sum.splits if_splits)

lemma get_put_profiles:
  "pd_identities db = pd_identities (get_profiles w) \<Longrightarrow> get_profiles (put_profiles db w) = db"
  by (simp add: get_profiles_def put_profiles_def)

end
