(* ===== verification/GoTime.thy ===== *)
theory GoTime
  imports Prelude GoStrings
begin

text \<open>
  Formatting an instant in UTC with \<open>time.Format\<close>: the civil date of a day number (days from
  1 January of year 1, the zero time) and the two layouts the security notifier uses,
  \<open>RFC3339Nano\<close> and \<open>2 January 2006 at 15:04 MST\<close>, for years from 1 to 9999.
\<close>

section \<open>The civil date\<close>

text \<open>A year of the 400-year cycle starts on the day \<open>year_start\<close>.\<close>

definition year_start :: "int \<Rightarrow> int" where
  \<comment> \<open>of the year \<open>y + 1\<close>\<close>
  "year_start y = 365 * y + y div 4 - y div 100 + y div 400"

definition year_of :: "int \<Rightarrow> int" where
  \<comment> \<open>the years elapsed on a day, in whole cycles of 400, 100, 4 years and 1 year\<close>
  "year_of d =
     (let n400 = d div 146097; d400 = d mod 146097;
          n100 = min 3 (d400 div 36524); d100 = d400 - 36524 * n100;
          n4 = d100 div 1461; d4 = d100 mod 1461;
          n1 = min 3 (d4 div 365) in
      400 * n400 + 100 * n100 + 4 * n4 + n1)"

definition leap :: "int \<Rightarrow> bool" where
  "leap year \<longleftrightarrow> year mod 4 = 0 \<and> (year mod 100 \<noteq> 0 \<or> year mod 400 = 0)"

definition month_lengths :: "int \<Rightarrow> int list" where
  "month_lengths year = [31, if leap year then 29 else 28, 31, 30, 31, 30, 31, 31, 30, 31, 30, 31]"

fun month_day :: "int list \<Rightarrow> int \<Rightarrow> int \<Rightarrow> int \<times> int" where
  \<comment> \<open>the month, counted from \<open>m\<close>, and the day of the month of a day counted from 0\<close>
  "month_day [] m d = (m, d + 1)"
| "month_day (n # ns) m d = (if d < n then (m, d + 1) else month_day ns (m + 1) (d - n))"

definition civil :: "int \<Rightarrow> int \<times> int \<times> int" where
  "civil d =
     (let y = year_of d; year = y + 1;
          (m, day) = month_day (month_lengths year) 1 (d - year_start y) in
      (year, m, day))"

section \<open>Layouts\<close>

definition pad :: "nat \<Rightarrow> int \<Rightarrow> string" where
  "pad k n = replicate (k - length (Itoa n)) (CHR ''0'') @ Itoa n"

definition month_name :: "int \<Rightarrow> string" where
  "month_name m =
     [''January'', ''February'', ''March'', ''April'', ''May'', ''June'', ''July'', ''August'',
      ''September'', ''October'', ''November'', ''December''] ! nat (m - 1)"

definition time_days :: "time \<Rightarrow> int" where "time_days t = t div 86400000000000"
definition time_seconds :: "time \<Rightarrow> int" where "time_seconds t = t div 1000000000 mod 86400"
definition time_nanos :: "time \<Rightarrow> int" where "time_nanos t = t mod 1000000000"

definition fraction :: "int \<Rightarrow> string" where
  \<comment> \<open>\<open>.999999999\<close>: no trailing zeros, nothing at all for none\<close>
  "fraction ns =
     (let ds = rev (dropWhile (\<lambda>c. c = CHR ''0'') (rev (pad 9 ns))) in if ds = [] then [] else ''.'' @ ds)"

definition hour_minute :: "int \<Rightarrow> string" where
  "hour_minute s = pad 2 (s div 3600) @ '':'' @ pad 2 (s div 60 mod 60)"

definition RFC3339Nano :: "time \<Rightarrow> string" where
  "RFC3339Nano t =
     (case civil (time_days t) of (y, m, d) \<Rightarrow>
        pad 4 y @ ''-'' @ pad 2 m @ ''-'' @ pad 2 d @ ''T'' @ hour_minute (time_seconds t) @ '':'' @
        pad 2 (time_seconds t mod 60) @ fraction (time_nanos t) @ ''Z'')"

definition formatEventTime :: "time \<Rightarrow> string" where
  "formatEventTime t =
     (case civil (time_days t) of (y, m, d) \<Rightarrow>
        Itoa d @ '' '' @ month_name m @ '' '' @ pad 4 y @ '' at '' @ hour_minute (time_seconds t) @ '' UTC'')"

text \<open>2026-08-30, the leap days of 2000 and 2024, the end of 1900, and a fraction of a second.\<close>

lemma civil_examples:
  "civil 730178 = (2000, 2, 29)" "civil 738944 = (2024, 2, 29)" "civil 693960 = (1901, 1, 1)" "civil 739857 = (2026, 8, 30)"
  by (simp_all add: civil_def year_of_def year_start_def month_lengths_def leap_def Let_def)

lemma padded:
  "pad 4 2026 = ''2026''" "pad 2 8 = ''08''" "pad 2 30 = ''30''" "pad 2 9 = ''09''" "pad 2 14 = ''14''" "pad 2 0 = ''00''"
  "Itoa 30 = ''30''" "fraction 0 = []" "month_name 8 = ''August''"
  by code_simp+

lemma formatted:
  "RFC3339Nano 63923678040000000000 = ''2026-08-30T09:14:00Z''"
  "formatEventTime 63923678040000000000 = ''30 August 2026 at 09:14 UTC''"
  by (simp_all add: RFC3339Nano_def formatEventTime_def time_days_def civil_examples time_seconds_def time_nanos_def
     hour_minute_def padded)

section \<open>The civil date determines the day\<close>

definition day_number :: "int \<times> int \<times> int \<Rightarrow> int" where
  "day_number c =
     (case c of (year, m, d) \<Rightarrow>
        year_start (year - 1) + sum_list (take (nat (m - 1)) (month_lengths year)) + d - 1)"

lemma month_day_sum:
  "month_day ns m d = (m', d') \<Longrightarrow> m \<le> m' \<and> sum_list (take (nat (m' - m)) ns) + d' - 1 = d"
proof (induction ns m d rule: month_day.induct)
  case (2 n ns m d)
  show ?case
  proof (cases "d < n")
    case False
    with 2 have IH: "m + 1 \<le> m'" "sum_list (take (nat (m' - (m + 1))) ns) + d' - 1 = d - n" by auto
    then have "nat (m' - m) = Suc (nat (m' - (m + 1)))" by linarith
    with IH show ?thesis by simp
  qed (use 2 in auto)
qed simp

lemma day_number_civil: "day_number (civil d) = d"
proof (cases "month_day (month_lengths (year_of d + 1)) 1 (d - year_start (year_of d))")
  case (Pair m day)
  from month_day_sum [OF this] show ?thesis
    by (simp add: day_number_def civil_def Let_def Pair)
qed

lemma year_start_le:
  assumes "0 \<le> d"
  shows "0 \<le> year_of d" "year_start (year_of d) \<le> d"
proof -
  define q where "q = d div 146097"
  define r where "r = d mod 146097"
  define n100 where "n100 = min 3 (r div 36524)"
  define r100 where "r100 = r - 36524 * n100"
  define n4 where "n4 = r100 div 1461"
  define r4 where "r4 = r100 mod 1461"
  define n1 where "n1 = min 3 (r4 div 365)"
  have d: "d = 146097 * q + r" "0 \<le> q" "0 \<le> r" "r < 146097"
    using assms by (simp_all add: q_def r_def pos_imp_zdiv_nonneg_iff)
  have h: "0 \<le> n100" "n100 \<le> 3" "0 \<le> r100" using d by (auto simp: n100_def r100_def min_def)
  have r100: "r100 = 1461 * n4 + r4" "0 \<le> r4" "r4 < 1461" by (simp_all add: n4_def r4_def)
  have "r100 < 36525" using d h unfolding r100_def n100_def by (simp add: min_def) linarith
  with r100 h have n4: "0 \<le> n4" "n4 \<le> 24" by linarith+
  have n1: "0 \<le> n1" "n1 \<le> 3" "365 * n1 \<le> r4" using r100 by (auto simp: n1_def min_def)
  have y: "year_of d = 400 * q + 100 * n100 + 4 * n4 + n1"
    by (simp add: year_of_def q_def r_def n100_def r100_def n4_def r4_def n1_def Let_def)
  then show "0 \<le> year_of d" using d h n4 n1 by simp
  have "year_start (year_of d) = 146097 * q + 36524 * n100 + 1461 * n4 + 365 * n1"
  proof -
    have e: "year_of d = 4 * (100 * q + 25 * n100 + n4) + n1" "year_of d = 100 * (4 * q + n100) + (4 * n4 + n1)"
      "year_of d = 400 * q + (100 * n100 + 4 * n4 + n1)" using y by simp_all
    have "year_of d div 4 = 100 * q + 25 * n100 + n4" by (rule int_div_pos_eq [OF e(1)]) (use n1 in simp_all)
    moreover have "year_of d div 100 = 4 * q + n100" by (rule int_div_pos_eq [OF e(2)]) (use n1 n4 in simp_all)
    moreover have "year_of d div 400 = q" by (rule int_div_pos_eq [OF e(3)]) (use n1 n4 h in simp_all)
    ultimately show ?thesis by (simp add: year_start_def y)
  qed
  also have "\<dots> \<le> d" using d n1 r100 unfolding r100_def by linarith
  finally show "year_start (year_of d) \<le> d" .
qed

section \<open>The layout determines the instant\<close>

lemma digits_split:
  assumes "a @ c # r = a' @ c' # r'" and "list_all is_digit a" "list_all is_digit a'" "\<not> is_digit c" "\<not> is_digit c'"
  shows "a = a' \<and> c = c' \<and> r = r'"
proof -
  have "takeWhile is_digit (x @ y # z) = x" if "list_all is_digit x" "\<not> is_digit y" for x y z
    using that by (induction x) auto
  with assms have "a = a'" by metis
  with assms(1) show ?thesis by simp
qed

lemma pad_digits: "0 \<le> n \<Longrightarrow> list_all is_digit (pad k n)"
  using decimal_digits [of "nat n"] by (auto simp: pad_def Itoa_def list_all_iff is_digit_def)

lemma pad_inj:
  assumes "0 \<le> m" "0 \<le> n" and "pad k m = pad k n"
  shows "m = n"
proof -
  have zeros: "digits_value 0 (replicate j (CHR ''0'')) = 0" for j by (induction j) auto
  have "digits_value 0 (pad k i) = nat i" if "0 \<le> i" for i
    using that by (simp add: pad_def Itoa_def digits_value_append zeros decimal_value)
  with assms show ?thesis by (metis eq_nat_nat_iff)
qed

lemma decimal_length: "n < 10 ^ k \<Longrightarrow> 0 < k \<Longrightarrow> length (decimal n) \<le> k"
proof (induction n arbitrary: k rule: decimal.induct)
  case (1 n)
  show ?case
  proof (cases "n < 10")
    case False
    then obtain j where k: "k = Suc j" using 1(3) by (cases k) auto
    with 1(2) have "n div 10 < 10 ^ j" by (simp add: less_mult_imp_div_less mult.commute)
    with False have "0 < j" by (cases j) (auto simp: div_eq_0_iff)
    have "length (decimal (n div 10)) \<le> j" by (rule 1(1) [OF False \<open>n div 10 < 10 ^ j\<close> \<open>0 < j\<close>])
    with False k show ?thesis by (subst decimal.simps) simp
  qed (use 1 in \<open>subst decimal.simps, simp\<close>)
qed

lemma stripped_inj:
  assumes "length xs = length ys" and "dropWhile (\<lambda>c. c = z) xs = dropWhile (\<lambda>c. c = z) ys"
  shows "xs = ys"
proof -
  have front: "xs = replicate (length xs - length (dropWhile (\<lambda>c. c = z) xs)) z @ dropWhile (\<lambda>c. c = z) xs" for xs :: "'a list"
  proof (induction xs)
    case (Cons x xs)
    have "length (dropWhile (\<lambda>c. c = z) xs) \<le> length xs" by (rule length_dropWhile_le)
    with Cons show ?case by (auto simp: Suc_diff_le)
  qed simp
  show ?thesis using front [of xs] front [of ys] assms by simp
qed

lemma fraction_inj:
  assumes "0 \<le> m" "m < 1000000000" "0 \<le> n" "n < 1000000000" and "fraction m = fraction n"
  shows "m = n"
proof -
  have len: "length (pad 9 i) = 9" if "0 \<le> i" "i < 1000000000" for i
  proof -
    have "nat i < 10 ^ 9" using that by simp
    then have "length (decimal (nat i)) \<le> 9" by (rule decimal_length) simp
    with that show ?thesis by (simp add: pad_def Itoa_def)
  qed
  have dw: "dropWhile (\<lambda>c. c = CHR ''0'') (rev (pad 9 m)) = dropWhile (\<lambda>c. c = CHR ''0'') (rev (pad 9 n))"
    using assms(5) by (auto simp: fraction_def Let_def simp del: dropWhile_eq_Nil_conv split: if_splits)
  have "rev (pad 9 m) = rev (pad 9 n)"
    by (rule stripped_inj [OF _ dw]) (simp only: length_rev len [OF assms(1,2)] len [OF assms(3,4)])
  then show ?thesis using pad_inj [OF assms(1,3)] by simp
qed

lemma fraction_digits:
  assumes "0 \<le> n"
  shows "fraction n = [] \<or> (\<exists>ds. fraction n = CHR ''.'' # ds \<and> list_all is_digit ds)"
proof -
  let ?ds = "rev (dropWhile (\<lambda>c. c = CHR ''0'') (rev (pad 9 n)))"
  have "set ?ds \<subseteq> set (pad 9 n)" using set_dropWhileD by fastforce
  with pad_digits [OF assms, of 9] have "list_all is_digit ?ds" by (auto simp: list_all_iff)
  then show ?thesis by (auto simp: fraction_def Let_def)
qed

lemma civil_fields:
  assumes "0 \<le> d" and "civil d = (y, m, day)"
  shows "0 \<le> y \<and> 0 \<le> m \<and> 0 \<le> day"
proof -
  have pos: "1 \<le> k \<Longrightarrow> 0 \<le> e \<Longrightarrow> month_day ns k e = (m', d') \<Longrightarrow> 0 \<le> m' \<and> 0 \<le> d'" for ns k e m' d'
  proof (induction ns k e rule: month_day.induct)
    case (2 n ns k e)
    then show ?case by (cases "e < n") auto
  qed auto
  from assms(2) have "month_day (month_lengths (year_of d + 1)) 1 (d - year_start (year_of d)) = (m, day)" "y = year_of d + 1"
    by (auto simp: civil_def Let_def split: prod.splits)
  moreover from this(1) have "0 \<le> m \<and> 0 \<le> day" by (rule pos [rotated 2]) (use year_start_le [OF assms(1)] in auto)
  ultimately show ?thesis using year_start_le(1) [OF assms(1)] by simp
qed

lemma time_parts: "t = 86400000000000 * time_days t + 1000000000 * time_seconds t + time_nanos t"
proof -
  have "t div 86400000000000 = t div 1000000000 div 86400" by (simp add: zdiv_zmult2_eq [symmetric])
  then show ?thesis
    using mult_div_mod_eq [of 86400 "t div 1000000000"] mult_div_mod_eq [of 1000000000 t]
    unfolding time_days_def time_seconds_def time_nanos_def by linarith
qed

lemma time_part_bounds: "0 \<le> time_seconds t" "0 \<le> time_nanos t" "time_nanos t < 1000000000"
  by (simp_all add: time_seconds_def time_nanos_def)

lemma field_split:
  assumes "pad k m @ c # r = pad k n @ c' # r'" and "0 \<le> m" "0 \<le> n" "\<not> is_digit c" "\<not> is_digit c'"
  shows "m = n \<and> c = c' \<and> r = r'"
  using digits_split [OF assms(1) pad_digits pad_digits] pad_inj [of m n k] assms(2-5) by blast

lemma clock_inj:
  assumes "s div 3600 = s' div 3600" "s div 60 mod 60 = s' div 60 mod 60" "s mod 60 = (s' :: int) mod 60"
  shows "s = s'"
proof -
  have "v = 3600 * (v div 3600) + 60 * (v div 60 mod 60) + v mod 60" for v :: int
  proof -
    have "v div 3600 = v div 60 div 60" by (simp add: zdiv_zmult2_eq [symmetric])
    then show ?thesis using mult_div_mod_eq [of 60 v] mult_div_mod_eq [of 60 "v div 60"] by linarith
  qed
  from this [of s] this [of s'] assms show ?thesis by linarith
qed

lemma RFC3339Nano_inj:
  assumes "0 \<le> t" "0 \<le> u" and "RFC3339Nano t = RFC3339Nano u"
  shows "t = u"
proof -
  obtain y m d y' m' d' where c: "civil (time_days t) = (y, m, d)" "civil (time_days u) = (y', m', d')"
    by (metis prod_cases3)
  have days: "0 \<le> time_days t" "0 \<le> time_days u" using assms(1,2) by (simp_all add: time_days_def pos_imp_zdiv_nonneg_iff)
  note pos = civil_fields [OF days(1) c(1)] civil_fields [OF days(2) c(2)]
  let ?s = "time_seconds t" and ?s' = "time_seconds u"
  have s: "0 \<le> ?s div 3600" "0 \<le> ?s div 60 mod 60" "0 \<le> ?s mod 60" "0 \<le> ?s' div 3600" "0 \<le> ?s' div 60 mod 60" "0 \<le> ?s' mod 60"
    using time_part_bounds(1) [of t] time_part_bounds(1) [of u] by (simp_all add: pos_imp_zdiv_nonneg_iff)
  have sep: "\<not> is_digit (CHR ''-'')" "\<not> is_digit (CHR ''T'')" "\<not> is_digit (CHR '':'')" "\<not> is_digit (CHR ''.'')" "\<not> is_digit (CHR ''Z'')"
    by (simp_all add: is_digit_def)
  have all: "pad 4 y @ CHR ''-'' # pad 2 m @ CHR ''-'' # pad 2 d @ CHR ''T'' # pad 2 (?s div 3600) @ CHR '':'' #
      pad 2 (?s div 60 mod 60) @ CHR '':'' # pad 2 (?s mod 60) @ fraction (time_nanos t) @ ''Z'' =
    pad 4 y' @ CHR ''-'' # pad 2 m' @ CHR ''-'' # pad 2 d' @ CHR ''T'' # pad 2 (?s' div 3600) @ CHR '':'' #
      pad 2 (?s' div 60 mod 60) @ CHR '':'' # pad 2 (?s' mod 60) @ fraction (time_nanos u) @ ''Z''"
    using assms(3) by (simp add: RFC3339Nano_def c hour_minute_def)
  have y: "y = y'" and all1: "pad 2 m @ CHR ''-'' # pad 2 d @ CHR ''T'' # pad 2 (?s div 3600) @ CHR '':'' # pad 2 (?s div 60 mod 60) @ CHR '':'' # pad 2 (?s mod 60) @ fraction (time_nanos t) @ ''Z'' =
      pad 2 m' @ CHR ''-'' # pad 2 d' @ CHR ''T'' # pad 2 (?s' div 3600) @ CHR '':'' # pad 2 (?s' div 60 mod 60) @ CHR '':'' # pad 2 (?s' mod 60) @ fraction (time_nanos u) @ ''Z''"
    using field_split [OF all] pos s sep by blast+
  have m: "m = m'" and all2: "pad 2 d @ CHR ''T'' # pad 2 (?s div 3600) @ CHR '':'' # pad 2 (?s div 60 mod 60) @ CHR '':'' # pad 2 (?s mod 60) @ fraction (time_nanos t) @ ''Z'' =
      pad 2 d' @ CHR ''T'' # pad 2 (?s' div 3600) @ CHR '':'' # pad 2 (?s' div 60 mod 60) @ CHR '':'' # pad 2 (?s' mod 60) @ fraction (time_nanos u) @ ''Z''"
    using field_split [OF all1] pos s sep by blast+
  have d: "d = d'" and all3: "pad 2 (?s div 3600) @ CHR '':'' # pad 2 (?s div 60 mod 60) @ CHR '':'' # pad 2 (?s mod 60) @ fraction (time_nanos t) @ ''Z'' =
      pad 2 (?s' div 3600) @ CHR '':'' # pad 2 (?s' div 60 mod 60) @ CHR '':'' # pad 2 (?s' mod 60) @ fraction (time_nanos u) @ ''Z''"
    using field_split [OF all2] pos s sep by blast+
  have h: "?s div 3600 = ?s' div 3600" and all4: "pad 2 (?s div 60 mod 60) @ CHR '':'' # pad 2 (?s mod 60) @ fraction (time_nanos t) @ ''Z'' =
      pad 2 (?s' div 60 mod 60) @ CHR '':'' # pad 2 (?s' mod 60) @ fraction (time_nanos u) @ ''Z''"
    using field_split [OF all3] pos s sep by blast+
  have mi: "?s div 60 mod 60 = ?s' div 60 mod 60" and all5: "pad 2 (?s mod 60) @ fraction (time_nanos t) @ ''Z'' =
      pad 2 (?s' mod 60) @ fraction (time_nanos u) @ ''Z''"
    using field_split [OF all4] pos s sep by blast+
  have tail: "\<exists>c r. fraction (time_nanos v) @ ''Z'' = c # r \<and> \<not> is_digit c" for v
    using fraction_digits [OF time_part_bounds(2) [of v]] sep by auto
  obtain e r e' r' where tl: "fraction (time_nanos t) @ ''Z'' = e # r" "\<not> is_digit e"
    "fraction (time_nanos u) @ ''Z'' = e' # r'" "\<not> is_digit e'" using tail [of t] tail [of u] by metis
  from field_split [OF all5 [unfolded tl] s(3,6) tl(2,4)]
  have se: "?s mod 60 = ?s' mod 60" and fr: "fraction (time_nanos t) = fraction (time_nanos u)"
    using tl(1,3) by (metis append_same_eq)+
  have "time_days t = time_days u" using day_number_civil [of "time_days t"] day_number_civil [of "time_days u"] c y m d by simp
  moreover have "?s = ?s'" by (rule clock_inj [OF h mi se])
  moreover have "time_nanos t = time_nanos u"
    by (rule fraction_inj [OF time_part_bounds(2,3) time_part_bounds(2,3) fr])
  ultimately show ?thesis using time_parts [of t] time_parts [of u] by simp
qed

end
