(* ===== verification/AuditLog.thy ===== *)
theory AuditLog
  imports Auth
begin

text \<open>
  The audit stream: \<open>internal/audit\<close> renders an event as one structured line, the adapter
  \<open>modules/identity/infrastructure/auditlog\<close> turns the auditor's calls into events. The sink that
  writes a line and the text of an error are parameters; the order of the extra fields is that
  of a map.
\<close>

definition ActionLoginSucceeded :: string where "ActionLoginSucceeded = ''auth.login.success''"
definition ActionLoginFailed :: string where "ActionLoginFailed = ''auth.login.failure''"
definition ActionAccountLocked :: string where "ActionAccountLocked = ''auth.account.locked''"
definition ActionLogout :: string where "ActionLogout = ''auth.logout''"
definition ActionMFAEnrolled :: string where "ActionMFAEnrolled = ''auth.mfa.enrolled''"
definition ActionMFAFailed :: string where "ActionMFAFailed = ''auth.mfa.failed''"
definition ActionRefreshReuseDetected :: string where
  "ActionRefreshReuseDetected = ''auth.token.refresh_reuse_detected''"

definition OutcomeSuccess :: string where "OutcomeSuccess = ''success''"
definition OutcomeFailure :: string where "OutcomeFailure = ''failure''"

datatype field_value = FString string | FInt int | FBool bool

record audit_event =
  ev_Action :: string
  ev_Outcome :: string
  ev_ActorID :: string
  ev_TargetID :: string
  ev_Subject :: string
  ev_Reason :: string
  ev_Fields :: "(string \<times> field_value) list"

datatype log_level = LevelWarn | LevelError

record audit_line =
  al_Level :: log_level
  al_Fields :: "(string \<times> field_value) list"
  al_Message :: string

definition str_field :: "string \<Rightarrow> string \<Rightarrow> (string \<times> field_value) list" where
  "str_field k v = (if v = [] then [] else [(k, FString v)])"

text \<open>Every line carries the \<open>audit\<close> marker of the logger; a nil logger emits nothing.\<close>

definition audit_render :: "string \<Rightarrow> audit_event \<Rightarrow> audit_line" where
  "audit_render reqID e =
     \<lparr>al_Level = (if ev_Action e = ActionRefreshReuseDetected then LevelError else LevelWarn),
      al_Fields = [(''audit'', FBool True)] @ str_field ''request_id'' reqID @
        [(''action'', FString (ev_Action e)), (''outcome'', FString (ev_Outcome e))] @
        str_field ''actor_id'' (ev_ActorID e) @ str_field ''target_id'' (ev_TargetID e) @
        str_field ''subject'' (ev_Subject e) @ str_field ''reason'' (ev_Reason e) @ ev_Fields e,
      al_Message = ev_Action e\<rparr>"

definition Emit :: "(audit_line \<Rightarrow> ('w, unit) prog) option \<Rightarrow> string \<Rightarrow> audit_event \<Rightarrow> ('w, unit) prog" where
  "Emit log reqID e = (case log of None \<Rightarrow> retp () | Some sink \<Rightarrow> sink (audit_render reqID e))"

definition no_event :: audit_event where
  "no_event = \<lparr>ev_Action = [], ev_Outcome = [], ev_ActorID = [], ev_TargetID = [], ev_Subject = [],
     ev_Reason = [], ev_Fields = []\<rparr>"

definition reuse_fields :: "(goerr \<Rightarrow> string) \<Rightarrow> string \<Rightarrow> int \<Rightarrow> goerr option \<Rightarrow> (string \<times> field_value) list" where
  "reuse_fields err_text familyID revoked err =
     [(''family_id'', FString familyID), (''tokens_revoked'', FInt revoked)] @
     (case err of None \<Rightarrow> []
      | Some e \<Rightarrow> [(''revocation_failed'', FBool True), (''revocation_error'', FString (err_text e))])"

definition AuditLogger ::
  "(goerr \<Rightarrow> string) \<Rightarrow> (audit_line \<Rightarrow> ('w, unit) prog) option \<Rightarrow> string \<Rightarrow> 'w auditor" where
  "AuditLogger err_text log reqID =
     \<lparr>au_LoginSucceeded = (\<lambda>userID. Emit log reqID
        (no_event\<lparr>ev_Action := ActionLoginSucceeded, ev_Outcome := OutcomeSuccess, ev_ActorID := userID\<rparr>)),
      au_LoginFailed = (\<lambda>username reason. Emit log reqID
        (no_event\<lparr>ev_Action := ActionLoginFailed, ev_Outcome := OutcomeFailure, ev_Subject := username,
                  ev_Reason := reason\<rparr>)),
      au_AccountLocked = (\<lambda>userID. Emit log reqID
        (no_event\<lparr>ev_Action := ActionAccountLocked, ev_Outcome := OutcomeFailure, ev_ActorID := userID\<rparr>)),
      au_LogoutSucceeded = (\<lambda>userID. Emit log reqID
        (no_event\<lparr>ev_Action := ActionLogout, ev_Outcome := OutcomeSuccess, ev_ActorID := userID\<rparr>)),
      au_MFAEnrolled = (\<lambda>userID. Emit log reqID
        (no_event\<lparr>ev_Action := ActionMFAEnrolled, ev_Outcome := OutcomeSuccess, ev_ActorID := userID\<rparr>)),
      au_MFAFailed = (\<lambda>userID reason. Emit log reqID
        (no_event\<lparr>ev_Action := ActionMFAFailed, ev_Outcome := OutcomeFailure, ev_ActorID := userID,
                  ev_Reason := reason\<rparr>)),
      au_RefreshReuseDetected = (\<lambda>userID familyID revoked err. Emit log reqID
        (no_event\<lparr>ev_Action := ActionRefreshReuseDetected, ev_Outcome := OutcomeFailure,
                  ev_ActorID := userID, ev_Fields := reuse_fields err_text familyID revoked err\<rparr>))\<rparr>"

end
