(* ===== verification/IdentityNew.thy ===== *)
theory IdentityNew
  imports AuthHttp AuditLog IdentityModule
begin

text \<open>
  The identity module as \<open>modules/identity/module.go\<close> builds it: the configuration check and the
  wiring of repositories, token service, use cases, audit stream and handlers into a route
  table. \<open>FindByEmail\<close> and the rest of the ports are those of IdentityStore; the id token a
  handler never reads is dropped.
\<close>

record 'w identity_config =
  ic_PrivateKeyPath :: string
  ic_PublicKeyPath :: string
  ic_PreviousPublicKeyPath :: string
  ic_Issuer :: string
  ic_ClientID :: string
  ic_AccessTokenTTL :: duration
  ic_RefreshTokenTTL :: duration
  ic_MFATemporaryTTL :: duration
  ic_MaxFailedAttempts :: int
  ic_LockDuration :: duration
  ic_TokenLeeway :: duration
  ic_Notifier :: "'w security_notifier option"

definition identity_Validate :: "'w identity_config \<Rightarrow> goerr option" where
  "identity_Validate c =
     (if ic_Issuer c = [] then Some (New ''identity: issuer is required'')
      else if ic_PrivateKeyPath c = [] then Some (New ''identity: private_key_path is required'')
      else if ic_PublicKeyPath c = [] then Some (New ''identity: public_key_path is required'')
      else if sint (ic_AccessTokenTTL c) \<le> 0 then Some (New ''identity: access_token_ttl must be positive'')
      else if sint (ic_RefreshTokenTTL c) \<le> 0 then Some (New ''identity: refresh_token_ttl must be positive'')
      else if sint (ic_MFATemporaryTTL c) \<le> 0 then Some (New ''identity: mfa_temporary_ttl must be positive'')
      else if ic_MaxFailedAttempts c \<le> 0 then Some (New ''identity: max_failed_attempts must be positive'')
      else if sint (ic_TokenLeeway c) < 0 then Some (New ''identity: token_leeway must not be negative'')
      else None)"

definition service_api :: "'w runtime \<Rightarrow> 'w auth_service \<Rightarrow> 'w auth_api" where
  "service_api rt s =
     \<lparr>aa_Login = Login rt s, aa_Logout = Logout s, aa_SetupMFA = SetupMFA s,
      aa_VerifyMFASetup = VerifyMFASetup rt s, aa_VerifyMFA = VerifyMFA rt s,
      aa_Refresh = Refresh rt s\<rparr>"

text \<open>What the module calls outside the repository: bcrypt and TOTP.\<close>

record 'w identity_pkgs =
  ip_bcrypt_Compare :: "string \<Rightarrow> string \<Rightarrow> goerr option"
  ip_totp_Generate :: "string \<Rightarrow> string \<Rightarrow> ('w, goerr + string \<times> string) prog"
  ip_totp_Validate :: "string \<Rightarrow> string \<Rightarrow> ('w, bool) prog"

definition NewTokens ::
  "('w, 'priv) key_files \<Rightarrow> 'w identity_config \<Rightarrow> ('w, goerr + 'priv jwt_service) prog" where
  \<comment> \<open>the token service, with the previous key when one is configured\<close>
  "NewTokens F cfg =
     bindp (NewJWTService F (ic_PrivateKeyPath cfg) (ic_PublicKeyPath cfg) (ic_Issuer cfg)
              (ic_ClientID cfg) (ic_TokenLeeway cfg)) (\<lambda>r.
     case r of
       Inl err \<Rightarrow> retp (Inl err)
     | Inr jwtSvc \<Rightarrow>
         if ic_PreviousPublicKeyPath cfg = [] then retp (Inr jwtSvc)
         else bindp (WithPreviousKey F jwtSvc (ic_PreviousPublicKeyPath cfg)) (\<lambda>(err, jwtSvc).
           case err of None \<Rightarrow> retp (Inr jwtSvc) | Some e \<Rightarrow> retp (Inl e)))"

definition wire_service ::
  "'e id_world runtime \<Rightarrow> 'e id_world identity_pkgs \<Rightarrow> 'e id_world token_issuer \<Rightarrow>
   'e id_world auditor \<Rightarrow> 'e id_world identity_config \<Rightarrow> 'e id_world auth_service" where
  "wire_service rt P tokenIssuer aud cfg =
     (let bcryptHasher = BcryptHasher (rn_bcrypt rt) (ip_bcrypt_Compare P) in
      NewAuthService (users_repo (rn_uuid rt)) bcryptHasher tokenIssuer (tokens_repo (rn_uuid rt))
        \<lparr>ac_AccessTokenTTL = ic_AccessTokenTTL cfg, ac_RefreshTokenTTL = ic_RefreshTokenTTL cfg,
         ac_MaxFailedAttempts = ic_MaxFailedAttempts cfg, ac_LockDuration = ic_LockDuration cfg,
         ac_ClientID = ic_ClientID cfg, ac_MFATemporaryTTL = ic_MFATemporaryTTL cfg\<rparr>
        (TOTPService (ip_totp_Generate P) (ip_totp_Validate P) (ic_Issuer cfg))
        (codes_repo (rn_uuid rt) (\<lambda>plain hashed. ip_bcrypt_Compare P hashed plain = None))
        (Some aud) (ic_Notifier cfg))"

definition NewIdentity ::
  "'e id_world runtime \<Rightarrow> 'e id_world identity_pkgs \<Rightarrow> ('e id_world, 'priv) key_files \<Rightarrow>
   ('e id_world, 'priv) jwt_pkg \<Rightarrow> auth_bodies \<Rightarrow> 'e id_world auditor \<Rightarrow>
   'e id_world identity_config \<Rightarrow> ('e id_world, goerr + 'e id_world auth_handler) prog" where
  "NewIdentity rt P F J bodies aud cfg =
     (case identity_Validate cfg of
        Some err \<Rightarrow> retp (Inl (Errorf ''identity: invalid config: %w'' [] [err]))
      | None \<Rightarrow>
          bindp (NewTokens F cfg) (\<lambda>r.
          case r of
            Inl err \<Rightarrow> retp (Inl (Errorf ''identity: init jwt service: %w'' [] [err]))
          | Inr jwtSvc \<Rightarrow>
              let tokenIssuer = JWTService (rn_Now rt) (rn_uuid rt) J jwtSvc;
                  authSvc = wire_service rt P tokenIssuer aud cfg in
              retp (Inr \<lparr>ah_svc = service_api rt authSvc, ah_refreshTTL = ic_RefreshTokenTTL cfg,
                ah_authMW = AuthRequired tokenIssuer, ah_keys = Some (JWKS jwtSvc), ah_bodies = bodies\<rparr>)))"

lemma identity_Validate_None:
  "identity_Validate c = None \<longleftrightarrow>
     ic_Issuer c \<noteq> [] \<and> ic_PrivateKeyPath c \<noteq> [] \<and> ic_PublicKeyPath c \<noteq> [] \<and>
     0 < sint (ic_AccessTokenTTL c) \<and> 0 < sint (ic_RefreshTokenTTL c) \<and>
     0 < sint (ic_MFATemporaryTTL c) \<and> 0 < ic_MaxFailedAttempts c \<and> 0 \<le> sint (ic_TokenLeeway c)"
  by (auto simp: identity_Validate_def not_le not_less)

lemma wire_service_wired:
  "identity_wired (rn_uuid rt) (\<lambda>plain hashed. ip_bcrypt_Compare P hashed plain = None) rt
     (wire_service rt P tokenIssuer aud cfg)"
  by (simp add: identity_wired_def wire_service_def NewAuthService_def Let_def)

lemma NewTokens_ok:
  assumes "NewTokens F cfg w = (Ret (Inr s), w')" and "ic_Issuer cfg \<noteq> []" and "ic_ClientID cfg \<noteq> []"
    and "ValidString (ic_Issuer cfg)" and "ValidString (ic_ClientID cfg)"
    and "js_publicKey s = public_half (js_privateKey s)"
  shows "service_ok public_half s \<and> js_issuer s = ic_Issuer cfg \<and> js_audience s = ic_ClientID cfg"
proof -
  from assms(1) obtain s0 w0 where new: "NewJWTService F (ic_PrivateKeyPath cfg) (ic_PublicKeyPath cfg)
      (ic_Issuer cfg) (ic_ClientID cfg) (ic_TokenLeeway cfg) w = (Ret (Inr s0), w0)"
    and rest: "(ic_PreviousPublicKeyPath cfg = [] \<and> s0 = s) \<or>
      WithPreviousKey F s0 (ic_PreviousPublicKeyPath cfg) w0 = (Ret (None, s), w')"
    unfolding NewTokens_def by (auto elim!: runE split: if_splits)
  have names: "js_issuer s0 = ic_Issuer cfg \<and> js_audience s0 = ic_ClientID cfg"
    using new by (auto simp: NewJWTService_def Let_def elim!: runE)
  from rest have keys: "js_publicKey s0 = js_publicKey s \<and> js_privateKey s0 = js_privateKey s \<and>
      js_issuer s0 = js_issuer s \<and> js_audience s0 = js_audience s"
    by (auto simp: WithPreviousKey_def Let_def elim!: runE split: if_splits)
  have "service_ok public_half s0"
    using NewJWTService_ok [OF new _ assms(2,3,4,5)] assms(6) keys by simp
  with rest names keys WithPreviousKey_ok(1) show ?thesis by metis
qed

end
