(* ===== verification/NotificationHttp.thy ===== *)
theory NotificationHttp
  imports NotificationModule AuthHttp GoBase64 GoStrings
begin

text \<open>
  The HTTP layer of the notification module (\<open>modules/notification/transport\<close>): query strings,
  cursors, the handlers over the application service, the answers and the route table. The
  codecs of \<open>encoding/json\<close>, the uuid package and the text of a time are parameters; the
  cursor's base64 is GoBase64.
\<close>

section \<open>Query parameters\<close>

definition maxInt :: int where "maxInt = 2 ^ 63 - 1"

definition signed_digits :: "string \<Rightarrow> int option" where
  \<comment> \<open>an optional sign and at least one digit\<close>
  "signed_digits s =
     (let (neg, ds) = (case s of [] \<Rightarrow> (False, [])
            | c # cs \<Rightarrow> if c = CHR ''-'' then (True, cs) else if c = CHR ''+'' then (False, cs) else (False, s)) in
      if ds = [] \<or> \<not> list_all is_digit ds then None
      else Some (if neg then - int (digits_value 0 ds) else int (digits_value 0 ds)))"

definition Atoi :: "string \<Rightarrow> int option" where
  "Atoi s =
     (case signed_digits s of
        None \<Rightarrow> None
      | Some v \<Rightarrow> if - (2 ^ 63) \<le> v \<and> v \<le> maxInt then Some v else None)"

definition ParseBool :: "string \<Rightarrow> bool option" where
  "ParseBool s =
     (if s \<in> set [''1'', ''t'', ''T'', ''true'', ''TRUE'', ''True''] then Some True
      else if s \<in> set [''0'', ''f'', ''F'', ''false'', ''FALSE'', ''False''] then Some False
      else None)"

text \<open>
  \<open>ErrOther\<close> is an error of another type than \<open>badRequest\<close>, by the text it prints.
\<close>

datatype client_error = badRequest string | ErrOther string

record update_pref_request =
  up_Channel :: string
  up_Category :: string
  up_Enabled :: "bool option"

record notif_codec =
  nc_uuid :: uuid_pkg
  nc_time :: "time \<Rightarrow> string"
  nc_payload :: "payload \<Rightarrow> json"
  nc_Marshal :: "time \<Rightarrow> uuid \<Rightarrow> byte8 list"
  nc_Unmarshal :: "byte8 list \<Rightarrow> (time \<times> uuid) option"
  nc_Body :: "string \<Rightarrow> update_pref_request list \<times> goerr option"

definition encodeCursor :: "notif_codec \<Rightarrow> cursor \<Rightarrow> string" where
  "encodeCursor K c = base64url_Encode (nc_Marshal K (c_CreatedAt c) (c_ID c))"

definition errNotACursor :: client_error where
  "errNotACursor = badRequest ''the cursor parameter is not a cursor this service issued''"

definition decodeCursor :: "notif_codec \<Rightarrow> string \<Rightarrow> client_error + cursor" where
  "decodeCursor K s =
     (case base64url_Decode s of
        None \<Rightarrow> Inl errNotACursor
      | Some raw \<Rightarrow>
          (case nc_Unmarshal K raw of
             None \<Rightarrow> Inl errNotACursor
           | Some (c, i) \<Rightarrow> if c = 0 \<or> i = uuid_Nil then Inl errNotACursor else Inr (Cursor c i)))"

definition limit_error :: client_error where
  "limit_error = badRequest (''the limit parameter must be a positive integer (at most '' @ Itoa MaxListLimit @ '')'')"

definition query_unread :: "string \<Rightarrow> client_error + bool" where
  "query_unread raw =
     (if raw = [] then Inr False
      else case ParseBool raw of
        None \<Rightarrow> Inl (badRequest ''the unread parameter must be true or false'') | Some v \<Rightarrow> Inr v)"

definition query_limit :: "string \<Rightarrow> client_error + int" where
  "query_limit raw =
     (if raw = [] then Inr 0
      else case Atoi raw of None \<Rightarrow> Inl limit_error | Some v \<Rightarrow> if v < 1 then Inl limit_error else Inr v)"

definition query_cursor :: "notif_codec \<Rightarrow> string \<Rightarrow> client_error + cursor option" where
  "query_cursor K raw =
     (if raw = [] then Inr None
      else case decodeCursor K raw of Inl e \<Rightarrow> Inl e | Inr c \<Rightarrow> Inr (Some c))"

definition parseListFilter :: "notif_codec \<Rightarrow> (string \<Rightarrow> string list) \<Rightarrow> client_error + list_filter" where
  "parseListFilter K q =
     (case query_unread (get_first q ''unread'') of
        Inl e \<Rightarrow> Inl e
      | Inr unread \<Rightarrow>
     case query_limit (get_first q ''limit'') of
        Inl e \<Rightarrow> Inl e
      | Inr limit \<Rightarrow>
     case query_cursor K (get_first q ''cursor'') of
        Inl e \<Rightarrow> Inl e
      | Inr before \<Rightarrow>
          Inr (Normalize \<lparr>lf_UnreadOnly = unread, lf_Limit = limit, lf_Before = before\<rparr>))"

fun toPreferenceUpdates :: "nat \<Rightarrow> update_pref_request list \<Rightarrow> client_error + preference_update list" where
  "toPreferenceUpdates i [] = Inr []"
| "toPreferenceUpdates i (p # ps) =
     (case up_Enabled p of
        None \<Rightarrow> Inl (ErrOther (''preferences['' @ Itoa (int i) @ ''] is missing \"enabled\"''))
      | Some enabled \<Rightarrow>
          (case toPreferenceUpdates (i + 1) ps of
             Inl e \<Rightarrow> Inl e
           | Inr us \<Rightarrow>
               Inr (\<lparr>pu_Channel = up_Channel p, pu_Category = up_Category p, pu_Enabled = enabled\<rparr> # us)))"

section \<open>Answers\<close>

definition notification_json :: "notif_codec \<Rightarrow> notification_view \<Rightarrow> json" where
  "notification_json K v =
     JObj [(''id'', JStr (uuid_String (nc_uuid K) (nv_ID v))), (''category'', JStr (nv_Category v)),
           (''template_key'', JStr (nv_TemplateKey v)), (''payload'', nc_payload K (nv_Payload v)),
           (''created_at'', JStr (nc_time K (nv_CreatedAt v))),
           (''read_at'', (case nv_ReadAt v of None \<Rightarrow> JNull | Some t \<Rightarrow> JStr (nc_time K t)))]"

definition list_json :: "json list \<Rightarrow> string \<Rightarrow> json" where
  "list_json items next_cursor =
     JObj ((''items'', JArr items) # omitempty ''next_cursor'' next_cursor)"

definition mark_all_json :: "int \<Rightarrow> json" where
  "mark_all_json n = JObj [(''marked_read'', JNum n)]"

definition preference_json :: "preference_view \<Rightarrow> json" where
  "preference_json v =
     JObj [(''channel'', JStr (pv_Channel v)), (''category'', JStr (pv_Category v)),
           (''enabled'', JBool (pv_Enabled v))]"

definition toPreferencesResponse :: "preference_view list \<Rightarrow> json" where
  "toPreferencesResponse views = JObj [(''preferences'', JArr (map preference_json views))]"

definition toNotificationResponses :: "notif_codec \<Rightarrow> notification_view list \<Rightarrow> json list" where
  "toNotificationResponses K views = map (notification_json K) views"

definition write_json_body :: "int \<Rightarrow> json \<Rightarrow> ('w web, unit) prog" where
  \<comment> \<open>the module's own \<open>writeJSON\<close>, on the values it is called with\<close>
  "write_json_body status v =
     bindp (header_Set ''Content-Type'' ''application/json'') (\<lambda>_.
     bindp (WriteHeader status) (\<lambda>_. Write_body (BJson v)))"

definition writeNotFound :: "'w handler" where
  "writeNotFound r = WriteProblem r 404 ''not_found'' ''Not Found'' ''No such notification.''"

definition writeBadRequest :: "client_error \<Rightarrow> 'w handler" where
  "writeBadRequest err r =
     (let safe = (case err of badRequest s \<Rightarrow> s | ErrOther _ \<Rightarrow> ''the request could not be understood'') in
      WriteProblem r 400 ''invalid_request'' ''Bad Request'' safe)"

definition writeInternal :: "string \<Rightarrow> 'w handler" where
  "writeInternal detail r = WriteProblem r 500 ''internal_error'' ''Internal Server Error'' detail"

definition writePreferenceError :: "goerr \<Rightarrow> 'w handler" where
  "writePreferenceError err r =
     (if errors_Is err ErrPreferenceProtected then
        WriteProblem r 422 ''preference_protected'' ''Preference Is Protected''
          ''Security notifications by email cannot be switched off.''
      else if errors_Is err ErrInvalidPreference then
        WriteProblem r 422 ''invalid_preference'' ''Invalid Preference''
          ''A preference names an unknown channel or category, or the same pair twice.''
      else writeInternal ''Could not save the delivery preferences.'' r)"

section \<open>The handlers\<close>

text \<open>The \<open>Service\<close> interface the handler depends on.\<close>

record 'w notif_api =
  na_ListForUser :: "uuid \<Rightarrow> list_filter \<Rightarrow> ('w, goerr + notification_view list) prog"
  na_MarkRead :: "uuid \<Rightarrow> uuid \<Rightarrow> ('w, goerr option) prog"
  na_MarkAllRead :: "uuid \<Rightarrow> ('w, goerr + int) prog"
  na_GetPreferences :: "uuid \<Rightarrow> ('w, goerr + preference_view list) prog"
  na_UpdatePreferences :: "uuid \<Rightarrow> preference_update list \<Rightarrow> ('w, goerr + preference_view list) prog"

record 'w notif_handler =
  nh_svc :: "'w notif_api"
  nh_authMW :: "'w middleware"
  nh_codec :: notif_codec

definition caller :: "notif_codec \<Rightarrow> http_request \<Rightarrow> ('w web, uuid option) prog" where
  "caller K r =
     bindp (MustFromContext r) (\<lambda>p.
       case uuid_Parse (nc_uuid K) (pl_Subject p) of
         Inl _ \<Rightarrow> retp None | Inr u \<Rightarrow> retp (Some u))"

definition for_caller :: "notif_codec \<Rightarrow> (uuid \<Rightarrow> 'w handler) \<Rightarrow> 'w handler" where
  \<comment> \<open>how each of the five handlers begins\<close>
  "for_caller K act r =
     bindp (caller K r) (\<lambda>who. case who of None \<Rightarrow> Unauthorized r | Some u \<Rightarrow> act u r)"

definition HandleList :: "'w notif_handler \<Rightarrow> 'w handler" where
  "HandleList h = for_caller (nh_codec h) (\<lambda>u r.
     case parseListFilter (nh_codec h) (rq_Query r) of
       Inl err \<Rightarrow> writeBadRequest err r
     | Inr f \<Rightarrow>
         bindp (in_world (na_ListForUser (nh_svc h) u f)) (\<lambda>res.
         case res of
           Inl err \<Rightarrow> writeInternal ''Could not read the mailbox.'' r
         | Inr views \<Rightarrow>
             let nextCursor = (if int (length views) = lf_Limit f
                   then encodeCursor (nh_codec h) (Cursor (nv_CreatedAt (last views)) (nv_ID (last views)))
                   else []) in
             write_json_body 200 (list_json (toNotificationResponses (nh_codec h) views) nextCursor)))"

definition HandleMarkRead :: "'w notif_handler \<Rightarrow> 'w handler" where
  "HandleMarkRead h = for_caller (nh_codec h) (\<lambda>recipient r.
     case uuid_Parse (nc_uuid (nh_codec h)) (rq_URLParam r ''id'') of
       Inl _ \<Rightarrow> writeNotFound r
     | Inr rowID \<Rightarrow>
         bindp (in_world (na_MarkRead (nh_svc h) recipient rowID)) (\<lambda>err.
         case err of
           Some e \<Rightarrow>
             if errors_Is e ErrNotFound then writeNotFound r
             else writeInternal ''Could not mark the notification read.'' r
         | None \<Rightarrow> WriteHeader 204))"

definition HandleMarkAllRead :: "'w notif_handler \<Rightarrow> 'w handler" where
  "HandleMarkAllRead h = for_caller (nh_codec h) (\<lambda>u r.
     bindp (in_world (na_MarkAllRead (nh_svc h) u)) (\<lambda>res.
     case res of
       Inl err \<Rightarrow> writeInternal ''Could not mark the notifications read.'' r
     | Inr n \<Rightarrow> write_json_body 200 (mark_all_json n)))"

definition HandleGetPreferences :: "'w notif_handler \<Rightarrow> 'w handler" where
  "HandleGetPreferences h = for_caller (nh_codec h) (\<lambda>u r.
     bindp (in_world (na_GetPreferences (nh_svc h) u)) (\<lambda>res.
     case res of
       Inl err \<Rightarrow> writeInternal ''Could not read the delivery preferences.'' r
     | Inr views \<Rightarrow> write_json_body 200 (toPreferencesResponse views)))"

definition HandleUpdatePreferences :: "'w notif_handler \<Rightarrow> 'w handler" where
  "HandleUpdatePreferences h = for_caller (nh_codec h) (\<lambda>u r.
     bindp (decode_body (nc_Body (nh_codec h)) r) (\<lambda>(req, err).
     if err \<noteq> None then writeBadRequest (badRequest ''the request body is not valid JSON'') r
     else case toPreferenceUpdates 0 req of
       Inl err \<Rightarrow> writeBadRequest err r
     | Inr updates \<Rightarrow>
         bindp (in_world (na_UpdatePreferences (nh_svc h) u updates)) (\<lambda>res.
         case res of
           Inl err \<Rightarrow> writePreferenceError err r
         | Inr views \<Rightarrow> write_json_body 200 (toPreferencesResponse views))))"

text \<open>The route table, behind the module's authentication middleware without exception.\<close>

definition NotificationRoutes :: "'w notif_handler \<Rightarrow> (string \<times> string \<times> 'w handler) list" where
  "NotificationRoutes h =
     [(''GET'', ''/notifications'', nh_authMW h (HandleList h)),
      (''POST'', ''/notifications/read-all'', nh_authMW h (HandleMarkAllRead h)),
      (''GET'', ''/notifications/preferences'', nh_authMW h (HandleGetPreferences h)),
      (''PUT'', ''/notifications/preferences'', nh_authMW h (HandleUpdatePreferences h)),
      (''POST'', ''/notifications/{id}/read'', nh_authMW h (HandleMarkRead h))]"

definition notification_api :: "'w service \<Rightarrow> 'w notif_api" where
  \<comment> \<open>the application service behind the interface\<close>
  "notification_api s =
     \<lparr>na_ListForUser = ListForUser s, na_MarkRead = MarkRead s, na_MarkAllRead = MarkAllRead s,
      na_GetPreferences = GetPreferences s, na_UpdatePreferences = UpdatePreferences s\<rparr>"

end
