(* ===== verification/ClientIP.thy ===== *)
theory ClientIP
  imports Http
begin

text \<open>
  \<open>internal/middleware/clientip.go\<close>: which address a request is attributed to. \<open>net/netip\<close>'s
  addresses and prefixes are words; parsing and printing them and \<open>net.SplitHostPort\<close> are
  parameters with no law, so what is proved holds for any of them.
\<close>

unbundle bit_operations_syntax

section \<open>Addresses and strings\<close>

text \<open>\<open>netip.Addr\<close>: an IPv4 address, or an IPv6 address with its zone.\<close>

datatype ip_addr = IPv4 "32 word" | IPv6 "128 word" string

text \<open>A valid \<open>netip.Prefix\<close>: an address without a zone and a number of bits.\<close>

datatype ip_prefix = Prefix ip_addr nat

fun Prefix_Contains :: "ip_prefix \<Rightarrow> ip_addr \<Rightarrow> bool" where
  "Prefix_Contains (Prefix (IPv4 p) bits) (IPv4 a) \<longleftrightarrow>
     drop_bit (32 - bits) (p XOR a) = 0"
| "Prefix_Contains (Prefix (IPv6 p z) bits) (IPv6 a zone) \<longleftrightarrow>
     zone = [] \<and> drop_bit (128 - bits) (p XOR a) = 0"
| "Prefix_Contains _ _ \<longleftrightarrow> False"

record net_pkg =
  np_ParseAddr :: "string \<Rightarrow> ip_addr option"
  np_String :: "ip_addr \<Rightarrow> string"
  np_ParsePrefix :: "string \<Rightarrow> ip_prefix option"
  np_SplitHostPort :: "string \<Rightarrow> string option"

text \<open>\<open>strings.TrimSpace\<close>: the white space of Unicode, as UTF-8.\<close>

definition space_runes :: "string list" where
  "space_runes =
     [[CHR 0x09], [CHR 0x0A], [CHR 0x0B], [CHR 0x0C], [CHR 0x0D], [CHR 0x20],
      [CHR 0xC2, CHR 0x85], [CHR 0xC2, CHR 0xA0], [CHR 0xE1, CHR 0x9A, CHR 0x80]] @
     map (\<lambda>n. [CHR 0xE2, CHR 0x80, char_of (0x80 + n)]) [0..<11] @
     [[CHR 0xE2, CHR 0x80, CHR 0xA8], [CHR 0xE2, CHR 0x80, CHR 0xA9],
      [CHR 0xE2, CHR 0x80, CHR 0xAF], [CHR 0xE2, CHR 0x81, CHR 0x9F],
      [CHR 0xE3, CHR 0x80, CHR 0x80]]"

fun trim_runes :: "nat \<Rightarrow> string list \<Rightarrow> string \<Rightarrow> string" where
  \<comment> \<open>drops leading members of the list; the fuel is the length of the text\<close>
  "trim_runes 0 rs s = s"
| "trim_runes (Suc n) rs s =
     (case find (has_prefix s) rs of
        None \<Rightarrow> s | Some r \<Rightarrow> trim_runes n rs (drop (length r) s))"

definition TrimSpace :: "string \<Rightarrow> string" where
  "TrimSpace s =
     (let t = trim_runes (length s) space_runes s in
      rev (trim_runes (length t) (map rev space_runes) (rev t)))"

fun strings_Split :: "char \<Rightarrow> string \<Rightarrow> string list" where
  \<comment> \<open>\<open>strings.Split\<close> at a single character\<close>
  "strings_Split sep [] = [[]]"
| "strings_Split sep (c # cs) =
     (if c = sep then [] # strings_Split sep cs
      else case strings_Split sep cs of [] \<Rightarrow> [[c]] | p # ps \<Rightarrow> (c # p) # ps)"

section \<open>Trusted proxies and resolution\<close>

fun ParseTrustedProxies :: "net_pkg \<Rightarrow> string list \<Rightarrow> ip_prefix list" where
  "ParseTrustedProxies N [] = []"
| "ParseTrustedProxies N (c # cs) =
     (case np_ParsePrefix N (TrimSpace c) of
        None \<Rightarrow> ParseTrustedProxies N cs
      | Some p \<Rightarrow> p # ParseTrustedProxies N cs)"

definition isTrusted :: "net_pkg \<Rightarrow> string \<Rightarrow> ip_prefix list \<Rightarrow> bool" where
  "isTrusted N ip trusted =
     (case np_ParseAddr N ip of
        None \<Rightarrow> False
      | Some addr \<Rightarrow> list_ex (\<lambda>prefix. Prefix_Contains prefix addr) trusted)"

definition peerAddr :: "net_pkg \<Rightarrow> string \<Rightarrow> string" where
  "peerAddr N remoteAddr =
     (let host = (case np_SplitHostPort N remoteAddr of None \<Rightarrow> remoteAddr | Some h \<Rightarrow> h) in
      case np_ParseAddr N host of None \<Rightarrow> host | Some addr \<Rightarrow> np_String N addr)"

fun scan_hops :: "net_pkg \<Rightarrow> ip_prefix list \<Rightarrow> string list \<Rightarrow> string option" where
  \<comment> \<open>the loop over the hops, nearest first\<close>
  "scan_hops N trusted [] = None"
| "scan_hops N trusted (part # parts) =
     (let candidate = TrimSpace part in
      case np_ParseAddr N candidate of
        None \<Rightarrow> scan_hops N trusted parts
      | Some addr \<Rightarrow>
          if \<not> isTrusted N candidate trusted then Some (np_String N addr)
          else scan_hops N trusted parts)"

definition resolveClientIP :: "net_pkg \<Rightarrow> ip_prefix list \<Rightarrow> http_request \<Rightarrow> string" where
  "resolveClientIP N trusted r =
     (let peer = peerAddr N (rq_RemoteAddr r) in
      if peer = [] \<or> trusted = [] \<or> \<not> isTrusted N peer trusted then peer
      else
        let xff = get_first (rq_Header r) ''X-Forwarded-For'' in
        case (if xff = [] then None else scan_hops N trusted (rev (strings_Split (CHR '','') xff))) of
          Some ip \<Rightarrow> ip
        | None \<Rightarrow>
            let realIP = TrimSpace (get_first (rq_Header r) ''X-Real-Ip'') in
            if realIP = [] then peer
            else case np_ParseAddr N realIP of Some addr \<Rightarrow> np_String N addr | None \<Rightarrow> peer)"

definition RealIP :: "net_pkg \<Rightarrow> ip_prefix list \<Rightarrow> 'w middleware" where
  "RealIP N trusted nxt r = nxt (r\<lparr>rq_ClientIP := Some (resolveClientIP N trusted r)\<rparr>)"

definition ClientIP :: "http_request \<Rightarrow> string" where
  "ClientIP r = (case rq_ClientIP r of None \<Rightarrow> [] | Some ip \<Rightarrow> ip)"

section \<open>Lemmas\<close>

lemma scan_hops_append:
  "scan_hops N trusted (xs @ ys) =
     (case scan_hops N trusted xs of None \<Rightarrow> scan_hops N trusted ys | Some ip \<Rightarrow> Some ip)"
  by (induction xs) (auto simp: Let_def split: option.splits)

lemma scan_hops_untrusted:
  "scan_hops N trusted parts = Some ip \<Longrightarrow>
   \<exists>part \<in> set parts. \<exists>addr. np_ParseAddr N (TrimSpace part) = Some addr \<and>
     \<not> isTrusted N (TrimSpace part) trusted \<and> ip = np_String N addr"
  by (induction parts) (auto simp: Let_def split: option.splits if_splits)

lemma scan_hops_finds:
  "part \<in> set parts \<Longrightarrow> np_ParseAddr N (TrimSpace part) \<noteq> None \<Longrightarrow>
   \<not> isTrusted N (TrimSpace part) trusted \<Longrightarrow> \<exists>ip. scan_hops N trusted parts = Some ip"
  by (induction parts) (auto simp: Let_def split: option.splits)

lemma strings_Split_not_Nil [simp]: "strings_Split sep s \<noteq> []"
  by (induction s) (auto split: list.splits)

lemma strings_Split_append:
  "strings_Split sep (s @ sep # t) = strings_Split sep s @ strings_Split sep t"
proof (induction s)
  case (Cons c s)
  then show ?case by (cases "strings_Split sep s") auto
qed simp

lemma strings_Split_member: "sep \<notin> set s \<Longrightarrow> strings_Split sep s = [s]"
  by (induction s) auto

end
