(* ===== verification/Renderer.thy ===== *)
theory Renderer
  imports ClientIP
begin

text \<open>
  The template renderer of \<open>modules/notification/infrastructure/template/renderer.go\<close>: the names
  of template files, the families they form, the checks at construction and the rendering of a
  message. Go's two template engines (parsing and executing) and the file system are parameters;
  the order in which Go ranges over the map of families is that of the list here, which only
  decides which of several errors is reported.
\<close>

section \<open>White space\<close>

text \<open>
  \<open>strings.Fields\<close> splits at runs of the white space of Unicode. \<open>split_space\<close> reads one rune;
  a byte that starts no space belongs to a field.
\<close>

definition strip_space :: "string \<Rightarrow> string option" where
  \<comment> \<open>the rest after a leading space\<close>
  "strip_space s = map_option (\<lambda>r. drop (length r) s) (find (has_prefix s) space_runes)"

fun fields_at :: "nat \<Rightarrow> string \<Rightarrow> string \<Rightarrow> string list" where
  \<comment> \<open>the field read so far, reversed; the fuel is the length of the text\<close>
  "fields_at 0 cur s = (if cur = [] then [] else [rev cur])"
| "fields_at (Suc n) cur s =
     (case s of
        [] \<Rightarrow> if cur = [] then [] else [rev cur]
      | c # cs \<Rightarrow>
          (case strip_space s of
             Some t \<Rightarrow> (if cur = [] then [] else [rev cur]) @ fields_at n [] t
           | None \<Rightarrow> fields_at n (c # cur) cs))"

definition strings_Fields :: "string \<Rightarrow> string list" where
  "strings_Fields s = fields_at (Suc (length s)) [] s"

definition oneLine :: "string \<Rightarrow> string" where
  "oneLine s = strings_Join '' '' (strings_Fields s)"

section \<open>Families\<close>

definition ErrTemplateNotFound :: goerr where
  "ErrTemplateNotFound = Errorf ''%w: no template for key and channel'' [] [ErrNonRetryable]"

definition ErrTemplateInvalid :: goerr where
  "ErrTemplateInvalid = Errorf ''%w: template is unusable'' [] [ErrNonRetryable]"

definition partSubject :: string where "partSubject = ''subject''"
definition partText :: string where "partText = ''text''"
definition partHTML :: string where "partHTML = ''html''"
definition fileSuffix :: string where "fileSuffix = ''.tmpl''"

type_synonym familyID = "string \<times> channel"

text \<open>A family, over the types of parsed text and HTML templates.\<close>

record ('t, 'h) family =
  fm_subject :: "'t option"
  fm_text :: "'t option"
  fm_html :: "'h option"

type_synonym ('t, 'h) renderer_state = "(familyID \<times> ('t, 'h) family) list"

text \<open>
  The engines: parsing a file under its name, executing against a payload. Both are given the
  option \<open>missingkey=error\<close>.
\<close>

record ('t, 'h) template_pkg =
  tp_text_Parse :: "string \<Rightarrow> string \<Rightarrow> goerr + 't"
  tp_html_Parse :: "string \<Rightarrow> string \<Rightarrow> goerr + 'h"
  tp_text_Execute :: "'t \<Rightarrow> payload \<Rightarrow> goerr + string"
  tp_html_Execute :: "'h \<Rightarrow> payload \<Rightarrow> goerr + string"
  tp_text_Name :: "'t \<Rightarrow> string"
  tp_html_Name :: "'h \<Rightarrow> string"

definition parseText :: "('t, 'h) template_pkg \<Rightarrow> string \<Rightarrow> string \<Rightarrow> goerr + 't" where
  "parseText T name content =
     (case tp_text_Parse T name content of
        Inl err \<Rightarrow> Inl (Errorf ''%w: %s: %w'' [OStr name] [ErrTemplateInvalid, err])
      | Inr t \<Rightarrow> Inr t)"

definition parse_part ::
  "('t, 'h) template_pkg \<Rightarrow> ('t, 'h) family \<Rightarrow> string \<Rightarrow> string \<Rightarrow> string \<Rightarrow> goerr + ('t, 'h) family" where
  "parse_part T f name part content =
     (if part = partSubject then
        (case parseText T name content of Inl err \<Rightarrow> Inl err | Inr t \<Rightarrow> Inr (f\<lparr>fm_subject := Some t\<rparr>))
      else if part = partText then
        (case parseText T name content of Inl err \<Rightarrow> Inl err | Inr t \<Rightarrow> Inr (f\<lparr>fm_text := Some t\<rparr>))
      else if part = partHTML then
        (case tp_html_Parse T name content of
           Inl err \<Rightarrow> Inl (Errorf ''%w: %s: %w'' [OStr name] [ErrTemplateInvalid, err])
         | Inr h \<Rightarrow> Inr (f\<lparr>fm_html := Some h\<rparr>))
      else Inl (Errorf ''%w: %s: unknown part %q, want %s, %s or %s''
        [OStr name, OStr part, OStr partSubject, OStr partText, OStr partHTML] [ErrTemplateInvalid]))"

definition family_validate :: "familyID \<Rightarrow> ('t, 'h) family \<Rightarrow> goerr option" where
  "family_validate fam f =
     (if fm_subject f = None then
        Some (Errorf ''%w: %s.%s is missing its %s part'' [OStr (fst fam), OStr (snd fam), OStr partSubject]
          [ErrTemplateInvalid])
      else if fm_text f = None then
        Some (Errorf ''%w: %s.%s is missing its %s part; a family may add %s but never replace %s with it''
          [OStr (fst fam), OStr (snd fam), OStr partText, OStr partHTML, OStr partText] [ErrTemplateInvalid])
      else None)"

fun last_dot :: "string \<Rightarrow> (string \<times> string) option" where
  \<comment> \<open>the text before and after the last dot, as \<open>strings.LastIndex\<close> finds it\<close>
  "last_dot [] = None"
| "last_dot (c # cs) =
     (case last_dot cs of
        Some (a, b) \<Rightarrow> Some (c # a, b)
      | None \<Rightarrow> if c = CHR ''.'' then Some ([], cs) else None)"

definition trim_suffix :: "string \<Rightarrow> string \<Rightarrow> string" where
  "trim_suffix s p = rev (trim_prefix (rev s) (rev p))"

definition bad_name :: "string \<Rightarrow> goerr" where
  "bad_name name =
     Errorf ''%w: %s: want <key>.<channel>.<part>%s'' [OStr name, OStr fileSuffix] [ErrTemplateInvalid]"

definition parseName :: "string \<Rightarrow> goerr + familyID \<times> string" where
  "parseName name =
     (case last_dot (trim_suffix name fileSuffix) of
        None \<Rightarrow> Inl (bad_name name)
      | Some (rest, part) \<Rightarrow>
          if rest = [] then Inl (bad_name name)
          else (case last_dot rest of
             None \<Rightarrow> Inl (bad_name name)
           | Some (key, ch) \<Rightarrow>
               if key = [] then Inl (bad_name name)
               else if \<not> Channel_Valid ch then
                 Inl (Errorf ''%w: %s: unknown channel %q'' [OStr name, OStr ch] [ErrTemplateInvalid])
               else Inr ((key, ch), part)))"

definition empty_family :: "('t, 'h) family" where
  "empty_family = \<lparr>fm_subject = None, fm_text = None, fm_html = None\<rparr>"

fun set_family :: "familyID \<Rightarrow> ('t, 'h) family \<Rightarrow> ('t, 'h) renderer_state \<Rightarrow> ('t, 'h) renderer_state" where
  "set_family i f [] = [(i, f)]"
| "set_family i f ((j, g) # fs) = (if i = j then (i, f) # fs else (j, g) # set_family i f fs)"

text \<open>The loop over the files: each with its name and what reading it gives.\<close>

fun load_files ::
  "('t, 'h) template_pkg \<Rightarrow> (string \<times> (goerr + string)) list \<Rightarrow> ('t, 'h) renderer_state \<Rightarrow>
   goerr + ('t, 'h) renderer_state" where
  "load_files T [] fs = Inr fs"
| "load_files T ((name, file) # files) fs =
     (case parseName name of
        Inl err \<Rightarrow> Inl err
      | Inr (fam, part) \<Rightarrow>
          (case file of
             Inl err \<Rightarrow> Inl (Errorf ''read template %s: %w'' [OStr name] [err])
           | Inr content \<Rightarrow>
               (case parse_part T (case map_of fs fam of None \<Rightarrow> empty_family | Some f \<Rightarrow> f) name part content of
                  Inl err \<Rightarrow> Inl err
                | Inr f \<Rightarrow> load_files T files (set_family fam f fs))))"

definition NewFromFS ::
  "('t, 'h) template_pkg \<Rightarrow> goerr + (string \<times> (goerr + string)) list \<Rightarrow> goerr + ('t, 'h) renderer_state" where
  "NewFromFS T glob =
     (case glob of
        Inl err \<Rightarrow> Inl (Errorf ''list templates: %w'' [] [err])
      | Inr files \<Rightarrow>
          (case load_files T files [] of
             Inl err \<Rightarrow> Inl err
           | Inr fs \<Rightarrow>
               (case find_first (\<lambda>(fam, f). family_validate fam f) fs of
                  Some err \<Rightarrow> Inl err
                | None \<Rightarrow> Inr fs)))"

section \<open>Rendering\<close>

definition executeText :: "('t, 'h) template_pkg \<Rightarrow> 't option \<Rightarrow> payload \<Rightarrow> (goerr + string) option" where
  \<comment> \<open>\<open>None\<close>: a nil template is dereferenced\<close>
  "executeText T t payload =
     map_option (\<lambda>t.
       case tp_text_Execute T t payload of
         Inl err \<Rightarrow> Inl (Errorf ''%w: execute %s: %w'' [OStr (tp_text_Name T t)] [ErrTemplateInvalid, err])
       | Inr s \<Rightarrow> Inr s) t"

definition render_html :: "('t, 'h) template_pkg \<Rightarrow> 'h option \<Rightarrow> payload \<Rightarrow> goerr + string" where
  "render_html T html payload =
     (case html of
        None \<Rightarrow> Inr []
      | Some h \<Rightarrow>
          (case tp_html_Execute T h payload of
             Inl err \<Rightarrow> Inl (Errorf ''%w: execute %s: %w'' [OStr (tp_html_Name T h)] [ErrTemplateInvalid, err])
           | Inr s \<Rightarrow> Inr (TrimSpace s)))"

definition unrouted :: rendered_message where
  "unrouted = \<lparr>m_NotificationID = uuid_Nil, m_RecipientID = uuid_Nil, m_Channel = [], m_Subject = [], m_Body = [],
     m_HTMLBody = []\<rparr>"

definition render_family ::
  "('t, 'h) template_pkg \<Rightarrow> ('t, 'h) family \<Rightarrow> string \<Rightarrow> channel \<Rightarrow> payload \<Rightarrow> (goerr + rendered_message) option" where
  "render_family T f key ch payload =
     (case executeText T (fm_subject f) payload of
        None \<Rightarrow> None
      | Some (Inl err) \<Rightarrow> Some (Inl err)
      | Some (Inr subject) \<Rightarrow>
     (case executeText T (fm_text f) payload of
        None \<Rightarrow> None
      | Some (Inl err) \<Rightarrow> Some (Inl err)
      | Some (Inr body) \<Rightarrow>
     (case render_html T (fm_html f) payload of
        Inl err \<Rightarrow> Some (Inl err)
      | Inr html \<Rightarrow>
          if oneLine subject = [] then
            Some (Inl (Errorf ''%w: %s.%s rendered an empty subject'' [OStr key, OStr ch] [ErrTemplateInvalid]))
          else Some (Inr (unrouted\<lparr>m_Subject := oneLine subject, m_Body := TrimSpace body, m_HTMLBody := html\<rparr>)))))"

definition Render ::
  "('t, 'h) template_pkg \<Rightarrow> ('t, 'h) renderer_state \<Rightarrow> string \<Rightarrow> channel \<Rightarrow> payload \<Rightarrow>
   ('w, goerr + rendered_message) prog" where
  "Render T fs key ch payload =
     (case map_of fs (key, ch) of
        None \<Rightarrow> retp (Inl (Errorf ''%w: key %q, channel %q'' [OStr key, OStr ch] [ErrTemplateNotFound]))
      | Some f \<Rightarrow>
          (case render_family T f key ch payload of
             None \<Rightarrow> panicp ''invalid memory address or nil pointer dereference''
           | Some r \<Rightarrow> retp r))"

section \<open>One line of text\<close>

definition ascii_space :: "char set" where
  "ascii_space = {CHR 0x09, CHR 0x0A, CHR 0x0B, CHR 0x0C, CHR 0x0D, CHR 0x20}"

lemma strip_space_ascii: "c \<in> ascii_space \<Longrightarrow> strip_space (c # cs) \<noteq> None"
  by (auto simp: ascii_space_def strip_space_def space_runes_def has_prefix_def)

lemma fields_clean:
  assumes "f \<in> set (fields_at n cur s)" "set cur \<inter> ascii_space = {}"
  shows "f \<noteq> [] \<and> set f \<inter> ascii_space = {}"
  using assms
proof (induction n cur s rule: fields_at.induct)
  case (1 cur s)
  then show ?case by (auto split: if_splits)
next
  case (2 n cur s)
  show ?case
  proof (cases s)
    case Nil
    with 2 show ?thesis by (auto split: if_splits)
  next
    case (Cons c cs)
    show ?thesis
    proof (cases "strip_space s")
      case None
      then have "c \<notin> ascii_space" using strip_space_ascii [of c cs] Cons by auto
      then show ?thesis using 2 Cons None by auto
    next
      case (Some t)
      then have "f \<in> set (if cur = [] then [] else [rev cur]) \<or> f \<in> set (fields_at n [] t)"
        using 2 Cons by auto
      then show ?thesis using 2 Cons Some by (auto split: if_splits)
    qed
  qed
qed

lemma Fields_clean: "f \<in> set (strings_Fields s) \<Longrightarrow> f \<noteq> [] \<and> set f \<inter> ascii_space = {}"
  using fields_clean [of f "Suc (length s)" "[]" s] by (simp add: strings_Fields_def del: fields_at.simps)

lemma set_strings_Join: "set (strings_Join sep xs) \<subseteq> \<Union> (set ` set xs) \<union> set sep"
  by (induction sep xs rule: strings_Join.induct) auto

lemma oneLine_single: "set (oneLine s) \<inter> ascii_space \<subseteq> {CHR 0x20}"
proof -
  have "set (oneLine s) \<subseteq> \<Union> (set ` set (strings_Fields s)) \<union> {CHR 0x20}"
    using set_strings_Join [of "'' ''" "strings_Fields s"] by (simp add: oneLine_def)
  moreover have "\<Union> (set ` set (strings_Fields s)) \<inter> ascii_space = {}"
    using Fields_clean [of _ s] by blast
  ultimately show ?thesis by blast
qed

section \<open>Names of template files\<close>

lemma last_dot_Some: "last_dot s = Some (a, b) \<longleftrightarrow> s = a @ CHR ''.'' # b \<and> CHR ''.'' \<notin> set b"
proof (induction s arbitrary: a b)
  case Nil
  then show ?case by simp
next
  case (Cons c cs)
  have none: "last_dot cs = None \<longleftrightarrow> CHR ''.'' \<notin> set cs"
    by (induction cs) (auto split: option.splits)
  show ?case
  proof (cases "last_dot cs")
    case None
    then show ?thesis using none by (cases a) (auto simp: Cons_eq_append_conv)
  next
    case (Some p)
    obtain a' b' where p: "p = (a', b')" by (cases p)
    with Some Cons.IH have cs: "cs = a' @ CHR ''.'' # b'" "CHR ''.'' \<notin> set b'" by auto
    have "c # cs = a @ CHR ''.'' # b \<and> CHR ''.'' \<notin> set b \<longleftrightarrow> a = c # a' \<and> b = b'"
    proof (cases a)
      case Nil
      with cs show ?thesis by auto
    next
      case (Cons x xs)
      with Cons.IH [of xs b] Some p show ?thesis by auto
    qed
    with Some p show ?thesis by auto
  qed
qed

lemma trim_suffix_append [simp]: "trim_suffix (s @ p) p = s"
  by (simp add: trim_suffix_def trim_prefix_def has_prefix_def)

lemma Channel_no_dot: "Channel_Valid ch \<Longrightarrow> CHR ''.'' \<notin> set ch"
  by (auto simp: Channel_Valid_def channel_defs)

lemma parseName_Inr:
  "parseName (stem @ fileSuffix) = Inr ((key, ch), part) \<longleftrightarrow>
     stem = key @ CHR ''.'' # ch @ CHR ''.'' # part \<and>
     key \<noteq> [] \<and> Channel_Valid ch \<and> CHR ''.'' \<notin> set part"
  (is "?l \<longleftrightarrow> ?r")
proof
  assume ?l
  then show ?r
    unfolding parseName_def
    by (auto simp: last_dot_Some split: option.splits prod.splits if_splits)
next
  assume r: ?r
  then have "last_dot stem = Some (key @ CHR ''.'' # ch, part)"
    "last_dot (key @ CHR ''.'' # ch) = Some (key, ch)"
    using Channel_no_dot [of ch] by (simp_all add: last_dot_Some)
  moreover from r have "key \<noteq> []" "Channel_Valid ch" by simp_all
  ultimately show ?l unfolding parseName_def trim_suffix_append by simp
qed

section \<open>What a built renderer holds\<close>

definition part_of ::
  "('t, 'h) template_pkg \<Rightarrow> (string \<times> (goerr + string)) list \<Rightarrow> familyID \<Rightarrow> string \<Rightarrow> 't \<Rightarrow> bool" where
  \<comment> \<open>a text template is the parsed content of the file named for that part of that family\<close>
  "part_of T files fam part t \<longleftrightarrow>
     (\<exists>name content. (name, Inr content) \<in> set files \<and> parseName name = Inr (fam, part) \<and>
        tp_text_Parse T name content = Inr t)"

definition from_files ::
  "('t, 'h) template_pkg \<Rightarrow> (string \<times> (goerr + string)) list \<Rightarrow> ('t, 'h) renderer_state \<Rightarrow> bool" where
  "from_files T files fs \<longleftrightarrow>
     (\<forall>fam f t. map_of fs fam = Some f \<longrightarrow>
        (fm_subject f = Some t \<longrightarrow> part_of T files fam partSubject t) \<and>
        (fm_text f = Some t \<longrightarrow> part_of T files fam partText t))"

lemma from_filesD:
  assumes "from_files T files fs" "map_of fs fam = Some f"
  shows "fm_subject f = Some t \<Longrightarrow> part_of T files fam partSubject t"
    and "fm_text f = Some t \<Longrightarrow> part_of T files fam partText t"
  using assms unfolding from_files_def by blast+

lemma map_of_set_family: "map_of (set_family i f fs) = (map_of fs)(i \<mapsto> f)"
  by (induction i f fs rule: set_family.induct) auto

lemma parse_part_fields:
  assumes "parse_part T f name part content = Inr g"
  shows "(fm_subject g = Some t \<longrightarrow>
            fm_subject f = Some t \<or> part = partSubject \<and> tp_text_Parse T name content = Inr t) \<and>
         (fm_text g = Some t \<longrightarrow> fm_text f = Some t \<or> part = partText \<and> tp_text_Parse T name content = Inr t)"
  using assms by (auto simp: parse_part_def parseText_def split: if_splits sum.splits)

lemma load_files_from:
  assumes "load_files T files fs = Inr gs" "from_files T all fs" "set files \<subseteq> set all"
  shows "from_files T all gs"
  using assms
proof (induction T files fs rule: load_files.induct)
  case (1 T fs)
  then show ?case by simp
next
  case (2 T name result files fs)
  from "2.prems"(1) obtain fam part content f where *:
    "parseName name = Inr (fam, part)" "result = Inr content"
    "parse_part T (case map_of fs fam of None \<Rightarrow> empty_family | Some f \<Rightarrow> f) name part content = Inr f"
    "load_files T files (set_family fam f fs) = Inr gs"
    by (auto split: sum.splits prod.splits)
  have mem: "(name, Inr content) \<in> set all" using "2.prems"(3) *(2) by auto
  have "from_files T all (set_family fam f fs)"
    unfolding from_files_def map_of_set_family
  proof (intro allI impI)
    fix i g t
    assume g: "((map_of fs)(fam \<mapsto> f)) i = Some g"
    show "(fm_subject g = Some t \<longrightarrow> part_of T all i partSubject t) \<and>
          (fm_text g = Some t \<longrightarrow> part_of T all i partText t)"
    proof (cases "i = fam")
      case True
      let ?old = "case map_of fs fam of None \<Rightarrow> empty_family | Some f \<Rightarrow> f"
      have "(fm_subject ?old = Some t \<longrightarrow> part_of T all fam partSubject t) \<and>
            (fm_text ?old = Some t \<longrightarrow> part_of T all fam partText t)"
        by (cases "map_of fs fam") (auto simp: empty_family_def from_filesD [OF "2.prems"(2)])
      moreover have "part = p \<and> tp_text_Parse T name content = Inr t \<longrightarrow> part_of T all fam p t" for p
        using mem *(1) unfolding part_of_def by auto
      ultimately show ?thesis
        using True g parse_part_fields [OF *(3), of t] by auto
    next
      case False
      with g show ?thesis by (auto simp: from_filesD [OF "2.prems"(2)])
    qed
  qed
  from "2.IH" [OF *(1) refl *(2) *(3,4) this] "2.prems"(3) show ?case by auto
qed

lemma find_first_None: "find_first p xs = None \<longleftrightarrow> (\<forall>x\<in>set xs. p x = None)"
  by (induction xs) (auto split: option.splits)

lemma NewFromFS_Inr:
  assumes "NewFromFS T (Inr files) = Inr fs" "map_of fs fam = Some f"
  shows "\<exists>t u. fm_subject f = Some t \<and> fm_text f = Some u \<and>
    part_of T files fam partSubject t \<and> part_of T files fam partText u"
proof -
  from assms(1) have load: "load_files T files [] = Inr fs"
    and valid: "\<forall>x\<in>set fs. (case x of (i, g) \<Rightarrow> family_validate i g) = None"
    by (auto simp: NewFromFS_def find_first_None split: sum.splits option.splits)
  have "from_files T files []" by (simp add: from_files_def)
  from load_files_from [OF load this] have from_f: "from_files T files fs" by simp
  have "(fam, f) \<in> set fs" using assms(2) by (rule map_of_SomeD)
  with valid have "family_validate fam f = None" by auto
  then obtain t u where "fm_subject f = Some t" "fm_text f = Some u"
    by (auto simp: family_validate_def split: if_splits)
  with from_filesD [OF from_f assms(2)] show ?thesis by blast
qed

end
