(* ===== verification/Mail.thy ===== *)
theory Mail
  imports Renderer
begin

text \<open>
  What the mail sender uses of Go's \<open>mime\<close>, \<open>mime/quotedprintable\<close> and \<open>mime/multipart\<close>: the Q
  encoding of a header value, the quoted-printable writer as the state machine the standard
  library has, and the multipart writer. Buffers grow in memory, so no write fails. A byte is an
  Isabelle \<open>char\<close>.
\<close>

section \<open>Bytes a mail may carry\<close>

definition CRLF :: string where
  "CRLF = [CHR 0x0D, CHR 0x0A]"

definition printable :: "char \<Rightarrow> bool" where
  "printable c \<longleftrightarrow> in_range 0x20 0x7E c"

definition upperhex :: string where
  "upperhex = ''0123456789ABCDEF''"

definition escaped :: "char \<Rightarrow> string" where
  \<comment> \<open>\<open>=XX\<close>\<close>
  "escaped c = [CHR 0x3D, upperhex ! (byte c div 16), upperhex ! (byte c mod 16)]"

section \<open>Encoded words\<close>

definition needsEncoding :: "string \<Rightarrow> bool" where
  "needsEncoding s \<longleftrightarrow> list_ex (\<lambda>c. \<not> printable c \<and> c \<noteq> CHR 0x09) s"

definition q_plain :: "char \<Rightarrow> bool" where
  "q_plain c \<longleftrightarrow> printable c \<and> c \<notin> {CHR ''='', CHR ''?'', CHR ''_''}"

definition writeQString :: "string \<Rightarrow> string" where
  "writeQString s =
     concat (map (\<lambda>c. if c = CHR 0x20 then ''_'' else if q_plain c then [c] else escaped c) s)"

definition maxContentLen :: nat where
  "maxContentLen = 75 - length ''=?UTF-8?q?'' - length ''?=''"

definition openWord :: "string \<Rightarrow> string" where
  "openWord charset = ''=?'' @ charset @ ''?q?''"

fun qEncode :: "nat \<Rightarrow> string \<Rightarrow> nat \<Rightarrow> string \<Rightarrow> string" where
  \<comment> \<open>the loop over the runes; \<open>currentLen\<close> is what the open word holds, the fuel the length\<close>
  "qEncode 0 charset currentLen s = []"
| "qEncode (Suc n) charset currentLen s =
     (case s of
        [] \<Rightarrow> []
      | c # cs \<Rightarrow>
          (let (runeLen, encLen) =
                 (if q_plain c then (1, 1)
                  else let w = max 1 (rune_len s) in (w, 3 * w))
           in if maxContentLen < currentLen + encLen
              then ''?= '' @ openWord charset @ writeQString (take runeLen s) @
                   qEncode n charset encLen (drop runeLen s)
              else writeQString (take runeLen s) @
                   qEncode n charset (currentLen + encLen) (drop runeLen s)))"

definition QEncoding_Encode :: "string \<Rightarrow> string \<Rightarrow> string" where
  \<comment> \<open>for a UTF-8 charset\<close>
  "QEncoding_Encode charset s =
     (if \<not> needsEncoding s then s
      else openWord charset @ qEncode (length s) charset 0 s @ ''?='')"

section \<open>Quoted-printable\<close>

record qp_writer =
  qw_out :: string
  qw_line :: string
  qw_cr :: bool

definition qp_new :: qp_writer where
  "qp_new = \<lparr>qw_out = [], qw_line = [], qw_cr = False\<rparr>"

definition insertCRLF :: "qp_writer \<Rightarrow> qp_writer" where
  "insertCRLF w = w\<lparr>qw_out := qw_out w @ qw_line w @ CRLF, qw_line := []\<rparr>"

definition insertSoftLineBreak :: "qp_writer \<Rightarrow> qp_writer" where
  "insertSoftLineBreak w = insertCRLF (w\<lparr>qw_line := qw_line w @ ''=''\<rparr>)"

definition qp_encode :: "char \<Rightarrow> qp_writer \<Rightarrow> qp_writer" where
  "qp_encode c w =
     (let w = (if 72 < length (qw_line w) then insertSoftLineBreak w else w)
      in w\<lparr>qw_line := qw_line w @ escaped c\<rparr>)"

definition qp_whitespace :: "char \<Rightarrow> bool" where
  "qp_whitespace c \<longleftrightarrow> c = CHR 0x20 \<or> c = CHR 0x09"

definition checkLastByte :: "qp_writer \<Rightarrow> qp_writer" where
  \<comment> \<open>a line must not end in white space\<close>
  "checkLastByte w =
     (if qw_line w = [] \<or> \<not> qp_whitespace (last (qw_line w)) then w
      else qp_encode (last (qw_line w)) (w\<lparr>qw_line := butlast (qw_line w)\<rparr>))"

definition qp_plain :: "char \<Rightarrow> qp_writer \<Rightarrow> qp_writer" where
  "qp_plain c w =
     (if c = CHR 0x0A \<or> c = CHR 0x0D then
        (if qw_cr w \<and> c = CHR 0x0A then w\<lparr>qw_cr := False\<rparr>
         else (insertCRLF (checkLastByte w))\<lparr>qw_cr := (c = CHR 0x0D)\<rparr>)
      else
        (let w = (if length (qw_line w) = 75 then insertSoftLineBreak w else w)
         in w\<lparr>qw_line := qw_line w @ [c], qw_cr := False\<rparr>))"

definition qp_byte :: "char \<Rightarrow> qp_writer \<Rightarrow> qp_writer" where
  "qp_byte c w =
     (if in_range 0x21 0x7E c \<and> c \<noteq> CHR ''='' \<or> qp_whitespace c \<or> c = CHR 0x0A \<or> c = CHR 0x0D
      then qp_plain c w else qp_encode c w)"

definition qp_close :: "qp_writer \<Rightarrow> string" where
  "qp_close w = (let w = checkLastByte w in qw_out w @ qw_line w)"

definition quoted_printable :: "string \<Rightarrow> string" where
  \<comment> \<open>a fresh writer, one write of the whole text, close\<close>
  "quoted_printable s = qp_close (fold qp_byte s qp_new)"

section \<open>Multipart\<close>

text \<open>
  A writer appends each part behind a delimiter line; a part's header lines come in the order of
  their names.
\<close>

definition header_line :: "string \<times> string \<Rightarrow> string" where
  "header_line h = fst h @ '': '' @ snd h @ CRLF"

definition createPart :: "string \<Rightarrow> (string \<times> string) list \<Rightarrow> string \<Rightarrow> string" where
  \<comment> \<open>from the buffer so far; a part before makes the delimiter start on a new line\<close>
  "createPart boundary headers buf =
     buf @ (if buf = [] then '''' else CRLF) @ ''--'' @ boundary @ CRLF @
     concat (map header_line headers) @ CRLF"

definition closeMultipart :: "string \<Rightarrow> string \<Rightarrow> string" where
  "closeMultipart boundary buf = buf @ CRLF @ ''--'' @ boundary @ ''--'' @ CRLF"

section \<open>Encoded words hold no line break\<close>

lemma byte_char_of: "n < 256 \<Longrightarrow> byte (char_of n) = n"
  by (simp add: byte_def)

lemma byte_lt: "byte c < 256"
  by (simp add: byte_def)

lemma upperhex_printable: "n < 16 \<Longrightarrow> printable (upperhex ! n) \<and> upperhex ! n \<noteq> CHR 0x20"
proof -
  have "list_all (\<lambda>n. printable (upperhex ! n) \<and> upperhex ! n \<noteq> CHR 0x20) [0..<16]"
    by (simp add: upperhex_def printable_def in_range_def byte_def upt_rec numeral_nat)
  then show "n < 16 \<Longrightarrow> printable (upperhex ! n) \<and> upperhex ! n \<noteq> CHR 0x20"
    by (simp add: list_all_iff)
qed

lemma escaped_printable: "d \<in> set (escaped c) \<Longrightarrow> printable d \<and> d \<noteq> CHR 0x20"
proof -
  assume d: "d \<in> set (escaped c)"
  have "byte c div 16 < 16" "byte c mod 16 < 16" using byte_lt [of c] by auto
  note hex = this [THEN upperhex_printable]
  have "printable (CHR 0x3D)" by (simp add: printable_def in_range_def byte_def)
  with d hex show ?thesis unfolding escaped_def by auto
qed

lemma escaped_length [simp]: "length (escaped c) = 3"
  by (simp add: escaped_def)

lemma printable_break: "\<not> printable (CHR 0x0A)" "\<not> printable (CHR 0x0D)" "\<not> printable (CHR 0x09)"
  by (simp_all add: printable_def in_range_def byte_def)

lemma word_parts_printable:
  "list_all printable ''=?utf-8?q?''" "list_all printable ''?= ''" "list_all printable ''?=''" "printable CHR ''_''"
  by (simp_all add: printable_def in_range_def byte_def)

lemma writeQString_printable: "list_all printable (writeQString s)"
  unfolding writeQString_def list_all_iff using escaped_printable word_parts_printable(4)
  by (auto simp: q_plain_def split: if_splits)

lemma openWord_printable: "list_all printable (openWord ''utf-8'')"
  using word_parts_printable(1) by (simp add: openWord_def)

lemma qEncode_printable: "list_all printable (qEncode n ''utf-8'' k s)"
proof (induction n arbitrary: k s)
  case 0
  show ?case by simp
next
  case (Suc n)
  show ?case
    by (simp add: Let_def Suc writeQString_printable openWord_printable word_parts_printable(2) [simplified]
        split: list.split)
qed

lemma Encode_printable: "c \<in> set (QEncoding_Encode ''utf-8'' s) \<Longrightarrow> printable c \<or> c = CHR 0x09"
proof (cases "needsEncoding s")
  case True
  assume "c \<in> set (QEncoding_Encode ''utf-8'' s)"
  moreover have "list_all printable (QEncoding_Encode ''utf-8'' s)"
    using True openWord_printable qEncode_printable word_parts_printable(3) [simplified]
    by (simp add: QEncoding_Encode_def)
  ultimately show ?thesis by (simp add: list_all_iff)
next
  case False
  assume "c \<in> set (QEncoding_Encode ''utf-8'' s)"
  with False show ?thesis by (auto simp: QEncoding_Encode_def needsEncoding_def list_ex_iff)
qed

section \<open>Lines of a quoted-printable body\<close>

definition mail_line :: "string \<Rightarrow> bool" where
  \<comment> \<open>at most 76 bytes, all printable or tabs, none at the end a blank\<close>
  "mail_line l \<longleftrightarrow> length l \<le> 76 \<and> (\<forall>c \<in> set l. printable c \<or> c = CHR 0x09) \<and>
     (l \<noteq> [] \<longrightarrow> \<not> qp_whitespace (last l))"

definition mail_text :: "string \<Rightarrow> bool" where
  "mail_text s \<longleftrightarrow> (\<exists>ls l. s = concat (map (\<lambda>l. l @ CRLF) ls) @ l \<and> (\<forall>k \<in> set ls. mail_line k) \<and> mail_line l)"

definition qp_inv :: "qp_writer \<Rightarrow> bool" where
  "qp_inv w \<longleftrightarrow> (\<exists>ls. qw_out w = concat (map (\<lambda>l. l @ CRLF) ls) \<and> (\<forall>l \<in> set ls. mail_line l)) \<and>
     length (qw_line w) \<le> 75 \<and> (\<forall>c \<in> set (qw_line w). printable c \<or> c = CHR 0x09)"

lemma qp_inv_crlf:
  assumes "qp_inv w" "mail_line l"
  shows "\<exists>ls. qw_out w @ l @ CRLF = concat (map (\<lambda>l. l @ CRLF) ls) \<and> (\<forall>l \<in> set ls. mail_line l)"
proof -
  from assms(1) obtain ls where "qw_out w = concat (map (\<lambda>l. l @ CRLF) ls)" "\<forall>l \<in> set ls. mail_line l"
    by (auto simp: qp_inv_def)
  with assms(2) show ?thesis by (intro exI [of _ "ls @ [l]"]) auto
qed

lemma soft_inv: "qp_inv w \<Longrightarrow> qp_inv (insertSoftLineBreak w) \<and> qw_line (insertSoftLineBreak w) = []"
proof -
  assume inv: "qp_inv w"
  then have "mail_line (qw_line w @ ''='')"
    by (auto simp: qp_inv_def mail_line_def qp_whitespace_def printable_def in_range_def byte_def)
  from qp_inv_crlf [OF inv this] show ?thesis
    by (auto simp: insertSoftLineBreak_def insertCRLF_def qp_inv_def)
qed

lemma encode_inv:
  assumes "qp_inv w"
  shows "qp_inv (qp_encode c w) \<and> \<not> qp_whitespace (last (qw_line (qp_encode c w)))"
proof -
  have "\<not> qp_whitespace (last (l @ escaped c))" for l
    using escaped_printable [of "last (escaped c)" c] printable_break
    by (auto simp: escaped_def qp_whitespace_def)
  then show ?thesis
    using assms soft_inv [OF assms] escaped_printable [of _ c]
    by (auto simp: qp_encode_def qp_inv_def Let_def)
qed

lemma checkLast_inv:
  assumes inv: "qp_inv w"
  shows "qp_inv (checkLastByte w) \<and> mail_line (qw_line (checkLastByte w))"
proof (cases "qw_line w = [] \<or> \<not> qp_whitespace (last (qw_line w))")
  case True
  with inv have "mail_line (qw_line w)" by (auto simp: qp_inv_def mail_line_def)
  with True inv show ?thesis by (simp add: checkLastByte_def)
next
  case False
  let ?v = "qp_encode (last (qw_line w)) (w\<lparr>qw_line := butlast (qw_line w)\<rparr>)"
  have "qp_inv (w\<lparr>qw_line := butlast (qw_line w)\<rparr>)"
    using inv by (auto simp: qp_inv_def dest: in_set_butlastD)
  from encode_inv [OF this, of "last (qw_line w)"]
  have v: "qp_inv ?v" "\<not> qp_whitespace (last (qw_line ?v))" by auto
  then have "mail_line (qw_line ?v)" by (simp add: qp_inv_def mail_line_def)
  with v False show ?thesis by (simp add: checkLastByte_def)
qed

lemma qp_byte_inv: "qp_inv w \<Longrightarrow> qp_inv (qp_byte c w)"
proof -
  assume inv: "qp_inv w"
  have "qp_inv ((insertCRLF (checkLastByte w))\<lparr>qw_cr := b\<rparr>)" for b
    using checkLast_inv [OF inv] qp_inv_crlf [of "checkLastByte w" "qw_line (checkLastByte w)"]
    by (auto simp: insertCRLF_def qp_inv_def)
  moreover have "qp_inv (w\<lparr>qw_cr := b\<rparr>)" for b using inv by (simp add: qp_inv_def)
  moreover have "in_range 33 126 c \<Longrightarrow> printable c" by (simp add: printable_def in_range_def)
  moreover have "printable (CHR 0x20)" by (simp add: printable_def in_range_def byte_def)
  ultimately show ?thesis
    using inv soft_inv [OF inv] encode_inv [OF inv, of c]
    by (auto simp: qp_byte_def qp_plain_def Let_def qp_inv_def qp_whitespace_def)
qed

lemma quoted_printable_lines: "mail_text (quoted_printable s)"
proof -
  have "qp_inv (fold qp_byte s w)" if "qp_inv w" for w
    using that by (induction s arbitrary: w) (auto intro: qp_byte_inv)
  moreover have "qp_inv qp_new" by (auto simp: qp_inv_def qp_new_def intro!: exI [of _ "[]"])
  ultimately have "qp_inv (fold qp_byte s qp_new)" by blast
  from checkLast_inv [OF this] show ?thesis
    by (auto simp: quoted_printable_def qp_close_def Let_def qp_inv_def mail_text_def)
qed

text \<open>The lines the sender writes before a part.\<close>

lemma mail_lineI:
  "length l \<le> 76 \<Longrightarrow> list_all printable l \<Longrightarrow> \<not> qp_whitespace (last l) \<Longrightarrow> mail_line l"
  by (auto simp: mail_line_def list_all_iff)

lemma content_lines:
  "mail_line ''Content-Transfer-Encoding: quoted-printable''"
  "mail_line (''Content-Type: text/plain; charset='' @ [CHR 0x22] @ ''utf-8'' @ [CHR 0x22])"
  "mail_line (''Content-Type: text/html; charset='' @ [CHR 0x22] @ ''utf-8'' @ [CHR 0x22])"
  by (rule mail_lineI; simp add: printable_def in_range_def byte_def qp_whitespace_def)+

end
