(* ===== verification/GoReal.thy ===== *)
theory GoReal
  imports Complex_Main GoFloat
begin

text \<open>
  Float64 arithmetic of finite values as rounded arithmetic on rationals: the sum, product and
  quotient of two floats is the exact result rounded to 53 significant bits, to nearest, ties to
  even. Overflow to infinity and the loss of precision below \<open>2 ^ -1022\<close> are left out. The
  facts the rate limiter needs are that rounding is monotone and keeps short numbers.
\<close>

section \<open>Rounding to an integer\<close>

definition round_even :: "rat \<Rightarrow> int" where
  "round_even y =
     (let f = \<lfloor>y\<rfloor>; r = y - of_int f in
      if r < 1 / 2 then f else if 1 / 2 < r then f + 1 else if even f then f else f + 1)"

lemma round_even_of_int [simp]: "round_even (of_int k) = k"
  by (simp add: round_even_def)

lemma round_even_bounds: "\<lfloor>y\<rfloor> \<le> round_even y" "round_even y \<le> \<lfloor>y\<rfloor> + 1"
  by (simp_all add: round_even_def Let_def)

lemma round_even_mono:
  assumes "x \<le> y"
  shows "round_even x \<le> round_even y"
proof (cases "\<lfloor>x\<rfloor> = \<lfloor>y\<rfloor>")
  case True
  with assms show ?thesis by (simp add: round_even_def Let_def)
next
  case False
  with floor_mono [OF assms] have "\<lfloor>x\<rfloor> + 1 \<le> \<lfloor>y\<rfloor>" by linarith
  with round_even_bounds [of x] round_even_bounds [of y] show ?thesis by linarith
qed

section \<open>Powers of two\<close>

lemma powi_pos [simp]: "0 < (2 :: rat) powi i"
  by (rule zero_less_power_int) simp

lemma powi_less_iff [simp]: "(2 :: rat) powi i < 2 powi j \<longleftrightarrow> i < j"
proof -
  have "i < j \<Longrightarrow> (2 :: rat) powi i < 2 powi j" for i j
    by (rule power_int_strict_increasing) auto
  then show ?thesis by (metis less_asym linorder_less_linear)
qed

lemma powi_le_iff [simp]: "(2 :: rat) powi i \<le> 2 powi j \<longleftrightarrow> i \<le> j"
  by (simp flip: not_less)

lemma powi_add_nat: "(2 :: rat) powi (e + int n) = of_int (2 ^ n) * 2 powi e"
  by (simp add: power_int_add)

section \<open>The magnitude of a number\<close>

definition magnitude :: "rat \<Rightarrow> int" where
  \<comment> \<open>the \<open>e\<close> with \<open>2 ^ e \<le> x < 2 ^ (e + 1)\<close>, for positive \<open>x\<close>\<close>
  "magnitude x =
     (let (p, q) = quotient_of x; d = int (bitlen (nat p)) - int (bitlen (nat q)) in
      if 2 powi d \<le> x then d else d - 1)"

lemma bitlen_range:
  assumes "0 < n"
  shows "(2 :: rat) powi (int (bitlen n) - 1) \<le> of_nat n" and "of_nat n < (2 :: rat) powi int (bitlen n)"
proof -
  have pos: "0 < bitlen n" using assms by simp
  then have "int (bitlen n) - 1 = int (bitlen n - 1)" by linarith
  moreover have "(2 :: rat) ^ (bitlen n - 1) \<le> of_nat n"
    using bitlen_lower [OF assms] by (metis of_nat_le_iff of_nat_numeral of_nat_power)
  ultimately show "(2 :: rat) powi (int (bitlen n) - 1) \<le> of_nat n" by (simp only: power_int_of_nat)
  show "of_nat n < (2 :: rat) powi int (bitlen n)"
    using bitlen_upper [of n] by (metis of_nat_less_iff of_nat_numeral of_nat_power power_int_of_nat)
qed

lemma magnitude_range:
  assumes "0 < x"
  shows "2 powi magnitude x \<le> x" and "x < 2 powi (magnitude x + 1)"
proof -
  obtain p q where pq: "quotient_of x = (p, q)" by (cases "quotient_of x")
  have q: "0 < q" using quotient_of_denom_pos [OF pq] .
  have x: "x = of_int p / of_int q" using quotient_of_div [OF pq] .
  have p: "0 < p" using assms q by (simp add: x zero_less_divide_iff)
  define a b where "a = nat p" and "b = nat q"
  have ab: "0 < a" "0 < b" "x = of_nat a / of_nat b" using p q x by (simp_all add: a_def b_def)
  define i j where "i = int (bitlen a)" and "j = int (bitlen b)"
  note A = bitlen_range [OF ab(1), folded i_def] and B = bitlen_range [OF ab(2), folded j_def]
  have "x \<le> of_nat a / 2 powi (j - 1)"
    unfolding ab(3) using B ab by (intro divide_left_mono) auto
  also have "\<dots> < 2 powi i / 2 powi (j - 1)" using A by (intro divide_strict_right_mono) auto
  also have "\<dots> = 2 powi (i - j + 1)" by (simp add: power_int_diff power_int_add)
  finally have up: "x < 2 powi (i - j + 1)" .
  have "2 powi (i - j - 1) = (2 :: rat) powi (i - 1) / 2 powi j" by (simp add: power_int_diff)
  also have "\<dots> \<le> of_nat a / 2 powi j" using A by (intro divide_right_mono) auto
  also have "\<dots> \<le> x" unfolding ab(3) using B ab by (intro divide_left_mono) auto
  finally have lo: "2 powi (i - j - 1) \<le> x" .
  have mag: "magnitude x = (if 2 powi (i - j) \<le> x then i - j else i - j - 1)"
    by (simp add: magnitude_def pq i_def j_def a_def b_def Let_def)
  show "2 powi magnitude x \<le> x" using lo by (simp add: mag)
  show "x < 2 powi (magnitude x + 1)" using up by (simp add: mag)
qed


lemma magnitude_unique:
  assumes "2 powi e \<le> x" and "x < 2 powi (e + 1)"
  shows "magnitude x = e"
proof -
  have "0 < x" using assms(1) by (rule less_le_trans [rotated]) simp
  note m = magnitude_range [OF this]
  have "(2 :: rat) powi e < 2 powi (magnitude x + 1)" using assms(1) m(2) by (rule le_less_trans)
  moreover have "(2 :: rat) powi magnitude x < 2 powi (e + 1)" using m(1) assms(2) by (rule le_less_trans)
  ultimately show ?thesis by simp
qed

lemma magnitude_mono:
  assumes "0 < x" and "x \<le> y"
  shows "magnitude x \<le> magnitude y"
proof -
  have "(2 :: rat) powi magnitude x \<le> y"
    using magnitude_range(1) [OF assms(1)] assms(2) by (rule order_trans)
  also have "y < 2 powi (magnitude y + 1)" using assms by (intro magnitude_range) auto
  finally show ?thesis by simp
qed

section \<open>Rounding to float64\<close>

definition fl_at :: "int \<Rightarrow> rat \<Rightarrow> rat" where
  \<comment> \<open>to a multiple of \<open>2 ^ e\<close>\<close>
  "fl_at e x = of_int (round_even (x / 2 powi e)) * 2 powi e"

definition fl_pos :: "rat \<Rightarrow> rat" where
  "fl_pos x = (if x = 0 then 0 else fl_at (magnitude x - 52) x)"

definition fl :: "rat \<Rightarrow> rat" where
  "fl x = (if x < 0 then - fl_pos (- x) else fl_pos x)"

lemma fl_at_mono: "x \<le> y \<Longrightarrow> fl_at e x \<le> fl_at e y"
  unfolding fl_at_def
  by (intro mult_right_mono of_int_le_iff [THEN iffD2] round_even_mono divide_right_mono) auto

lemma fl_at_multiple: "fl_at e (of_int k * 2 powi e) = of_int k * 2 powi e"
  by (simp add: fl_at_def)

lemma fl_pos_exact:
  assumes "0 < k" and "k \<le> 2 ^ 53"
  shows "fl_pos (of_int k * 2 powi e) = of_int k * 2 powi e"
proof -
  let ?x = "of_int k * (2 :: rat) powi e"
  have pos: "0 < ?x" using assms by simp
  have "?x \<le> of_int (2 ^ 53) * 2 powi e" using assms by (intro mult_right_mono of_int_le_iff [THEN iffD2]) auto
  also have "\<dots> = 2 powi (e + 53)" by (simp add: power_int_add)
  finally have "2 powi magnitude ?x \<le> (2 :: rat) powi (e + 53)"
    using magnitude_range(1) [OF pos] by (rule order_trans [rotated])
  then have le: "magnitude ?x - 52 \<le> e + 1" by simp
  show ?thesis
  proof (cases "magnitude ?x - 52 \<le> e")
    case True
    then obtain n where n: "e = (magnitude ?x - 52) + int n" by (metis zle_iff_zadd)
    have "?x = of_int (k * 2 ^ n) * 2 powi (magnitude ?x - 52)"
      by (subst n) (simp add: power_int_add)
    then show ?thesis using pos fl_at_multiple by (metis fl_pos_def less_irrefl)
  next
    case False
    with le have m: "magnitude ?x = e + 53" by linarith
    with magnitude_range(1) [OF pos] have "(2 :: rat) powi (e + 53) \<le> ?x" by simp
    moreover have "(2 :: rat) powi (e + 53) = 2 ^ 53 * 2 powi e" by (simp add: power_int_add)
    ultimately have "(2 :: rat) ^ 53 \<le> of_int k" by simp
    then have "k = 2 ^ 53" using assms(2) by (metis antisym of_int_le_iff of_int_numeral of_int_power)
    then have "?x = of_int (2 ^ 52) * 2 powi (magnitude ?x - 52)"
      using powi_add_nat [of e 1] unfolding m by (simp add: add.commute)
    then show ?thesis using pos fl_at_multiple by (metis fl_pos_def less_irrefl)
  qed
qed

lemma fl_pos_mono:
  assumes "0 \<le> x" and "x \<le> y"
  shows "fl_pos x \<le> fl_pos y"
proof (cases "x = 0")
  case True
  have "0 \<le> fl_pos y"
  proof (cases "y = 0")
    case False
    with assms have "0 < y" by simp
    then have "0 \<le> round_even (y / 2 powi (magnitude y - 52))"
      using round_even_mono [of 0 "y / 2 powi (magnitude y - 52)"] round_even_of_int [of 0] by simp
    with False show ?thesis by (simp add: fl_pos_def fl_at_def)
  qed (simp add: fl_pos_def)
  with True show ?thesis by (simp add: fl_pos_def)
next
  case False
  with assms have x: "0 < x" and y: "0 < y" by auto
  show ?thesis
  proof (cases "magnitude x = magnitude y")
    case True
    with x y fl_at_mono [OF assms(2)] show ?thesis by (simp add: fl_pos_def)
  next
    case False
    with magnitude_mono [OF x assms(2)] have less: "magnitude x + 1 \<le> magnitude y" by linarith
    let ?m = "2 powi (magnitude x + 1) :: rat"
    have m: "?m = of_int (2 ^ 53) * 2 powi (magnitude x - 52)"
      using powi_add_nat [of "magnitude x - 52" 53] by (simp add: algebra_simps)
    have "fl_pos x \<le> ?m" unfolding m
      using fl_at_mono [OF less_imp_le [OF magnitude_range(2) [OF x]], of "magnitude x - 52"] x
        fl_at_multiple [of "magnitude x - 52" "2 ^ 53"] m by (simp add: fl_pos_def)
    also have "?m \<le> 2 powi magnitude y" using less by simp
    also have "\<dots> = fl_at (magnitude y - 52) (2 powi magnitude y)"
      using fl_at_multiple [of "magnitude y - 52" "2 ^ 52"] powi_add_nat [of "magnitude y - 52" 52]
      by simp
    also have "\<dots> \<le> fl_pos y"
      using fl_at_mono [OF magnitude_range(1) [OF y]] y by (simp add: fl_pos_def)
    finally show ?thesis .
  qed
qed

lemma fl_pos_nonneg: "0 \<le> x \<Longrightarrow> 0 \<le> fl_pos x"
  using fl_pos_mono [of 0 x] by (simp add: fl_pos_def)

theorem fl_mono: "x \<le> y \<Longrightarrow> fl x \<le> fl y"
  using fl_pos_mono [of x y] fl_pos_mono [of "- y" "- x"] fl_pos_nonneg [of y] fl_pos_nonneg [of "- x"]
  by (auto simp: fl_def)

lemma fl_0 [simp]: "fl 0 = 0"
  by (simp add: fl_def fl_pos_def)

lemma fl_exact: "\<bar>k\<bar> \<le> 2 ^ 53 \<Longrightarrow> fl (of_int k * 2 powi e) = of_int k * 2 powi e"
  using fl_pos_exact [of k e] fl_pos_exact [of "- k" e]
  using powi_pos [of e] less_asym [OF powi_pos [of e]]
  by (cases k "0 :: int" rule: linorder_cases) (auto simp: fl_def fl_pos_def mult_less_0_iff)

lemma fl_int: "\<bar>k\<bar> \<le> 2 ^ 53 \<Longrightarrow> fl (of_int k) = of_int k"
  using fl_exact [of k 0] by simp

lemma fl_nonneg: "0 \<le> x \<Longrightarrow> 0 \<le> fl x"
  using fl_mono [of 0 x] by simp

section \<open>Float64 values\<close>

definition is_float :: "rat \<Rightarrow> bool" where
  "is_float x \<longleftrightarrow> (\<exists>k e. \<bar>k\<bar> \<le> 2 ^ 53 \<and> x = of_int k * 2 powi e)"

lemma is_floatE:
  assumes "is_float x"
  obtains k e where "\<bar>k\<bar> \<le> (2 :: int) ^ 53" "x = of_int k * 2 powi e"
  using assms by (auto simp: is_float_def)

lemma fl_float: "is_float x \<Longrightarrow> fl x = x"
  by (elim is_floatE) (simp add: fl_exact)

lemma is_float_int: "\<bar>k\<bar> \<le> 2 ^ 53 \<Longrightarrow> is_float (of_int k)"
  unfolding is_float_def by (rule exI [of _ k], rule exI [of _ 0]) simp

lemma fl_pos_is_float:
  assumes "0 \<le> x"
  shows "is_float (fl_pos x)"
proof (cases "x = 0")
  case True
  then show ?thesis using is_float_int [of 0] by (simp add: fl_pos_def)
next
  case False
  with assms have x: "0 < x" by simp
  let ?e = "magnitude x - 52"
  have "x / 2 powi ?e \<le> of_int (2 ^ 53)"
    using magnitude_range(2) [OF x] powi_add_nat [of ?e 53]
    by (simp add: divide_le_eq less_imp_le algebra_simps)
  then have "round_even (x / 2 powi ?e) \<le> 2 ^ 53"
    using round_even_mono [of "x / 2 powi ?e" "of_int (2 ^ 53)"] by (simp only: round_even_of_int)
  moreover have "0 \<le> round_even (x / 2 powi ?e)"
    using round_even_mono [of 0 "x / 2 powi ?e"] round_even_of_int [of 0] x by simp
  ultimately show ?thesis
    using x unfolding is_float_def fl_pos_def fl_at_def
    by (intro exI [of _ "round_even (x / 2 powi ?e)"] exI [of _ ?e]) simp
qed

lemma is_float_minus: "is_float x \<Longrightarrow> is_float (- x)"
  unfolding is_float_def by (metis abs_minus_cancel mult_minus_left of_int_minus)

lemma is_float_fl: "is_float (fl x)"
  using fl_pos_is_float [of x] fl_pos_is_float [of "- x"] is_float_minus by (simp add: fl_def)

text \<open>Taking one off a float of moderate size is exact.\<close>

lemma fl_minus_one:
  assumes "is_float x" and "1 \<le> x" and "x \<le> 2 ^ 53"
  shows "fl (x - 1) = x - 1"
proof -
  from assms(1) obtain k e where k: "\<bar>k\<bar> \<le> (2 :: int) ^ 53" and x: "x = of_int k * 2 powi e"
    by (rule is_floatE)
  show ?thesis
  proof (cases "e \<le> 0")
    case True
    define n where "n = nat (- e)"
    have e: "e + int n = 0" using True by (simp add: n_def)
    have one: "1 = of_int (2 ^ n) * (2 :: rat) powi e" using powi_add_nat [of e n] e by simp
    have "of_int (2 ^ n) * (2 :: rat) powi e \<le> of_int k * 2 powi e" using assms(2) x one by metis
    then have "(2 :: int) ^ n \<le> k" using powi_pos [of e] by (metis mult_le_cancel_right_pos of_int_le_iff)
    moreover have "x - 1 = of_int (k - 2 ^ n) * 2 powi e"
      using x one by (metis left_diff_distrib of_int_diff)
    moreover have "k - 2 ^ n \<le> 2 ^ 53" using k zero_le_power [of "2 :: int" n] by linarith
    ultimately show ?thesis using k fl_exact [of "k - 2 ^ n" e] by simp
  next
    case False
    then obtain n where "e = int n" by (metis nat_le_linear nonneg_int_cases le_cases)
    then have x': "x = of_int (k * 2 ^ n)" using x by simp
    with assms(2,3) have "1 \<le> k * 2 ^ n" "k * 2 ^ n \<le> 2 ^ 53"
      by (metis of_int_1 of_int_le_iff, metis of_int_le_iff of_int_numeral of_int_power)
    then show ?thesis using fl_int [of "k * 2 ^ n - 1"] by (simp add: x')
  qed
qed

lemma fl_positive:
  assumes "0 < x"
  shows "0 < fl x"
proof -
  let ?e = "magnitude x - 52"
  have "of_int (2 ^ 52) \<le> x / 2 powi ?e"
    using magnitude_range(1) [OF assms] powi_add_nat [of ?e 52] by (simp add: le_divide_eq)
  then have "2 ^ 52 \<le> round_even (x / 2 powi ?e)"
    using round_even_mono [of "of_int (2 ^ 52)" "x / 2 powi ?e"] by (simp only: round_even_of_int)
  then have "0 < round_even (x / 2 powi ?e)" by simp
  with assms show ?thesis by (simp add: fl_def fl_pos_def fl_at_def)
qed

end
