(* ===== verification/RateLimit.thy ===== *)
theory RateLimit
  imports GoReal GoStrings ClientIP "HOL-Library.AList"
begin

text \<open>
  The token bucket limiter of \<open>internal/httpx/ratelimit.go\<close>. Its float64 numbers are rationals
  with the rounding of GoReal. The table of buckets is an association list with distinct keys;
  a method takes the clock reading it makes under the lock. The sweep goroutine calls
  \<open>evictExpired\<close> at some times, the middleware calls \<open>allow\<close>; the mutex makes each of them one
  step.
\<close>

section \<open>Durations in floats\<close>

definition quot_rem :: "int \<Rightarrow> int \<Rightarrow> int \<times> int" where
  \<comment> \<open>Go's division of a signed by a positive integer, truncated towards zero\<close>
  "quot_rem a b = (sgn a * (\<bar>a\<bar> div b), sgn a * (\<bar>a\<bar> mod b))"

definition Seconds :: "duration \<Rightarrow> rat" where
  "Seconds d =
     (case quot_rem (sint d) 1000000000 of (sec, nsec) \<Rightarrow>
        fl (fl (of_int sec) + fl (of_int nsec / 1000000000)))"

definition trunc_int64 :: "rat \<Rightarrow> int" where
  \<comment> \<open>\<open>int64(f)\<close>; out of range the value amd64 gives\<close>
  "trunc_int64 x =
     (let t = (if x < 0 then - \<lfloor>- x\<rfloor> else \<lfloor>x\<rfloor>) in
      if - (2 ^ 63) \<le> t \<and> t < 2 ^ 63 then t else - (2 ^ 63))"

definition Ceil :: "rat \<Rightarrow> rat" where
  "Ceil x = of_int \<lceil>x\<rceil>"

section \<open>The limiter\<close>

record rate_limit_config =
  rc_Enabled :: bool
  rc_Rate :: rat
  rc_Burst :: rat
  rc_TTL :: duration
  rc_MaxKeys :: int

record bucket =
  bk_tokens :: rat
  bk_last :: time

record limiter =
  lm_rate :: rat
  lm_burst :: rat
  lm_ttl :: duration
  lm_maxKeys :: int
  lm_buckets :: "(string \<times> bucket) list"

definition NewRateLimiter :: "rate_limit_config \<Rightarrow> goerr + limiter" where
  \<comment> \<open>the errors of the float fields print their value with \<open>%v\<close>\<close>
  "NewRateLimiter cfg =
     (if rc_Rate cfg \<le> 0 then Inl (Errorf ''ratelimit: rate must be positive, got %v'' [] [])
      else if rc_Burst cfg \<le> 0 then Inl (Errorf ''ratelimit: burst must be positive, got %v'' [] [])
      else if sint (rc_TTL cfg) \<le> 0
        then Inl (Errorf ''ratelimit: ttl must be positive, got %v'' [ODuration (rc_TTL cfg)] [])
      else if rc_MaxKeys cfg \<le> 0
        then Inl (Errorf ''ratelimit: max_keys must be positive, got %d'' [OInt (rc_MaxKeys cfg)] [])
      else Inr \<lparr>lm_rate = fl (rc_Rate cfg / 60), lm_burst = rc_Burst cfg, lm_ttl = rc_TTL cfg,
                lm_maxKeys = rc_MaxKeys cfg, lm_buckets = []\<rparr>)"

definition Close_limiter :: "limiter \<Rightarrow> limiter" where
  \<comment> \<open>besides the end of the sweep goroutine\<close>
  "Close_limiter l = l\<lparr>lm_buckets := []\<rparr>"

definition refilled :: "limiter \<Rightarrow> time \<Rightarrow> bucket \<Rightarrow> rat" where
  "refilled l now b =
     min (lm_burst l) (fl (bk_tokens b + fl (Seconds (time_Sub now (bk_last b)) * lm_rate l)))"

definition evictable :: "limiter \<Rightarrow> time \<Rightarrow> bucket \<Rightarrow> bool" where
  "evictable l now b \<longleftrightarrow> bk_last b < time_Add now (- lm_ttl l) \<and> lm_burst l \<le> refilled l now b"

definition evictExpired :: "time \<Rightarrow> limiter \<Rightarrow> limiter" where
  "evictExpired now l = l\<lparr>lm_buckets := filter (\<lambda>(key, b). \<not> evictable l now b) (lm_buckets l)\<rparr>"

definition maxKeysRetryAfter :: duration where
  "maxKeysRetryAfter = 1000000000"

datatype verdict = Verdict bool int duration

definition take_token :: "limiter \<Rightarrow> time \<Rightarrow> bucket \<Rightarrow> verdict \<times> bucket" where
  \<comment> \<open>\<open>allow\<close>, once the bucket of the key is known\<close>
  "take_token l now b =
     (let b = (if 0 < Seconds (time_Sub now (bk_last b))
               then \<lparr>bk_tokens = refilled l now b, bk_last = now\<rparr> else b) in
      if 1 \<le> bk_tokens b then
        (let b = b\<lparr>bk_tokens := fl (bk_tokens b - 1)\<rparr> in
         (Verdict True (trunc_int64 (bk_tokens b)) 0, b))
      else
        (Verdict False 0
           (word_of_int (trunc_int64 (fl (fl (fl (1 - bk_tokens b) / lm_rate l) * 1000000000))) + 1000000),
         b))"

definition allow :: "string \<Rightarrow> time \<Rightarrow> limiter \<Rightarrow> verdict \<times> limiter" where
  "allow key now l =
     (case map_of (lm_buckets l) key of
        None \<Rightarrow>
          if lm_maxKeys l \<le> int (length (lm_buckets l)) then (Verdict False 0 maxKeysRetryAfter, l)
          else
            (case take_token l now \<lparr>bk_tokens = lm_burst l, bk_last = now\<rparr> of (v, b) \<Rightarrow>
               (v, l\<lparr>lm_buckets := AList.update key b (lm_buckets l)\<rparr>))
      | Some b \<Rightarrow>
          (case take_token l now b of (v, b) \<Rightarrow>
             (v, l\<lparr>lm_buckets := AList.update key b (lm_buckets l)\<rparr>)))"

definition clientKey :: "net_pkg \<Rightarrow> http_request \<Rightarrow> string" where
  "clientKey N r =
     (let ip = ClientIP r in
      if ip \<noteq> [] then ip
      else case np_SplitHostPort N (rq_RemoteAddr r) of None \<Rightarrow> rq_RemoteAddr r | Some host \<Rightarrow> host)"

text \<open>
  The middleware, over a world that holds a limiter and a clock.
\<close>

definition limit_request ::
  "net_pkg \<Rightarrow> int \<Rightarrow> ('w, time) prog \<Rightarrow>
   (string \<Rightarrow> time \<Rightarrow> ('w, verdict) prog) \<Rightarrow> 'w middleware" where
  "limit_request N burst Now decide nxt r =
     bindp (in_world (bindp Now (decide (clientKey N r)))) (\<lambda>v.
     case v of Verdict ok remaining retryAfter \<Rightarrow>
     bindp (header_Set ''RateLimit-Limit'' (Itoa burst)) (\<lambda>_.
     bindp (header_Set ''RateLimit-Remaining'' (Itoa remaining)) (\<lambda>_.
     if ok then nxt r
     else
       bindp (header_Set ''Retry-After'' (Itoa (trunc_int64 (Ceil (Seconds retryAfter))))) (\<lambda>_.
       bindp (header_Set ''Content-Type'' ''application/json'') (\<lambda>_.
       bindp (WriteHeader 429) (\<lambda>_.
       Write_body (BText ''{\"error\":\"rate limit exceeded\"}'')))))))"

section \<open>Elapsed time\<close>

lemma Seconds_nonneg_eq:
  "0 \<le> sint d \<Longrightarrow>
   Seconds d = fl (of_int (sint d div 1000000000) + fl (of_int (sint d mod 1000000000) / 1000000000))"
proof -
  assume d: "0 \<le> sint d"
  have "sint d div 1000000000 \<le> MaxDuration div 1000000000"
    using sint_duration_bounds(2) [of d] by (rule zdiv_mono1) simp
  with d have "\<bar>sint d div 1000000000\<bar> \<le> 2 ^ 53"
    by (simp add: MaxDuration_def pos_imp_zdiv_nonneg_iff)
  with d show ?thesis by (cases "sint d = 0") (simp_all add: Seconds_def quot_rem_def fl_int)
qed

lemma frac_second: "0 \<le> fl (of_int (i mod 1000000000) / 1000000000)"
    "fl (of_int (i mod 1000000000) / 1000000000) \<le> 1"
proof -
  have "of_int (i mod 1000000000) / 1000000000 \<le> (1 :: rat)"
    using pos_mod_bound [of 1000000000 i] by (simp add: divide_le_eq less_imp_le del: pos_mod_bound)
  then show "fl (of_int (i mod 1000000000) / 1000000000) \<le> 1"
    using fl_mono fl_int [of 1] by fastforce
  show "0 \<le> fl (of_int (i mod 1000000000) / 1000000000)" by (intro fl_nonneg) simp
qed

lemma Seconds_mono:
  assumes "0 \<le> sint d" and "sint d \<le> sint d'"
  shows "Seconds d \<le> Seconds d'"
proof -
  let ?q = "\<lambda>i. i div 1000000000 :: int" and ?f = "\<lambda>i. fl (of_int (i mod 1000000000) / 1000000000)"
  have "of_int (?q (sint d)) + ?f (sint d) \<le> of_int (?q (sint d')) + ?f (sint d')"
  proof (cases "?q (sint d) = ?q (sint d')")
    case True
    then have "sint d mod 1000000000 \<le> sint d' mod 1000000000"
      using assms(2) by (metis add_le_cancel_left mult_div_mod_eq)
    with True show ?thesis by (simp add: fl_mono divide_right_mono)
  next
    case False
    with zdiv_mono1 [OF assms(2), of 1000000000] have "?q (sint d) + 1 \<le> ?q (sint d')" by linarith
    then have "(of_int (?q (sint d)) :: rat) + 1 \<le> of_int (?q (sint d'))"
      by (metis of_int_1 of_int_add of_int_le_iff)
    with frac_second [of "sint d"] frac_second [of "sint d'"] show ?thesis by linarith
  qed
  with assms show ?thesis by (simp add: Seconds_nonneg_eq fl_mono)
qed

lemma Seconds_0 [simp]: "Seconds 0 = 0"
  by (simp add: Seconds_def quot_rem_def)

lemma Seconds_pos: "0 < sint d \<Longrightarrow> 0 < Seconds d"
proof -
  assume d: "0 < sint d"
  show ?thesis
  proof (cases "1000000000 \<le> sint d")
    case True
    then have "1 \<le> sint d div 1000000000" using zdiv_mono1 [OF True, of 1000000000] by simp
    then have "(1 :: rat) \<le> of_int (sint d div 1000000000)" by simp
    with frac_second(1) [of "sint d"] d show ?thesis
      by (simp add: Seconds_nonneg_eq fl_positive add_pos_nonneg)
  next
    case False
    have "(0 :: rat) < of_int (sint d)" using d by (simp only: of_int_0_less_iff)
    then have "0 < fl (of_int (sint d) / 1000000000)" by (intro fl_positive divide_pos_pos) simp_all
    with False d show ?thesis by (simp add: Seconds_nonneg_eq fl_positive)
  qed
qed

lemma Seconds_nonneg: "0 \<le> sint d \<Longrightarrow> 0 \<le> Seconds d"
  using Seconds_mono [of 0 d] by simp

lemma sint_time_Sub:
  "sint (time_Sub t u) = max (- (2 ^ 63)) (min MaxDuration (t - u))"
  unfolding time_Sub_def by (rule sint_word_of_int_duration) (simp_all add: MaxDuration_def)

lemma elapsed_mono:
  assumes "u \<le> t" and "t \<le> t'"
  shows "Seconds (time_Sub t u) \<le> Seconds (time_Sub t' u)"
  using assms by (intro Seconds_mono) (auto simp: sint_time_Sub MaxDuration_def)

lemma elapsed_pos: "u < t \<Longrightarrow> 0 < Seconds (time_Sub t u)"
  by (intro Seconds_pos) (simp add: sint_time_Sub MaxDuration_def)

lemma elapsed_0 [simp]: "Seconds (time_Sub t t) = 0"
  by (simp add: time_Sub_def MaxDuration_def)

section \<open>Buckets\<close>

lemma refilled_mono:
  assumes "0 \<le> lm_rate l" and "bk_last b \<le> t" and "t \<le> t'"
  shows "refilled l t b \<le> refilled l t' b"
proof -
  have "Seconds (time_Sub t (bk_last b)) * lm_rate l \<le> Seconds (time_Sub t' (bk_last b)) * lm_rate l"
    using assms by (intro mult_right_mono elapsed_mono) auto
  then show ?thesis unfolding refilled_def by (intro min.mono fl_mono add_left_mono order_refl)
qed

lemma refilled_le: "refilled l t b \<le> lm_burst l"
  by (simp add: refilled_def)

text \<open>A bucket that is full by the time of a sweep serves any later request as a fresh one does.\<close>

definition full_by :: "limiter \<Rightarrow> time \<Rightarrow> bucket \<Rightarrow> bool" where
  "full_by l t b \<longleftrightarrow> bk_last b < t \<and> lm_burst l \<le> refilled l t b"

lemma evictable_full: "0 < sint (lm_ttl l) \<Longrightarrow> evictable l t b \<Longrightarrow> full_by l t b"
proof -
  assume "0 < sint (lm_ttl l)"
  then have "sint (- lm_ttl l) \<le> 0"
    using sint_duration_bounds [of "lm_ttl l"] sint_word_of_int_duration [of "- sint (lm_ttl l)"]
    by (simp add: MaxDuration_def)
  then show "evictable l t b \<Longrightarrow> full_by l t b" by (auto simp: evictable_def full_by_def time_Add_def)
qed

lemma full_by_later: "0 \<le> lm_rate l \<Longrightarrow> full_by l t b \<Longrightarrow> t \<le> t' \<Longrightarrow> full_by l t' b"
  using refilled_mono [of l b t t'] by (auto simp: full_by_def)

lemma take_token_full:
  assumes "0 \<le> lm_rate l" and "full_by l t b" and "t \<le> now"
  shows "take_token l now b = take_token l now \<lparr>bk_tokens = lm_burst l, bk_last = now\<rparr>"
proof -
  from full_by_later [OF assms] have full: "bk_last b < now" "lm_burst l \<le> refilled l now b"
    by (simp_all add: full_by_def)
  then have "refilled l now b = lm_burst l" using refilled_le [of l now b] by simp
  with elapsed_pos [OF full(1)] show ?thesis by (simp add: take_token_def Let_def)
qed

section \<open>Runs, and the limiter that never forgets\<close>

datatype limiter_event = Arrive string time | Sweeps time

fun event_time :: "limiter_event \<Rightarrow> time" where
  "event_time (Arrive key t) = t"
| "event_time (Sweeps t) = t"

fun limiter_run :: "limiter_event list \<Rightarrow> limiter \<Rightarrow> verdict list \<times> limiter" where
  "limiter_run [] l = ([], l)"
| "limiter_run (Sweeps t # es) l = limiter_run es (evictExpired t l)"
| "limiter_run (Arrive key t # es) l =
     (case allow key t l of (v, l) \<Rightarrow> (case limiter_run es l of (vs, l) \<Rightarrow> (v # vs, l)))"

text \<open>The specification: one bucket per key, for ever, as many keys as there are.\<close>

definition ideal_allow ::
  "limiter \<Rightarrow> string \<Rightarrow> time \<Rightarrow> (string \<rightharpoonup> bucket) \<Rightarrow> verdict \<times> (string \<rightharpoonup> bucket)" where
  "ideal_allow l key now m =
     (let b = (case m key of None \<Rightarrow> \<lparr>bk_tokens = lm_burst l, bk_last = now\<rparr> | Some b \<Rightarrow> b) in
      case take_token l now b of (v, b) \<Rightarrow> (v, m(key \<mapsto> b)))"

fun ideal_run ::
  "limiter \<Rightarrow> limiter_event list \<Rightarrow> (string \<rightharpoonup> bucket) \<Rightarrow> verdict list" where
  "ideal_run l [] m = []"
| "ideal_run l (Sweeps t # es) m = ideal_run l es m"
| "ideal_run l (Arrive key t # es) m =
     (case ideal_allow l key t m of (v, m) \<Rightarrow> v # ideal_run l es m)"

fun asked_keys :: "limiter_event list \<Rightarrow> string set" where
  "asked_keys [] = {}"
| "asked_keys (Sweeps t # es) = asked_keys es"
| "asked_keys (Arrive key t # es) = insert key (asked_keys es)"

lemma finite_asked [simp]: "finite (asked_keys es)"
  by (induction es rule: asked_keys.induct) auto

text \<open>The table holds the ideal buckets, except some that are full by now.\<close>

definition same_limits :: "limiter \<Rightarrow> limiter \<Rightarrow> bool" where
  "same_limits l l' \<longleftrightarrow> l\<lparr>lm_buckets := []\<rparr> = l'\<lparr>lm_buckets := []\<rparr>"

definition covers :: "time \<Rightarrow> limiter \<Rightarrow> (string \<rightharpoonup> bucket) \<Rightarrow> bool" where
  "covers t l m \<longleftrightarrow>
     distinct (map fst (lm_buckets l)) \<and>
     (\<forall>k b. map_of (lm_buckets l) k = Some b \<longrightarrow> m k = Some b) \<and>
     (\<forall>k b. map_of (lm_buckets l) k = None \<longrightarrow> m k = Some b \<longrightarrow> full_by l t b)"

lemma same_limits_sel:
  assumes "same_limits l l'"
  shows "lm_rate l = lm_rate l'" "lm_ttl l = lm_ttl l'" "lm_maxKeys l = lm_maxKeys l'"
    "lm_burst l = lm_burst l'"
  using assms by (cases l; cases l'; simp add: same_limits_def)+

lemma take_token_limits: "same_limits l l' \<Longrightarrow> take_token l now b = take_token l' now b"
  using same_limits_sel [of l l'] by (simp add: take_token_def refilled_def Let_def)

lemma full_by_limits: "same_limits l l' \<Longrightarrow> full_by l t b = full_by l' t b"
  using same_limits_sel [of l l'] by (simp add: full_by_def refilled_def)

lemma same_limits_refl [simp]: "same_limits l l" "same_limits (l\<lparr>lm_buckets := bs\<rparr>) l"
    "same_limits l (l\<lparr>lm_buckets := bs\<rparr>)"
  by (simp_all add: same_limits_def)

lemma buckets_set: "lm_buckets (l\<lparr>lm_buckets := bs\<rparr>) = bs"
  by simp

lemma covers_sweep:
  assumes "covers t l m" and "t \<le> t'" and "0 \<le> lm_rate l" and "0 < sint (lm_ttl l)"
  shows "covers t' (evictExpired t' l) m"
proof -
  let ?bs = "filter (\<lambda>(k, b). \<not> evictable l t' b) (lm_buckets l)"
  have distinct: "distinct (map fst (lm_buckets l))" using assms(1) by (simp add: covers_def)
  have left: "map_of (lm_buckets l) k = Some b \<and> \<not> evictable l t' b" if "map_of ?bs k = Some b" for k b
    using that distinct by (auto dest!: map_of_SomeD)
  have gone: "map_of (lm_buckets l) k = None \<or> (\<exists>b. map_of (lm_buckets l) k = Some b \<and> evictable l t' b)"
    if "map_of ?bs k = None" for k
  proof (cases "map_of (lm_buckets l) k")
    case (Some b)
    then have "(k, b) \<in> set (lm_buckets l)" by (rule map_of_SomeD)
    with that have "evictable l t' b" by (force simp: map_of_eq_None_iff)
    with Some show ?thesis by blast
  qed simp
  have full: "full_by l t' b" if "map_of ?bs k = None" "m k = Some b" for k b
    using gone [OF that(1)]
  proof (elim disjE exE conjE)
    assume "map_of (lm_buckets l) k = None"
    with that(2) assms(1) have "full_by l t b" by (simp add: covers_def)
    then show ?thesis by (rule full_by_later [OF assms(3) _ assms(2)])
  next
    fix b' assume b': "map_of (lm_buckets l) k = Some b'" "evictable l t' b'"
    with that(2) assms(1) have "b' = b" by (simp add: covers_def)
    with evictable_full [OF assms(4) b'(2)] show ?thesis by simp
  qed
  have "distinct (map fst ?bs)" using distinct by (rule distinct_map_filter)
  moreover have "m k = Some b" if "map_of ?bs k = Some b" for k b
    using left [OF that] assms(1) by (simp add: covers_def)
  moreover have "full_by (l\<lparr>lm_buckets := ?bs\<rparr>) t' b" if "map_of ?bs k = None" "m k = Some b" for k b
    using full [OF that] by (simp only: full_by_limits [OF same_limits_refl(2)])
  ultimately show ?thesis
    unfolding covers_def evictExpired_def
    by (intro conjI allI impI) (simp_all only: buckets_set)
qed

lemma covers_allow:
  assumes "covers t l m" and "t \<le> now" and "0 \<le> lm_rate l"
    and room: "map_of (lm_buckets l) key = None \<Longrightarrow> int (length (lm_buckets l)) < lm_maxKeys l"
    and run: "allow key now l = (v, l')"
  shows "\<exists>m'. ideal_allow l key now m = (v, m') \<and> covers now l' m' \<and> same_limits l' l"
proof -
  define old where "old = (case map_of (lm_buckets l) key of
      None \<Rightarrow> \<lparr>bk_tokens = lm_burst l, bk_last = now\<rparr> | Some b \<Rightarrow> b)"
  define ideal where "ideal = (case m key of
      None \<Rightarrow> \<lparr>bk_tokens = lm_burst l, bk_last = now\<rparr> | Some b \<Rightarrow> b)"
  have "take_token l now ideal = take_token l now old"
    using assms(1) take_token_full [OF assms(3) _ assms(2)]
    by (auto simp: old_def ideal_def covers_def split: option.splits)
  moreover obtain b where take: "take_token l now old = (v, b)"
    and l': "l' = l\<lparr>lm_buckets := AList.update key b (lm_buckets l)\<rparr>"
    using run room by (auto simp: allow_def old_def split: option.splits prod.splits if_splits)
  ultimately have "ideal_allow l key now m = (v, m(key \<mapsto> b))"
    by (simp add: ideal_allow_def ideal_def Let_def)
  moreover have "covers now l' (m(key \<mapsto> b))"
    using assms(1) full_by_later [OF assms(3) _ assms(2)] unfolding covers_def l'
    by (auto simp: update_conv' distinct_update full_by_limits [OF same_limits_refl(2)])
  ultimately show ?thesis using l' by auto
qed

lemma ideal_allow_limits: "same_limits l l' \<Longrightarrow> ideal_allow l key now m = ideal_allow l' key now m"
  using take_token_limits [of l l'] same_limits_sel [of l l']
  by (simp add: ideal_allow_def cong: option.case_cong)

lemma ideal_run_limits: "same_limits l l' \<Longrightarrow> ideal_run l es m = ideal_run l' es m"
proof (induction es arbitrary: m)
  case (Cons e es)
  then show ?case by (cases e) (simp_all add: ideal_allow_limits [of l l'] split: prod.splits)
qed simp

lemma keys_after_allow:
  assumes "allow key now l = (v, l')"
  shows "fst ` set (lm_buckets l') \<subseteq> insert key (fst ` set (lm_buckets l))"
proof -
  from assms consider "l' = l" | b where "l' = l\<lparr>lm_buckets := AList.update key b (lm_buckets l)\<rparr>"
    by (auto simp: allow_def split: option.splits prod.splits if_splits)
  then show ?thesis
  proof cases
    case 2
    then show ?thesis using AList.dom_update [of key b "lm_buckets l"] by simp
  qed auto
qed

lemma keys_after_sweep: "fst ` set (lm_buckets (evictExpired t l)) \<subseteq> fst ` set (lm_buckets l)"
  by (auto simp: evictExpired_def)

lemma limiter_run_ideal:
  assumes "covers t l m" and "0 \<le> lm_rate l" and "0 < sint (lm_ttl l)"
    and "sorted (t # map event_time es)"
    and "fst ` set (lm_buckets l) \<union> asked_keys es \<subseteq> K" and "finite K" and "int (card K) \<le> lm_maxKeys l"
  shows "fst (limiter_run es l) = ideal_run l es m"
  using assms
proof (induction es l arbitrary: t m rule: limiter_run.induct)
  case (2 t' es l)
  have "covers t' (evictExpired t' l) m" using 2 by (intro covers_sweep [of t]) auto
  moreover have "same_limits (evictExpired t' l) l" by (simp add: evictExpired_def)
  ultimately show ?case
    using 2(1) [of t' m] 2(3-) keys_after_sweep [of t' l] same_limits_sel
    by (auto simp: ideal_run_limits [of "evictExpired t' l" l])
next
  case (3 key t' es l)
  obtain v l' where a: "allow key t' l = (v, l')" by (cases "allow key t' l")
  have room: "int (length (lm_buckets l)) < lm_maxKeys l" if "map_of (lm_buckets l) key = None"
  proof -
    have "length (lm_buckets l) = card (fst ` set (lm_buckets l))"
      using 3(2) distinct_card [of "map fst (lm_buckets l)"] by (simp add: covers_def)
    also have "\<dots> < card K"
      using 3(6,7) that by (intro psubset_card_mono) (auto simp: map_of_eq_None_iff)
    finally show ?thesis using 3(8) by simp
  qed
  from covers_allow [OF 3(2) _ 3(3) room a] 3(5) obtain m' where
    m': "ideal_allow l key t' m = (v, m')" "covers t' l' m'" "same_limits l' l" by auto
  have "fst (limiter_run es l') = ideal_run l' es m'"
    using 3(1) [OF a [symmetric] m'(2)] 3(3-) same_limits_sel [OF m'(3)] keys_after_allow [OF a]
    by auto
  then show ?case
    by (simp add: a m'(1) ideal_run_limits [OF m'(3)] split: prod.splits) (metis fst_conv)
qed simp

section \<open>Bounds\<close>

text \<open>The invariant of a limiter in use, from the clock's readings whatever they are.\<close>

definition limiter_ok :: "limiter \<Rightarrow> bool" where
  "limiter_ok l \<longleftrightarrow>
     0 \<le> lm_rate l \<and> 0 \<le> lm_burst l \<and> is_float (lm_burst l) \<and> 0 < lm_maxKeys l \<and>
     distinct (map fst (lm_buckets l)) \<and> int (length (lm_buckets l)) \<le> lm_maxKeys l \<and>
     (\<forall>(key, b) \<in> set (lm_buckets l). 0 \<le> bk_tokens b \<and> bk_tokens b \<le> lm_burst l)"

lemma fl_minus_le: "is_float y \<Longrightarrow> x \<le> y \<Longrightarrow> fl (x - 1) \<le> y"
  using fl_mono [of "x - 1" y] by (simp add: fl_float)

lemma refilled_nonneg:
  assumes "0 \<le> lm_rate l" and "0 \<le> lm_burst l" and "0 \<le> bk_tokens b" and "0 \<le> Seconds (time_Sub now (bk_last b))"
  shows "0 \<le> refilled l now b"
  using assms unfolding refilled_def by (simp add: fl_nonneg)

lemma take_token_ok:
  assumes "0 \<le> lm_rate l" and "0 \<le> lm_burst l" and "is_float (lm_burst l)"
    and "0 \<le> bk_tokens b" and "bk_tokens b \<le> lm_burst l" and "take_token l now b = (v, b')"
  shows "0 \<le> bk_tokens b' \<and> bk_tokens b' \<le> lm_burst l"
proof -
  define c where "c = (if 0 < Seconds (time_Sub now (bk_last b))
      then \<lparr>bk_tokens = refilled l now b, bk_last = now\<rparr> else b)"
  have c: "0 \<le> bk_tokens c" "bk_tokens c \<le> lm_burst l"
    using assms(1,2,4,5) refilled_le [of l now b] by (simp_all add: c_def refilled_nonneg)
  have "bk_tokens b' = (if 1 \<le> bk_tokens c then fl (bk_tokens c - 1) else bk_tokens c)"
    using assms(6) by (auto simp: take_token_def c_def Let_def split: if_splits)
  with c show ?thesis using fl_minus_le [OF assms(3)] by (simp add: fl_nonneg)
qed

lemma update_pairs:
  "(k, x) \<in> set (AList.update key b al) \<Longrightarrow> (k, x) = (key, b) \<or> (k, x) \<in> set al"
  by (induction al) (auto split: if_splits)

lemma update_known_length: "key \<in> fst ` set al \<Longrightarrow> length (AList.update key b al) = length al"
  by (induction al) auto

lemma update_new_length: "key \<notin> fst ` set al \<Longrightarrow> length (AList.update key b al) = length al + 1"
  by (induction al) auto

lemma allow_ok:
  assumes "limiter_ok l" and "allow key now l = (v, l')"
  shows "limiter_ok l' \<and> same_limits l' l"
proof -
  consider "l' = l"
    | b c where "l' = l\<lparr>lm_buckets := AList.update key b (lm_buckets l)\<rparr>" "take_token l now c = (v, b)"
        "0 \<le> bk_tokens c" "bk_tokens c \<le> lm_burst l"
        "map_of (lm_buckets l) key = None \<Longrightarrow> int (length (lm_buckets l)) < lm_maxKeys l"
    using assms unfolding allow_def limiter_ok_def
    by (auto split: option.splits prod.splits if_splits dest: map_of_SomeD)
  then show ?thesis
  proof cases
    case 2
    have len: "int (length (AList.update key b (lm_buckets l))) \<le> lm_maxKeys l"
      using 2(5) assms(1) by (cases "key \<in> fst ` set (lm_buckets l)")
        (simp_all add: update_known_length update_new_length limiter_ok_def map_of_eq_None_iff)
    have b: "0 \<le> bk_tokens b \<and> bk_tokens b \<le> lm_burst l"
      using assms(1) take_token_ok [OF _ _ _ 2(3,4,2)] by (simp add: limiter_ok_def)
    show ?thesis
      using assms(1) len b unfolding 2(1)
      by (auto simp: limiter_ok_def distinct_update dest!: update_pairs)
  qed (use assms(1) in simp)
qed

lemma evict_ok: "limiter_ok l \<Longrightarrow> limiter_ok (evictExpired t l)"
proof -
  assume "limiter_ok l"
  moreover have "int (length (filter P (lm_buckets l))) \<le> int (length (lm_buckets l))" for P
    by (simp add: length_filter_le)
  from order_trans [OF this] have "int (length (lm_buckets l)) \<le> lm_maxKeys l \<Longrightarrow>
      int (length (filter P (lm_buckets l))) \<le> lm_maxKeys l" for P .
  ultimately show ?thesis
    unfolding limiter_ok_def evictExpired_def by (auto simp: distinct_map_filter)
qed

lemma limiter_run_ok: "limiter_ok l \<Longrightarrow> limiter_ok (snd (limiter_run es l))"
proof (induction es l rule: limiter_run.induct)
  case (2 t es l)
  then show ?case by (simp add: evict_ok)
next
  case (3 key t es l)
  obtain v l1 where "allow key t l = (v, l1)" by (cases "allow key t l")
  with 3 allow_ok [of l key t v l1] show ?case by (auto split: prod.splits)
qed simp

lemma NewRateLimiter_ok:
  assumes "NewRateLimiter cfg = Inr l" and "is_float (rc_Burst cfg)"
  shows "limiter_ok l"
  using assms by (auto simp: NewRateLimiter_def limiter_ok_def fl_nonneg split: if_splits)

section \<open>The burst\<close>

fun admits :: "verdict \<Rightarrow> bool" where
  "admits (Verdict ok remaining retryAfter) = ok"

lemma upt_first: "[0..<Suc n] = 0 # map Suc [0..<n]"
  by (simp add: map_Suc_upt upt_conv_Cons del: upt_Suc)

lemma same_instant:
  assumes "map_of (lm_buckets l) key = Some \<lparr>bk_tokens = x, bk_last = t\<rparr>"
    and "is_float x" and "0 \<le> x" and "x \<le> 2 ^ 53"
  shows "map admits (fst (limiter_run (replicate n (Arrive key t)) l)) = map (\<lambda>i. int i < \<lfloor>x\<rfloor>) [0..<n]"
  using assms
proof (induction n arbitrary: l x)
  case (Suc n)
  show ?case
  proof (cases "1 \<le> x")
    case True
    let ?l = "l\<lparr>lm_buckets := AList.update key \<lparr>bk_tokens = x - 1, bk_last = t\<rparr> (lm_buckets l)\<rparr>"
    have step: "allow key t l = (Verdict True (trunc_int64 (x - 1)) 0, ?l)"
      using Suc.prems True by (simp add: allow_def take_token_def fl_minus_one)
    have "is_float (x - 1)" using is_float_fl [of "x - 1"] fl_minus_one [OF Suc.prems(2) True Suc.prems(4)] by simp
    then have "map admits (fst (limiter_run (replicate n (Arrive key t)) ?l)) = map (\<lambda>i. int i < \<lfloor>x - 1\<rfloor>) [0..<n]"
      using Suc.prems True by (intro Suc.IH) (auto simp: update_conv')
    moreover have "map admits (fst (limiter_run (replicate (Suc n) (Arrive key t)) l)) =
        True # map admits (fst (limiter_run (replicate n (Arrive key t)) ?l))"
      by (simp add: step split: prod.splits)
    moreover have "(int (Suc i) < \<lfloor>x\<rfloor>) = (int i < \<lfloor>x - 1\<rfloor>)" for i by simp linarith
    moreover have "0 < \<lfloor>x\<rfloor>" using True by simp
    ultimately show ?thesis by (simp only: upt_first list.map map_map comp_def) simp
  next
    case False
    let ?l = "l\<lparr>lm_buckets := AList.update key \<lparr>bk_tokens = x, bk_last = t\<rparr> (lm_buckets l)\<rparr>"
    obtain d where step: "allow key t l = (Verdict False 0 d, ?l)"
      using Suc.prems False by (simp add: allow_def take_token_def)
    have x: "\<lfloor>x\<rfloor> = 0" using Suc.prems(3) False by (simp add: floor_eq_iff)
    have "map admits (fst (limiter_run (replicate n (Arrive key t)) ?l)) = map (\<lambda>i. int i < \<lfloor>x\<rfloor>) [0..<n]"
      using Suc.prems by (intro Suc.IH) (auto simp: update_conv')
    moreover have "map admits (fst (limiter_run (replicate (Suc n) (Arrive key t)) l)) =
        False # map admits (fst (limiter_run (replicate n (Arrive key t)) ?l))"
      by (simp add: step split: prod.splits)
    ultimately show ?thesis by (simp add: upt_first x comp_def del: upt_Suc replicate_Suc)
  qed
qed simp

end
