(* ===== verification/Cors.thy ===== *)
theory Cors
  imports Http GoSeconds GoStrings
begin

text \<open>
  The CORS middleware of \<open>internal/httpx/cors.go\<close>: the policy computed once from the typed
  configuration, and the decision it makes for a request. The map of allowed origins is the
  list of its keys.
\<close>

record cors_config =
  cc_Enabled :: bool
  cc_AllowedOrigins :: "string list"
  cc_AllowedMethods :: "string list"
  cc_AllowedHeaders :: "string list"
  cc_AllowCredentials :: bool
  cc_MaxAge :: duration

record corsPolicy =
  co_allowedOrigins :: "string list"
  co_allowAll :: bool
  co_allowedMethods :: string
  co_allowedHeaders :: string
  co_allowCredentials :: bool
  co_maxAge :: string

definition defaultCORSMaxAge :: duration where
  "defaultCORSMaxAge = 300000000000"

definition newCORSPolicy :: "(string \<Rightarrow> string) \<Rightarrow> cors_config \<Rightarrow> corsPolicy" where
  "newCORSPolicy unicode cfg =
     (let methods = (if cc_AllowedMethods cfg = []
            then [''GET'', ''POST'', ''PUT'', ''PATCH'', ''DELETE'', ''OPTIONS'']
            else cc_AllowedMethods cfg);
          headers = (if cc_AllowedHeaders cfg = []
            then [''Accept'', ''Content-Type'', ''Content-Length'', ''Accept-Encoding'',
                  ''X-CSRF-Token'', ''Authorization'']
            else cc_AllowedHeaders cfg);
          maxAge = (if sint (cc_MaxAge cfg) \<le> 0 then defaultCORSMaxAge else cc_MaxAge cfg) in
      \<lparr>co_allowedOrigins = map (ToLower unicode) (filter (\<lambda>origin. origin \<noteq> ''*'') (cc_AllowedOrigins cfg)),
       co_allowAll = (''*'' \<in> set (cc_AllowedOrigins cfg)),
       co_allowedMethods = strings_Join '', '' methods,
       co_allowedHeaders = strings_Join '', '' headers,
       co_allowCredentials = cc_AllowCredentials cfg,
       co_maxAge = Itoa (Seconds_int maxAge)\<rparr>)"

definition grant_origin :: "(string \<Rightarrow> string) \<Rightarrow> corsPolicy \<Rightarrow> string \<Rightarrow> ('w web, unit) prog" where
  \<comment> \<open>the switch on the policy\<close>
  "grant_origin unicode p origin =
     (if co_allowAll p then header_Set ''Access-Control-Allow-Origin'' ''*''
      else if ToLower unicode origin \<in> set (co_allowedOrigins p) then
        bindp (header_Set ''Access-Control-Allow-Origin'' origin) (\<lambda>_.
          if co_allowCredentials p then header_Set ''Access-Control-Allow-Credentials'' ''true''
          else retp ())
      else retp ())"

definition is_preflight :: "http_request \<Rightarrow> bool" where
  "is_preflight r \<longleftrightarrow>
     rq_Method r = ''OPTIONS'' \<and> get_first (rq_Header r) ''Access-Control-Request-Method'' \<noteq> []"

definition cors_middleware :: "(string \<Rightarrow> string) \<Rightarrow> corsPolicy \<Rightarrow> 'w middleware" where
  "cors_middleware unicode p nxt r =
     (let origin = get_first (rq_Header r) ''Origin'' in
      bindp (header_Add ''Vary'' ''Origin'') (\<lambda>_.
      if origin = [] then nxt r
      else
        bindp (grant_origin unicode p origin) (\<lambda>_.
        if is_preflight r then
          bindp (header_Add ''Vary'' ''Access-Control-Request-Method'') (\<lambda>_.
          bindp (header_Add ''Vary'' ''Access-Control-Request-Headers'') (\<lambda>_.
          bindp (header_Set ''Access-Control-Allow-Methods'' (co_allowedMethods p)) (\<lambda>_.
          bindp (header_Set ''Access-Control-Allow-Headers'' (co_allowedHeaders p)) (\<lambda>_.
          bindp (header_Set ''Access-Control-Max-Age'' (co_maxAge p)) (\<lambda>_.
          WriteHeader 204)))))
        else nxt r)))"

definition CORS :: "(string \<Rightarrow> string) \<Rightarrow> cors_config \<Rightarrow> 'w middleware" where
  "CORS unicode cfg = cors_middleware unicode (newCORSPolicy unicode cfg)"

section \<open>What the policy grants\<close>

text \<open>The headers the middleware has set when it hands a cross-origin request on.\<close>

definition cors_grants :: "(string \<Rightarrow> string) \<Rightarrow> cors_config \<Rightarrow> string \<Rightarrow> (string \<Rightarrow> string list) \<Rightarrow> string \<Rightarrow> string list" where
  "cors_grants unicode cfg origin h =
     (let h = h(''Vary'' := h ''Vary'' @ [''Origin'']) in
      if origin = [] then h
      else if ''*'' \<in> set (cc_AllowedOrigins cfg) then h(''Access-Control-Allow-Origin'' := [''*''])
      else if \<exists>allowed \<in> set (cc_AllowedOrigins cfg). ToLower unicode origin = ToLower unicode allowed then
        (if cc_AllowCredentials cfg
         then h(''Access-Control-Allow-Origin'' := [origin], ''Access-Control-Allow-Credentials'' := [''true''])
         else h(''Access-Control-Allow-Origin'' := [origin]))
      else h)"

definition set_fields :: "(string \<Rightarrow> string list) \<Rightarrow> 'w web \<Rightarrow> 'w web" where
  "set_fields h w =
     w\<lparr>wb_Writer := (wb_Writer w)\<lparr>rw_Header := (rw_Header (wb_Writer w))\<lparr>hd_Fields := h\<rparr>\<rparr>\<rparr>"

definition hfields :: "'w web \<Rightarrow> string \<Rightarrow> string list" where
  "hfields w = hd_Fields (rw_Header (wb_Writer w))"

lemma header_Set_run: "header_Set k v w = (Ret (), set_fields ((hfields w)(k := [v])) w)"
  by (simp add: web_ops set_fields_def hfields_def)

lemma header_Add_run: "header_Add k v w = (Ret (), set_fields ((hfields w)(k := hfields w k @ [v])) w)"
  by (simp add: web_ops set_fields_def hfields_def)

lemma hfields_set [simp]: "hfields (set_fields h w) = h"
  by (simp add: hfields_def set_fields_def)

lemma set_fields_set [simp]: "set_fields h (set_fields g w) = set_fields h w"
  by (simp add: set_fields_def)

lemma set_fields_id [simp]: "set_fields (hfields w) w = w"
  by (simp add: set_fields_def hfields_def)

lemma header_Set_bind: "bindp (header_Set k v) f w = f () (set_fields ((hfields w)(k := [v])) w)"
  by (simp add: bindp_def header_Set_run)

lemma header_Add_bind: "bindp (header_Add k v) f w = f () (set_fields ((hfields w)(k := hfields w k @ [v])) w)"
  by (simp add: bindp_def header_Add_run)

lemma CORS_grants:
  assumes "\<not> (is_preflight r \<and> get_first (rq_Header r) ''Origin'' \<noteq> [])"
  shows "CORS unicode cfg nxt r w =
    nxt r (set_fields (cors_grants unicode cfg (get_first (rq_Header r) ''Origin'') (hfields w)) w)"
  using assms
  by (auto simp: CORS_def cors_middleware_def newCORSPolicy_def grant_origin_def cors_grants_def Let_def
      bindp_def header_Set_run header_Add_run image_iff)

lemma CORS_preflight:
  fixes w :: "'w web"
  assumes "is_preflight r" and "get_first (rq_Header r) ''Origin'' \<noteq> []"
  shows "\<exists>w'. CORS unicode cfg nxt r w = (Ret (), w') \<and> wb_World w' = wb_World w \<and>
    rw_Body (wb_Writer w') = rw_Body (wb_Writer w) \<and>
    (\<forall>k \<in> {''Access-Control-Allow-Origin'', ''Access-Control-Allow-Credentials''}.
       hfields w' k = cors_grants unicode cfg (get_first (rq_Header r) ''Origin'') (hfields w) k) \<and>
    (rw_Sent (wb_Writer w) = None \<longrightarrow> rw_Sent (wb_Writer w') = Some (204, rw_Header (wb_Writer w')))"
proof -
  let ?origin = "get_first (rq_Header r) ''Origin''"
  let ?g = "cors_grants unicode cfg ?origin (hfields w)" and ?p = "newCORSPolicy unicode cfg"
  have "bindp (header_Add ''Vary'' ''Origin'') (\<lambda>_. bindp (grant_origin unicode ?p ?origin) f) w
      = f () (set_fields ?g w)" for f :: "unit \<Rightarrow> ('w web, unit) prog"
    using assms(2)
    by (auto simp: newCORSPolicy_def grant_origin_def cors_grants_def Let_def bindp_def header_Set_run
        header_Add_run image_iff)
  with assms have "CORS unicode cfg nxt r w = bindp (header_Add ''Vary'' ''Access-Control-Request-Method'') (\<lambda>_.
      bindp (header_Add ''Vary'' ''Access-Control-Request-Headers'') (\<lambda>_.
      bindp (header_Set ''Access-Control-Allow-Methods'' (co_allowedMethods ?p)) (\<lambda>_.
      bindp (header_Set ''Access-Control-Allow-Headers'' (co_allowedHeaders ?p)) (\<lambda>_.
      bindp (header_Set ''Access-Control-Max-Age'' (co_maxAge ?p)) (\<lambda>_.
      WriteHeader 204))))) (set_fields ?g w)"
    by (simp add: CORS_def cors_middleware_def Let_def)
  then show ?thesis
    by (simp add: header_Set_bind header_Add_bind)
      (simp add: WriteHeader_def on_writer_def commit_status_def hfields_def set_fields_def)
qed

end
