(* ===== verification/Config.thy ===== *)
theory Config
  imports RateLimit Cors
begin

text \<open>
  The process configuration of \<open>internal/config/config.go\<close> with \<open>internal/platform/secret\<close>: the
  typed sections, the defaults, the loading sequence and \<open>Validate\<close>. Viper, which reads the
  file and the environment and decodes into the struct, is a parameter.
\<close>

section \<open>Secrets\<close>

datatype secret = Secret string

definition redacted :: string where
  "redacted = ''[REDACTED]''"

definition secret_String :: "secret \<Rightarrow> string" where
  "secret_String s = redacted"

definition secret_GoString :: "secret \<Rightarrow> string" where
  "secret_GoString s = redacted"

definition secret_MarshalJSON :: "secret \<Rightarrow> json" where
  "secret_MarshalJSON s = JStr redacted"

fun Reveal :: "secret \<Rightarrow> string" where
  "Reveal (Secret s) = s"

fun secret_IsEmpty :: "secret \<Rightarrow> bool" where
  "secret_IsEmpty (Secret s) \<longleftrightarrow> s = []"

section \<open>The sections\<close>

record server_config =
  sv_Host :: string
  sv_Port :: int
  sv_ReadTimeout :: duration
  sv_ReadHeaderTimeout :: duration
  sv_WriteTimeout :: duration
  sv_IdleTimeout :: duration
  sv_ShutdownTimeout :: duration
  sv_RequestTimeout :: duration
  sv_TrustedProxies :: "string list"
  sv_EnableHSTS :: bool

record db_config =
  dc_Host :: string
  dc_Port :: int
  dc_User :: string
  dc_Password :: secret
  dc_Name :: string
  dc_SSLMode :: string
  dc_MaxConns :: "32 word"
  dc_MinConns :: "32 word"
  dc_ConnMaxLifetime :: duration
  dc_ConnMaxIdleTime :: duration
  dc_HealthCheckPeriod :: duration
  dc_ConnectTimeout :: duration
  dc_StartupTimeout :: duration

record log_config =
  lc_Level :: string
  lc_Format :: string

record auth_section =
  as_PrivateKeyPath :: string
  as_PublicKeyPath :: string
  as_PreviousPublicKeyPath :: string
  as_Issuer :: string
  as_ClientID :: string
  as_AccessTokenTTL :: duration
  as_RefreshTokenTTL :: duration
  as_MFATemporaryTTL :: duration
  as_MaxFailedAttempts :: int
  as_LockDuration :: duration
  as_TokenLeeway :: duration

record security_config =
  se_CORS :: cors_config
  se_RateLimit :: rate_limit_config

record metrics_config =
  me_Enabled :: bool
  me_Addr :: string
  me_Path :: string

record dispatcher_section =
  ds_PollInterval :: duration
  ds_BatchSize :: int
  ds_Workers :: int
  ds_MaxAttempts :: int
  ds_BackoffBase :: duration
  ds_BackoffCap :: duration
  ds_StalledAfter :: duration
  ds_DrainTimeout :: duration

record email_section =
  es_Enabled :: bool
  es_SMTPHost :: string
  es_SMTPPort :: int
  es_From :: string
  es_Username :: string
  es_Timeout :: duration
  es_Password :: secret

record log_sender_section =
  ls_Enabled :: bool
  ls_Channel :: string

record notification_section =
  ns_Enabled :: bool
  ns_Dispatcher :: dispatcher_section
  ns_Email :: email_section
  ns_LogSender :: log_sender_section

record app_config =
  cf_Server :: server_config
  cf_DB :: db_config
  cf_Log :: log_config
  cf_Auth :: auth_section
  cf_Security :: security_config
  cf_Metrics :: metrics_config
  cf_Notification :: notification_section

section \<open>Validation\<close>

definition placeholderPrefix :: string where
  "placeholderPrefix = ''CHANGEME''"

definition legacyPlaceholderSecrets :: "string list" where
  "legacyPlaceholderSecrets = [''postgres'', ''your-secret-key-change-in-production'']"

definition isPlaceholderSecret :: "(string \<Rightarrow> string) \<Rightarrow> string \<Rightarrow> bool" where
  "isPlaceholderSecret unicode v \<longleftrightarrow>
     v = [] \<or> has_prefix (ToUpper unicode v) placeholderPrefix \<or> v \<in> set legacyPlaceholderSecrets"

definition complain :: "bool \<Rightarrow> goerr \<Rightarrow> goerr list" where
  "complain bad err = (if bad then [err] else [])"

definition validate_cors :: "cors_config \<Rightarrow> goerr list" where
  "validate_cors c =
     complain (cc_AllowCredentials c \<and> ''*'' \<in> set (cc_AllowedOrigins c))
       (New ''security.cors: allowed_origins \"*\" cannot be combined with allow_credentials'')"

definition validate_rate_limit :: "rate_limit_config \<Rightarrow> goerr list" where
  "validate_rate_limit c =
     (if rc_Enabled c then
        complain (rc_Rate c \<le> 0) (New ''security.rate_limit.rate must be positive'') @
        complain (rc_Burst c \<le> 0) (New ''security.rate_limit.burst must be positive'') @
        complain (sint (rc_TTL c) \<le> 0) (New ''security.rate_limit.ttl must be positive'') @
        complain (rc_MaxKeys c \<le> 0) (New ''security.rate_limit.max_keys must be positive'')
      else [])"

definition validate_db :: "(string \<Rightarrow> string) \<Rightarrow> db_config \<Rightarrow> goerr list" where
  "validate_db unicode c =
     complain (dc_Name c = []) (New ''db.name is required (set APP_DB_NAME)'') @
     complain (dc_User c = []) (New ''db.user is required (set APP_DB_USER)'') @
     complain (sint (dc_MaxConns c) < sint (dc_MinConns c))
       (New ''db.min_conns must not exceed db.max_conns'') @
     complain (sint (dc_MaxConns c) \<le> 0) (New ''db.max_conns must be positive'') @
     complain (sint (dc_ConnMaxLifetime c) \<le> 0) (New ''db.conn_max_lifetime must be positive'') @
     complain (sint (dc_ConnMaxIdleTime c) \<le> 0) (New ''db.conn_max_idle_time must be positive'') @
     complain (sint (dc_ConnMaxLifetime c) < sint (dc_ConnMaxIdleTime c))
       (Errorf ''db.conn_max_idle_time (%s) must not exceed db.conn_max_lifetime (%s)''
          [ODuration (dc_ConnMaxIdleTime c), ODuration (dc_ConnMaxLifetime c)] []) @
     complain (sint (dc_ConnectTimeout c) \<le> 0) (New ''db.connect_timeout must be positive'') @
     complain (sint (dc_StartupTimeout c) < sint (dc_ConnectTimeout c))
       (Errorf ''db.startup_timeout (%s) must be >= db.connect_timeout (%s)''
          [ODuration (dc_StartupTimeout c), ODuration (dc_ConnectTimeout c)] []) @
     complain (isPlaceholderSecret unicode (Reveal (dc_Password c)))
       (New ''db.password is empty or a known placeholder; set APP_DB_PASSWORD to a real credential'')"

definition validate_server :: "server_config \<Rightarrow> goerr list" where
  "validate_server c =
     complain (sv_Port c \<le> 0 \<or> 65535 < sv_Port c)
       (Errorf ''server.port (%d) must be between 1 and 65535'' [OInt (sv_Port c)] []) @
     complain (sint (sv_WriteTimeout c) < sint (sv_RequestTimeout c))
       (Errorf ''server.request_timeout (%s) must not exceed server.write_timeout (%s)''
          [ODuration (sv_RequestTimeout c), ODuration (sv_WriteTimeout c)] []) @
     complain (sint (sv_ShutdownTimeout c) < sint (sv_RequestTimeout c))
       (New ''server.shutdown_timeout must be >= server.request_timeout'')"

definition host_port :: "string \<Rightarrow> int \<Rightarrow> string" where
  "host_port host port = host @ '':'' @ Itoa port"

definition validate_metrics :: "server_config \<Rightarrow> metrics_config \<Rightarrow> goerr list" where
  "validate_metrics s c =
     (if me_Enabled c then
        complain (me_Addr c = []) (New ''metrics.addr must not be empty when metrics.enabled is true'') @
        complain (\<not> has_prefix (me_Path c) ''/'')
          (Errorf (''metrics.path (%q) must begin with '' @ quoted ''/'') [OStr (me_Path c)] []) @
        complain (me_Addr c = host_port (sv_Host s) (sv_Port s))
          (Errorf (''metrics.addr (%s) must not be the API'' @ [CHR 0x27] @ ''s own address; '' @
              ''/metrics belongs on a separate, non-public listener'') [OStr (me_Addr c)] [])
      else [])"

definition validate_auth :: "auth_section \<Rightarrow> goerr list" where
  "validate_auth c =
     complain (as_Issuer c = []) (New ''auth.issuer must not be empty'') @
     complain (sint (as_AccessTokenTTL c) \<le> 0) (New ''auth.access_token_ttl must be positive'') @
     complain (sint (as_RefreshTokenTTL c) \<le> 0) (New ''auth.refresh_token_ttl must be positive'') @
     complain (0 < sint (as_AccessTokenTTL c) \<and> 0 < sint (as_RefreshTokenTTL c) \<and>
         sint (as_RefreshTokenTTL c) \<le> sint (as_AccessTokenTTL c))
       (New ''auth.access_token_ttl must be shorter than auth.refresh_token_ttl'') @
     complain (sint (as_MFATemporaryTTL c) \<le> 0) (New ''auth.mfa_temporary_ttl must be positive'') @
     complain (sint (as_LockDuration c) \<le> 0) (New ''auth.lock_duration must be positive'') @
     complain (as_MaxFailedAttempts c \<le> 0) (New ''auth.max_failed_attempts must be positive'') @
     complain (sint (as_TokenLeeway c) < 0) (New ''auth.token_leeway must not be negative'')"

definition config_Validate :: "(string \<Rightarrow> string) \<Rightarrow> app_config \<Rightarrow> goerr option" where
  "config_Validate unicode c =
     errors_Join (validate_cors (se_CORS (cf_Security c)) @
       validate_rate_limit (se_RateLimit (cf_Security c)) @
       validate_db unicode (cf_DB c) @ validate_server (cf_Server c) @
       validate_metrics (cf_Server c) (cf_Metrics c) @ validate_auth (cf_Auth c))"

section \<open>Loading\<close>

datatype setting = SStr string | SInt int | SBool bool | SList "string list"

definition server_defaults :: "(string \<times> setting) list" where
  "server_defaults =
     [(''server.host'', SStr ''0.0.0.0''), (''server.port'', SInt 8080),
      (''server.read_timeout'', SStr ''30s''), (''server.read_header_timeout'', SStr ''10s''),
      (''server.write_timeout'', SStr ''30s''), (''server.idle_timeout'', SStr ''120s''),
      (''server.shutdown_timeout'', SStr ''30s''), (''server.request_timeout'', SStr ''25s''),
      (''server.trusted_proxies'', SList []), (''server.enable_hsts'', SBool False)]"

definition db_defaults :: "(string \<times> setting) list" where
  "db_defaults =
     [(''db.host'', SStr ''localhost''), (''db.port'', SInt 5432), (''db.sslmode'', SStr ''disable''),
      (''db.max_conns'', SInt 10), (''db.min_conns'', SInt 2),
      (''db.conn_max_lifetime'', SStr ''1h''), (''db.conn_max_idle_time'', SStr ''30m''),
      (''db.health_check_period'', SStr ''1m''), (''db.connect_timeout'', SStr ''5s''),
      (''db.startup_timeout'', SStr ''15s'')]"

definition log_auth_defaults :: "(string \<times> setting) list" where
  "log_auth_defaults =
     [(''log.level'', SStr ''info''), (''log.format'', SStr ''json''),
      (''auth.private_key_path'', SStr ''keys/private.pem''),
      (''auth.public_key_path'', SStr ''keys/public.pem''), (''auth.issuer'', SStr ''kopiochi''),
      (''auth.client_id'', SStr ''kopiochi''), (''auth.access_token_ttl'', SStr ''15m''),
      (''auth.refresh_token_ttl'', SStr ''168h''), (''auth.mfa_temporary_ttl'', SStr ''5m''),
      (''auth.max_failed_attempts'', SInt 5), (''auth.lock_duration'', SStr ''15m''),
      (''auth.token_leeway'', SStr ''30s'')]"

definition security_defaults :: "(string \<times> setting) list" where
  "security_defaults =
     [(''security.cors.enabled'', SBool False), (''security.cors.allowed_origins'', SList []),
      (''security.cors.allowed_methods'',
         SList [''GET'', ''POST'', ''PUT'', ''PATCH'', ''DELETE'', ''OPTIONS'']),
      (''security.cors.allowed_headers'',
         SList [''Accept'', ''Content-Type'', ''Content-Length'', ''Accept-Encoding'', ''X-CSRF-Token'',
                ''Authorization'']),
      (''security.cors.allow_credentials'', SBool False), (''security.cors.max_age'', SStr ''5m''),
      (''security.rate_limit.enabled'', SBool False), (''security.rate_limit.rate'', SInt 100),
      (''security.rate_limit.burst'', SInt 100), (''security.rate_limit.ttl'', SStr ''10m''),
      (''security.rate_limit.max_keys'', SInt 100000)]"

definition worker_defaults :: "(string \<times> setting) list" where
  "worker_defaults =
     [(''metrics.enabled'', SBool False), (''metrics.addr'', SStr ''127.0.0.1:9090''),
      (''metrics.path'', SStr ''/metrics''), (''notification.enabled'', SBool True),
      (''notification.dispatcher.poll_interval'', SStr ''5s''),
      (''notification.dispatcher.batch_size'', SInt 50),
      (''notification.dispatcher.workers'', SInt 2),
      (''notification.dispatcher.max_attempts'', SInt 6),
      (''notification.dispatcher.backoff_base'', SStr ''30s''),
      (''notification.dispatcher.backoff_cap'', SStr ''1h''),
      (''notification.dispatcher.stalled_after'', SStr ''5m''),
      (''notification.dispatcher.drain_timeout'', SStr ''30s'')]"

definition sender_defaults :: "(string \<times> setting) list" where
  "sender_defaults =
     [(''notification.email.enabled'', SBool False), (''notification.email.smtp_host'', SStr []),
      (''notification.email.smtp_port'', SInt 587), (''notification.email.from'', SStr []),
      (''notification.email.username'', SStr []), (''notification.email.timeout'', SStr ''10s''),
      (''notification.log_sender.enabled'', SBool False),
      (''notification.log_sender.channel'', SStr ''email'')]"

definition config_defaults :: "(string \<times> setting) list" where
  "config_defaults =
     server_defaults @ db_defaults @ log_auth_defaults @ security_defaults @ worker_defaults @ sender_defaults"

text \<open>
  Viper, after \<open>SetConfigFile\<close>, \<open>SetEnvPrefix APP\<close>, the key replacer and \<open>AutomaticEnv\<close>: binding
  a key to a variable, reading the file (whose absence is told apart), and decoding file,
  environment and defaults into the struct.
\<close>

record 'w viper_pkg =
  vp_BindEnv :: "string \<Rightarrow> string \<Rightarrow> ('w, goerr option) prog"
  vp_ReadInConfig :: "string \<Rightarrow> ('w, goerr option) prog"
  vp_NotFound :: "goerr \<Rightarrow> bool"
  vp_Unmarshal :: "(string \<times> setting) list \<Rightarrow> ('w, goerr + app_config) prog"

definition bound_keys :: "(string \<times> string) list" where
  "bound_keys =
     [(''db.password'', ''APP_DB_PASSWORD''), (''db.user'', ''APP_DB_USER''), (''db.name'', ''APP_DB_NAME''),
      (''notification.email.password'', ''APP_NOTIFICATION_EMAIL_PASSWORD'')]"

fun bind_all :: "'w viper_pkg \<Rightarrow> (string \<times> string) list \<Rightarrow> ('w, goerr option) prog" where
  "bind_all V [] = retp None"
| "bind_all V ((key, var) # ks) =
     bindp (vp_BindEnv V key var) (\<lambda>err.
       case err of
         Some e \<Rightarrow> retp (Some (Errorf (''bind '' @ key @ '' env: %w'') [] [e]))
       | None \<Rightarrow> bind_all V ks)"

definition Load :: "(string \<Rightarrow> string) \<Rightarrow> 'w viper_pkg \<Rightarrow> string \<Rightarrow> ('w, goerr + app_config) prog" where
  "Load unicode V cfgPath =
     bindp (bind_all V bound_keys) (\<lambda>err.
     case err of
       Some e \<Rightarrow> retp (Inl e)
     | None \<Rightarrow>
         bindp (vp_ReadInConfig V cfgPath) (\<lambda>err.
         if err \<noteq> None \<and> \<not> vp_NotFound V (the err) then retp (Inl (the err))
         else
           bindp (vp_Unmarshal V config_defaults) (\<lambda>r.
           case r of
             Inl err \<Rightarrow> retp (Inl err)
           | Inr cfg \<Rightarrow>
               (case config_Validate unicode cfg of
                  Some err \<Rightarrow> retp (Inl (Errorf ''invalid config: %w'' [] [err]))
                | None \<Rightarrow> retp (Inr cfg)))))"

section \<open>What a valid configuration guarantees\<close>

lemma complain_Nil [simp]: "complain bad err = [] \<longleftrightarrow> \<not> bad"
  by (simp add: complain_def)

lemma complain_set [simp]: "set (complain bad err) = (if bad then {err} else {})"
  by (simp add: complain_def)

lemma config_Validate_None:
  "config_Validate unicode c = None \<longleftrightarrow>
     validate_cors (se_CORS (cf_Security c)) = [] \<and>
     validate_rate_limit (se_RateLimit (cf_Security c)) = [] \<and>
     validate_db unicode (cf_DB c) = [] \<and> validate_server (cf_Server c) = [] \<and>
     validate_metrics (cf_Server c) (cf_Metrics c) = [] \<and> validate_auth (cf_Auth c) = []"
  by (simp add: config_Validate_def)

lemma validate_rate_limit_Nil:
  "validate_rate_limit c = [] \<longleftrightarrow>
     (rc_Enabled c \<longrightarrow> 0 < rc_Rate c \<and> 0 < rc_Burst c \<and> 0 < sint (rc_TTL c) \<and> 0 < rc_MaxKeys c)"
  by (auto simp: validate_rate_limit_def)

lemma NewRateLimiter_valid:
  "validate_rate_limit c = [] \<Longrightarrow> rc_Enabled c \<Longrightarrow> \<exists>l. NewRateLimiter c = Inr l"
  by (auto simp: validate_rate_limit_Nil NewRateLimiter_def not_le)

lemma Load_valid: "Load unicode V p w = (Ret (Inr c), w') \<Longrightarrow> config_Validate unicode c = None"
  unfolding Load_def
  by (auto elim!: bindp_RetE split: option.splits sum.splits if_splits)

lemma bound_not_defaulted: "fst ` set bound_keys \<inter> fst ` set config_defaults = {}"
  by (simp add: bound_keys_def config_defaults_def server_defaults_def db_defaults_def
      log_auth_defaults_def security_defaults_def worker_defaults_def sender_defaults_def)

lemma defaults_distinct: "distinct (map fst config_defaults)"
  by (simp add: config_defaults_def server_defaults_def db_defaults_def
      log_auth_defaults_def security_defaults_def worker_defaults_def sender_defaults_def)

end
