(* ===== verification/Smtp.thy ===== *)
theory Smtp
  imports Mail Config Service
begin

text \<open>
  The senders of \<open>modules/notification/infrastructure/sender\<close>: mail over SMTP
  (\<open>email_smtp.go\<close>), the in-app sender and the log sender. Parsing and printing of addresses, the
  layout of a date, the random boundary, the connection and the client of \<open>net/smtp\<close> are
  parameters; a scripted peer, one answer per step of the conversation, instantiates them.
\<close>

section \<open>Configuration and construction\<close>

record mail_address =
  ma_Name :: string
  ma_Address :: string

record tls_config =
  tc_ServerName :: string
  tc_MinVersion :: int

record smtp_config =
  mc_Host :: string
  mc_Port :: int
  mc_Username :: string
  mc_Password :: secret
  mc_From :: string
  mc_Timeout :: duration
  mc_ImplicitTLS :: bool
  mc_TLSConfig :: "tls_config option"

definition smtpsPort :: int where
  "smtpsPort = 465"

definition PortUsesImplicitTLS :: "int \<Rightarrow> bool" where
  "PortUsesImplicitTLS port \<longleftrightarrow> port = smtpsPort"

definition ErrNoAddress :: goerr where
  "ErrNoAddress = Errorf ''%w: recipient has no email address'' [] [ErrNonRetryable]"

type_synonym 'w address_resolver = "uuid \<Rightarrow> ('w, goerr + string) prog"

record 'w smtp_sender =
  ss_cfg :: smtp_config
  ss_Resolver :: "'w address_resolver"
  ss_Clock :: "('w, time) prog option"
  ss_from :: mail_address
  ss_messageIDDomain :: string

text \<open>
  What the sender takes from its environment: \<open>net/mail\<close>, the texts of errors, identifiers and
  dates, the clock, the context's deadline, a fresh boundary, and the connection with the client
  over it. \<open>se_Auth\<close> is \<open>Auth\<close> with \<open>PlainAuth\<close> of an empty identity: user name, password, host.
\<close>

record 'w smtp_env =
  se_ParseAddress :: "string \<Rightarrow> goerr + mail_address"
  se_String :: "mail_address \<Rightarrow> string"
  se_Error :: "goerr \<Rightarrow> string"
  se_UuidString :: "uuid \<Rightarrow> string"
  se_RFC1123Z :: "time \<Rightarrow> string"
  se_Now :: "('w, time) prog"
  se_Deadline :: "('w, time option) prog"
  se_Boundary :: "('w, string) prog"
  se_Dial :: "string \<Rightarrow> duration \<Rightarrow> ('w, goerr option) prog"
  se_SetDeadline :: "time \<Rightarrow> ('w, goerr option) prog"
  se_Handshake :: "tls_config \<Rightarrow> ('w, goerr option) prog"
  se_NewClient :: "string \<Rightarrow> ('w, goerr option) prog"
  se_Extension :: "string \<Rightarrow> ('w, bool) prog"
  se_StartTLS :: "tls_config \<Rightarrow> ('w, goerr option) prog"
  se_Auth :: "string \<Rightarrow> string \<Rightarrow> string \<Rightarrow> ('w, goerr option) prog"
  se_Mail :: "string \<Rightarrow> ('w, goerr option) prog"
  se_Rcpt :: "string \<Rightarrow> ('w, goerr option) prog"
  se_Data :: "('w, goerr option) prog"
  se_Write :: "string \<Rightarrow> ('w, goerr option) prog"
  se_EndData :: "('w, goerr option) prog"
  se_Quit :: "('w, goerr option) prog"
  se_CloseClient :: "('w, goerr option) prog"
  se_CloseConn :: "('w, goerr option) prog"

definition cut_after :: "char \<Rightarrow> string \<Rightarrow> string" where
  \<comment> \<open>the second result of \<open>strings.Cut\<close>\<close>
  "cut_after c s = drop (Suc (length (takeWhile (\<lambda>d. d \<noteq> c) s))) s"

definition smtp_errors :: "bool \<Rightarrow> smtp_config \<Rightarrow> goerr list" where
  "smtp_errors resolver cfg =
     (if resolver then [] else [New ''smtp sender: an address resolver is required'']) @
     (if TrimSpace (mc_Host cfg) = [] then [New ''smtp sender: host is required''] else []) @
     (if mc_Port cfg \<le> 0 \<or> 65535 < mc_Port cfg
      then [Errorf ''smtp sender: port (%d) must be between 1 and 65535'' [OInt (mc_Port cfg)] []] else []) @
     (if secret_IsEmpty (mc_Password cfg) then [New ''smtp sender: password is required''] else []) @
     (if sint (mc_Timeout cfg) \<le> 0 then [New ''smtp sender: timeout must be positive''] else [])"

definition NewSMTP ::
  "'w smtp_env \<Rightarrow> 'w address_resolver option \<Rightarrow> ('w, time) prog option \<Rightarrow> smtp_config \<Rightarrow> goerr + 'w smtp_sender" where
  "NewSMTP E resolver clock cfg =
     (let errs = smtp_errors (resolver \<noteq> None) cfg in
      case se_ParseAddress E (mc_From cfg) of
        Inl err \<Rightarrow> Inl (Join (errs @ [Errorf ''smtp sender: from address %q: %w'' [OStr (mc_From cfg)] [err]]))
      | Inr from \<Rightarrow>
          (case errors_Join errs of
             Some err \<Rightarrow> Inl err
           | None \<Rightarrow> Inr \<lparr>ss_cfg = cfg, ss_Resolver = the resolver, ss_Clock = clock, ss_from = from,
                          ss_messageIDDomain = cut_after (CHR 0x40) (ma_Address from)\<rparr>))"

section \<open>Resolving the recipient\<close>

definition resolve :: "'w smtp_env \<Rightarrow> 'w smtp_sender \<Rightarrow> uuid \<Rightarrow> ('w, goerr + mail_address) prog" where
  "resolve E s recipientID =
     bindp (ss_Resolver s recipientID) (\<lambda>res.
     case res of
       Inl err \<Rightarrow> retp (Inl (Errorf ''resolve recipient %s: %w'' [OUuid recipientID] [err]))
     | Inr raw \<Rightarrow>
         if TrimSpace raw = [] then
           retp (Inl (Errorf ''%w: resolver returned an empty address for %s'' [OUuid recipientID] [ErrNoAddress]))
         else (case se_ParseAddress E raw of
             Inl err \<Rightarrow> retp (Inl (Errorf ''%w: recipient %s has an unusable address: %v''
                 [OUuid recipientID, OStr (se_Error E err)] [ErrNonRetryable]))
           | Inr addr \<Rightarrow> retp (Inr addr)))"

section \<open>Building the message\<close>

definition oneLineSubject :: "string \<Rightarrow> string" where
  "oneLineSubject s = strings_Join '' '' (strings_Fields s)"

definition sender_now :: "'w smtp_env \<Rightarrow> 'w smtp_sender \<Rightarrow> ('w, time) prog" where
  "sender_now E s = (case ss_Clock s of Some clock \<Rightarrow> clock | None \<Rightarrow> se_Now E)"

definition writeHeaders :: "(string \<times> string) list \<Rightarrow> string" where
  "writeHeaders headers = concat (map header_line headers) @ CRLF"

definition charset_utf8 :: "string \<Rightarrow> string" where
  "charset_utf8 kind = kind @ ''; charset='' @ [CHR 0x22] @ ''utf-8'' @ [CHR 0x22]"

definition writePart :: "string \<Rightarrow> string \<Rightarrow> string \<Rightarrow> string \<Rightarrow> string" where
  \<comment> \<open>the header lines of a part are written in the order of their names\<close>
  "writePart boundary contentType text buf =
     createPart boundary [(''Content-Transfer-Encoding'', ''quoted-printable''), (''Content-Type'', contentType)] buf @
     quoted_printable text"

definition mail_headers :: "'w smtp_env \<Rightarrow> 'w smtp_sender \<Rightarrow> rendered_message \<Rightarrow> mail_address \<Rightarrow> time \<Rightarrow> (string \<times> string) list" where
  "mail_headers E s msg to now =
     [(''From'', se_String E (ss_from s)),
      (''To'', se_String E to),
      (''Subject'', QEncoding_Encode ''utf-8'' (oneLineSubject (m_Subject msg))),
      (''Date'', se_RFC1123Z E now),
      (''Message-ID'', ''<'' @ se_UuidString E (m_NotificationID msg) @ [CHR 0x40] @ ss_messageIDDomain s @ ''>''),
      (''Auto-Submitted'', ''auto-generated''),
      (''MIME-Version'', ''1.0'')]"

definition plain_mail :: "(string \<times> string) list \<Rightarrow> rendered_message \<Rightarrow> string" where
  "plain_mail headers msg =
     writeHeaders (headers @ [(''Content-Type'', charset_utf8 ''text/plain''),
                              (''Content-Transfer-Encoding'', ''quoted-printable'')]) @
     quoted_printable (m_Body msg)"

definition rich_mail :: "(string \<times> string) list \<Rightarrow> rendered_message \<Rightarrow> string \<Rightarrow> string" where
  \<comment> \<open>the plain text first, the HTML after it\<close>
  "rich_mail headers msg boundary =
     writeHeaders (headers @ [(''Content-Type'',
         ''multipart/alternative; boundary='' @ [CHR 0x22] @ boundary @ [CHR 0x22])]) @
     closeMultipart boundary
       (writePart boundary (charset_utf8 ''text/html'') (m_HTMLBody msg)
         (writePart boundary (charset_utf8 ''text/plain'') (m_Body msg) []))"

definition build_mail :: "'w smtp_env \<Rightarrow> 'w smtp_sender \<Rightarrow> rendered_message \<Rightarrow> mail_address \<Rightarrow> ('w, goerr + string) prog" where
  "build_mail E s msg to =
     (if TrimSpace (m_Body msg) = [] then
        retp (Inl (Errorf ''%w: message %s has no plain-text body'' [OUuid (m_NotificationID msg)] [ErrNonRetryable]))
      else bindp (sender_now E s) (\<lambda>now.
        if m_HTMLBody msg = [] then retp (Inr (plain_mail (mail_headers E s msg to now) msg))
        else bindp (se_Boundary E) (\<lambda>boundary.
          retp (Inr (rich_mail (mail_headers E s msg to now) msg boundary)))))"

section \<open>The conversation\<close>

definition classify :: "goerr \<Rightarrow> goerr" where
  "classify err =
     (case errors_As_proto err of
        Some code \<Rightarrow> if 500 \<le> code then Errorf ''%w: %w'' [] [ErrNonRetryable, err] else err
      | None \<Rightarrow> err)"

definition tlsConfig :: "'w smtp_sender \<Rightarrow> tls_config" where
  \<comment> \<open>0x0303 is TLS 1.2\<close>
  "tlsConfig s =
     (case mc_TLSConfig (ss_cfg s) of
        Some c \<Rightarrow> c
      | None \<Rightarrow> \<lparr>tc_ServerName = mc_Host (ss_cfg s), tc_MinVersion = 0x0303\<rparr>)"

definition JoinHostPort :: "string \<Rightarrow> string \<Rightarrow> string" where
  \<comment> \<open>\<open>net.JoinHostPort\<close>: a host with a colon is an IPv6 literal\<close>
  "JoinHostPort host port =
     (if CHR '':'' \<in> set host then ''['' @ host @ '']:'' @ port else host @ '':'' @ port)"

text \<open>
  A step of the conversation that ends it with its error: \<open>wrap\<close> says what is reported.
\<close>

definition step_or :: "('w, goerr option) prog \<Rightarrow> (goerr \<Rightarrow> goerr) \<Rightarrow> ('w, goerr option) prog \<Rightarrow> ('w, goerr option) prog" where
  "step_or p wrap rest =
     bindp p (\<lambda>err. case err of Some e \<Rightarrow> retp (Some (wrap e)) | None \<Rightarrow> rest)"

definition sender_username :: "'w smtp_sender \<Rightarrow> string" where
  "sender_username s =
     (if mc_Username (ss_cfg s) = [] then ma_Address (ss_from s) else mc_Username (ss_cfg s))"

definition transfer :: "'w smtp_env \<Rightarrow> 'w smtp_sender \<Rightarrow> string \<Rightarrow> string \<Rightarrow> ('w, goerr option) prog" where
  \<comment> \<open>from the authentication on\<close>
  "transfer E s to raw =
     (let username = sender_username s in
      step_or (se_Auth E username (Reveal (mc_Password (ss_cfg s))) (mc_Host (ss_cfg s)))
        (\<lambda>err. classify (Errorf ''smtp auth as %s: %w'' [OStr username] [err]))
     (step_or (se_Mail E (ma_Address (ss_from s))) (\<lambda>err. classify (Errorf ''smtp mail from: %w'' [] [err]))
     (step_or (se_Rcpt E to) (\<lambda>err. classify (Errorf ''smtp rcpt to: %w'' [] [err]))
     (step_or (se_Data E) (\<lambda>err. classify (Errorf ''smtp data: %w'' [] [err]))
     (step_or (se_Write E raw) (\<lambda>err. Errorf ''write message: %w'' [] [err])
     (step_or (se_EndData E) (\<lambda>err. classify (Errorf ''send message: %w'' [] [err]))
       (bindp (se_Quit E) (\<lambda>_. retp None))))))))"

definition conversation :: "'w smtp_env \<Rightarrow> 'w smtp_sender \<Rightarrow> string \<Rightarrow> string \<Rightarrow> string \<Rightarrow> ('w, goerr option) prog" where
  \<comment> \<open>from the greeting on\<close>
  "conversation E s addr to raw =
     step_or (se_NewClient E (mc_Host (ss_cfg s)))
       (\<lambda>err. classify (Errorf ''smtp greeting from %s: %w'' [OStr addr] [err]))
     (deferp
       (if mc_ImplicitTLS (ss_cfg s) then transfer E s to raw
        else bindp (se_Extension E ''STARTTLS'') (\<lambda>ok.
          if ok then step_or (se_StartTLS E (tlsConfig s))
                       (\<lambda>err. Errorf ''starttls with %s: %w'' [OStr addr] [err]) (transfer E s to raw)
          else transfer E s to raw))
       (se_CloseClient E))"

definition deliver :: "'w smtp_env \<Rightarrow> 'w smtp_sender \<Rightarrow> string \<Rightarrow> string \<Rightarrow> ('w, goerr option) prog" where
  "deliver E s to raw =
     (let addr = JoinHostPort (mc_Host (ss_cfg s)) (Itoa (mc_Port (ss_cfg s))) in
      bindp (se_Now E) (\<lambda>now.
      bindp (se_Deadline E) (\<lambda>d.
      let own = time_Add now (mc_Timeout (ss_cfg s));
          deadline = (case d of Some t \<Rightarrow> if t < own then t else own | None \<Rightarrow> own)
      in step_or (se_Dial E addr (mc_Timeout (ss_cfg s))) (\<lambda>err. Errorf ''dial %s: %w'' [OStr addr] [err])
        (deferp
          (step_or (se_SetDeadline E deadline) (\<lambda>err. Errorf ''set deadline: %w'' [] [err])
            (if mc_ImplicitTLS (ss_cfg s)
             then step_or (se_Handshake E (tlsConfig s))
                    (\<lambda>err. Errorf ''tls handshake with %s: %w'' [OStr addr] [err]) (conversation E s addr to raw)
             else conversation E s addr to raw))
          (se_CloseConn E)))))"

definition Send_SMTP :: "'w smtp_env \<Rightarrow> 'w smtp_sender \<Rightarrow> rendered_message \<Rightarrow> ('w, goerr option) prog" where
  "Send_SMTP E s msg =
     bindp (resolve E s (m_RecipientID msg)) (\<lambda>res.
     case res of
       Inl err \<Rightarrow> retp (Some err)
     | Inr to \<Rightarrow>
         bindp (build_mail E s msg to) (\<lambda>built.
         case built of
           Inl err \<Rightarrow> retp (Some err)
         | Inr raw \<Rightarrow> deliver E s (ma_Address to) raw))"

definition SMTP_sender :: "'w smtp_env \<Rightarrow> 'w smtp_sender \<Rightarrow> 'w channel_sender" where
  "SMTP_sender E s = \<lparr>cs_Channel = ChannelEmail, cs_Send = Send_SMTP E s\<rparr>"

section \<open>The other senders\<close>

definition InApp :: "'w channel_sender" where
  "InApp = \<lparr>cs_Channel = ChannelInApp, cs_Send = (\<lambda>_. retp None)\<rparr>"

record delivery_line =
  dl_NotificationID :: uuid
  dl_RecipientID :: uuid
  dl_Channel :: channel
  dl_Subject :: string
  dl_BodyBytes :: nat
  dl_HTML :: bool

record body_line =
  bl_NotificationID :: uuid
  bl_Body :: string
  bl_HTMLBody :: string

definition Send_Log ::
  "(delivery_line \<Rightarrow> ('w, unit) prog) \<Rightarrow> (body_line \<Rightarrow> ('w, unit) prog) \<Rightarrow> rendered_message \<Rightarrow> ('w, goerr option) prog" where
  \<comment> \<open>one line at info, one at debug\<close>
  "Send_Log info debug msg =
     bindp (info \<lparr>dl_NotificationID = m_NotificationID msg, dl_RecipientID = m_RecipientID msg,
        dl_Channel = m_Channel msg, dl_Subject = m_Subject msg, dl_BodyBytes = length (m_Body msg),
        dl_HTML = (m_HTMLBody msg \<noteq> [])\<rparr>) (\<lambda>_.
     bindp (debug \<lparr>bl_NotificationID = m_NotificationID msg, bl_Body = m_Body msg,
        bl_HTMLBody = m_HTMLBody msg\<rparr>) (\<lambda>_. retp None))"

definition NewLog ::
  "(delivery_line \<Rightarrow> ('w, unit) prog) \<Rightarrow> (body_line \<Rightarrow> ('w, unit) prog) \<Rightarrow> channel \<Rightarrow> goerr + 'w channel_sender" where
  "NewLog info debug ch =
     (if \<not> Channel_Valid ch then Inl (Errorf ''log sender: unknown channel %q'' [OStr ch] [])
      else Inr \<lparr>cs_Channel = ch, cs_Send = Send_Log info debug\<rparr>)"

end
