(* ===== verification/NotificationNew.thy ===== *)
theory NotificationNew
  imports NotificationHttp Smtp
begin

text \<open>
  The notification module as \<open>modules/notification/config.go\<close>, \<open>module.go\<close> and \<open>enqueuer.go\<close>
  build it: the configuration check, the routing table of senders, the service, the dispatcher and
  the routes, or the enqueuer alone. The repositories are those over the handle the host passes
  (\<open>None\<close> is a nil handle); the logger, the clock, the jitter, the embedded templates and the
  goroutines behind \<open>Start\<close> and \<open>Stop\<close> (the step relation of theory Dispatcher) are parameters.
\<close>

section \<open>Configuration\<close>

record module_dispatcher =
  md_PollInterval :: duration
  md_BatchSize :: int
  md_Workers :: int
  md_MaxAttempts :: int
  md_BackoffBase :: duration
  md_BackoffCap :: duration
  md_StalledAfter :: duration
  md_DrainTimeout :: duration

record module_email =
  mm_Enabled :: bool
  mm_SMTPHost :: string
  mm_SMTPPort :: int
  mm_From :: string
  mm_Username :: string
  mm_Timeout :: duration
  mm_Password :: secret

record module_log_sender =
  ml_Enabled :: bool
  ml_Channel :: string

record 'w module_config =
  mo_Enabled :: bool
  mo_Dispatcher :: module_dispatcher
  mo_Email :: module_email
  mo_LogSender :: module_log_sender
  mo_Auth :: "'w middleware option"
  mo_EmailAddressResolver :: "'w address_resolver option"

definition dispatcher_complaints :: "module_dispatcher \<Rightarrow> goerr list" where
  "dispatcher_complaints d =
     complain (sint (md_PollInterval d) \<le> 0) (New ''notification: dispatcher.poll_interval must be positive'') @
     complain (md_BatchSize d \<le> 0) (New ''notification: dispatcher.batch_size must be positive'') @
     complain (md_Workers d \<le> 0) (New ''notification: dispatcher.workers must be positive'') @
     complain (md_MaxAttempts d \<le> 0) (New ''notification: dispatcher.max_attempts must be positive'') @
     complain (sint (md_BackoffBase d) \<le> 0) (New ''notification: dispatcher.backoff_base must be positive'') @
     complain (sint (md_BackoffCap d) \<le> 0) (New ''notification: dispatcher.backoff_cap must be positive'') @
     complain (0 < sint (md_BackoffBase d) \<and> 0 < sint (md_BackoffCap d) \<and> sint (md_BackoffCap d) < sint (md_BackoffBase d))
       (Errorf ''notification: dispatcher.backoff_base (%s) must not exceed dispatcher.backoff_cap (%s)''
          [ODuration (md_BackoffBase d), ODuration (md_BackoffCap d)] []) @
     complain (sint (md_StalledAfter d) \<le> 0) (New ''notification: dispatcher.stalled_after must be positive'') @
     complain (0 < sint (md_StalledAfter d) \<and> 0 < sint (md_PollInterval d) \<and> sint (md_StalledAfter d) < sint (md_PollInterval d))
       (Errorf ''notification: dispatcher.stalled_after (%s) must be at least dispatcher.poll_interval (%s)''
          [ODuration (md_StalledAfter d), ODuration (md_PollInterval d)] []) @
     complain (sint (md_DrainTimeout d) \<le> 0) (New ''notification: dispatcher.drain_timeout must be positive'')"

definition email_complaints :: "bool \<Rightarrow> module_email \<Rightarrow> goerr list" where
  "email_complaints resolver e =
     (if \<not> mm_Enabled e then []
      else
        complain (\<not> resolver) (New ''notification: an email address resolver is required when email.enabled is true'') @
        complain (sint (mm_Timeout e) \<le> 0) (New ''notification: email.timeout must be positive'') @
        complain (TrimSpace (mm_SMTPHost e) = []) (New ''notification: email.smtp_host is required when email.enabled is true'') @
        complain (mm_SMTPPort e \<le> 0 \<or> 65535 < mm_SMTPPort e)
          (Errorf ''notification: email.smtp_port (%d) must be between 1 and 65535'' [OInt (mm_SMTPPort e)] []) @
        (if TrimSpace (mm_From e) = [] then [New ''notification: email.from is required when email.enabled is true'']
         else complain (CHR 0x40 \<notin> set (mm_From e))
           (Errorf ''notification: email.from (%q) must be an email address'' [OStr (mm_From e)] [])) @
        complain (secret_IsEmpty (mm_Password e))
          (New ''notification: email password is required when email.enabled is true; set APP_NOTIFICATION_EMAIL_PASSWORD''))"

definition log_sender_complaints :: "bool \<Rightarrow> module_log_sender \<Rightarrow> goerr list" where
  "log_sender_complaints emailEnabled l =
     (if \<not> ml_Enabled l then []
      else if \<not> Channel_Valid (ml_Channel l) then
        [Errorf ''notification: log_sender.channel (%q) is not a known channel'' [OStr (ml_Channel l)] []]
      else if ml_Channel l = ChannelInApp then
        [New (''notification: log_sender.channel cannot be '' @ CHR 0x22 # ''inapp'' @ [CHR 0x22] @
          ''; the in-app row is the notification and always has its own sender'')]
      else if ml_Channel l = ChannelEmail \<and> emailEnabled then
        [New (''notification: log_sender.channel is '' @ CHR 0x22 # ''email'' @ [CHR 0x22] @
          '' while email.enabled is true; one channel cannot have two senders'')]
      else [])"

definition module_Validate :: "'w module_config \<Rightarrow> goerr option" where
  "module_Validate c =
     (if \<not> mo_Enabled c then None
      else errors_Join
        (complain (mo_Auth c = None) (New ''notification: an auth middleware is required when the module is enabled'') @
         dispatcher_complaints (mo_Dispatcher c) @
         email_complaints (mo_EmailAddressResolver c \<noteq> None) (mo_Email c) @
         log_sender_complaints (mm_Enabled (mo_Email c)) (mo_LogSender c)))"

section \<open>Construction\<close>

text \<open>What the module is given besides its configuration.\<close>

record ('w, 't, 'h) module_deps =
  dp_DB :: "('w notification_repository \<times> 'w preference_repository) option"
  dp_engine :: "('t, 'h) template_pkg"
  dp_templates :: "goerr + (goerr + (string \<times> (goerr + string)) list)"
  dp_smtp :: "'w smtp_env"
  dp_info :: "delivery_line \<Rightarrow> ('w, unit) prog"
  dp_debug :: "body_line \<Rightarrow> ('w, unit) prog"
  dp_Now :: "('w, time) prog"
  dp_Float64 :: "('w, float64) prog"
  dp_err_text :: "goerr \<Rightarrow> string"
  dp_codec :: notif_codec
  dp_Start :: "'w dispatcher \<Rightarrow> ('w, unit) prog"
  dp_Stop :: "'w dispatcher \<Rightarrow> ('w, goerr option) prog"

definition template_New ::
  "('t, 'h) template_pkg \<Rightarrow> goerr + (goerr + (string \<times> (goerr + string)) list) \<Rightarrow> goerr + ('t, 'h) renderer_state" where
  "template_New T sub =
     (case sub of
        Inl err \<Rightarrow> Inl (Errorf ''open embedded templates: %w'' [] [err])
      | Inr glob \<Rightarrow> NewFromFS T glob)"

definition email_smtp_config :: "module_email \<Rightarrow> smtp_config" where
  "email_smtp_config e =
     \<lparr>mc_Host = mm_SMTPHost e, mc_Port = mm_SMTPPort e, mc_Username = mm_Username e,
      mc_Password = mm_Password e, mc_From = mm_From e, mc_Timeout = mm_Timeout e,
      mc_ImplicitTLS = PortUsesImplicitTLS (mm_SMTPPort e), mc_TLSConfig = None\<rparr>"

definition email_senders :: "('w, 't, 'h) module_deps \<Rightarrow> 'w module_config \<Rightarrow> goerr + 'w channel_sender list" where
  "email_senders deps cfg =
     (if \<not> mm_Enabled (mo_Email cfg) then Inr []
      else case NewSMTP (dp_smtp deps) (mo_EmailAddressResolver cfg) (Some (dp_Now deps)) (email_smtp_config (mo_Email cfg)) of
          Inl err \<Rightarrow> Inl (Errorf ''notification: build smtp sender: %w'' [] [err])
        | Inr s \<Rightarrow> Inr [SMTP_sender (dp_smtp deps) s])"

definition log_senders :: "('w, 't, 'h) module_deps \<Rightarrow> 'w module_config \<Rightarrow> goerr + 'w channel_sender list" where
  "log_senders deps cfg =
     (if \<not> ml_Enabled (mo_LogSender cfg) then Inr []
      else case NewLog (dp_info deps) (dp_debug deps) (ml_Channel (mo_LogSender cfg)) of
          Inl err \<Rightarrow> Inl (Errorf ''notification: build log sender: %w'' [] [err])
        | Inr s \<Rightarrow> Inr [s])"

definition buildSenders :: "('w, 't, 'h) module_deps \<Rightarrow> 'w module_config \<Rightarrow> goerr + 'w channel_sender list" where
  "buildSenders deps cfg =
     (case email_senders deps cfg of
        Inl err \<Rightarrow> Inl err
      | Inr mail \<Rightarrow>
          (case log_senders deps cfg of Inl err \<Rightarrow> Inl err | Inr logged \<Rightarrow> Inr ([InApp] @ mail @ logged)))"

definition dispatch_settings :: "module_dispatcher \<Rightarrow> dispatch_config" where
  "dispatch_settings d =
     \<lparr>dc_BatchSize = md_BatchSize d, dc_MaxAttempts = md_MaxAttempts d,
      dc_BackoffBase = md_BackoffBase d, dc_BackoffCap = md_BackoffCap d\<rparr>"

definition worker_settings :: "module_dispatcher \<Rightarrow> dispatcher_config" where
  "worker_settings d =
     \<lparr>cf_PollInterval = md_PollInterval d, cf_Workers = md_Workers d, cf_BatchSize = md_BatchSize d,
      cf_StalledAfter = md_StalledAfter d, cf_MaxAttempts = md_MaxAttempts d,
      cf_BackoffBase = md_BackoffBase d, cf_BackoffCap = md_BackoffCap d,
      cf_DrainTimeout = md_DrainTimeout d\<rparr>"

text \<open>The steps \<open>New\<close> and \<open>NewEnqueuer\<close> share: the service over the repositories.\<close>

definition module_service :: "('w, 't, 'h) module_deps \<Rightarrow> 'w module_config \<Rightarrow> goerr + 'w service" where
  "module_service deps cfg =
     (case dp_DB deps of
        None \<Rightarrow> Inl (New ''notification: a database is required when the module is enabled'')
      | Some (notifications, preferences) \<Rightarrow>
     (case template_New (dp_engine deps) (dp_templates deps) of
        Inl err \<Rightarrow> Inl (Errorf ''notification: load templates: %w'' [] [err])
      | Inr fams \<Rightarrow>
     (case buildSenders deps cfg of
        Inl err \<Rightarrow> Inl err
      | Inr senders \<Rightarrow>
     (case NewService (Some notifications) (Some preferences) (Some (Render (dp_engine deps) fams))
             (map Some senders) (Some (dp_Now deps)) (Some (dp_Float64 deps)) None
             (dispatch_settings (mo_Dispatcher cfg)) of
        Inl err \<Rightarrow> Inl (Errorf ''notification: build service: %w'' [] [err])
      | Inr svc \<Rightarrow> Inr svc))))"

definition module_dispatcher_New ::
  "('w, 't, 'h) module_deps \<Rightarrow> 'w module_config \<Rightarrow> 'w service \<Rightarrow> goerr + 'w dispatcher" where
  "module_dispatcher_New deps cfg svc =
     Dispatcher_New (Some (DispatchBatch svc (dp_err_text deps))) (Some (sv_notifications svc))
       (Some (dp_Now deps)) (Some (dp_Float64 deps)) (worker_settings (mo_Dispatcher cfg))"

text \<open>What a module gives the host: its name, its routes, how to close it.\<close>

record 'w app_module =
  am_Name :: string
  am_Routes :: "'w route list"
  am_Close :: "('w, goerr option) prog option"

definition module_Name :: string where
  "module_Name = ''notification''"

definition disabled_module :: "'w app_module" where
  "disabled_module = \<lparr>am_Name = module_Name, am_Routes = [], am_Close = Some (retp None)\<rparr>"

definition NewNotificationModule ::
  "('w, 't, 'h) module_deps \<Rightarrow> 'w module_config \<Rightarrow> ('w, goerr + 'w app_module) prog" where
  "NewNotificationModule deps cfg =
     (case module_Validate cfg of
        Some err \<Rightarrow> retp (Inl (Errorf ''notification: invalid config: %w'' [] [err]))
      | None \<Rightarrow>
          if \<not> mo_Enabled cfg then retp (Inr disabled_module)
          else case module_service deps cfg of
              Inl err \<Rightarrow> retp (Inl err)
            | Inr svc \<Rightarrow>
                (case module_dispatcher_New deps cfg svc of
                   Inl err \<Rightarrow> retp (Inl (Errorf ''notification: build dispatcher: %w'' [] [err]))
                 | Inr disp \<Rightarrow>
                     bindp (dp_Start deps disp) (\<lambda>_.
                     retp (Inr \<lparr>am_Name = module_Name,
                       am_Routes = NotificationRoutes \<lparr>nh_svc = notification_api svc,
                         nh_authMW = the (mo_Auth cfg), nh_codec = dp_codec deps\<rparr>,
                       am_Close = Some (dp_Stop deps disp)\<rparr>))))"

definition NewEnqueuer ::
  "('w, 't, 'h) module_deps \<Rightarrow> ('w, uuid) prog \<Rightarrow> 'w module_config \<Rightarrow>
   goerr + (enqueue_request \<Rightarrow> ('w, goerr option) prog)" where
  \<comment> \<open>a disabled module takes every request and does nothing\<close>
  "NewEnqueuer deps uuid_New cfg =
     (case module_Validate cfg of
        Some err \<Rightarrow> Inl (Errorf ''notification: invalid config: %w'' [] [err])
      | None \<Rightarrow>
          if \<not> mo_Enabled cfg then Inr (\<lambda>_. retp None)
          else case module_service deps cfg of
              Inl err \<Rightarrow> Inl err
            | Inr svc \<Rightarrow> Inr (Enqueue svc uuid_New))"

section \<open>A valid configuration builds\<close>

lemma module_Validate_None:
  "module_Validate c = None \<longleftrightarrow> \<not> mo_Enabled c \<or>
     (mo_Auth c \<noteq> None \<and> dispatcher_complaints (mo_Dispatcher c) = [] \<and>
      email_complaints (mo_EmailAddressResolver c \<noteq> None) (mo_Email c) = [] \<and>
      log_sender_complaints (mm_Enabled (mo_Email c)) (mo_LogSender c) = [])"
  by (auto simp: module_Validate_def)

lemma dispatcher_complaints_Nil:
  "dispatcher_complaints d = [] \<longleftrightarrow>
     0 < sint (md_PollInterval d) \<and> 0 < md_BatchSize d \<and> 0 < md_Workers d \<and> 0 < md_MaxAttempts d \<and>
     0 < sint (md_BackoffBase d) \<and> sint (md_BackoffBase d) \<le> sint (md_BackoffCap d) \<and>
     sint (md_PollInterval d) \<le> sint (md_StalledAfter d) \<and> 0 < sint (md_DrainTimeout d)"
  by (simp add: dispatcher_complaints_def) linarith

lemma email_senders_ok:
  assumes "email_complaints (mo_EmailAddressResolver cfg \<noteq> None) (mo_Email cfg) = []"
    and "mm_Enabled (mo_Email cfg) \<longrightarrow> (\<exists>a. se_ParseAddress (dp_smtp deps) (mm_From (mo_Email cfg)) = Inr a)"
  shows "\<exists>ss. email_senders deps cfg = Inr ss \<and>
    map cs_Channel ss = (if mm_Enabled (mo_Email cfg) then [ChannelEmail] else [])"
proof (cases "mm_Enabled (mo_Email cfg)")
  case True
  with assms(1) have "smtp_errors (mo_EmailAddressResolver cfg \<noteq> None) (email_smtp_config (mo_Email cfg)) = []"
    by (auto simp: email_complaints_def smtp_errors_def email_smtp_config_def complain_def split: if_splits)
  with True assms(2) show ?thesis
    by (auto simp: email_senders_def NewSMTP_def SMTP_sender_def email_smtp_config_def Let_def)
qed (simp add: email_senders_def)

lemma log_senders_ok:
  assumes "log_sender_complaints e (mo_LogSender cfg) = []"
  shows "\<exists>ss. log_senders deps cfg = Inr ss \<and>
    map cs_Channel ss = (if ml_Enabled (mo_LogSender cfg) then [ml_Channel (mo_LogSender cfg)] else []) \<and>
    (ml_Enabled (mo_LogSender cfg) \<longrightarrow> Channel_Valid (ml_Channel (mo_LogSender cfg)) \<and>
       ml_Channel (mo_LogSender cfg) \<noteq> ChannelInApp \<and> \<not> (ml_Channel (mo_LogSender cfg) = ChannelEmail \<and> e))"
  using assms by (auto simp: log_senders_def NewLog_def log_sender_complaints_def split: if_splits)

definition routed_channels :: "'w module_config \<Rightarrow> channel set" where
  \<comment> \<open>the channels a configuration asks for\<close>
  "routed_channels cfg =
     {ChannelInApp} \<union> (if mm_Enabled (mo_Email cfg) then {ChannelEmail} else {}) \<union>
     (if ml_Enabled (mo_LogSender cfg) then {ml_Channel (mo_LogSender cfg)} else {})"

lemma register_senders_total:
  assumes "distinct (map cs_Channel ss)" "\<forall>s \<in> set ss. Channel_Valid (cs_Channel s) \<and> registry (cs_Channel s) = None"
  shows "\<exists>reg. register_senders i (map Some ss) registry = Inr reg \<and> dom reg = dom registry \<union> cs_Channel ` set ss"
  using assms
proof (induction ss arbitrary: i registry)
  case Nil
  then show ?case by simp
next
  case (Cons s ss)
  have "\<exists>reg. register_senders (i + 1) (map Some ss) (registry(cs_Channel s \<mapsto> s)) = Inr reg \<and>
      dom reg = dom (registry(cs_Channel s \<mapsto> s)) \<union> cs_Channel ` set ss"
  proof (rule Cons.IH)
    show "distinct (map cs_Channel ss)" using Cons.prems(1) by simp
    have "cs_Channel x \<noteq> cs_Channel s" if "x \<in> set ss" for x using Cons.prems(1) imageI [OF that, of cs_Channel] by auto
    with Cons.prems(2) show "\<forall>x \<in> set ss. Channel_Valid (cs_Channel x) \<and>
        (registry(cs_Channel s \<mapsto> s)) (cs_Channel x) = None" by simp
  qed
  with Cons.prems show ?case by (auto simp: Let_def)
qed

lemma buildSenders_ok:
  assumes valid: "module_Validate cfg = None" "mo_Enabled cfg"
    and from_ok: "mm_Enabled (mo_Email cfg) \<longrightarrow> (\<exists>a. se_ParseAddress (dp_smtp deps) (mm_From (mo_Email cfg)) = Inr a)"
  shows "\<exists>ss reg. buildSenders deps cfg = Inr ss \<and> register_senders 0 (map Some ss) Map.empty = Inr reg \<and>
    dom reg = routed_channels cfg"
proof -
  from valid have ok: "email_complaints (mo_EmailAddressResolver cfg \<noteq> None) (mo_Email cfg) = []"
    "log_sender_complaints (mm_Enabled (mo_Email cfg)) (mo_LogSender cfg) = []"
    by (auto simp: module_Validate_None)
  from email_senders_ok [OF ok(1) from_ok] obtain mail where mail: "email_senders deps cfg = Inr mail"
    "map cs_Channel mail = (if mm_Enabled (mo_Email cfg) then [ChannelEmail] else [])" by blast
  from log_senders_ok [OF ok(2), of deps] obtain logged where logged: "log_senders deps cfg = Inr logged"
    "map cs_Channel logged = (if ml_Enabled (mo_LogSender cfg) then [ml_Channel (mo_LogSender cfg)] else [])"
    and ch: "ml_Enabled (mo_LogSender cfg) \<longrightarrow> Channel_Valid (ml_Channel (mo_LogSender cfg)) \<and>
       ml_Channel (mo_LogSender cfg) \<noteq> ChannelInApp \<and>
       \<not> (ml_Channel (mo_LogSender cfg) = ChannelEmail \<and> mm_Enabled (mo_Email cfg))" by blast
  let ?ss = "[InApp] @ mail @ logged"
  have built: "buildSenders deps cfg = Inr ?ss" using mail logged by (simp add: buildSenders_def)
  have names: "map cs_Channel ?ss = ChannelInApp # (if mm_Enabled (mo_Email cfg) then [ChannelEmail] else []) @
      (if ml_Enabled (mo_LogSender cfg) then [ml_Channel (mo_LogSender cfg)] else [])"
    using mail(2) logged(2) by (simp add: InApp_def)
  then have "distinct (map cs_Channel ?ss)" using ch by (auto simp: channel_defs)
  moreover have "\<forall>c \<in> set (map cs_Channel ?ss). Channel_Valid c"
    unfolding names using ch by (auto simp: Channel_Valid_def)
  hence "\<forall>s \<in> set ?ss. Channel_Valid (cs_Channel s) \<and> Map.empty (cs_Channel s) = None"
    unfolding set_map by simp
  ultimately obtain reg where "register_senders 0 (map Some ?ss) Map.empty = Inr reg"
    "dom reg = cs_Channel ` set ?ss"
    using register_senders_total [of ?ss Map.empty 0] by (simp only: dom_empty Un_empty_left) blast
  moreover have "cs_Channel ` set ?ss = routed_channels cfg"
    using arg_cong [OF names, of set] unfolding set_map by (auto simp: routed_channels_def)
  ultimately show ?thesis using built by auto
qed


lemma module_service_ok:
  assumes valid: "module_Validate cfg = None" "mo_Enabled cfg"
    and db: "dp_DB deps = Some (repo, prefs)" and tpl: "template_New (dp_engine deps) (dp_templates deps) = Inr fams"
    and from_ok: "mm_Enabled (mo_Email cfg) \<longrightarrow> (\<exists>a. se_ParseAddress (dp_smtp deps) (mm_From (mo_Email cfg)) = Inr a)"
  shows "\<exists>svc. module_service deps cfg = Inr svc \<and> sv_notifications svc = repo \<and> sv_preferences svc = prefs \<and>
    sv_clock svc = dp_Now deps \<and> sv_cfg svc = dispatch_settings (mo_Dispatcher cfg) \<and>
    sv_renderer svc = Render (dp_engine deps) fams \<and> dom (sv_senders svc) = routed_channels cfg"
proof -
  from buildSenders_ok [OF valid from_ok] obtain ss reg where "buildSenders deps cfg = Inr ss"
    "register_senders 0 (map Some ss) Map.empty = Inr reg" "dom reg = routed_channels cfg" by blast
  with db tpl show ?thesis by (simp add: module_service_def NewService_def)
qed

text \<open>
  What validation leaves open: it looks for an at sign in \<open>email.from\<close>, the sender parses it.
\<close>

lemma module_service_unparsable:
  assumes valid: "module_Validate cfg = None" "mo_Enabled cfg"
    and db: "dp_DB deps = Some (repo, prefs)" and tpl: "template_New (dp_engine deps) (dp_templates deps) = Inr fams"
    and on: "mm_Enabled (mo_Email cfg)" and bad: "se_ParseAddress (dp_smtp deps) (mm_From (mo_Email cfg)) = Inl err"
  shows "module_service deps cfg = Inl (Errorf ''notification: build smtp sender: %w'' []
    [Join [Errorf ''smtp sender: from address %q: %w'' [OStr (mm_From (mo_Email cfg))] [err]]])"
proof -
  have "email_complaints (mo_EmailAddressResolver cfg \<noteq> None) (mo_Email cfg) = []"
    using valid by (simp add: module_Validate_None)
  with on have "smtp_errors (mo_EmailAddressResolver cfg \<noteq> None) (email_smtp_config (mo_Email cfg)) = []"
    by (auto simp: email_complaints_def smtp_errors_def email_smtp_config_def complain_def split: if_splits)
  with on bad db tpl show ?thesis
    by (simp add: module_service_def buildSenders_def email_senders_def NewSMTP_def email_smtp_config_def)
qed

lemma module_dispatcher_ok:
  assumes "dispatcher_complaints (mo_Dispatcher cfg) = []"
  shows "\<exists>disp. module_dispatcher_New deps cfg svc = Inr disp \<and> di_cfg disp = worker_settings (mo_Dispatcher cfg) \<and>
    di_Batcher disp = DispatchBatch svc (dp_err_text deps) \<and> di_Notifications disp = sv_notifications svc"
proof -
  from assms have "New_errors True True True (worker_settings (mo_Dispatcher cfg)) = []"
    by (simp add: dispatcher_complaints_Nil New_errors_def worker_settings_def)
  then show ?thesis by (simp add: module_dispatcher_New_def Dispatcher_New_def)
qed

end
