(* ===== verification/Router.thy ===== *)
theory Router
  imports Config
begin

text \<open>
  How \<open>internal/httpx/router.go\<close> assembles the middleware chain, with the two middlewares that
  observe a request: \<open>RequestLogger\<close> of \<open>internal/middleware/zerolog.go\<close> and the one of
  \<open>internal/metrics/metrics.go\<close>. The world of a request is the limiter, the counters and the log.
  Chi's \<open>RequestID\<close> and \<open>Timeout\<close> are parameters; chi's mux is the handler the chain is
  applied to, which leaves the pattern of the matched route in the world.
\<close>

section \<open>The world of a request\<close>

datatype status_level = LogInfo | LogWarn | LogError

record request_line =
  rl_Level :: status_level
  rl_Logger :: "string \<times> string"
  rl_Method :: string
  rl_Path :: string
  rl_Status :: int
  rl_Bytes :: int
  rl_Duration :: duration

text \<open>
  The series of \<open>metrics.Metrics\<close>: the request counter by method, route and status, the
  observed latencies by method and route, the gauge. \<open>ew_Pattern\<close> is the route pattern of
  chi's context, \<open>None\<close> without one.
\<close>

record metric_set =
  mt_requests :: "string \<times> string \<times> string \<Rightarrow> nat"
  mt_duration :: "string \<times> string \<Rightarrow> rat list"
  mt_inFlight :: int

record 'e edge_world =
  ew_limiter :: limiter
  ew_metrics :: metric_set
  ew_lines :: "request_line list"
  ew_panics :: "panic_line list"
  ew_Pattern :: "string option"
  ew_env :: 'e

section \<open>Observing a response\<close>

text \<open>
  Chi's \<open>WrapResponseWriter\<close> passes every call on and records the first status and the number
  of bytes written through it. \<open>observed\<close> runs a handler behind a fresh one.
\<close>

definition outer_sent :: "'w web \<Rightarrow> 'w web \<Rightarrow> 'w web" where
  "outer_sent w w' =
     (case rw_Sent (wb_Writer w) of
        None \<Rightarrow> w'
      | Some s \<Rightarrow> w'\<lparr>wb_Writer := (wb_Writer w')\<lparr>rw_Sent := Some s\<rparr>\<rparr>)"

definition observed :: "(body \<Rightarrow> int) \<Rightarrow> ('w web, unit) prog \<Rightarrow> ('w web, int \<times> int) prog" where
  "observed len p w =
     (case p (w\<lparr>wb_Writer := (wb_Writer w)\<lparr>rw_Sent := None\<rparr>\<rparr>) of
        (Panics m, w') \<Rightarrow> (Panics m, outer_sent w w')
      | (Ret _, w') \<Rightarrow>
          (Ret (case rw_Sent (wb_Writer w') of None \<Rightarrow> 0 | Some (code, _) \<Rightarrow> code,
                sum_list (map len (drop (length (rw_Body (wb_Writer w))) (rw_Body (wb_Writer w'))))),
           outer_sent w w'))"

definition edge_update :: "('e edge_world \<Rightarrow> 'e edge_world) \<Rightarrow> ('e edge_world web, unit) prog" where
  "edge_update f = in_world (\<lambda>w. (Ret (), f w))"

definition served_status :: "int \<Rightarrow> int" where
  "served_status status = (if status = 0 then 200 else status)"

definition RequestLogger ::
  "('e edge_world, time) prog \<Rightarrow> (body \<Rightarrow> int) \<Rightarrow> 'e edge_world middleware" where
  "RequestLogger Now len nxt r =
     bindp (in_world Now) (\<lambda>start.
     let reqLog = (rq_RequestID r, ClientIP r) in
     bindp (observed len (nxt (r\<lparr>rq_Logger := Some reqLog\<rparr>))) (\<lambda>(code, bytes).
     let status = served_status code;
         level = (if 500 \<le> status then LogError else if 400 \<le> status then LogWarn else LogInfo) in
     bindp (in_world Now) (\<lambda>done.
     edge_update (\<lambda>w. w\<lparr>ew_lines := ew_lines w @
       [\<lparr>rl_Level = level, rl_Logger = reqLog, rl_Method = rq_Method r, rl_Path = rq_Path r,
         rl_Status = status, rl_Bytes = bytes, rl_Duration = time_Sub done start\<rparr>]\<rparr>))))"

definition unmatchedRoute :: string where
  "unmatchedRoute = ''unmatched''"

definition routePattern :: "'e edge_world \<Rightarrow> string" where
  "routePattern w =
     (case ew_Pattern w of
        None \<Rightarrow> unmatchedRoute
      | Some pattern \<Rightarrow> if pattern \<noteq> [] then pattern else unmatchedRoute)"

definition count_request :: "string \<Rightarrow> int \<Rightarrow> rat \<Rightarrow> 'e edge_world \<Rightarrow> 'e edge_world" where
  "count_request method status elapsed w =
     (let route = routePattern w; m = ew_metrics w;
          labels = (method, route, Itoa status) in
      w\<lparr>ew_metrics := m\<lparr>mt_requests := (mt_requests m)(labels := mt_requests m labels + 1),
                        mt_duration := (mt_duration m)((method, route) := mt_duration m (method, route) @ [elapsed])\<rparr>\<rparr>)"

definition add_inFlight :: "int \<Rightarrow> 'e edge_world \<Rightarrow> 'e edge_world" where
  "add_inFlight n w = w\<lparr>ew_metrics := (ew_metrics w)\<lparr>mt_inFlight := mt_inFlight (ew_metrics w) + n\<rparr>\<rparr>"

definition metrics_middleware ::
  "('e edge_world, time) prog \<Rightarrow> (body \<Rightarrow> int) \<Rightarrow> 'e edge_world middleware" where
  \<comment> \<open>the deferred decrement runs after a return and after a panic\<close>
  "metrics_middleware Now len nxt r =
     bindp (edge_update (add_inFlight 1)) (\<lambda>_.
     bindp
       (recoverp
         (bindp (in_world Now) (\<lambda>start.
          bindp (observed len (nxt r)) (\<lambda>(code, bytes).
          bindp (in_world Now) (\<lambda>done.
          edge_update (count_request (rq_Method r) (served_status code) (Seconds (time_Sub done start)))))))
         (\<lambda>rec. bindp (edge_update (add_inFlight (-1))) (\<lambda>_. panicp rec)))
       (\<lambda>_. edge_update (add_inFlight (-1))))"

section \<open>The chain\<close>

record 'e edge_pkg =
  ep_RequestID :: "'e edge_world middleware"
  ep_Timeout :: "duration \<Rightarrow> 'e edge_world middleware"
  ep_Now :: "('e edge_world, time) prog"
  ep_size :: "body \<Rightarrow> int"
  ep_unicode :: "string \<Rightarrow> string"
  ep_net :: net_pkg

definition decide_allow :: "string \<Rightarrow> time \<Rightarrow> ('e edge_world, verdict) prog" where
  "decide_allow key now w =
     (case allow key now (ew_limiter w) of (v, l) \<Rightarrow> (Ret v, w\<lparr>ew_limiter := l\<rparr>))"

definition log_panic :: "panic_line \<Rightarrow> ('e edge_world, unit) prog" where
  "log_panic line w = (Ret (), w\<lparr>ew_panics := ew_panics w @ [line]\<rparr>)"

definition core_stack :: "'e edge_pkg \<Rightarrow> server_config \<Rightarrow> 'e edge_world middleware list" where
  "core_stack E srv =
     [ep_RequestID E, EchoRequestID, Recovery log_panic, SecurityHeaders (sv_EnableHSTS srv),
      RealIP (ep_net E) (ParseTrustedProxies (ep_net E) (sv_TrustedProxies srv)),
      ep_Timeout E (sv_RequestTimeout srv), RequestLogger (ep_Now E) (ep_size E)]"

definition limiter_middleware :: "'e edge_pkg \<Rightarrow> rate_limit_config \<Rightarrow> 'e edge_world middleware" where
  "limiter_middleware E cfg =
     limit_request (ep_net E) (trunc_int64 (rc_Burst cfg)) (ep_Now E) decide_allow"

text \<open>
  The router: the middlewares in the order of \<open>Use\<close>, outermost first, and the limiter built,
  whose \<open>Close\<close> is the one closer.
\<close>

definition NewRouter ::
  "'e edge_pkg \<Rightarrow> server_config \<Rightarrow> security_config \<Rightarrow> bool \<Rightarrow> 'e edge_world middleware list \<Rightarrow>
   goerr + ('e edge_world middleware list \<times> limiter option)" where
  "NewRouter E srv sec metrics mw =
     (let chain = core_stack E srv @
            (if metrics then [metrics_middleware (ep_Now E) (ep_size E)] else []) @
            (if cc_Enabled (se_CORS sec) then [CORS (ep_unicode E) (se_CORS sec)] else []) in
      if rc_Enabled (se_RateLimit sec) then
        (case NewRateLimiter (se_RateLimit sec) of
           Inl err \<Rightarrow> Inl (Errorf ''build rate limiter: %w'' [] [err])
         | Inr l \<Rightarrow> Inr (chain @ [limiter_middleware E (se_RateLimit sec)] @ mw, Some l))
      else Inr (chain @ mw, None))"

definition through :: "'w middleware list \<Rightarrow> 'w handler \<Rightarrow> 'w handler" where
  "through mws h = foldr (\<lambda>m h. m h) mws h"

section \<open>Requests that panic\<close>

lemma through_append [simp]: "through (xs @ ys) h = through xs (through ys h)"
  by (simp add: through_def)

lemma through_Nil [simp]: "through [] h = h" and through_Cons [simp]: "through (m # ms) h = m (through ms h)"
  by (simp_all add: through_def)

lemma through_if [simp]: "through (if b then [m] else []) h = (if b then m h else h)"
  by simp

text \<open>The laws of the parameters: a clock only reads, and chi's two middlewares as documented.\<close>

definition clock_ok :: "('e edge_world, time) prog \<Rightarrow> bool" where
  "clock_ok Now \<longleftrightarrow> (\<forall>w. \<exists>t e. Now w = (Ret t, w\<lparr>ew_env := e\<rparr>))"

definition request_id_ok :: "'e edge_world middleware \<Rightarrow> bool" where
  "request_id_ok M \<longleftrightarrow>
     (\<forall>nxt r w. \<exists>reqID e. M nxt r w = nxt (r\<lparr>rq_RequestID := reqID\<rparr>) (w\<lparr>wb_World := (wb_World w)\<lparr>ew_env := e\<rparr>\<rparr>))"

text \<open>When the deadline has passed, \<open>Timeout\<close> writes a 504 as the handler ends.\<close>

definition timeout_ok :: "'e edge_world middleware \<Rightarrow> bool" where
  "timeout_ok M \<longleftrightarrow>
     (\<forall>nxt r w. M nxt r w = nxt r w \<or>
        M nxt r w = (case nxt r w of (x, w') \<Rightarrow> (x, snd (WriteHeader 504 w'))))"

definition edge_ok :: "'e edge_pkg \<Rightarrow> bool" where
  "edge_ok E \<longleftrightarrow>
     clock_ok (ep_Now E) \<and> request_id_ok (ep_RequestID E) \<and> (\<forall>d. timeout_ok (ep_Timeout E d))"

definition security_keys :: "string list" where
  "security_keys =
     [''X-Content-Type-Options'', ''X-Frame-Options'', ''Referrer-Policy'', ''Content-Security-Policy'',
      ''Strict-Transport-Security'']"

text \<open>Nothing answered, observed or logged between two moments, the security headers untouched.\<close>

definition unanswered :: "'e edge_world web \<Rightarrow> 'e edge_world web \<Rightarrow> bool" where
  "unanswered w w' \<longleftrightarrow>
     rw_Sent (wb_Writer w') = rw_Sent (wb_Writer w) \<and> rw_Body (wb_Writer w') = rw_Body (wb_Writer w) \<and>
     rw_Calls (wb_Writer w') = rw_Calls (wb_Writer w) \<and>
     ew_metrics (wb_World w') = ew_metrics (wb_World w) \<and> ew_lines (wb_World w') = ew_lines (wb_World w) \<and>
     ew_panics (wb_World w') = ew_panics (wb_World w) \<and>
     (\<forall>k \<in> set security_keys. hfields w' k = hfields w k)"

lemma unanswered_refl [simp]: "unanswered w w"
  by (simp add: unanswered_def)

lemma unanswered_trans: "unanswered w w' \<Longrightarrow> unanswered w' w'' \<Longrightarrow> unanswered w w''"
  by (simp add: unanswered_def)

lemma unanswered_env [simp]: "unanswered w (w\<lparr>wb_World := (wb_World w)\<lparr>ew_env := e\<rparr>\<rparr>)"
  by (simp add: unanswered_def hfields_def)

lemma unanswered_limiter [simp]: "unanswered w (w\<lparr>wb_World := (wb_World w)\<lparr>ew_limiter := l, ew_env := e\<rparr>\<rparr>)"
  by (simp add: unanswered_def hfields_def)

lemma unanswered_fields:
  "(\<forall>k \<in> set security_keys. h k = hfields w k) \<Longrightarrow> unanswered w (set_fields h w)"
  by (simp add: unanswered_def) (simp add: set_fields_def)

lemma clock_run:
  assumes "clock_ok Now"
  obtains t e where "in_world Now w = (Ret t, w\<lparr>wb_World := (wb_World w)\<lparr>ew_env := e\<rparr>\<rparr>)"
proof -
  from assms obtain t e where "Now (wb_World w) = (Ret t, (wb_World w)\<lparr>ew_env := e\<rparr>)"
    unfolding clock_ok_def by blast
  then show thesis by (intro that [of t e]) (simp add: in_world_def)
qed

definition panicky ::
  "string \<Rightarrow> (http_request \<Rightarrow> limiter \<Rightarrow> bool) \<Rightarrow> 'e edge_world handler \<Rightarrow> bool" where
  "panicky m K h \<longleftrightarrow>
     (\<forall>r w. K r (ew_limiter (wb_World w)) \<longrightarrow> (\<exists>w'. h r w = (Panics m, w') \<and> unanswered w w'))"

definition admitted :: "'e edge_pkg \<Rightarrow> http_request \<Rightarrow> limiter \<Rightarrow> bool" where
  "admitted E r l \<longleftrightarrow>
     (\<forall>x t y. ep_Now E x = (Ret t, y) \<longrightarrow> (\<exists>n d l'. allow (clientKey (ep_net E) r) t l = (Verdict True n d, l')))"

lemma panickyD:
  "panicky m K h \<Longrightarrow> K r (ew_limiter (wb_World w)) \<Longrightarrow> \<exists>w'. h r w = (Panics m, w') \<and> unanswered w w'"
  unfolding panicky_def by blast

lemma hfields_world [simp]: "hfields (w\<lparr>wb_World := x\<rparr>) = hfields w"
  by (simp add: hfields_def)

lemma set_fields_world [simp]: "wb_World (set_fields h w) = wb_World w"
  by (simp add: set_fields_def)

lemma limiter_panicky:
  assumes "panicky m (\<lambda>_ _. True) h" and "clock_ok (ep_Now E)"
  shows "panicky m (\<lambda>r l. admitted E r l) (limiter_middleware E cfg h)"
  unfolding panicky_def
proof (intro allI impI)
  fix r and w :: "'a edge_world web"
  assume ok: "admitted E r (ew_limiter (wb_World w))"
  obtain t e where now: "ep_Now E (wb_World w) = (Ret t, (wb_World w)\<lparr>ew_env := e\<rparr>)"
    using assms(2) unfolding clock_ok_def by blast
  from ok obtain n d l where allow: "allow (clientKey (ep_net E) r) t (ew_limiter (wb_World w)) = (Verdict True n d, l)"
    using now unfolding admitted_def by blast
  let ?w = "w\<lparr>wb_World := (wb_World w)\<lparr>ew_limiter := l, ew_env := e\<rparr>\<rparr>"
  let ?f = "(hfields w)(''RateLimit-Limit'' := [Itoa (trunc_int64 (rc_Burst cfg))], ''RateLimit-Remaining'' := [Itoa n])"
  have "in_world (bindp (ep_Now E) (decide_allow (clientKey (ep_net E) r))) w = (Ret (Verdict True n d), ?w)"
    using now allow by (simp add: in_world_def bindp_def decide_allow_def)
  then have "limiter_middleware E cfg h r w = h r (set_fields ?f ?w)"
    by (simp add: limiter_middleware_def limit_request_def bindp_def [of "in_world _"] header_Set_bind)
  moreover obtain w' where "h r (set_fields ?f ?w) = (Panics m, w')" "unanswered (set_fields ?f ?w) w'"
    using panickyD [OF assms(1)] by blast
  moreover have "unanswered ?w (set_fields ?f ?w)"
    by (rule unanswered_fields) (simp add: security_keys_def)
  ultimately have "unanswered w w'" by (blast intro: unanswered_trans unanswered_limiter)
  with \<open>limiter_middleware E cfg h r w = h r (set_fields ?f ?w)\<close> \<open>h r (set_fields ?f ?w) = (Panics m, w')\<close>
  show "\<exists>w'. limiter_middleware E cfg h r w = (Panics m, w') \<and> unanswered w w'" by (intro exI conjI) simp_all
qed

lemma cors_grants_security:
  "k \<in> set security_keys \<Longrightarrow> cors_grants unicode cfg origin h k = h k"
  by (auto simp: cors_grants_def security_keys_def Let_def)

lemma CORS_panicky:
  assumes "panicky m K h" and "\<And>r l. K r l \<Longrightarrow> \<not> is_preflight r"
  shows "panicky m K (CORS unicode cfg h)"
  unfolding panicky_def
proof (intro allI impI)
  fix r and w :: "'a edge_world web"
  assume K: "K r (ew_limiter (wb_World w))"
  let ?w = "set_fields (cors_grants unicode cfg (get_first (rq_Header r) ''Origin'') (hfields w)) w"
  from assms(2) [OF K] have "CORS unicode cfg h r w = h r ?w" by (simp add: CORS_grants)
  moreover have "K r (ew_limiter (wb_World ?w))" using K by simp
  with assms(1) obtain w' where "h r ?w = (Panics m, w')" "unanswered ?w w'" by (blast dest: panickyD)
  moreover have "unanswered w ?w"
    by (rule unanswered_fields) (simp add: cors_grants_security)
  ultimately have "unanswered w w'" by (blast intro: unanswered_trans)
  with \<open>CORS unicode cfg h r w = h r ?w\<close> \<open>h r ?w = (Panics m, w')\<close>
  show "\<exists>w'. CORS unicode cfg h r w = (Panics m, w') \<and> unanswered w w'" by (intro exI conjI) simp_all
qed

lemma outer_sent_same [simp]:
  "wb_World (outer_sent w w') = wb_World w'" "rw_Body (wb_Writer (outer_sent w w')) = rw_Body (wb_Writer w')"
  "rw_Calls (wb_Writer (outer_sent w w')) = rw_Calls (wb_Writer w')" "hfields (outer_sent w w') = hfields w'"
  "rw_Sent (wb_Writer (outer_sent w w')) =
     (case rw_Sent (wb_Writer w) of None \<Rightarrow> rw_Sent (wb_Writer w') | Some s \<Rightarrow> Some s)"
  by (simp_all add: outer_sent_def hfields_def split: option.splits)

lemma hfields_sent [simp]: "hfields (w\<lparr>wb_Writer := (wb_Writer w)\<lparr>rw_Sent := s\<rparr>\<rparr>) = hfields w"
  by (simp add: hfields_def)

lemma observed_panics:
  assumes "p (w\<lparr>wb_Writer := (wb_Writer w)\<lparr>rw_Sent := None\<rparr>\<rparr>) = (Panics m, w')"
    and "unanswered (w\<lparr>wb_Writer := (wb_Writer w)\<lparr>rw_Sent := None\<rparr>\<rparr>) w'"
  shows "observed len p w = (Panics m, outer_sent w w') \<and> unanswered w (outer_sent w w')"
  using assms
  by (simp add: observed_def unanswered_def split: option.splits)

lemma RequestLogger_panicky:
  assumes "panicky m K h" and "clock_ok Now" and "\<And>r l x. K (r\<lparr>rq_Logger := x\<rparr>) l = K r l"
  shows "panicky m K (RequestLogger Now len h)"
  unfolding panicky_def
proof (intro allI impI)
  fix r and w :: "'a edge_world web"
  assume K: "K r (ew_limiter (wb_World w))"
  obtain t e where now: "in_world Now w = (Ret t, w\<lparr>wb_World := (wb_World w)\<lparr>ew_env := e\<rparr>\<rparr>)"
    using assms(2) by (rule clock_run)
  let ?w = "w\<lparr>wb_World := (wb_World w)\<lparr>ew_env := e\<rparr>\<rparr>"
  let ?r = "r\<lparr>rq_Logger := Some (rq_RequestID r, ClientIP r)\<rparr>"
  let ?v = "?w\<lparr>wb_Writer := (wb_Writer ?w)\<lparr>rw_Sent := None\<rparr>\<rparr>"
  have "K ?r (ew_limiter (wb_World ?v))" using K by (simp add: assms(3))
  with assms(1) obtain w' where "h ?r ?v = (Panics m, w')" "unanswered ?v w'" by (blast dest: panickyD)
  from observed_panics [of "h ?r" ?w m w' len, OF this] have run: "observed len (h ?r) ?w = (Panics m, outer_sent ?w w')"
    and "unanswered ?w (outer_sent ?w w')" by blast+
  then have "unanswered w (outer_sent ?w w')" by (blast intro: unanswered_trans unanswered_env)
  with run show "\<exists>w'. RequestLogger Now len h r w = (Panics m, w') \<and> unanswered w w'"
    unfolding RequestLogger_def by (simp add: Let_def bindp_def now)
qed

lemma edge_update_run [simp]: "edge_update f w = (Ret (), w\<lparr>wb_World := f (wb_World w)\<rparr>)"
  by (simp add: edge_update_def in_world_def)

lemma metrics_panicky:
  assumes "panicky m K h" and "clock_ok Now"
  shows "panicky m K (metrics_middleware Now len h)"
  unfolding panicky_def
proof (intro allI impI)
  fix r and w :: "'a edge_world web"
  assume K: "K r (ew_limiter (wb_World w))"
  let ?w1 = "w\<lparr>wb_World := add_inFlight 1 (wb_World w)\<rparr>"
  obtain t e where now: "in_world Now ?w1 = (Ret t, ?w1\<lparr>wb_World := (wb_World ?w1)\<lparr>ew_env := e\<rparr>\<rparr>)"
    using assms(2) by (rule clock_run)
  let ?w2 = "?w1\<lparr>wb_World := (wb_World ?w1)\<lparr>ew_env := e\<rparr>\<rparr>"
  let ?v = "?w2\<lparr>wb_Writer := (wb_Writer ?w2)\<lparr>rw_Sent := None\<rparr>\<rparr>"
  have "K r (ew_limiter (wb_World ?v))" using K by (simp add: add_inFlight_def)
  with assms(1) obtain w' where "h r ?v = (Panics m, w')" "unanswered ?v w'" by (blast dest: panickyD)
  from observed_panics [of "h r" ?w2 m w' len, OF this]
  have run: "observed len (h r) ?w2 = (Panics m, outer_sent ?w2 w')" and un: "unanswered ?w2 (outer_sent ?w2 w')"
    by blast+
  let ?w3 = "outer_sent ?w2 w'"
  let ?w4 = "?w3\<lparr>wb_World := add_inFlight (-1) (wb_World ?w3)\<rparr>"
  have "metrics_middleware Now len h r w = (Panics m, ?w4)"
    unfolding metrics_middleware_def
    by (simp only: bindp_def recoverp_def edge_update_run prod.case outcome.case now run panicp_apply)
  moreover have "unanswered w ?w4"
    using un by (simp add: unanswered_def add_inFlight_def hfields_def)
  ultimately show "\<exists>w'. metrics_middleware Now len h r w = (Panics m, w') \<and> unanswered w w'" by blast
qed

text \<open>A handler that panics before it has answered anything, without touching what is observed.\<close>

lemma panicky_weaken: "panicky m K h \<Longrightarrow> (\<And>r l. K' r l \<Longrightarrow> K r l) \<Longrightarrow> panicky m K' h"
  by (simp add: panicky_def)

lemma clientKey_sel [simp]:
  "clientKey N (r\<lparr>rq_Logger := x\<rparr>) = clientKey N r" "clientKey N (r\<lparr>rq_RequestID := i\<rparr>) = clientKey N r"
  by (simp_all add: clientKey_def ClientIP_def Let_def cong: option.case_cong)

lemma admitted_logger [simp]: "admitted E (r\<lparr>rq_Logger := x\<rparr>) l = admitted E r l"
  by (simp add: admitted_def)

lemma preflight_logger [simp]: "is_preflight (r\<lparr>rq_Logger := x\<rparr>) = is_preflight r"
  by (simp add: is_preflight_def)

text \<open>The part of the chain below \<open>Timeout\<close>, for a request that gets through to the handler.\<close>

definition reaches :: "'e edge_pkg \<Rightarrow> security_config \<Rightarrow> http_request \<Rightarrow> limiter \<Rightarrow> bool" where
  "reaches E sec r l \<longleftrightarrow>
     \<not> is_preflight r \<and> (rc_Enabled (se_RateLimit sec) \<longrightarrow> admitted E r l)"

lemma NewRouter_chain:
  assumes "NewRouter E srv sec metrics mw = Inr (chain, built)"
  shows "chain = core_stack E srv @
    ((if metrics then [metrics_middleware (ep_Now E) (ep_size E)] else []) @
     (if cc_Enabled (se_CORS sec) then [CORS (ep_unicode E) (se_CORS sec)] else []) @
     (if rc_Enabled (se_RateLimit sec) then [limiter_middleware E (se_RateLimit sec)] else []) @ mw)"
  using assms by (auto simp: NewRouter_def Let_def split: if_splits sum.splits)

lemma inner_panicky:
  assumes "edge_ok E" and "panicky m (\<lambda>_ _. True) h"
  shows "panicky m (reaches E sec)
    (RequestLogger (ep_Now E) (ep_size E)
      (through (if metrics then [metrics_middleware (ep_Now E) (ep_size E)] else [])
        (through (if cc_Enabled (se_CORS sec) then [CORS (ep_unicode E) (se_CORS sec)] else [])
          (through (if rc_Enabled (se_RateLimit sec) then [limiter_middleware E (se_RateLimit sec)] else []) h))))"
proof -
  have now: "clock_ok (ep_Now E)" using assms(1) by (simp add: edge_ok_def)
  let ?h1 = "through (if rc_Enabled (se_RateLimit sec) then [limiter_middleware E (se_RateLimit sec)] else []) h"
  let ?h2 = "through (if cc_Enabled (se_CORS sec) then [CORS (ep_unicode E) (se_CORS sec)] else []) ?h1"
  let ?h3 = "through (if metrics then [metrics_middleware (ep_Now E) (ep_size E)] else []) ?h2"
  have h1: "panicky m (reaches E sec) ?h1"
    using panicky_weaken [OF limiter_panicky [OF assms(2) now, of "se_RateLimit sec"], of "reaches E sec"]
      panicky_weaken [OF assms(2), of "reaches E sec"]
    by (simp add: reaches_def)
  have h2: "panicky m (reaches E sec) ?h2"
    using h1 CORS_panicky [OF h1] by (simp add: reaches_def)
  have h3: "panicky m (reaches E sec) ?h3"
    using h2 metrics_panicky [OF h2 now] by simp
  show ?thesis by (rule RequestLogger_panicky [OF h3 now]) (simp add: reaches_def)
qed

section \<open>The outer part of the chain\<close>

definition secured :: "bool \<Rightarrow> string \<Rightarrow> (string \<Rightarrow> string list) \<Rightarrow> string \<Rightarrow> string list" where
  "secured hsts path h =
     (let h = h(''X-Content-Type-Options'' := [''nosniff''], ''X-Frame-Options'' := [''DENY''],
               ''Referrer-Policy'' := [''no-referrer''],
               ''Content-Security-Policy'' := [if has_prefix path ''/swagger/'' then swaggerCSP else apiCSP]) in
      if hsts then h(''Strict-Transport-Security'' := [''max-age=31536000; includeSubDomains'']) else h)"

lemma SecurityHeaders_run:
  "SecurityHeaders hsts nxt r w = nxt r (set_fields (secured hsts (rq_Path r) (hfields w)) w)"
  by (cases hsts) (simp_all add: SecurityHeaders_def secured_def header_Set_bind Let_def)

lemma EchoRequestID_run:
  "EchoRequestID nxt r w =
     nxt r (set_fields (if rq_RequestID r = [] then hfields w else (hfields w)(''X-Request-Id'' := [rq_RequestID r])) w)"
  by (simp add: EchoRequestID_def header_Set_bind)

definition with_panic :: "panic_line \<Rightarrow> 'e edge_world web \<Rightarrow> 'e edge_world web" where
  "with_panic line w = w\<lparr>wb_World := (wb_World w)\<lparr>ew_panics := ew_panics (wb_World w) @ [line]\<rparr>\<rparr>"

definition line_of :: "http_request \<Rightarrow> string \<Rightarrow> panic_line" where
  "line_of r m = \<lparr>pn_Logger = rq_Logger r, pn_Panic = m, pn_Method = rq_Method r, pn_Path = rq_Path r\<rparr>"

lemma Recovery_run:
  assumes "nxt r w = (Panics m, w')" and "m \<noteq> ErrAbortHandler"
  shows "Recovery log_panic nxt r w =
    (if rw_Calls (wb_Writer w) < rw_Calls (wb_Writer w') then (Ret (), with_panic (line_of r m) w')
     else WriteProblem r 500 ''internal_error'' ''Internal Server Error'' ''An unexpected error occurred.''
            (with_panic (line_of r m) w'))"
  using assms
  by (simp add: Recovery_def bindp_def recoverp_def in_world_def log_panic_def with_panic_def line_of_def)

lemma Recovery_returns: "nxt r w = (Ret (), w') \<Longrightarrow> Recovery sink nxt r w = (Ret (), w')"
  by (simp add: Recovery_def bindp_def recoverp_def)

lemma resolve_requestID [simp]: "resolveClientIP N trusted (r\<lparr>rq_RequestID := i\<rparr>) = resolveClientIP N trusted r"
  by (simp add: resolveClientIP_def Let_def cong: option.case_cong)

lemma preflight_sel [simp]:
  "is_preflight (r\<lparr>rq_RequestID := i\<rparr>) = is_preflight r" "is_preflight (r\<lparr>rq_ClientIP := c\<rparr>) = is_preflight r"
  by (simp_all add: is_preflight_def)

lemma reaches_requestID [simp]: "reaches E sec (r\<lparr>rq_RequestID := i\<rparr>) l = reaches E sec r l"
  by (simp add: reaches_def admitted_def)

text \<open>The request as the middlewares below \<open>RealIP\<close> see it.\<close>

definition attributed :: "'e edge_pkg \<Rightarrow> server_config \<Rightarrow> http_request \<Rightarrow> http_request" where
  "attributed E srv r =
     r\<lparr>rq_ClientIP := Some (resolveClientIP (ep_net E) (ParseTrustedProxies (ep_net E) (sv_TrustedProxies srv)) r)\<rparr>"

lemma attributed_sel [simp]:
  "is_preflight (attributed E srv r) = is_preflight r" "rq_Header (attributed E srv r) = rq_Header r"
  "rq_Method (attributed E srv r) = rq_Method r" "rq_Path (attributed E srv r) = rq_Path r"
  by (simp_all add: attributed_def)

lemma ClientIP_requestID [simp]: "ClientIP (r\<lparr>rq_RequestID := i\<rparr>) = ClientIP r"
  by (simp add: ClientIP_def)

text \<open>
  How the core of the chain starts: the recovery middleware runs the rest under its deadline, on
  the attributed request, with the security headers set and nothing else changed.
\<close>

lemma core_start:
  assumes "edge_ok E"
  obtains reqID w1 w2 nxt where
    "through (core_stack E srv) h r w = Recovery log_panic nxt (r\<lparr>rq_RequestID := reqID\<rparr>) w1"
    "nxt (r\<lparr>rq_RequestID := reqID\<rparr>) w1 = ep_Timeout E (sv_RequestTimeout srv)
       (RequestLogger (ep_Now E) (ep_size E) h) ((attributed E srv r)\<lparr>rq_RequestID := reqID\<rparr>) w2"
    "rw_Calls (wb_Writer w1) = rw_Calls (wb_Writer w2)" "rw_Sent (wb_Writer w2) = rw_Sent (wb_Writer w)"
    "rw_Body (wb_Writer w2) = rw_Body (wb_Writer w)" "\<exists>e. wb_World w2 = (wb_World w)\<lparr>ew_env := e\<rparr>"
    "\<forall>k. k \<noteq> ''X-Request-Id'' \<longrightarrow> hfields w2 k = secured (sv_EnableHSTS srv) (rq_Path r) (hfields w) k"
proof -
  let ?timed = "ep_Timeout E (sv_RequestTimeout srv) (RequestLogger (ep_Now E) (ep_size E) h)"
  let ?nxt = "SecurityHeaders (sv_EnableHSTS srv)
      (RealIP (ep_net E) (ParseTrustedProxies (ep_net E) (sv_TrustedProxies srv)) ?timed)"
  from assms have "request_id_ok (ep_RequestID E)" by (simp add: edge_ok_def)
  then obtain reqID e where run: "ep_RequestID E (EchoRequestID (Recovery log_panic ?nxt)) r w =
      EchoRequestID (Recovery log_panic ?nxt) (r\<lparr>rq_RequestID := reqID\<rparr>) (w\<lparr>wb_World := (wb_World w)\<lparr>ew_env := e\<rparr>\<rparr>)"
    unfolding request_id_ok_def by blast
  let ?w = "w\<lparr>wb_World := (wb_World w)\<lparr>ew_env := e\<rparr>\<rparr>"
  let ?w1 = "set_fields (if reqID = [] then hfields ?w else (hfields ?w)(''X-Request-Id'' := [reqID])) ?w"
  let ?r = "r\<lparr>rq_RequestID := reqID\<rparr>"
  let ?w2 = "set_fields (secured (sv_EnableHSTS srv) (rq_Path r) (hfields ?w1)) ?w1"
  have "rq_ClientIP_update (\<lambda>_. Some (resolveClientIP (ep_net E)
      (ParseTrustedProxies (ep_net E) (sv_TrustedProxies srv)) ?r)) ?r = (attributed E srv r)\<lparr>rq_RequestID := reqID\<rparr>"
    by (simp add: attributed_def)
  then have step: "?nxt ?r ?w1 = ?timed ((attributed E srv r)\<lparr>rq_RequestID := reqID\<rparr>) ?w2"
    by (simp only: SecurityHeaders_run RealIP_def) simp
  have start: "through (core_stack E srv) h r w = Recovery log_panic ?nxt ?r ?w1"
    unfolding core_stack_def through_Cons through_Nil run by (simp add: EchoRequestID_run)
  show thesis
    by (rule that [OF start step]) (auto simp: set_fields_def secured_def hfields_def Let_def)
qed

section \<open>Requests the limiter refuses\<close>

definition refused :: "'e edge_pkg \<Rightarrow> http_request \<Rightarrow> limiter \<Rightarrow> bool" where
  "refused E r l \<longleftrightarrow>
     (\<forall>x t y. ep_Now E x = (Ret t, y) \<longrightarrow> (\<exists>d l'. allow (clientKey (ep_net E) r) t l = (Verdict False 0 d, l')))"

text \<open>The answer 429 is on its way, with the header fields \<open>f\<close> at the keys the limiter leaves alone.\<close>

definition throttles :: "(string \<Rightarrow> string list) \<Rightarrow> 'e edge_world web \<Rightarrow> 'e edge_world web \<Rightarrow> bool" where
  "throttles f w w' \<longleftrightarrow>
     (\<exists>hd. rw_Sent (wb_Writer w') = Some (429, hd) \<and>
       (\<forall>k. k \<notin> {''RateLimit-Limit'', ''RateLimit-Remaining'', ''Retry-After'', ''Content-Type''} \<longrightarrow>
          hd_Fields hd k = f k)) \<and>
     ew_lines (wb_World w') = ew_lines (wb_World w) \<and> ew_panics (wb_World w') = ew_panics (wb_World w) \<and>
     ew_Pattern (wb_World w') = ew_Pattern (wb_World w)"

lemma write_answer:
  "rw_Sent (wb_Writer v) = None \<Longrightarrow>
   \<exists>w'. bindp (WriteHeader c) (\<lambda>_. Write_body b) v = (Ret (), w') \<and>
     rw_Sent (wb_Writer w') = Some (c, rw_Header (wb_Writer v)) \<and> wb_World w' = wb_World v"
  by (simp add: bindp_def web_ops)

lemma limiter_refuses:
  assumes "clock_ok (ep_Now E)" and "refused E r (ew_limiter (wb_World w))" and "rw_Sent (wb_Writer w) = None"
  shows "\<exists>w'. limiter_middleware E cfg h r w = (Ret (), w') \<and> throttles (hfields w) w w' \<and>
    ew_metrics (wb_World w') = ew_metrics (wb_World w)"
proof -
  obtain t e where now: "ep_Now E (wb_World w) = (Ret t, (wb_World w)\<lparr>ew_env := e\<rparr>)"
    using assms(1) unfolding clock_ok_def by blast
  from assms(2) obtain d l where allow: "allow (clientKey (ep_net E) r) t (ew_limiter (wb_World w)) = (Verdict False 0 d, l)"
    using now unfolding refused_def by blast
  let ?w = "w\<lparr>wb_World := (wb_World w)\<lparr>ew_limiter := l, ew_env := e\<rparr>\<rparr>"
  let ?f = "(hfields w)(''RateLimit-Limit'' := [Itoa (trunc_int64 (rc_Burst cfg))], ''RateLimit-Remaining'' := [Itoa 0],
      ''Retry-After'' := [Itoa (trunc_int64 (Ceil (Seconds d)))], ''Content-Type'' := [''application/json''])"
  have "in_world (bindp (ep_Now E) (decide_allow (clientKey (ep_net E) r))) w = (Ret (Verdict False 0 d), ?w)"
    using now allow by (simp add: in_world_def bindp_def decide_allow_def)
  then have "limiter_middleware E cfg h r w =
      bindp (WriteHeader 429) (\<lambda>_. Write_body (BText ''{\"error\":\"rate limit exceeded\"}'')) (set_fields ?f ?w)"
    by (simp add: limiter_middleware_def limit_request_def bindp_def [of "in_world _"] header_Set_bind)
  moreover have sent: "rw_Sent (wb_Writer (set_fields ?f ?w)) = None"
    using assms(3) by (simp add: set_fields_def)
  from write_answer [OF sent, of 429 "BText ''{\"error\":\"rate limit exceeded\"}''"] obtain w' where
    w': "bindp (WriteHeader 429) (\<lambda>_. Write_body (BText ''{\"error\":\"rate limit exceeded\"}'')) (set_fields ?f ?w) = (Ret (), w')"
      "rw_Sent (wb_Writer w') = Some (429, rw_Header (wb_Writer (set_fields ?f ?w)))" "wb_World w' = wb_World ?w"
    by (auto simp only: set_fields_world)
  have "hd_Fields (rw_Header (wb_Writer (set_fields ?f ?w))) = ?f" by (simp add: set_fields_def)
  with w'(2,3) have "throttles (hfields w) w w'" "ew_metrics (wb_World w') = ew_metrics (wb_World w)"
    by (simp_all add: throttles_def)
  with \<open>limiter_middleware E cfg h r w = _\<close> w'(1) show ?thesis by (simp only:) blast
qed

lemma CORS_refuses:
  assumes "\<not> is_preflight r"
    and "\<And>w. rw_Sent (wb_Writer w) = None \<Longrightarrow> refused E r (ew_limiter (wb_World w)) \<Longrightarrow>
      \<exists>w'. h r w = (Ret (), w') \<and> throttles (hfields w) w w' \<and> ew_metrics (wb_World w') = ew_metrics (wb_World w)"
    and "rw_Sent (wb_Writer w) = None" and "refused E r (ew_limiter (wb_World w))"
  shows "\<exists>w'. CORS unicode cfg h r w = (Ret (), w') \<and>
    throttles (cors_grants unicode cfg (get_first (rq_Header r) ''Origin'') (hfields w)) w w' \<and>
    ew_metrics (wb_World w') = ew_metrics (wb_World w)"
proof -
  let ?w = "set_fields (cors_grants unicode cfg (get_first (rq_Header r) ''Origin'') (hfields w)) w"
  from assms(1) have "CORS unicode cfg h r w = h r ?w" by (simp add: CORS_grants)
  moreover have "rw_Sent (wb_Writer ?w) = None" "refused E r (ew_limiter (wb_World ?w))"
    using assms(3,4) by (simp_all add: set_fields_def)
  ultimately show ?thesis using assms(2) [of ?w] by (auto simp: throttles_def)
qed

lemma observed_throttles:
  assumes "p (w\<lparr>wb_Writer := (wb_Writer w)\<lparr>rw_Sent := None\<rparr>\<rparr>) = (Ret (), w')"
    and "throttles f (w\<lparr>wb_Writer := (wb_Writer w)\<lparr>rw_Sent := None\<rparr>\<rparr>) w'" and "rw_Sent (wb_Writer w) = None"
  shows "\<exists>n. observed len p w = (Ret (429, n), w') \<and> throttles f w w'"
proof -
  from assms(2) obtain hd where "rw_Sent (wb_Writer w') = Some (429, hd)" unfolding throttles_def by blast
  then have "\<exists>n. observed len p w = (Ret (429, n), w')"
    using assms(1,3) by (simp add: observed_def outer_sent_def)
  moreover have "throttles f w w'" using assms(2) unfolding throttles_def by (simp only: web.simps) simp
  ultimately show ?thesis by blast
qed

lemma throttles_world:
  "throttles f w w' \<Longrightarrow> ew_lines x = ew_lines (wb_World w') \<Longrightarrow> ew_panics x = ew_panics (wb_World w') \<Longrightarrow>
   ew_Pattern x = ew_Pattern (wb_World w') \<Longrightarrow> throttles f w (w'\<lparr>wb_World := x\<rparr>)"
  by (simp add: throttles_def)

text \<open>One more request of these labels.\<close>

definition counted :: "string \<Rightarrow> string \<Rightarrow> int \<Rightarrow> metric_set \<Rightarrow> metric_set \<Rightarrow> bool" where
  "counted method route status m m' \<longleftrightarrow>
     mt_requests m' = (mt_requests m)((method, route, Itoa status) := mt_requests m (method, route, Itoa status) + 1) \<and>
     mt_inFlight m' = mt_inFlight m"

lemma metrics_refuses:
  assumes "clock_ok Now" and "rw_Sent (wb_Writer w) = None" and "refused E r (ew_limiter (wb_World w))"
    and h: "\<And>w. rw_Sent (wb_Writer w) = None \<Longrightarrow> refused E r (ew_limiter (wb_World w)) \<Longrightarrow>
      \<exists>w'. h r w = (Ret (), w') \<and> throttles (f (hfields w)) w w' \<and> ew_metrics (wb_World w') = ew_metrics (wb_World w)"
  shows "\<exists>w'. metrics_middleware Now len h r w = (Ret (), w') \<and> throttles (f (hfields w)) w w' \<and>
    counted (rq_Method r) (routePattern (wb_World w)) 429 (ew_metrics (wb_World w)) (ew_metrics (wb_World w'))"
proof -
  let ?w1 = "w\<lparr>wb_World := add_inFlight 1 (wb_World w)\<rparr>"
  obtain t e where now: "in_world Now ?w1 = (Ret t, ?w1\<lparr>wb_World := (wb_World ?w1)\<lparr>ew_env := e\<rparr>\<rparr>)"
    using assms(1) by (rule clock_run)
  let ?w2 = "?w1\<lparr>wb_World := (wb_World ?w1)\<lparr>ew_env := e\<rparr>\<rparr>"
  let ?v = "?w2\<lparr>wb_Writer := (wb_Writer ?w2)\<lparr>rw_Sent := None\<rparr>\<rparr>"
  have "rw_Sent (wb_Writer ?v) = None" "refused E r (ew_limiter (wb_World ?v))" "hfields ?v = hfields w"
    using assms(3) by (simp_all add: add_inFlight_def hfields_def)
  with h [of ?v] obtain w3 where run: "h r ?v = (Ret (), w3)" "throttles (f (hfields w)) ?v w3"
      "ew_metrics (wb_World w3) = ew_metrics (wb_World ?v)" by metis
  have "rw_Sent (wb_Writer ?w2) = None" using assms(2) by simp
  from observed_throttles [of "h r" ?w2 w3 "f (hfields w)" len, OF run(1,2) this] obtain n where
    ob: "observed len (h r) ?w2 = (Ret (429, n), w3)" and th: "throttles (f (hfields w)) ?w2 w3" by blast
  obtain t' e' where now': "in_world Now w3 = (Ret t', w3\<lparr>wb_World := (wb_World w3)\<lparr>ew_env := e'\<rparr>\<rparr>)"
    using assms(1) by (rule clock_run)
  let ?w4 = "w3\<lparr>wb_World := (wb_World w3)\<lparr>ew_env := e'\<rparr>\<rparr>"
  let ?x = "add_inFlight (-1) (count_request (rq_Method r) 429 (Seconds (time_Sub t' t)) (wb_World ?w4))"
  have "metrics_middleware Now len h r w = (Ret (), w3\<lparr>wb_World := ?x\<rparr>)"
    unfolding metrics_middleware_def
    by (simp only: bindp_def recoverp_def edge_update_run prod.case outcome.case now ob now') (simp add: served_status_def)
  moreover have "throttles (f (hfields w)) ?w2 (w3\<lparr>wb_World := ?x\<rparr>)"
    by (rule throttles_world [OF th]) (simp_all add: add_inFlight_def count_request_def Let_def)
  then have "throttles (f (hfields w)) w (w3\<lparr>wb_World := ?x\<rparr>)" by (simp add: throttles_def add_inFlight_def)
  moreover have "counted (rq_Method r) (routePattern (wb_World w)) 429 (ew_metrics (wb_World w)) (ew_metrics ?x)"
    using run(2,3)
    by (simp add: counted_def add_inFlight_def count_request_def Let_def routePattern_def throttles_def)
  ultimately show ?thesis by (metis (no_types, lifting) web.select_convs(2) web.update_convs(2) web.surjective)
qed

lemma refused_logger [simp]: "refused E (r\<lparr>rq_Logger := x\<rparr>) l = refused E r l"
  by (simp add: refused_def)

lemma refused_requestID [simp]: "refused E (r\<lparr>rq_RequestID := x\<rparr>) l = refused E r l"
  by (simp add: refused_def)

text \<open>The line the request logger writes for a refused request.\<close>

definition warned :: "http_request \<Rightarrow> request_line \<Rightarrow> bool" where
  "warned r line \<longleftrightarrow>
     rl_Level line = LogWarn \<and> rl_Logger line = (rq_RequestID r, ClientIP r) \<and> rl_Method line = rq_Method r \<and>
     rl_Path line = rq_Path r \<and> rl_Status line = 429"

definition refusal_seen ::
  "(string \<Rightarrow> string list) \<Rightarrow> http_request \<Rightarrow> 'e edge_world web \<Rightarrow> 'e edge_world web \<Rightarrow> bool" where
  "refusal_seen f r w w' \<longleftrightarrow>
     (\<exists>hd. rw_Sent (wb_Writer w') = Some (429, hd) \<and>
       (\<forall>k. k \<notin> {''RateLimit-Limit'', ''RateLimit-Remaining'', ''Retry-After'', ''Content-Type''} \<longrightarrow>
          hd_Fields hd k = f k)) \<and>
     (\<exists>line. ew_lines (wb_World w') = ew_lines (wb_World w) @ [line] \<and> warned r line) \<and>
     ew_panics (wb_World w') = ew_panics (wb_World w) \<and>
     counted (rq_Method r) (routePattern (wb_World w)) 429 (ew_metrics (wb_World w)) (ew_metrics (wb_World w'))"

lemma RequestLogger_refuses:
  assumes "clock_ok Now" and "rw_Sent (wb_Writer w) = None" and "refused E r (ew_limiter (wb_World w))"
    and h: "\<And>r w. rw_Sent (wb_Writer w) = None \<Longrightarrow> refused E r (ew_limiter (wb_World w)) \<Longrightarrow> K r \<Longrightarrow>
      \<exists>w'. h r w = (Ret (), w') \<and> throttles (f r (hfields w)) w w' \<and>
        counted (rq_Method r) (routePattern (wb_World w)) 429 (ew_metrics (wb_World w)) (ew_metrics (wb_World w'))"
    and "\<And>x. f (r\<lparr>rq_Logger := x\<rparr>) = f r" and "\<And>x. K (r\<lparr>rq_Logger := x\<rparr>)"
  shows "\<exists>w'. RequestLogger Now len h r w = (Ret (), w') \<and> refusal_seen (f r (hfields w)) r w w'"
proof -
  obtain t e where now: "in_world Now w = (Ret t, w\<lparr>wb_World := (wb_World w)\<lparr>ew_env := e\<rparr>\<rparr>)"
    using assms(1) by (rule clock_run)
  let ?w2 = "w\<lparr>wb_World := (wb_World w)\<lparr>ew_env := e\<rparr>\<rparr>"
  let ?v = "?w2\<lparr>wb_Writer := (wb_Writer ?w2)\<lparr>rw_Sent := None\<rparr>\<rparr>"
  let ?r = "r\<lparr>rq_Logger := Some (rq_RequestID r, ClientIP r)\<rparr>"
  have v: "rw_Sent (wb_Writer ?v) = None" "refused E ?r (ew_limiter (wb_World ?v))" "K ?r" "hfields ?v = hfields w"
    using assms(3,6) by (simp_all add: hfields_def)
  from h [OF v(1,2,3)] obtain w3 where run: "h ?r ?v = (Ret (), w3)"
      and seen: "throttles (f ?r (hfields ?v)) ?v w3"
      "counted (rq_Method ?r) (routePattern (wb_World ?v)) 429 (ew_metrics (wb_World ?v)) (ew_metrics (wb_World w3))"
    by blast
  have verb: "rq_Method ?r = rq_Method r" by simp
  note seen = seen [unfolded verb assms(5) v(4)]
  have "rw_Sent (wb_Writer ?w2) = None" using assms(2) by simp
  from observed_throttles [of "h ?r" ?w2 w3 _ len, OF run seen(1) this] obtain n where
    ob: "observed len (h ?r) ?w2 = (Ret (429, n), w3)" and th: "throttles (f r (hfields w)) ?w2 w3" by blast
  obtain t' e' where now': "in_world Now w3 = (Ret t', w3\<lparr>wb_World := (wb_World w3)\<lparr>ew_env := e'\<rparr>\<rparr>)"
    using assms(1) by (rule clock_run)
  let ?line = "\<lparr>rl_Level = LogWarn, rl_Logger = (rq_RequestID r, ClientIP r), rl_Method = rq_Method r,
      rl_Path = rq_Path r, rl_Status = 429, rl_Bytes = n, rl_Duration = time_Sub t' t\<rparr>"
  let ?x = "(wb_World w3)\<lparr>ew_env := e', ew_lines := ew_lines (wb_World w3) @ [?line]\<rparr>"
  have "RequestLogger Now len h r w = (Ret (), w3\<lparr>wb_World := ?x\<rparr>)"
    unfolding RequestLogger_def Let_def
    by (simp only: bindp_def edge_update_run prod.case outcome.case now ob now') (simp add: served_status_def)
  moreover have "refusal_seen (f r (hfields w)) r w (w3\<lparr>wb_World := ?x\<rparr>)"
    using th seen(2) unfolding refusal_seen_def throttles_def
    by (simp add: warned_def routePattern_def)
  ultimately show ?thesis by blast
qed

end
