(* ===== verification/Lifecycle.thy ===== *)
theory Lifecycle
  imports NotificationNew Router
begin

text \<open>
  Process start and teardown: the closer stack of \<open>internal/lifecycle/stack.go\<close>, the server of
  \<open>internal/httpx/server.go\<close>, the route tree of \<open>internal/httpx/routes.go\<close>, and \<open>serve\<close> with
  \<open>shutdownAfter\<close> of \<open>cmd/api/main.go\<close>. A closer is given the shutdown context. Opening the
  database, listening, draining and the Prometheus registry are parameters; the goroutines that
  listen and wait for signals are what the blocking call \<open>Serve\<close> returns from. The second signal,
  which ends the process at once, is not part of the model.
\<close>

section \<open>The stack\<close>

datatype stack_line = Closing string | CloseFailed goerr string | Closed string

type_synonym ('c, 'w) stack = "(string \<times> ('c \<Rightarrow> ('w, goerr option) prog)) list"

definition NewStack :: "('c, 'w) stack" where
  "NewStack = []"

definition Push :: "('c, 'w) stack \<Rightarrow> string \<Rightarrow> ('c \<Rightarrow> ('w, goerr option) prog) \<Rightarrow> ('c, 'w) stack" where
  "Push s name fn = s @ [(name, fn)]"

definition PushCloser :: "('c, 'w) stack \<Rightarrow> string \<Rightarrow> ('w, goerr option) prog \<Rightarrow> ('c, 'w) stack" where
  "PushCloser s name fn = Push s name (\<lambda>_. fn)"

definition Len :: "('c, 'w) stack \<Rightarrow> nat" where
  "Len s = length s"

fun close_all :: "(stack_line \<Rightarrow> ('w, unit) prog) \<Rightarrow> 'c \<Rightarrow> ('c, 'w) stack \<Rightarrow> ('w, goerr list) prog" where
  \<comment> \<open>the loop of \<open>Shutdown\<close>, over the entries in the order it visits them\<close>
  "close_all log_line ctx [] = retp []"
| "close_all log_line ctx ((name, fn) # es) =
     bindp (log_line (Closing name)) (\<lambda>_.
     bindp (fn ctx) (\<lambda>err.
     case err of
       Some e \<Rightarrow>
         bindp (log_line (CloseFailed e name)) (\<lambda>_.
         bindp (close_all log_line ctx es) (\<lambda>errs.
         retp (Errorf ''%s: %w'' [OStr name] [e] # errs)))
     | None \<Rightarrow> bindp (log_line (Closed name)) (\<lambda>_. close_all log_line ctx es)))"

definition Shutdown :: "(stack_line \<Rightarrow> ('w, unit) prog) \<Rightarrow> ('c, 'w) stack \<Rightarrow> 'c \<Rightarrow> ('w, goerr option) prog" where
  "Shutdown log_line s ctx = bindp (close_all log_line ctx (rev s)) (\<lambda>errs. retp (errors_Join errs))"

section \<open>The server\<close>

record http_server =
  hs_Addr :: string
  hs_ReadTimeout :: duration
  hs_ReadHeaderTimeout :: duration
  hs_WriteTimeout :: duration
  hs_IdleTimeout :: duration

definition NewServer :: "server_config \<Rightarrow> http_server" where
  "NewServer cfg =
     \<lparr>hs_Addr = host_port (sv_Host cfg) (sv_Port cfg), hs_ReadTimeout = sv_ReadTimeout cfg,
      hs_ReadHeaderTimeout = sv_ReadHeaderTimeout cfg, hs_WriteTimeout = sv_WriteTimeout cfg,
      hs_IdleTimeout = sv_IdleTimeout cfg\<rparr>"

definition seconds :: "int \<Rightarrow> duration" where
  "seconds n = word_of_int (n * 1000000000)"

definition NewAdminServer :: "metrics_config \<Rightarrow> http_server" where
  "NewAdminServer cfg =
     \<lparr>hs_Addr = me_Addr cfg, hs_ReadTimeout = seconds 10, hs_ReadHeaderTimeout = seconds 5,
      hs_WriteTimeout = seconds 30, hs_IdleTimeout = seconds 60\<rparr>"

definition ErrServerClosed :: goerr where
  "ErrServerClosed = New ''http: Server closed''"

datatype serve_event = ListenReturned "goerr option" | ContextDone

definition Serve_server :: "('w, serve_event) prog \<Rightarrow> ('w, goerr option) prog" where
  \<comment> \<open>from the first of the two events the server waits for\<close>
  "Serve_server wait =
     bindp wait (\<lambda>ev.
     case ev of
       ContextDone \<Rightarrow> retp None
     | ListenReturned err \<Rightarrow>
         (case err of
            None \<Rightarrow> retp None
          | Some e \<Rightarrow>
              if errors_Is e ErrServerClosed then retp None
              else retp (Some (Errorf ''http server: %w'' [] [e]))))"

definition Shutdown_server :: "(bool \<Rightarrow> ('w, unit) prog) \<Rightarrow> ('c \<Rightarrow> ('w, goerr option) prog) \<Rightarrow> 'c \<Rightarrow> ('w, goerr option) prog" where
  \<comment> \<open>the draining flag is set before the drain begins\<close>
  "Shutdown_server setDraining drainer ctx = bindp (setDraining True) (\<lambda>_. drainer ctx)"

section \<open>The route tree\<close>

definition swagger_not_built :: "'w handler" where
  "swagger_not_built r =
     WriteProblem r 404 ''swagger_not_built'' ''API Browser Not Available''
       (''This binary was built without the swagger UI. Rebuild with -tags swagger, '' @
        ''after running `make swagger-docs` to generate the spec.'')"

definition under :: "string \<Rightarrow> 'w route list \<Rightarrow> 'w route list" where
  "under prefix rs = map (\<lambda>(m, p, h). (m, prefix @ p, h)) rs"

definition Mount ::
  "string \<Rightarrow> ('w, goerr option) prog option \<Rightarrow> ('w, bool) prog option \<Rightarrow> 'w app_module list \<Rightarrow> 'w route list" where
  "Mount ver pinger draining modules =
     [(''GET'', ''/healthz'', healthzHandler ver),
      (''GET'', ''/readyz'', readyzHandler ver pinger draining),
      (''GET'', ''/health'', healthzHandler ver),
      (''GET'', ''/swagger/*'', swagger_not_built)] @
     under ''/api/v1'' (concat (map am_Routes modules))"

section \<open>The process\<close>

text \<open>
  What \<open>serve\<close> calls: the packages of this repository and the runtime. \<open>bo_Go\<close> starts a goroutine
  (what it does and when is the scheduler's), \<open>bo_Install\<close> puts the routes on the mux. \<open>bo_OpenDB\<close>
  returns the handle's \<open>Close\<close> and its pool's \<open>Ping\<close>; \<open>bo_NewRouter\<close> the router's closer.
\<close>

datatype boot_line =
    Starting
  | DatabaseConnected
  | StoppedWithError goerr
  | AdminStopped goerr string
  | ExitedProperly
  | StackLine stack_line

record 'w boot =
  bo_Load :: "string \<Rightarrow> ('w, goerr + app_config) prog"
  bo_log :: "boot_line \<Rightarrow> ('w, unit) prog"
  bo_OpenDB :: "db_config \<Rightarrow> ('w, goerr + ('w, goerr option) prog \<times> ('w, goerr option) prog) prog"
  bo_BuildApp :: "app_config \<Rightarrow> ('w, goerr + 'w app_module list) prog"
  bo_RegisterPool :: "('w, goerr option) prog"
  bo_NewRouter :: "server_config \<Rightarrow> security_config \<Rightarrow> bool \<Rightarrow> ('w, goerr + ('w, goerr option) prog) prog"
  bo_wait :: "http_server \<Rightarrow> ('w, serve_event) prog"
  bo_setDraining :: "http_server \<Rightarrow> bool \<Rightarrow> ('w, unit) prog"
  bo_isDraining :: "http_server \<Rightarrow> ('w, bool) prog"
  bo_drain :: "http_server \<Rightarrow> duration \<Rightarrow> ('w, goerr option) prog"
  bo_Go :: "('w, unit) prog \<Rightarrow> ('w, unit) prog"
  bo_Install :: "'w route list \<Rightarrow> ('w, unit) prog"
  bo_Version :: string

definition shutdownAfter ::
  "'w boot \<Rightarrow> (duration, 'w) stack \<Rightarrow> app_config \<Rightarrow> goerr option \<Rightarrow> ('w, goerr option) prog" where
  "shutdownAfter B s cfg cause =
     bindp (Shutdown (\<lambda>l. bo_log B (StackLine l)) s (sv_ShutdownTimeout (cf_Server cfg))) (\<lambda>err.
     case err of
       Some e \<Rightarrow>
         (case cause of Some c \<Rightarrow> retp (Some c) | None \<Rightarrow> retp (Some (Errorf ''shutdown: %w'' [] [e])))
     | None \<Rightarrow> bindp (bo_log B ExitedProperly) (\<lambda>_. retp cause))"

definition push_modules :: "'w app_module list \<Rightarrow> (duration, 'w) stack \<Rightarrow> (duration, 'w) stack" where
  "push_modules mods s =
     foldl (\<lambda>s m. case am_Close m of None \<Rightarrow> s | Some close \<Rightarrow> PushCloser s (''module '' @ am_Name m) close) s mods"

definition server_stop :: "'w boot \<Rightarrow> http_server \<Rightarrow> duration \<Rightarrow> ('w, goerr option) prog" where
  "server_stop B srv = Shutdown_server (bo_setDraining B srv) (bo_drain B srv)"

definition admin_goroutine :: "'w boot \<Rightarrow> metrics_config \<Rightarrow> http_server \<Rightarrow> ('w, unit) prog" where
  "admin_goroutine B cfg admin =
     bindp (Serve_server (bo_wait B admin)) (\<lambda>err.
     case err of None \<Rightarrow> retp () | Some e \<Rightarrow> bo_log B (AdminStopped e (me_Addr cfg)))"

definition serve_phases ::
  "'w boot \<Rightarrow> app_config \<Rightarrow> ('w, goerr option) prog \<Rightarrow> (duration, 'w) stack \<Rightarrow> 'w app_module list \<Rightarrow>
   ('w, goerr option) prog" where
  \<comment> \<open>phases 5 to 8, from the metrics on\<close>
  "serve_phases B cfg ping s mods =
     bindp (if me_Enabled (cf_Metrics cfg) then bo_RegisterPool B else retp None) (\<lambda>err.
     case err of
       Some e \<Rightarrow> shutdownAfter B s cfg (Some (Errorf ''register pool metrics: %w'' [] [e]))
     | None \<Rightarrow>
     bindp (bo_NewRouter B (cf_Server cfg) (cf_Security cfg) (me_Enabled (cf_Metrics cfg))) (\<lambda>r.
     case r of
       Inl e \<Rightarrow> shutdownAfter B s cfg (Some (Errorf ''build router: %w'' [] [e]))
     | Inr closeRouter \<Rightarrow>
         let srv = NewServer (cf_Server cfg);
             admin = NewAdminServer (cf_Metrics cfg);
             s = Push (PushCloser s ''router'' closeRouter) ''http server'' (server_stop B srv);
             s = (if me_Enabled (cf_Metrics cfg) then Push s ''metrics server'' (server_stop B admin) else s) in
         bindp (if me_Enabled (cf_Metrics cfg) then bo_Go B (admin_goroutine B (cf_Metrics cfg) admin) else retp ()) (\<lambda>_.
         bindp (bo_Install B (Mount (bo_Version B) (Some ping) (Some (bo_isDraining B srv)) mods)) (\<lambda>_.
         bindp (Serve_server (bo_wait B srv)) (\<lambda>serveErr.
         bindp (case serveErr of None \<Rightarrow> retp () | Some e \<Rightarrow> bo_log B (StoppedWithError e)) (\<lambda>_.
         shutdownAfter B s cfg serveErr))))))"

definition serve :: "'w boot \<Rightarrow> string \<Rightarrow> ('w, goerr option) prog" where
  "serve B cfgPath =
     bindp (bo_Load B cfgPath) (\<lambda>r.
     case r of
       Inl err \<Rightarrow> retp (Some (Errorf ''load config: %w'' [] [err]))
     | Inr cfg \<Rightarrow>
     bindp (bo_log B Starting) (\<lambda>_.
     bindp (bo_OpenDB B (cf_DB cfg)) (\<lambda>r.
     case r of
       Inl err \<Rightarrow> retp (Some (Errorf ''init database: %w'' [] [err]))
     | Inr (close, ping) \<Rightarrow>
         let s = PushCloser NewStack ''database'' close in
         bindp (bo_log B DatabaseConnected) (\<lambda>_.
         bindp (bo_BuildApp B cfg) (\<lambda>r.
         case r of
           Inl err \<Rightarrow> shutdownAfter B s cfg (Some (Errorf ''build app: %w'' [] [err]))
         | Inr mods \<Rightarrow> serve_phases B cfg ping (push_modules mods s) mods)))))"

section \<open>What the process opens and releases\<close>

text \<open>
  A rehearsal fixes what every call of \<open>serve\<close> returns and keeps the trace of what is opened,
  flagged as draining and released. A module is given by its name and whether it has a \<open>Close\<close>; a
  server is known by its address.
\<close>

datatype mark = Opened string | Released string | Flagged string | Drained string

record rehearsal =
  rh_Load :: "goerr + app_config"
  rh_Open :: "goerr option"
  rh_Build :: "goerr + (string \<times> bool) list"
  rh_Register :: "goerr option"
  rh_Router :: "goerr option"
  rh_Event :: serve_event
  rh_fails :: "mark \<Rightarrow> goerr option"

definition releases :: "rehearsal \<Rightarrow> string \<Rightarrow> (mark list, goerr option) prog" where
  "releases h n w = (Ret (rh_fails h (Released n)), w @ [Released n])"

definition rehearsed_module :: "rehearsal \<Rightarrow> string \<times> bool \<Rightarrow> mark list app_module" where
  "rehearsed_module h m =
     \<lparr>am_Name = fst m, am_Routes = [],
      am_Close = (if snd m then Some (releases h (''module '' @ fst m)) else None)\<rparr>"

definition closable :: "(string \<times> bool) list \<Rightarrow> string list" where
  "closable ms = map (\<lambda>m. ''module '' @ fst m) (filter snd ms)"

definition rehearse :: "rehearsal \<Rightarrow> mark list boot" where
  "rehearse h =
     \<lparr>bo_Load = (\<lambda>_. retp (rh_Load h)), bo_log = (\<lambda>_. retp ()),
      bo_OpenDB = (\<lambda>_ w. case rh_Open h of
          Some e \<Rightarrow> (Ret (Inl e), w)
        | None \<Rightarrow> (Ret (Inr (releases h ''database'', retp None)), w @ [Opened ''database''])),
      bo_BuildApp = (\<lambda>_ w. case rh_Build h of
          Inl e \<Rightarrow> (Ret (Inl e), w)
        | Inr ms \<Rightarrow> (Ret (Inr (map (rehearsed_module h) ms)), w @ map Opened (closable ms))),
      bo_RegisterPool = retp (rh_Register h),
      bo_NewRouter = (\<lambda>_ _ _ w. case rh_Router h of
          Some e \<Rightarrow> (Ret (Inl e), w)
        | None \<Rightarrow> (Ret (Inr (releases h ''router'')), w @ [Opened ''router''])),
      bo_wait = (\<lambda>_. retp (rh_Event h)),
      bo_setDraining = (\<lambda>srv _ w. (Ret (), w @ [Flagged (hs_Addr srv)])),
      bo_isDraining = (\<lambda>_. retp False),
      bo_drain = (\<lambda>srv _ w. (Ret (rh_fails h (Drained (hs_Addr srv))), w @ [Drained (hs_Addr srv)])),
      bo_Go = (\<lambda>_. retp ()), bo_Install = (\<lambda>_. retp ()), bo_Version = ''dev''\<rparr>"

text \<open>The plan: which resources exist when the process ends, what ended it, and how they go.\<close>

datatype resource = Handle string | Listener string string

primrec res_name :: "resource \<Rightarrow> string" where
  "res_name (Handle n) = n"
| "res_name (Listener n a) = n"

primrec release_marks :: "resource \<Rightarrow> mark list" where
  "release_marks (Handle n) = [Released n]"
| "release_marks (Listener n a) = [Flagged a, Drained a]"

primrec release_outcome :: "rehearsal \<Rightarrow> resource \<Rightarrow> goerr option" where
  "release_outcome h (Handle n) = rh_fails h (Released n)"
| "release_outcome h (Listener n a) = rh_fails h (Drained a)"

definition release_errors :: "rehearsal \<Rightarrow> resource list \<Rightarrow> goerr list" where
  "release_errors h rs =
     concat (map (\<lambda>r. case release_outcome h r of
       None \<Rightarrow> [] | Some e \<Rightarrow> [Errorf ''%s: %w'' [OStr (res_name r)] [e]]) rs)"

definition ended_by :: "serve_event \<Rightarrow> goerr option" where
  "ended_by ev =
     (case ev of
        ListenReturned (Some e) \<Rightarrow> if errors_Is e ErrServerClosed then None else Some (Errorf ''http server: %w'' [] [e])
      | _ \<Rightarrow> None)"

definition plan_from_metrics :: "rehearsal \<Rightarrow> app_config \<Rightarrow> goerr option \<times> resource list" where
  "plan_from_metrics h cfg =
     (case (if me_Enabled (cf_Metrics cfg) then rh_Register h else None, rh_Router h) of
        (Some e, _) \<Rightarrow> (Some (Errorf ''register pool metrics: %w'' [] [e]), [])
      | (None, Some e) \<Rightarrow> (Some (Errorf ''build router: %w'' [] [e]), [])
      | (None, None) \<Rightarrow>
          (ended_by (rh_Event h),
           [Handle ''router'', Listener ''http server'' (host_port (sv_Host (cf_Server cfg)) (sv_Port (cf_Server cfg)))] @
           (if me_Enabled (cf_Metrics cfg) then [Listener ''metrics server'' (me_Addr (cf_Metrics cfg))] else [])))"

definition plan :: "rehearsal \<Rightarrow> goerr option \<times> resource list" where
  "plan h =
     (case rh_Load h of
        Inl e \<Rightarrow> (Some (Errorf ''load config: %w'' [] [e]), [])
      | Inr cfg \<Rightarrow>
     (case rh_Open h of
        Some e \<Rightarrow> (Some (Errorf ''init database: %w'' [] [e]), [])
      | None \<Rightarrow>
     (case rh_Build h of
        Inl e \<Rightarrow> (Some (Errorf ''build app: %w'' [] [e]), [Handle ''database''])
      | Inr ms \<Rightarrow>
          (case plan_from_metrics h cfg of (cause, rs) \<Rightarrow>
             (cause, [Handle ''database''] @ map Handle (closable ms) @ rs)))))"

definition opened_marks :: "resource list \<Rightarrow> mark list" where
  "opened_marks rs = concat (map (\<lambda>r. case r of Handle n \<Rightarrow> [Opened n] | Listener _ _ \<Rightarrow> []) rs)"

definition exit_error :: "goerr option \<Rightarrow> goerr list \<Rightarrow> goerr option" where
  "exit_error cause errs =
     (case cause of
        Some c \<Rightarrow> Some c
      | None \<Rightarrow> if errs = [] then None else Some (Errorf ''shutdown: %w'' [] [Join errs]))"

text \<open>The stack of a list of resources.\<close>

definition closer :: "rehearsal \<Rightarrow> resource \<Rightarrow> duration \<Rightarrow> (mark list, goerr option) prog" where
  "closer h r = (\<lambda>_ w. (Ret (release_outcome h r), w @ release_marks r))"

definition stack_of :: "rehearsal \<Rightarrow> resource list \<Rightarrow> (duration, mark list) stack" where
  "stack_of h rs = map (\<lambda>r. (res_name r, closer h r)) rs"

lemma close_all_rehearsed:
  "close_all (\<lambda>_. retp ()) d (stack_of h rs) w = (Ret (release_errors h rs), w @ concat (map release_marks rs))"
  by (induction rs arbitrary: w)
    (simp_all add: stack_of_def release_errors_def closer_def bindp_def split: option.splits)

lemma shutdownAfter_rehearsed:
  "shutdownAfter (rehearse h) (stack_of h rs) cfg cause w =
     (Ret (exit_error cause (release_errors h (rev rs))), w @ concat (map release_marks (rev rs)))"
proof -
  have "Shutdown (\<lambda>_. retp ()) (stack_of h rs) d w =
      (Ret (errors_Join (release_errors h (rev rs))), w @ concat (map release_marks (rev rs)))" for d
    using close_all_rehearsed [of d h "rev rs" w] by (simp add: Shutdown_def stack_of_def rev_map bindp_def)
  then show ?thesis
    by (simp add: shutdownAfter_def bindp_def rehearse_def exit_error_def errors_Join_def split: option.splits)
qed

lemma push_rehearsed:
  "PushCloser (stack_of h rs) n (releases h n) = stack_of h (rs @ [Handle n])"
  "Push (stack_of h rs) n (server_stop (rehearse h) srv) = stack_of h (rs @ [Listener n (hs_Addr srv)])"
  by (simp_all add: PushCloser_def Push_def stack_of_def closer_def releases_def [abs_def] server_stop_def
      Shutdown_server_def rehearse_def bindp_def fun_eq_iff)

lemma push_modules_rehearsed:
  "push_modules (map (rehearsed_module h) ms) (stack_of h rs) = stack_of h (rs @ map Handle (closable ms))"
  by (induction ms arbitrary: rs)
    (auto simp: push_modules_def rehearsed_module_def closable_def push_rehearsed(1))

lemma serve_phases_rehearsed:
  "serve_phases (rehearse h) cfg ping (stack_of h rs) mods w =
     (case plan_from_metrics h cfg of (cause, later) \<Rightarrow>
        (Ret (exit_error cause (release_errors h (rev (rs @ later)))),
         w @ opened_marks later @ concat (map release_marks (rev (rs @ later)))))"
proof -
  have sel: "bo_RegisterPool (rehearse h) = retp (rh_Register h)"
    "bo_NewRouter (rehearse h) srv sec m w = (case rh_Router h of
          Some e \<Rightarrow> (Ret (Inl e), w)
        | None \<Rightarrow> (Ret (Inr (releases h ''router'')), w @ [Opened ''router'']))"
    "bo_Go (rehearse h) p = retp ()" "bo_Install (rehearse h) q = retp ()" "bo_log (rehearse h) l = retp ()"
    "bo_wait (rehearse h) s = retp (rh_Event h)" for srv sec m w p q l s
    by (simp_all add: rehearse_def)
  have served: "Serve_server (retp (rh_Event h)) = retp (ended_by (rh_Event h))"
    by (simp add: Serve_server_def ended_by_def fun_eq_iff split: serve_event.split option.split)
  have addr: "hs_Addr (NewServer srv) = host_port (sv_Host srv) (sv_Port srv)" "hs_Addr (NewAdminServer m) = me_Addr m" for srv m
    by (simp_all add: NewServer_def NewAdminServer_def)
  consider (reg) e where "me_Enabled (cf_Metrics cfg)" "rh_Register h = Some e"
    | (router) e where "(if me_Enabled (cf_Metrics cfg) then rh_Register h else None) = None" "rh_Router h = Some e"
    | (up) "(if me_Enabled (cf_Metrics cfg) then rh_Register h else None) = None" "rh_Router h = None"
    by (metis option.exhaust)
  then show ?thesis
  proof cases
    case reg
    then show ?thesis
      by (simp add: serve_phases_def sel shutdownAfter_rehearsed plan_from_metrics_def opened_marks_def)
  next
    case router
    then show ?thesis
      by (simp add: serve_phases_def sel shutdownAfter_rehearsed plan_from_metrics_def opened_marks_def
          bindp_def [of "bo_NewRouter _ _ _ _"] if_distrib [of "\<lambda>p. bindp p _"] split: if_splits)
  next
    case up
    then show ?thesis
      by (cases "me_Enabled (cf_Metrics cfg)"; cases "ended_by (rh_Event h)")
        (simp_all add: serve_phases_def sel served addr plan_from_metrics_def opened_marks_def Let_def
          push_rehearsed shutdownAfter_rehearsed bindp_def [of "bo_NewRouter _ _ _ _"])
  qed
qed

text \<open>
  C7. However far the process gets, every resource it has opened is released exactly once, in
  the reverse order, whatever the others report; it exits with the error that stopped it, and with
  the errors of the releases only when nothing else went wrong.
\<close>

theorem serve_releases_everything:
  "serve (rehearse h) path w =
     (case plan h of (cause, rs) \<Rightarrow>
        (Ret (exit_error cause (release_errors h (rev rs))),
         w @ opened_marks rs @ concat (map release_marks (rev rs))))"
proof -
  have sel: "bo_Load (rehearse h) path = retp (rh_Load h)" "bo_log (rehearse h) l = retp ()"
    "bo_OpenDB (rehearse h) d w = (case rh_Open h of
          Some e \<Rightarrow> (Ret (Inl e), w)
        | None \<Rightarrow> (Ret (Inr (releases h ''database'', retp None)), w @ [Opened ''database'']))"
    "bo_BuildApp (rehearse h) c w = (case rh_Build h of
          Inl e \<Rightarrow> (Ret (Inl e), w)
        | Inr ms \<Rightarrow> (Ret (Inr (map (rehearsed_module h) ms)), w @ map Opened (closable ms)))" for l d c w
    by (simp_all add: rehearse_def)
  have db: "PushCloser NewStack ''database'' (releases h ''database'') = stack_of h [Handle ''database'']"
    using push_rehearsed(1) [of h "[]" "''database''"] by (simp add: stack_of_def NewStack_def)
  have opened: "opened_marks [] = []" "opened_marks (Handle n # rs) = Opened n # opened_marks rs"
    "opened_marks (map Handle ns @ rs) = map Opened ns @ opened_marks rs" for n ns rs
    by (induction ns) (simp_all add: opened_marks_def)
  show ?thesis
    by (cases "rh_Load h"; cases "rh_Open h"; cases "rh_Build h")
      (simp_all add: serve_def plan_def sel exit_error_def [of "Some _"] release_errors_def [of _ "[]"]
        bindp_def [of "bo_OpenDB _ _"] bindp_def [of "bo_BuildApp _ _"] db push_modules_rehearsed
        shutdownAfter_rehearsed serve_phases_rehearsed opened split: prod.split)
qed

end
