(* ===== verification/Container.thy ===== *)
theory Container
  imports AppStore GoTime IdentityNew Lifecycle
begin

text \<open>
  The composition root: \<open>cmd/api/container.go\<close> and \<open>cmd/api/notifier_adapter.go\<close>. The three modules
  are built over the one database of AppStore; the adapter turns identity's security events into rows
  of the outbox. What the modules call outside the repository is gathered in one record.
\<close>

record ('w, 'priv, 't, 'h) app_env =
  ae_rt :: "'w runtime"
  ae_identity :: "'w identity_pkgs"
  ae_files :: "('w, 'priv) key_files"
  ae_jwt :: "('w, 'priv) jwt_pkg"
  ae_bodies :: auth_bodies
  ae_audit :: "audit_line \<Rightarrow> ('w, unit) prog"
  ae_err_text :: "goerr \<Rightarrow> string"
  ae_request_id :: string
  ae_uuid_New :: "('w, uuid) prog"
  ae_notification :: "('w, 't, 'h) module_deps"
  ae_time_json :: "time \<Rightarrow> string"

section \<open>The adapter\<close>

definition securityChannels :: "channel list" where
  "securityChannels = [ChannelEmail, ChannelInApp]"

definition event_key :: "string \<Rightarrow> string \<Rightarrow> time \<Rightarrow> channel \<Rightarrow> string" where
  "event_key event userID eventTime ch = event @ '':'' @ userID @ '':'' @ RFC3339Nano eventTime @ '':'' @ ch"

definition event_request ::
  "string \<Rightarrow> string \<Rightarrow> string \<Rightarrow> time \<Rightarrow> payload \<Rightarrow> uuid \<Rightarrow> channel \<Rightarrow> enqueue_request" where
  "event_request userID event templateKey eventTime payload recipient ch =
     \<lparr>er_RecipientID = recipient, er_Channel = ch, er_Category = CategorySecurity,
      er_TemplateKey = templateKey, er_Payload = payload,
      er_IdempotencyKey = event_key event userID eventTime ch\<rparr>"

fun notify_channels ::
  "(enqueue_request \<Rightarrow> ('w, goerr option) prog) \<Rightarrow> (app_line \<Rightarrow> ('w, unit) prog) \<Rightarrow>
   (channel \<Rightarrow> enqueue_request) \<Rightarrow> string \<Rightarrow> string \<Rightarrow> channel list \<Rightarrow> ('w, unit) prog" where
  "notify_channels enq warn req event userID [] = retp ()"
| "notify_channels enq warn req event userID (ch # chs) =
     bindp (enq (req ch)) (\<lambda>err.
     bindp (case err of None \<Rightarrow> retp () | Some e \<Rightarrow> warn (EnqueueFailed e event ch userID)) (\<lambda>_.
     notify_channels enq warn req event userID chs))"

definition notify ::
  "uuid_pkg \<Rightarrow> (enqueue_request \<Rightarrow> ('w, goerr option) prog) \<Rightarrow> (app_line \<Rightarrow> ('w, unit) prog) \<Rightarrow>
   string \<Rightarrow> string \<Rightarrow> string \<Rightarrow> time \<Rightarrow> payload \<Rightarrow> ('w, unit) prog" where
  "notify U enq warn userID event templateKey eventTime payload =
     (case uuid_Parse U userID of
        Inl err \<Rightarrow> warn (NotAUUID err event userID)
      | Inr recipient \<Rightarrow>
          notify_channels enq warn (event_request userID event templateKey eventTime payload recipient)
            event userID securityChannels)"

definition SecurityNotifierAdapter ::
  "uuid_pkg \<Rightarrow> (enqueue_request \<Rightarrow> ('w, goerr option) prog) \<Rightarrow> (app_line \<Rightarrow> ('w, unit) prog) \<Rightarrow>
   'w security_notifier" where
  "SecurityNotifierAdapter U enq warn =
     \<lparr>sn_AccountLocked = (\<lambda>userID lockedUntil.
        notify U enq warn userID ''account_locked'' ''security.account_locked'' lockedUntil
          (Some [''LockedUntil'' \<mapsto> JStr (formatEventTime lockedUntil)])),
      sn_MFAEnabled = (\<lambda>userID enabledAt.
        notify U enq warn userID ''mfa_enabled'' ''security.mfa_enabled'' enabledAt
          (Some [''EnabledAt'' \<mapsto> JStr (formatEventTime enabledAt)]))\<rparr>"

section \<open>The edges between the modules\<close>

definition identityEmailResolver :: "uuid_pkg \<Rightarrow> 'e id_world address_resolver" where
  "identityEmailResolver U recipientID =
     bindp (users_FindByID U (uuid_String U recipientID)) (\<lambda>r.
     case r of
       Inl err \<Rightarrow>
         if errors_Is err ErrNotFound
         then retp (Inl (Errorf ''%w: no user %s'' [OUuid recipientID] [ErrNoAddress]))
         else retp (Inl (Errorf ''look up recipient %s: %w'' [OUuid recipientID] [err]))
     | Inr user \<Rightarrow>
         if u_Email user = []
         then retp (Inl (Errorf ''%w: user %s has no email on file'' [OUuid recipientID] [ErrNoAddress]))
         else retp (Inr (u_Email user)))"

definition newAuthMiddleware ::
  "('w, 'priv, 't, 'h) app_env \<Rightarrow> app_config \<Rightarrow> ('w, goerr + 'w middleware) prog" where
  "newAuthMiddleware E cfg =
     (let a = cf_Auth cfg in
      bindp (NewJWTService (ae_files E) (as_PrivateKeyPath a) (as_PublicKeyPath a) (as_Issuer a)
               (as_ClientID a) (as_TokenLeeway a)) (\<lambda>r.
      case r of
        Inl err \<Rightarrow> retp (Inl (Errorf ''init token verifier: %w'' [] [err]))
      | Inr jwtSvc \<Rightarrow>
          retp (Inr (AuthRequired (JWTService (rn_Now (ae_rt E)) (rn_uuid (ae_rt E)) (ae_jwt E) jwtSvc)))))"

definition dispatcher_of :: "dispatcher_section \<Rightarrow> module_dispatcher" where
  "dispatcher_of d =
     \<lparr>md_PollInterval = ds_PollInterval d, md_BatchSize = ds_BatchSize d, md_Workers = ds_Workers d,
      md_MaxAttempts = ds_MaxAttempts d, md_BackoffBase = ds_BackoffBase d, md_BackoffCap = ds_BackoffCap d,
      md_StalledAfter = ds_StalledAfter d, md_DrainTimeout = ds_DrainTimeout d\<rparr>"

definition email_of :: "email_section \<Rightarrow> module_email" where
  "email_of e =
     \<lparr>mm_Enabled = es_Enabled e, mm_SMTPHost = es_SMTPHost e, mm_SMTPPort = es_SMTPPort e,
      mm_From = es_From e, mm_Username = es_Username e, mm_Timeout = es_Timeout e, mm_Password = es_Password e\<rparr>"

definition notificationConfig ::
  "('e id_world, 'priv, 't, 'h) app_env \<Rightarrow> app_config \<Rightarrow>
   ('e id_world, goerr + 'e id_world module_config) prog" where
  "notificationConfig E cfg =
     (let n = cf_Notification cfg;
          resolver = (if es_Enabled (ns_Email n) then Some (identityEmailResolver (rn_uuid (ae_rt E))) else None) in
      bindp (if ns_Enabled n
             then bindp (newAuthMiddleware E cfg) (\<lambda>r. retp (map_sum (\<lambda>err. err) Some r))
             else retp (Inr None)) (\<lambda>r.
      case r of
        Inl err \<Rightarrow> retp (Inl err)
      | Inr authMW \<Rightarrow>
          retp (Inr \<lparr>mo_Enabled = ns_Enabled n, mo_Dispatcher = dispatcher_of (ns_Dispatcher n),
            mo_Email = email_of (ns_Email n),
            mo_LogSender = \<lparr>ml_Enabled = ls_Enabled (ns_LogSender n), ml_Channel = ls_Channel (ns_LogSender n)\<rparr>,
            mo_Auth = authMW, mo_EmailAddressResolver = resolver\<rparr>)))"

section \<open>The application\<close>

definition app_deps ::
  "('e app_world, 'priv, 't, 'h) app_env \<Rightarrow> ('e app_world, 't, 'h) module_deps" where
  \<comment> \<open>\<open>module.Deps\<close> of the notification module, over the application's handle\<close>
  "app_deps E = (ae_notification E)\<lparr>dp_DB := Some (app_notifications, app_preferences)\<rparr>"

definition newSecurityNotifier ::
  "('e app_world, 'priv, 't, 'h) app_env \<Rightarrow> 'e app_world module_config \<Rightarrow>
   goerr + 'e app_world security_notifier" where
  "newSecurityNotifier E ncfg =
     (if \<not> mo_Enabled ncfg then Inr NopNotifier
      else case NewEnqueuer (app_deps E) (ae_uuid_New E) ncfg of
          Inl err \<Rightarrow> Inl (Errorf ''build notification enqueuer: %w'' [] [err])
        | Inr enq \<Rightarrow> Inr (SecurityNotifierAdapter (rn_uuid (ae_rt E)) enq log_line))"

definition identity_of :: "auth_section \<Rightarrow> 'w security_notifier \<Rightarrow> 'w identity_config" where
  "identity_of a notifier =
     \<lparr>ic_PrivateKeyPath = as_PrivateKeyPath a, ic_PublicKeyPath = as_PublicKeyPath a,
      ic_PreviousPublicKeyPath = as_PreviousPublicKeyPath a, ic_Issuer = as_Issuer a,
      ic_ClientID = as_ClientID a, ic_AccessTokenTTL = as_AccessTokenTTL a,
      ic_RefreshTokenTTL = as_RefreshTokenTTL a, ic_MFATemporaryTTL = as_MFATemporaryTTL a,
      ic_MaxFailedAttempts = as_MaxFailedAttempts a, ic_LockDuration = as_LockDuration a,
      ic_TokenLeeway = as_TokenLeeway a, ic_Notifier = Some notifier\<rparr>"

definition identity_module ::
  "('e app_world, 'priv, 't, 'h) app_env \<Rightarrow> app_config \<Rightarrow> 'e app_world security_notifier \<Rightarrow>
   ('e app_world, goerr + 'e app_world app_module) prog" where
  \<comment> \<open>\<open>identity.New\<close> as \<open>BuildApp\<close> calls it\<close>
  "identity_module E cfg notifier =
     bindp (NewIdentity (ae_rt E) (ae_identity E) (ae_files E) (ae_jwt E) (ae_bodies E)
              (AuditLogger (ae_err_text E) (Some (ae_audit E)) (ae_request_id E))
              (identity_of (cf_Auth cfg) notifier)) (\<lambda>r.
     retp (map_sum (\<lambda>err. err) (\<lambda>h. \<lparr>am_Name = ''identity'', am_Routes = AuthRoutes h, am_Close = None\<rparr>) r))"

definition newUserModule ::
  "('e app_world, 'priv, 't, 'h) app_env \<Rightarrow> app_config \<Rightarrow> ('e app_world, goerr + 'e app_world app_module) prog" where
  "newUserModule E cfg =
     bindp (newAuthMiddleware E cfg) (\<lambda>r.
     case r of
       Inl err \<Rightarrow> retp (Inl err)
     | Inr authMW \<Rightarrow>
         retp (map_sum (\<lambda>err. err) (\<lambda>h. \<lparr>am_Name = ''user'', am_Routes = UserRoutes h, am_Close = None\<rparr>)
           (NewUserModule app_profiles (rn_uuid (ae_rt E)) (ae_time_json E) (Some authMW))))"

definition BuildApp ::
  "('e app_world, 'priv, 't, 'h) app_env \<Rightarrow> app_config \<Rightarrow>
   ('e app_world, goerr + 'e app_world app_module list) prog" where
  "BuildApp E cfg =
     bindp (notificationConfig E cfg) (\<lambda>r.
     case r of
       Inl err \<Rightarrow> retp (Inl (Errorf ''build notification config: %w'' [] [err]))
     | Inr ncfg \<Rightarrow>
     (case newSecurityNotifier E ncfg of
       Inl err \<Rightarrow> retp (Inl (Errorf ''build security notifier: %w'' [] [err]))
     | Inr notifier \<Rightarrow>
     bindp (identity_module E cfg notifier) (\<lambda>r.
     case r of
       Inl err \<Rightarrow> retp (Inl (Errorf ''build identity module: %w'' [] [err]))
     | Inr identityMod \<Rightarrow>
     bindp (newUserModule E cfg) (\<lambda>r.
     case r of
       Inl err \<Rightarrow> retp (Inl (Errorf ''build user module: %w'' [] [err]))
     | Inr userMod \<Rightarrow>
     bindp (NewNotificationModule (app_deps E) ncfg) (\<lambda>r.
     case r of
       Inl err \<Rightarrow> retp (Inl (Errorf ''build notification module: %w'' [] [err]))
     | Inr notificationMod \<Rightarrow>
         let mods = [identityMod, userMod, notificationMod] in
         if length mods = 0
         then retp (Inl (New ''no modules registered: refusing to start an empty application''))
         else bindp (log_line (ModulesRegistered (map am_Name mods))) (\<lambda>_. retp (Inr mods)))))))"

end
