(* ===== verification/TokenDemo.thy ===== *)
theory TokenDemo
  imports Token IdentityDemo
begin

text \<open>
  A concrete JWT library (a list of the tokens it can seal), two small key pairs with their
  computed thumbprints, and services over them, for the witnesses of the token properties.
\<close>

type_synonym sealed = "(string \<times> map_claims \<times> map_claims \<times> rsa_public) list"

definition sealed_token :: "sealed \<Rightarrow> string \<Rightarrow> jwt_token option" where
  "sealed_token toks s =
     map_option (\<lambda>(h, c, p). \<lparr>jt_Method = rs256Alg, jt_Header = wire_claims h,
       jt_Claims = wire_claims c, jt_Valid = False\<rparr>) (map_of toks s)"

definition sealed_key :: "sealed \<Rightarrow> rsa_public \<Rightarrow> string \<Rightarrow> bool" where
  "sealed_key toks pub s \<longleftrightarrow> (case map_of toks s of None \<Rightarrow> False | Some (h, c, p) \<Rightarrow> p = pub)"

definition sealed_jwt :: "time \<Rightarrow> sealed \<Rightarrow> ('w, rsa_public) jwt_pkg" where
  "sealed_jwt now toks =
     \<lparr>jwt_SignedString = (\<lambda>hdr cl priv. retp
        (case find (\<lambda>(t, h, c, p). h = hdr \<and> c = cl \<and> p = priv) toks of
           None \<Rightarrow> Inl (New ''key is of invalid type'') | Some (t, _) \<Rightarrow> Inr t)),
      jwt_ParseWithClaims = (\<lambda>s kf opts. retp
        (case sealed_token toks s of
           None \<Rightarrow> Inl (New ''token is malformed'')
         | Some raw \<Rightarrow>
             (case kf raw of
                Inl e \<Rightarrow> Inl (Errorf ''token is unverifiable: %w'' [] [e])
              | Inr key \<Rightarrow>
                  if jt_Method raw \<in> set (po_ValidMethods opts) \<and> sealed_key toks key s \<and>
                     checks_out opts now (jt_Claims raw)
                  then Inr (raw\<lparr>jt_Valid := True\<rparr>) else Inl (New ''token has invalid claims'')))),
      jwt_Decode = sealed_token toks, jwt_Verifies = sealed_key toks\<rparr>"

lemma sealed_jwt_ok:
  assumes "distinct (map fst toks)"
  shows "jwt_pkg_ok (retp now) id (sealed_jwt now toks)"
  unfolding jwt_pkg_ok_def
proof (intro conjI)
  show "jwt_parse_sound (retp now) (sealed_jwt now toks)"
    by (auto simp: jwt_parse_sound_def sealed_jwt_def split: option.splits sum.splits if_splits)
  show "jwt_parse_complete (retp now) (sealed_jwt now toks)"
    by (auto simp: jwt_parse_complete_def sealed_jwt_def)
  show "jwt_sign_ok id (sealed_jwt now toks)"
    using assms
    by (auto simp: jwt_sign_ok_def sealed_jwt_def sealed_token_def sealed_key_def
        split: option.splits dest!: find_Some_mem dest: eq_key_imp_eq_value [OF assms])
qed

definition demo_old :: rsa_public where "demo_old = \<lparr>rsa_N = 33, rsa_E = 3\<rparr>"
definition demo_new :: rsa_public where "demo_new = \<lparr>rsa_N = 55, rsa_E = 3\<rparr>"

lemma demo_old_kid: "Kid \<lparr>rsa_N = 33, rsa_E = 3\<rparr> = ''NdiHVTIO6YKDlc0vuSL-g_ZNFI7QZZFTp-DWTZag_3k''"
  by code_simp

lemma demo_new_kid: "Kid \<lparr>rsa_N = 55, rsa_E = 3\<rparr> = ''ZiV5IXcz1SJv9Pu-6JJqg_MDD8JDetvqxQh28rJ-b6A''"
  by code_simp

lemma demo_kids_differ [simp]: "Kid demo_old \<noteq> Kid demo_new" "Kid demo_new \<noteq> Kid demo_old"
  by (simp_all add: demo_old_def demo_new_def demo_old_kid demo_new_kid)

definition demo_keys :: "rsa_public \<Rightarrow> rsa_public jwt_service" where
  "demo_keys pub =
     \<lparr>js_privateKey = pub, js_publicKey = pub, js_issuer = ''kopiochi'', js_audience = ''cli'',
      js_leeway = defaultLeeway, js_signingKid = Kid pub, js_verificationKeys = [(Kid pub, pub)]\<rparr>"

lemma demo_keys_sel [simp]:
  "js_privateKey (demo_keys pub) = pub" "js_publicKey (demo_keys pub) = pub"
  "js_issuer (demo_keys pub) = ''kopiochi''" "js_audience (demo_keys pub) = ''cli''"
  "js_leeway (demo_keys pub) = defaultLeeway" "js_signingKid (demo_keys pub) = Kid pub"
  "js_verificationKeys (demo_keys pub) = [(Kid pub, pub)]"
  by (simp_all add: demo_keys_def)

lemma demo_keys_ok: "service_ok id (demo_keys pub)"
  by (simp add: service_ok_def defaultLeeway_def ValidString_ascii byte_def)

definition demo_sealed :: sealed where
  "demo_sealed =
     [(''t'', [''typ'' \<mapsto> JString ''JWT'', ''alg'' \<mapsto> JString rs256Alg, ''kid'' \<mapsto> JString (Kid demo_old)],
       access_claims demo_uuid (demo_keys demo_old) demo_user 900000000000 3, demo_old)]"

definition demo_jwt :: "('w, rsa_public) jwt_pkg" where
  "demo_jwt = sealed_jwt 3 demo_sealed"

lemma demo_jwt_ok: "jwt_pkg_ok (retp 3) id demo_jwt"
  unfolding demo_jwt_def by (rule sealed_jwt_ok) (simp add: demo_sealed_def)

lemma demo_issue:
  "IssueAccessToken (retp 3) demo_uuid demo_jwt (demo_keys demo_old) demo_user 900000000000 w =
     (Ret (Inr ''t''), w)"
  by (simp add: IssueAccessToken_def sign_def Let_def Kid_nonempty demo_jwt_def sealed_jwt_def
      demo_sealed_def)

lemma demo_issued:
  "issued (retp 3 :: ('w, time) prog) demo_uuid demo_jwt (demo_keys demo_old) demo_user ClassAccess
     900000000003 ''t''"
proof -
  have "IssueAccessToken (retp 3) demo_uuid demo_jwt (demo_keys demo_old) demo_user 900000000000
      (undefined :: 'w) = (Ret (Inr ''t''), undefined)" by (rule demo_issue)
  then show ?thesis unfolding issued_def time_Add_def
    by (intro exI [of _ "undefined :: 'w"] exI [of _ 3] exI [of _ undefined] conjI disjI1 exI [of _ 900000000000])
      simp_all
qed

lemma demo_user_utf8: "utf8_user demo_uuid demo_user"
  by (simp add: utf8_user_def demo_uuid_def demo_user_def ValidString_ascii byte_def
      list_all_iff set_replicate_conv_if)

lemma demo_ending: "\<bar>Unix 900000000003\<bar> < 2 ^ 53" "1000000000 \<le> sint defaultLeeway"
  by (simp_all add: Unix_def defaultLeeway_def)

definition demo_files :: "('w, rsa_public) key_files" where
  "demo_files =
     \<lparr>kf_ReadFile = (\<lambda>path. retp (Inr [])), kf_pem_Decode = Some,
      kf_ParsePKCS1PrivateKey = (\<lambda>b. Inr demo_new),
      kf_ParsePKIXPublicKey = (\<lambda>b. Inr (Some demo_old))\<rparr>"

end
