(* ===== verification/AccessProps.thy ===== *)
theory AccessProps
  imports IdentityNew TokenDemo
begin

text \<open>
  The properties of the path from an issued token to a protected handler: what a guarded
  handler can rely on, what each kind of token opens, key rotation, and what leaves the
  service in an answer.
\<close>

section \<open>Guarded routes\<close>

definition demo_get :: "string \<Rightarrow> http_request" where
  "demo_get authorization =
     \<lparr>rq_Method = ''GET'', rq_Path = ''/p'', rq_Header = (\<lambda>k. if k = ''Authorization'' then [authorization] else []),
      rq_Query = (\<lambda>_. []), rq_URLParam = (\<lambda>_. []), rq_Cookies = [], rq_Body = Some [],
      rq_RemoteAddr = ''1.2.3.4:5'', rq_RequestID = ''r1'', rq_ClientIP = None, rq_Principal = None,
      rq_Logger = None\<rparr>"

definition demo_bodies :: auth_bodies where
  "demo_bodies =
     \<lparr>ab_Login = (\<lambda>b. (\<lparr>lr_Username = b, lr_Password = b\<rparr>, None)), ab_MfaVerifySetup = (\<lambda>b. (b, None)),
      ab_MfaVerify = (\<lambda>b. (\<lparr>mv_Code = b, mv_BackupCode = []\<rparr>, None)), ab_Refresh = (\<lambda>b. (''t1'', None))\<rparr>"

definition demo_auth_handler :: "unit id_world auth_handler" where
  "demo_auth_handler =
     \<lparr>ah_svc = service_api demo_runtime demo_auth, ah_refreshTTL = 100,
      ah_authMW = AuthRequired demo_issuer, ah_keys = None, ah_bodies = demo_bodies\<rparr>"

text \<open>
  C6. A handler behind \<open>AuthRequired\<close> runs only for a request whose bearer token is an RS256
  token signed under a key the service holds, with its issuer and audience, of class access,
  not expired beyond the leeway and with a subject, and that subject is the principal it sees.
  Every other request gets the one canonical 401, and nothing else happens.
\<close>

theorem guarded_needs_token:
  assumes "jwt_pkg_ok Now public_half J" and "service_ok public_half s"
    and "Now (wb_World w) = (Ret now, wb_World w)"
  shows "AuthRequired (JWTService Now U J s) nxt r w = Unauthorized r w \<or>
    (\<exists>tok c. get_first (rq_Header r) ''Authorization'' = ''Bearer '' @ tok \<and>
       vouched J s now tok c \<and> cl_Class c = ClassAccess \<and> cl_Subject c \<noteq> [] \<and>
       AuthRequired (JWTService Now U J s) nxt r w =
         nxt (WithPrincipal r \<lparr>pl_Subject = cl_Subject c, pl_Scopes = None, pl_Extra = None\<rparr>) w)"
proof (cases "has_prefix (get_first (rq_Header r) ''Authorization'') ''Bearer ''")
  case False
  then show ?thesis by (simp add: AuthRequired_def Let_def)
next
  case True
  let ?header = "get_first (rq_Header r) ''Authorization''"
  let ?tok = "trim_prefix ?header ''Bearer ''"
  have header: "?header = ''Bearer '' @ ?tok"
    using True by (metis append_take_drop_id has_prefix_def trim_prefix_def)
  from Validate_returns [OF assms] obtain x where
    run: "Validate J s ?tok ClassAccess (wb_World w) = (Ret x, wb_World w)" by blast
  then have step: "AuthRequired (JWTService Now U J s) nxt r w =
      (case x of Inl err \<Rightarrow> Unauthorized r
       | Inr c \<Rightarrow> if cl_Subject c = [] then Unauthorized r
           else nxt (WithPrincipal r \<lparr>pl_Subject = cl_Subject c, pl_Scopes = None, pl_Extra = None\<rparr>)) w"
    using True
    by (simp add: AuthRequired_def Let_def JWTService_def bindp_def in_world_def)
  show ?thesis
  proof (cases x)
    case (Inl err)
    with step show ?thesis by simp
  next
    case (Inr c)
    with Validate_vouched [OF assms run [unfolded Inr]] step header show ?thesis
      by (cases "cl_Subject c = []") auto
  qed
qed

text \<open>
  C25. A token the service issued for a user opens exactly what its class is for: until its
  lifetime ends it validates as its own class, with the user as subject and the same expiry,
  and as any other class it is refused as a token of the wrong class.
\<close>

theorem issued_token_single_purpose:
  assumes "jwt_pkg_ok Now public_half J" and "service_ok public_half s" and "utf8_user U u"
    and "issued Now U J s u cls ending tok"
    and "\<bar>Unix ending\<bar> < 2 ^ 53" and "1000000000 \<le> sint (js_leeway s)"
    and "Now w = (Ret now, w)" and "now < ending"
  shows "\<exists>r. Validate J s tok want w = (Ret r, w) \<and>
    (if want = cls
     then \<exists>c. r = Inr c \<and> cl_Subject c = uuid_String U (u_ID u) \<and> cl_Class c = cls \<and>
            cl_ExpiresAt c = Unix ending
     else \<exists>e. r = Inl e \<and> errors_Is e ErrWrongTokenClass)"
  using issued_validates [OF assms(1,2,2,3,4) _ _ _ assms(5,6,7,8)] service_okD(3) [OF assms(2)]
  by simp

text \<open>
  A key rotation with the previous key configured keeps every token alive: a token the
  old service issued validates at the new one until its lifetime ends; the new service signs
  with its own key and publishes both. Without the previous key the same token is refused.
\<close>

theorem rotation_keeps_sessions:
  assumes "jwt_pkg_ok Now public_half J" and "service_ok public_half old" and "service_ok public_half new"
    and "js_issuer new = js_issuer old" and "js_audience new = js_audience old"
    and "js_verificationKeys new = [(js_signingKid new, js_publicKey new)]"
    and "loadRSAPublicKey F path w0 = (Ret (Inr (js_publicKey old)), w1)"
    and "WithPreviousKey F new path w0 = (Ret (None, new'), w2)"
    and "utf8_user U u" and "issued Now U J old u cls ending tok"
    and "\<bar>Unix ending\<bar> < 2 ^ 53" and "1000000000 \<le> sint (js_leeway new)"
    and "Now w = (Ret now, w)" and "now < ending"
  shows "(\<exists>c. Validate J new' tok cls w = (Ret (Inr c), w) \<and>
      cl_Subject c = uuid_String U (u_ID u)) \<and>
    js_privateKey new' = js_privateKey new \<and> js_signingKid new' = js_signingKid new \<and>
    toJWK (js_publicKey old) \<in> set (JWKS new') \<and> toJWK (js_publicKey new) \<in> set (JWKS new') \<and>
    Validate J new tok want w \<noteq> (Ret (Inr d), w')"
proof (intro conjI)
  note ok = service_okD [OF assms(2)] service_okD [OF assms(3)]
  have new': "new' = new\<lparr>js_verificationKeys :=
      AList.update (js_signingKid old) (js_publicKey old) (js_verificationKeys new)\<rparr>"
    and kids: "js_signingKid old \<noteq> js_signingKid new"
    using assms(7,8) ok(2) by (auto simp: WithPreviousKey_def bindp_def Let_def split: if_splits)
  from WithPreviousKey_ok(1) [OF assms(3,8)] have "service_ok public_half new'" .
  from issued_validates [OF assms(1,2) this assms(9,10) _ _ _ assms(11) _ assms(13,14), of cls]
  show "\<exists>c. Validate J new' tok cls w = (Ret (Inr c), w) \<and> cl_Subject c = uuid_String U (u_ID u)"
    using assms(4,5,12) by (auto simp: new' update_conv')
  show "js_privateKey new' = js_privateKey new" "js_signingKid new' = js_signingKid new"
    by (simp_all add: new')
  show "toJWK (js_publicKey old) \<in> set (JWKS new')" "toJWK (js_publicKey new) \<in> set (JWKS new')"
    using kids by (auto simp: new' JWKS_def assms(6))
  from issued_minted [OF assms(1,2,9,10)] obtain cl where "minted J old cl tok" .
  from Validate_unknown_key [OF assms(1,3,13) this]
  show "Validate J new tok want w \<noteq> (Ret (Inr d), w')"
    using kids by (simp add: assms(6))
qed

theorem guarded_needs_token_witness:
  "\<exists>tok c. vouched (demo_jwt :: (unit, rsa_public) jwt_pkg) (demo_keys demo_old) 3 tok c \<and> cl_Class c = ClassAccess \<and>
     cl_Subject c \<noteq> [] \<and>
     AuthRequired (JWTService (retp 3) demo_uuid demo_jwt (demo_keys demo_old))
       (\<lambda>r. WriteHeader 204) (demo_get (''Bearer t'')) \<lparr>wb_Writer = fresh_writer, wb_World = ()\<rparr> =
       WriteHeader 204 \<lparr>wb_Writer = fresh_writer, wb_World = ()\<rparr>"
proof -
  let ?w = "\<lparr>wb_Writer = fresh_writer, wb_World = ()\<rparr>"
  let ?ti = "JWTService (retp 3) demo_uuid demo_jwt (demo_keys demo_old)"
  have "\<exists>c. Validate demo_jwt (demo_keys demo_old) ''t'' ClassAccess () = (Ret (Inr c), ()) \<and>
      cl_Subject c = uuid_String demo_uuid (u_ID demo_user) \<and> cl_Class c = ClassAccess \<and>
      cl_ExpiresAt c = Unix 900000000003"
    using issued_validates [OF demo_jwt_ok demo_keys_ok demo_keys_ok demo_user_utf8 demo_issued, of demo_old "()" 3 ClassAccess]
      demo_ending by auto
  then obtain c where c: "Validate demo_jwt (demo_keys demo_old) ''t'' ClassAccess () = (Ret (Inr c), ())"
    "cl_Subject c \<noteq> []" using demo_uuid_ok by auto
  have run: "AuthRequired ?ti (\<lambda>r. WriteHeader 204) (demo_get ''Bearer t'') ?w = WriteHeader 204 ?w"
    using c by (simp add: AuthRequired_def Let_def JWTService_def bindp_def in_world_def
        demo_get_def get_first_def has_prefix_def trim_prefix_def)
  moreover have "WriteHeader 204 ?w \<noteq> Unauthorized (demo_get ''Bearer t'') ?w"
    by (simp add: Unauthorized_def WriteProblem_def web_ops bindp_def Let_def fresh_writer_def)
  ultimately show ?thesis
    using guarded_needs_token [OF demo_jwt_ok demo_keys_ok [of demo_old], where w = ?w and U = demo_uuid
        and nxt = "\<lambda>r. WriteHeader 204" and r = "demo_get ''Bearer t''" and now = 3]
    by auto
qed

theorem issued_token_single_purpose_witness:
  "\<exists>c e. Validate demo_jwt (demo_keys demo_old) ''t'' ClassAccess () = (Ret (Inr c), ()) \<and>
     Validate demo_jwt (demo_keys demo_old) ''t'' ClassMFA () = (Ret (Inl e), ()) \<and>
     errors_Is e ErrWrongTokenClass"
proof -
  note step = issued_token_single_purpose
    [OF demo_jwt_ok demo_keys_ok demo_user_utf8 demo_issued demo_ending(1), of "()" 3]
  from step [of ClassAccess] step [of ClassMFA] demo_ending(2) show ?thesis
    by (simp add: class_defs) blast
qed

theorem rotation_keeps_sessions_witness:
  "\<exists>new' c. WithPreviousKey demo_files (demo_keys demo_new) ''old.pem'' () = (Ret (None, new'), ()) \<and>
     Validate demo_jwt new' ''t'' ClassAccess () = (Ret (Inr c), ()) \<and>
     Validate demo_jwt (demo_keys demo_new) ''t'' ClassAccess () \<noteq> (Ret (Inr c), ())"
proof -
  have load: "loadRSAPublicKey demo_files ''old.pem'' () = (Ret (Inr (js_publicKey (demo_keys demo_old))), ())"
    by (simp add: loadRSAPublicKey_def demo_files_def)
  obtain new' where add: "WithPreviousKey demo_files (demo_keys demo_new) ''old.pem'' () = (Ret (None, new'), ())"
    using load by (simp add: WithPreviousKey_def bindp_def Let_def)
  from rotation_keeps_sessions [OF demo_jwt_ok demo_keys_ok demo_keys_ok _ _ _ load add demo_user_utf8
      demo_issued demo_ending(1), of "()" 3 ClassAccess]
  show ?thesis using add demo_ending(2) by auto
qed

section \<open>What an answer carries\<close>

lemma token_json_no_refresh:
  "\<exists>kvs. token_json (t\<lparr>tr_RefreshToken := []\<rparr>) = JObj kvs \<and> ''refresh_token'' \<notin> fst ` set kvs"
  by (simp add: token_json_def omitempty_def)

definition oauth_error :: "string \<Rightarrow> string \<Rightarrow> json" where
  "oauth_error code description = JObj [(''error'', JStr code), (''error_description'', JStr description)]"

text \<open>
  C26. The refresh endpoint hands a new refresh token out in one place only, an HttpOnly, Secure,
  SameSite=Strict cookie, never in the body; a refused token gets the same 400 whatever the
  reason for the refusal, and any other failure a 500 that says nothing; neither touches the
  cookie.
\<close>

theorem refresh_endpoint_answers:
  assumes "ah_svc h = service_api rt s" and "wb_Writer w = fresh_writer"
    and "presented_token h r \<noteq> []"
    and "Refresh rt s (presented_token h r) (wb_World w) = (Ret res, x)"
  shows "\<exists>w' status hdr v. HandleRefresh h r w = (Ret (), w') \<and> wb_World w' = x \<and>
    answered (wb_Writer w') = (status, hdr, [BJson v]) \<and>
    (case res of
       Inr t \<Rightarrow> status = 200 \<and> v = token_json (t\<lparr>tr_RefreshToken := []\<rparr>) \<and>
         (\<exists>kvs. v = JObj kvs \<and> ''refresh_token'' \<notin> fst ` set kvs) \<and>
         (\<exists>c. hd_Cookies hdr = [c] \<and> ck_Value c = tr_RefreshToken t \<and> ck_HttpOnly c \<and>
            ck_Secure c \<and> ck_SameSite c = ''Strict'')
     | Inl e \<Rightarrow> hd_Cookies hdr = [] \<and>
         (if errors_Is e ErrRefreshTokenInvalid
          then status = 400 \<and> v = oauth_error ''invalid_grant'' ''Invalid or expired refresh token''
          else status = 500 \<and> v = JObj [(''type'', JStr ''internal_error''), (''title'', JStr ''Internal error''),
            (''status'', JNum 500), (''detail'', JStr [])]))"
proof -
  have step: "HandleRefresh h r w = (case res of
      Inl e \<Rightarrow> if errors_Is e ErrRefreshTokenInvalid
        then writeOAuth2Error ''invalid_grant'' ''Invalid or expired refresh token'' 400
        else writeProblemDetails ''internal_error'' ''Internal error'' 500 []
    | Inr resp \<Rightarrow> hand_over_tokens h resp) (w\<lparr>wb_World := x\<rparr>)"
    using assms by (simp add: HandleRefresh_def Let_def service_api_def in_world_def bindp_def)
  show ?thesis
  proof (cases res)
    case (Inl e)
    with step assms(2) show ?thesis
      by (cases "errors_Is e ErrRefreshTokenInvalid")
        (simp_all add: writeOAuth2Error_def writeProblemDetails_def web_ops bindp_def
          fresh_writer_def answered_def omitempty_def oauth_error_def)
  next
    case (Inr t)
    with step assms(2) token_json_no_refresh [of t] show ?thesis
      by (simp add: hand_over_tokens_def setRefreshCookie_def refresh_cookie_def writeJSON_def
          web_ops bindp_def fresh_writer_def answered_def)
  qed
qed

theorem refresh_endpoint_answers_witness:
  "\<exists>w' hdr. HandleRefresh demo_auth_handler (demo_get [])
       \<lparr>wb_Writer = fresh_writer, wb_World = demo_world\<rparr> = (Ret (), w') \<and>
     answered (wb_Writer w') =
       (400, hdr, [BJson (oauth_error ''invalid_grant'' ''Invalid or expired refresh token'')]) \<and>
     hd_Cookies hdr = []"
proof -
  let ?t = "fromRefreshRow demo_uuid demo_spent_row"
  have sel: "rt_TokenHash ?t = HashToken ''t1''" by (simp add: fromRefreshRow_def demo_spent_row_def)
  have "?t \<in> set (tokens_of demo_uuid demo_world)" by (simp add: demo_tokens)
  from Refresh_spent [OF demo_wired demo_healthy demo_inv demo_families this demo_live(1) sel]
  obtain w1 where run: "Refresh demo_runtime demo_auth ''t1'' demo_world = (Ret (Inl ErrRefreshTokenInvalid), w1)"
    by (auto simp: NopAuditor_def)
  have tok: "presented_token demo_auth_handler (demo_get []) = ''t1''"
    by (simp add: presented_token_def demo_auth_handler_def demo_get_def demo_bodies_def Let_def)
  have svc: "ah_svc demo_auth_handler = service_api demo_runtime demo_auth"
    by (simp add: demo_auth_handler_def)
  from refresh_endpoint_answers [OF svc, of "\<lparr>wb_Writer = fresh_writer, wb_World = demo_world\<rparr>" "demo_get []"]
  show ?thesis using run tok by fastforce
qed

end
