(* ===== verification/EdgeProps.thy ===== *)
theory EdgeProps
  imports Router
begin

text \<open>
  The properties of the HTTP edge: the rate limiter, the attribution of a request to a client,
  the CORS policy, the configuration that builds the router and the fate of a panic.
\<close>

section \<open>A concrete edge\<close>

definition demo_net :: net_pkg where
  \<comment> \<open>addresses written as one character, no ports\<close>
  "demo_net =
     \<lparr>np_ParseAddr = (\<lambda>s. case s of [c] \<Rightarrow> Some (IPv4 (of_char c)) | _ \<Rightarrow> None),
      np_String = (\<lambda>a. case a of IPv4 w \<Rightarrow> [char_of (unat w)] | IPv6 w z \<Rightarrow> z),
      np_ParsePrefix = (\<lambda>s. case s of [c] \<Rightarrow> Some (Prefix (IPv4 (of_char c)) 32) | _ \<Rightarrow> None),
      np_SplitHostPort = (\<lambda>s. Some s)\<rparr>"

definition demo_edge :: "unit edge_pkg" where
  "demo_edge =
     \<lparr>ep_RequestID = (\<lambda>nxt r. nxt (r\<lparr>rq_RequestID := ''r1''\<rparr>)), ep_Timeout = (\<lambda>d nxt. nxt),
      ep_Now = retp 7, ep_size = (\<lambda>_. 1), ep_unicode = (\<lambda>s. s), ep_net = demo_net\<rparr>"

definition demo_cors :: cors_config where
  "demo_cors =
     \<lparr>cc_Enabled = True, cc_AllowedOrigins = [''https://App''], cc_AllowedMethods = [], cc_AllowedHeaders = [],
      cc_AllowCredentials = True, cc_MaxAge = 0\<rparr>"

definition demo_limits :: rate_limit_config where
  "demo_limits = \<lparr>rc_Enabled = True, rc_Rate = 60, rc_Burst = 2, rc_TTL = 100, rc_MaxKeys = 3\<rparr>"

definition demo_srv :: server_config where
  "demo_srv =
     \<lparr>sv_Host = ''h'', sv_Port = 80, sv_ReadTimeout = 1, sv_ReadHeaderTimeout = 1, sv_WriteTimeout = 1,
      sv_IdleTimeout = 1, sv_ShutdownTimeout = 1, sv_RequestTimeout = 1, sv_TrustedProxies = [''p''],
      sv_EnableHSTS = False\<rparr>"

definition demo_request :: http_request where
  "demo_request =
     \<lparr>rq_Method = ''GET'', rq_Path = ''/p'',
      rq_Header = (\<lambda>k. if k = ''Origin'' then [''https://app''] else if k = ''X-Forwarded-For'' then [''x,c,p''] else []),
      rq_Query = (\<lambda>_. []), rq_URLParam = (\<lambda>_. []), rq_Cookies = [], rq_Body = None,
      rq_RemoteAddr = ''p'', rq_RequestID = [], rq_ClientIP = None, rq_Principal = None, rq_Logger = None\<rparr>"

definition demo_limiter :: "(string \<times> bucket) list \<Rightarrow> limiter" where
  "demo_limiter bs = \<lparr>lm_rate = 1, lm_burst = 2, lm_ttl = 100, lm_maxKeys = 3, lm_buckets = bs\<rparr>"

definition demo_web :: "(string \<times> bucket) list \<Rightarrow> unit edge_world web" where
  "demo_web bs =
     \<lparr>wb_Writer = fresh_writer,
      wb_World = \<lparr>ew_limiter = demo_limiter bs,
        ew_metrics = \<lparr>mt_requests = (\<lambda>_. 0), mt_duration = (\<lambda>_. []), mt_inFlight = 0\<rparr>,
        ew_lines = [], ew_panics = [], ew_Pattern = Some [], ew_env = ()\<rparr>\<rparr>"

lemma demo_edge_ok: "edge_ok demo_edge"
proof -
  have [simp]: "x\<lparr>ew_env := ()\<rparr> = x" for x :: "unit edge_world" by (cases x) simp
  show ?thesis
    by (auto simp: edge_ok_def demo_edge_def clock_ok_def request_id_ok_def timeout_ok_def)
qed

lemma fl_one [simp]: "fl 1 = 1"
  using fl_int [of 1] by simp

lemma demo_limiter_new: "NewRateLimiter demo_limits = Inr (demo_limiter [])"
  by (simp add: NewRateLimiter_def demo_limits_def demo_limiter_def)

definition demo_security :: security_config where
  "demo_security = \<lparr>se_CORS = demo_cors, se_RateLimit = demo_limits\<rparr>"

definition demo_chain :: "unit edge_world middleware list" where
  "demo_chain = core_stack demo_edge demo_srv @ [metrics_middleware (retp 7) (\<lambda>_. 1)] @
     [CORS (\<lambda>s. s) demo_cors] @ [limiter_middleware demo_edge demo_limits]"

lemma demo_router: "NewRouter demo_edge demo_srv demo_security True [] = Inr (demo_chain, Some (demo_limiter []))"
  by (simp add: NewRouter_def demo_security_def demo_chain_def Let_def demo_limiter_new)
    (simp add: demo_cors_def demo_limits_def demo_edge_def)

lemma demo_client: "clientKey demo_net (attributed demo_edge demo_srv demo_request) = ''c''"
  by code_simp

section \<open>Panics\<close>

lemma timeout_ends:
  assumes "timeout_ok T" and "nxt r w = (x, w')"
  shows "T nxt r w = (x, w') \<or> T nxt r w = (x, snd (WriteHeader 504 w'))"
  using assms(1) unfolding timeout_ok_def by (metis (no_types, lifting) assms(2) case_prod_conv)

lemma timeout_answered:
  assumes "timeout_ok T" and "nxt r w = (x, w')" and "rw_Sent (wb_Writer w') = Some s"
  shows "\<exists>w''. T nxt r w = (x, w'') \<and> rw_Sent (wb_Writer w'') = rw_Sent (wb_Writer w') \<and>
    wb_World w'' = wb_World w'"
proof -
  let ?late = "snd (WriteHeader 504 w')"
  have "rw_Sent (wb_Writer ?late) = rw_Sent (wb_Writer w') \<and> wb_World ?late = wb_World w'"
    using assms(3) by (simp add: WriteHeader_def on_writer_def commit_status_def)
  with timeout_ends [of T nxt r w x w', OF assms(1,2)] show ?thesis by blast
qed

lemma WriteProblem_sent:
  assumes "rw_Sent (wb_Writer w) = None" and "rw_Body (wb_Writer w) = []"
  shows "\<exists>w' hd. WriteProblem r status typ title detail w = (Ret (), w') \<and>
    rw_Sent (wb_Writer w') = Some (status, hd) \<and>
    rw_Body (wb_Writer w') = [BJson (problem_json \<lparr>pb_Type = typ, pb_Title = title, pb_Status = status,
      pb_Detail = detail, pb_Instance = rq_Path r, pb_RequestID = rq_RequestID r\<rparr>)] \<and>
    hd_Fields hd = (hfields w)(''Content-Type'' := [ProblemContentType], ''X-Content-Type-Options'' := [''nosniff'']) \<and>
    wb_World w' = wb_World w"
  using assms
  by (simp add: WriteProblem_def header_Set_bind Let_def)
    (simp add: web_ops bindp_def set_fields_def)

lemma secured_key [simp]:
  "secured hsts path h ''X-Content-Type-Options'' = [''nosniff'']"
  "secured hsts path h ''X-Frame-Options'' = [''DENY'']"
  "secured hsts path h ''Referrer-Policy'' = [''no-referrer'']"
  by (simp_all add: secured_def Let_def)

text \<open>
  C27. A panic below the router is contained: whatever the request, the chain returns, the
  answer is a 500 problem document without the panic's text (or the bare 504 when the request
  timed out first), it carries the security headers, and the panic is logged once. The line is
  written by the logger of the request as it came in, so without the id and the address that
  the inner middleware binds, and neither the request logger nor the metrics record the request.
\<close>

theorem panic_contained:
  assumes "edge_ok E" and built: "NewRouter E srv sec metrics [] = Inr (chain, built)"
    and h: "panicky m (\<lambda>_ _. True) h" "m \<noteq> ErrAbortHandler"
    and fresh: "rw_Sent (wb_Writer w) = None" "rw_Body (wb_Writer w) = []"
    and reaches: "reaches E sec (attributed E srv r) (ew_limiter (wb_World w))"
  shows "\<exists>w' code hd. through chain h r w = (Ret (), w') \<and> rw_Sent (wb_Writer w') = Some (code, hd) \<and>
    ((code = 504 \<and> rw_Body (wb_Writer w') = []) \<or>
     (code = 500 \<and> (\<exists>reqID. rw_Body (wb_Writer w') = [BJson (problem_json
       \<lparr>pb_Type = ''internal_error'', pb_Title = ''Internal Server Error'', pb_Status = 500,
        pb_Detail = ''An unexpected error occurred.'', pb_Instance = rq_Path r, pb_RequestID = reqID\<rparr>)]))) \<and>
    hd_Fields hd ''X-Content-Type-Options'' = [''nosniff''] \<and> hd_Fields hd ''X-Frame-Options'' = [''DENY''] \<and>
    hd_Fields hd ''Referrer-Policy'' = [''no-referrer''] \<and>
    ew_panics (wb_World w') = ew_panics (wb_World w) @ [line_of r m] \<and>
    ew_lines (wb_World w') = ew_lines (wb_World w) \<and> ew_metrics (wb_World w') = ew_metrics (wb_World w)"
proof -
  let ?rest = "through (if metrics then [metrics_middleware (ep_Now E) (ep_size E)] else [])
        (through (if cc_Enabled (se_CORS sec) then [CORS (ep_unicode E) (se_CORS sec)] else [])
          (through (if rc_Enabled (se_RateLimit sec) then [limiter_middleware E (se_RateLimit sec)] else []) h))"
  let ?inner = "RequestLogger (ep_Now E) (ep_size E) ?rest"
  let ?timed = "ep_Timeout E (sv_RequestTimeout srv) ?inner"
  obtain reqID w1 w2 nxt where start: "through (core_stack E srv) ?rest r w = Recovery log_panic nxt (r\<lparr>rq_RequestID := reqID\<rparr>) w1"
    and step: "nxt (r\<lparr>rq_RequestID := reqID\<rparr>) w1 = ?timed ((attributed E srv r)\<lparr>rq_RequestID := reqID\<rparr>) w2"
    and w2: "rw_Calls (wb_Writer w1) = rw_Calls (wb_Writer w2)" "rw_Sent (wb_Writer w2) = rw_Sent (wb_Writer w)"
      "rw_Body (wb_Writer w2) = rw_Body (wb_Writer w)" "\<exists>e. wb_World w2 = (wb_World w)\<lparr>ew_env := e\<rparr>"
      "\<forall>k. k \<noteq> ''X-Request-Id'' \<longrightarrow> hfields w2 k = secured (sv_EnableHSTS srv) (rq_Path r) (hfields w) k"
    by (rule core_start [OF assms(1)])
  have start: "through chain h r w = Recovery log_panic nxt (r\<lparr>rq_RequestID := reqID\<rparr>) w1"
    unfolding NewRouter_chain [OF built] using start by (simp only: through_append through_Nil append_Nil2)
  let ?r1 = "r\<lparr>rq_RequestID := reqID\<rparr>" and ?r2 = "(attributed E srv r)\<lparr>rq_RequestID := reqID\<rparr>"
  have "reaches E sec ?r2 (ew_limiter (wb_World w2))"
    using reaches w2(4) reaches_requestID [of E sec reqID "attributed E srv r"] by auto
  then obtain w3 where run: "?inner ?r2 w2 = (Panics m, w3)" and w3: "unanswered w2 w3"
    using panickyD [OF inner_panicky [OF assms(1) h(1)]] by blast
  have kept: "rw_Sent (wb_Writer w3) = None" "rw_Body (wb_Writer w3) = []"
      "rw_Calls (wb_Writer w3) = rw_Calls (wb_Writer w1)"
      "ew_panics (wb_World w3) = ew_panics (wb_World w)" "ew_lines (wb_World w3) = ew_lines (wb_World w)"
      "ew_metrics (wb_World w3) = ew_metrics (wb_World w)"
      "hfields w3 ''X-Content-Type-Options'' = [''nosniff'']" "hfields w3 ''X-Frame-Options'' = [''DENY'']"
      "hfields w3 ''Referrer-Policy'' = [''no-referrer'']"
    using w2 w3 fresh by (auto simp: unanswered_def security_keys_def)
  have timed: "?timed ?r2 w2 = (Panics m, w3) \<or>
      ?timed ?r2 w2 = (Panics m, snd (WriteHeader 504 w3))"
    by (rule timeout_ends [of _ ?inner ?r2 w2, OF _ run]) (use assms(1) in \<open>simp add: edge_ok_def\<close>)
  from timed show ?thesis
  proof
    assume t: "?timed ?r2 w2 = (Panics m, w3)"
    with Recovery_run [of nxt ?r1 w1 m w3, OF trans [OF step t] h(2)] start kept(3)
    have "through chain h r w = WriteProblem ?r1 500 ''internal_error'' ''Internal Server Error''
        ''An unexpected error occurred.'' (with_panic (line_of r m) w3)"
      by (simp add: line_of_def)
    with kept WriteProblem_sent [of "with_panic (line_of r m) w3" ?r1 500 "''internal_error''"
        "''Internal Server Error''" "''An unexpected error occurred.''"]
    show ?thesis by (auto simp: with_panic_def hfields_def)
  next
    assume t: "?timed ?r2 w2 = (Panics m, snd (WriteHeader 504 w3))"
    with Recovery_run [of nxt ?r1 w1 m "snd (WriteHeader 504 w3)", OF trans [OF step t] h(2)] start kept(3)
    have "through chain h r w = (Ret (), with_panic (line_of r m) (snd (WriteHeader 504 w3)))"
      by (simp add: line_of_def WriteHeader_def on_writer_def commit_status_def)
    with kept show ?thesis
      by (simp add: with_panic_def WriteHeader_def on_writer_def commit_status_def hfields_def)
  qed
qed

lemma demo_preflight: "\<not> is_preflight demo_request"
  by (simp add: is_preflight_def demo_request_def)

theorem panic_contained_witness:
  "\<exists>w' code hd. through demo_chain (\<lambda>r. panicp ''boom'') demo_request (demo_web []) = (Ret (), w') \<and>
     rw_Sent (wb_Writer w') = Some (code, hd) \<and> code \<in> {500, 504} \<and>
     ew_panics (wb_World w') = [line_of demo_request ''boom''] \<and> ew_lines (wb_World w') = []"
proof -
  have "panicky ''boom'' (\<lambda>_ _. True) (\<lambda>r. panicp ''boom'')" by (simp add: panicky_def)
  moreover have "reaches demo_edge demo_security (attributed demo_edge demo_srv demo_request)
      (ew_limiter (wb_World (demo_web [])))"
  proof -
    have "\<exists>n d l'. allow ''c'' t (demo_limiter []) = (Verdict True n d, l')" for t
      by (simp add: allow_def demo_limiter_def take_token_def Let_def)
    then show ?thesis
      using demo_client
      by (simp add: reaches_def admitted_def demo_preflight demo_web_def) (simp add: demo_edge_def)
  qed
  ultimately show ?thesis
    using panic_contained [OF demo_edge_ok demo_router, of "''boom''" "\<lambda>r. panicp ''boom''" "demo_web []" demo_request]
    by (auto simp: demo_web_def fresh_writer_def ErrAbortHandler_def)
qed

section \<open>Refusals\<close>

lemma cors_grants_at:
  "k \<in> {''Access-Control-Allow-Origin'', ''Access-Control-Allow-Credentials''} \<Longrightarrow> h k = g k \<Longrightarrow>
   cors_grants unicode cfg origin h k = cors_grants unicode cfg origin g k"
  by (auto simp: cors_grants_def Let_def)

text \<open>
  C28. A request the rate limiter refuses is visible to everyone who should see it: whatever
  the handler, it is answered 429 without running it, a cross-origin caller still gets exactly
  the grant its origin has, the security headers are there, and the refusal is counted by method,
  route and status and logged once as a warning with the client's address.
\<close>

theorem refusal_is_visible:
  assumes "edge_ok E" and built: "NewRouter E srv sec True mw = Inr (chain, built)"
    and "cc_Enabled (se_CORS sec)" and "rc_Enabled (se_RateLimit sec)"
    and "wb_Writer w = fresh_writer" and "\<not> is_preflight r"
    and "refused E (attributed E srv r) (ew_limiter (wb_World w))"
  shows "\<exists>w' hd line. through chain h r w = (Ret (), w') \<and> rw_Sent (wb_Writer w') = Some (429, hd) \<and>
    (\<forall>k \<in> {''Access-Control-Allow-Origin'', ''Access-Control-Allow-Credentials''}.
       hd_Fields hd k = cors_grants (ep_unicode E) (se_CORS sec) (get_first (rq_Header r) ''Origin'') (\<lambda>_. []) k) \<and>
    hd_Fields hd ''X-Content-Type-Options'' = [''nosniff''] \<and>
    ew_lines (wb_World w') = ew_lines (wb_World w) @ [line] \<and> rl_Status line = 429 \<and> rl_Level line = LogWarn \<and>
    snd (rl_Logger line) = ClientIP (attributed E srv r) \<and>
    counted (rq_Method r) (routePattern (wb_World w)) 429 (ew_metrics (wb_World w)) (ew_metrics (wb_World w'))"
proof -
  let ?grants = "\<lambda>r. cors_grants (ep_unicode E) (se_CORS sec) (get_first (rq_Header r) ''Origin'')"
  let ?limited = "limiter_middleware E (se_RateLimit sec) (through mw h)"
  let ?open = "CORS (ep_unicode E) (se_CORS sec) ?limited"
  let ?measured = "metrics_middleware (ep_Now E) (ep_size E) ?open"
  let ?inner = "RequestLogger (ep_Now E) (ep_size E) ?measured"
  let ?timed = "ep_Timeout E (sv_RequestTimeout srv) ?inner"
  have now: "clock_ok (ep_Now E)" and timeout: "timeout_ok (ep_Timeout E (sv_RequestTimeout srv))"
    using assms(1) by (simp_all add: edge_ok_def)
  obtain reqID w1 w2 nxt where start: "through (core_stack E srv) ?measured r w = Recovery log_panic nxt (r\<lparr>rq_RequestID := reqID\<rparr>) w1"
    and step: "nxt (r\<lparr>rq_RequestID := reqID\<rparr>) w1 = ?timed ((attributed E srv r)\<lparr>rq_RequestID := reqID\<rparr>) w2"
    and w2: "rw_Sent (wb_Writer w2) = rw_Sent (wb_Writer w)" "\<exists>e. wb_World w2 = (wb_World w)\<lparr>ew_env := e\<rparr>"
      "\<forall>k. k \<noteq> ''X-Request-Id'' \<longrightarrow> hfields w2 k = secured (sv_EnableHSTS srv) (rq_Path r) (hfields w) k"
    by (rule core_start [OF assms(1)])
  have start: "through chain h r w = Recovery log_panic nxt (r\<lparr>rq_RequestID := reqID\<rparr>) w1"
    unfolding NewRouter_chain [OF built] using start assms(3,4)
    by (simp only: through_append through_Cons through_Nil if_True)
  let ?r = "(attributed E srv r)\<lparr>rq_RequestID := reqID\<rparr>"
  have measured: "\<exists>w'. ?measured r w = (Ret (), w') \<and> throttles (?grants r (hfields w)) w w' \<and>
      counted (rq_Method r) (routePattern (wb_World w)) 429 (ew_metrics (wb_World w)) (ew_metrics (wb_World w'))"
    if "rw_Sent (wb_Writer w) = None" "refused E r (ew_limiter (wb_World w))" "\<not> is_preflight r" for r w
    by (rule metrics_refuses [OF now that(1,2)], rule CORS_refuses [OF that(3)], rule limiter_refuses [OF now])
      assumption+
  have pre: "rw_Sent (wb_Writer w2) = None" "refused E ?r (ew_limiter (wb_World w2))" "\<not> is_preflight ?r"
    using w2(1,2) assms(5,6,7) by (auto simp: fresh_writer_def)
  obtain w3 where run: "?inner ?r w2 = (Ret (), w3)"
    and seen: "refusal_seen (?grants ?r (hfields w2)) ?r w2 w3"
    using RequestLogger_refuses [OF now pre(1,2) measured, of "\<lambda>r. \<not> is_preflight r" "ep_size E"] pre(3) by auto
  from seen obtain hd0 where "rw_Sent (wb_Writer w3) = Some (429, hd0)" unfolding refusal_seen_def by blast
  from timeout_answered [of _ ?inner ?r w2, OF timeout run this] obtain w' where
    w': "?timed ?r w2 = (Ret (), w')" "rw_Sent (wb_Writer w') = rw_Sent (wb_Writer w3)" "wb_World w' = wb_World w3"
    by blast
  have "through chain h r w = (Ret (), w')"
    unfolding start by (rule Recovery_returns) (simp only: step w'(1))
  moreover from seen obtain hd line where hd: "rw_Sent (wb_Writer w3) = Some (429, hd)"
      "\<forall>k. k \<notin> {''RateLimit-Limit'', ''RateLimit-Remaining'', ''Retry-After'', ''Content-Type''} \<longrightarrow>
         hd_Fields hd k = ?grants ?r (hfields w2) k"
    and line: "ew_lines (wb_World w3) = ew_lines (wb_World w2) @ [line]" "warned ?r line"
    unfolding refusal_seen_def by blast
  have "hd_Fields hd k = cors_grants (ep_unicode E) (se_CORS sec) (get_first (rq_Header r) ''Origin'') (\<lambda>_. []) k"
    if k: "k \<in> {''Access-Control-Allow-Origin'', ''Access-Control-Allow-Credentials''}" for k
  proof -
    have "hfields w2 k = secured (sv_EnableHSTS srv) (rq_Path r) (hfields w) k" by (rule w2(3) [rule_format]) (use k in auto)
    also have "\<dots> = hfields w k" using k by (auto simp: secured_def Let_def)
    also have "\<dots> = []" using assms(5) by (simp add: hfields_def fresh_writer_def)
    finally have "?grants ?r (hfields w2) k = ?grants ?r (\<lambda>_. []) k" using k by (intro cors_grants_at) simp_all
    moreover have "hd_Fields hd k = ?grants ?r (hfields w2) k" by (rule hd(2) [rule_format]) (use k in auto)
    ultimately show ?thesis by simp
  qed
  moreover have "hd_Fields hd ''X-Content-Type-Options'' = [''nosniff'']"
  proof -
    have "hd_Fields hd ''X-Content-Type-Options'' = ?grants ?r (hfields w2) ''X-Content-Type-Options''"
      by (rule hd(2) [rule_format]) simp
    also have "\<dots> = hfields w2 ''X-Content-Type-Options''"
      by (rule cors_grants_security) (simp add: security_keys_def)
    also have "\<dots> = [''nosniff'']"
      using w2(3) [rule_format, of "''X-Content-Type-Options''"] by simp
    finally show ?thesis .
  qed
  moreover have "counted (rq_Method ?r) (routePattern (wb_World w2)) 429 (ew_metrics (wb_World w2)) (ew_metrics (wb_World w3))"
    using seen unfolding refusal_seen_def by blast
  then have "counted (rq_Method r) (routePattern (wb_World w)) 429 (ew_metrics (wb_World w)) (ew_metrics (wb_World w3))"
    using w2(2) by (auto simp: routePattern_def)
  moreover have "ew_lines (wb_World w3) = ew_lines (wb_World w) @ [line]" using line(1) w2(2) by auto
  moreover have "rl_Status line = 429 \<and> rl_Level line = LogWarn \<and> snd (rl_Logger line) = ClientIP (attributed E srv r)"
    using line(2) by (simp add: warned_def)
  ultimately show ?thesis using hd(1) unfolding w'(2,3) [symmetric] by blast
qed

text \<open>The two tokens of the key were spent an instant ago.\<close>

theorem refusal_is_visible_witness:
  "\<exists>w' hd line. through demo_chain (\<lambda>_. retp ()) demo_request (demo_web [(''c'', \<lparr>bk_tokens = 0, bk_last = 7\<rparr>)]) = (Ret (), w') \<and>
     rw_Sent (wb_Writer w') = Some (429, hd) \<and> hd_Fields hd ''Access-Control-Allow-Origin'' = [''https://app''] \<and>
     ew_lines (wb_World w') = [line] \<and> snd (rl_Logger line) = ''c''"
proof -
  let ?w = "demo_web [(''c'', \<lparr>bk_tokens = 0, bk_last = 7\<rparr>)]"
  have "refused demo_edge (attributed demo_edge demo_srv demo_request) (ew_limiter (wb_World ?w))"
    using demo_client by (simp add: refused_def demo_web_def) (simp add: demo_edge_def allow_def demo_limiter_def take_token_def)
  moreover have "cc_Enabled (se_CORS demo_security)" "rc_Enabled (se_RateLimit demo_security)" "wb_Writer ?w = fresh_writer"
    by (simp_all add: demo_security_def demo_cors_def demo_limits_def demo_web_def)
  moreover have "ClientIP (attributed demo_edge demo_srv demo_request) = ''c''" by code_simp
  moreover have "cors_grants (ep_unicode demo_edge) (se_CORS demo_security) (get_first (rq_Header demo_request) ''Origin'')
      (\<lambda>_. []) ''Access-Control-Allow-Origin'' = [''https://app'']"
    by code_simp
  moreover have "ew_lines (wb_World ?w) = []" by (simp add: demo_web_def)
  ultimately show ?thesis
    using refusal_is_visible [OF demo_edge_ok demo_router, of ?w demo_request "\<lambda>_. retp ()"] demo_preflight
    by fastforce
qed

section \<open>Who a request comes from\<close>

text \<open>
  C9. The client address cannot be forged past the trusted proxies: for a peer that is not a
  trusted proxy it is the peer's address whatever the headers say, and behind trusted proxies
  anything a client wrote in X-Forwarded-For to the left of a hop that parses and is not trusted
  makes no difference.
\<close>

theorem client_ip_unspoofable:
  assumes "seen \<noteq> []" and "get_first (rq_Header r) ''X-Forwarded-For'' = forged @ CHR '','' # seen"
    and "part \<in> set (strings_Split (CHR '','') seen)" and "np_ParseAddr N (TrimSpace part) \<noteq> None"
    and "\<not> isTrusted N (TrimSpace part) trusted"
  shows "resolveClientIP N trusted r =
      resolveClientIP N trusted (r\<lparr>rq_Header := (rq_Header r)(''X-Forwarded-For'' := [seen])\<rparr>) \<and>
    (\<not> isTrusted N (peerAddr N (rq_RemoteAddr r)) trusted \<longrightarrow>
      (\<forall>h. resolveClientIP N trusted (r\<lparr>rq_Header := h\<rparr>) = peerAddr N (rq_RemoteAddr r)))"
proof (intro conjI impI allI)
  let ?r = "r\<lparr>rq_Header := (rq_Header r)(''X-Forwarded-For'' := [seen])\<rparr>"
  obtain ip where ip: "scan_hops N trusted (rev (strings_Split (CHR '','') seen)) = Some ip"
    using scan_hops_finds [of part "rev (strings_Split (CHR '','') seen)"] assms(3,4,5) by auto
  have xff: "get_first (rq_Header ?r) ''X-Forwarded-For'' = seen"
    by (simp add: get_first_def)
  have "resolveClientIP N trusted r = (if peerAddr N (rq_RemoteAddr r) = [] \<or> trusted = [] \<or>
      \<not> isTrusted N (peerAddr N (rq_RemoteAddr r)) trusted then peerAddr N (rq_RemoteAddr r) else ip)"
    unfolding resolveClientIP_def assms(2) Let_def by (simp add: strings_Split_append scan_hops_append ip)
  moreover have "resolveClientIP N trusted ?r = (if peerAddr N (rq_RemoteAddr r) = [] \<or> trusted = [] \<or>
      \<not> isTrusted N (peerAddr N (rq_RemoteAddr r)) trusted then peerAddr N (rq_RemoteAddr r) else ip)"
    unfolding resolveClientIP_def xff Let_def using assms(1) by (simp add: ip)
  ultimately show "resolveClientIP N trusted r = resolveClientIP N trusted ?r" by simp
next
  fix h
  assume "\<not> isTrusted N (peerAddr N (rq_RemoteAddr r)) trusted"
  then show "resolveClientIP N trusted (r\<lparr>rq_Header := h\<rparr>) = peerAddr N (rq_RemoteAddr r)"
    by (simp add: resolveClientIP_def Let_def)
qed

theorem client_ip_unspoofable_witness:
  "resolveClientIP demo_net [Prefix (IPv4 112) 32] demo_request =
     resolveClientIP demo_net [Prefix (IPv4 112) 32]
       (demo_request\<lparr>rq_Header := (rq_Header demo_request)(''X-Forwarded-For'' := [''c,p''])\<rparr>)"
proof -
  have "get_first (rq_Header demo_request) ''X-Forwarded-For'' = ''x'' @ CHR '','' # ''c,p''" by code_simp
  moreover have "''c'' \<in> set (strings_Split (CHR '','') ''c,p'')" by code_simp
  moreover have "np_ParseAddr demo_net (TrimSpace ''c'') \<noteq> None" by code_simp
  moreover have "\<not> isTrusted demo_net (TrimSpace ''c'') [Prefix (IPv4 112) 32]" by code_simp
  ultimately show ?thesis
    using client_ip_unspoofable [of "''c,p''" demo_request "''x''" "''c''" demo_net "[Prefix (IPv4 112) 32]"] by blast
qed

section \<open>The rate limiter\<close>

lemma limiter_run_limits: "limiter_ok l \<Longrightarrow> same_limits (snd (limiter_run es l)) l"
proof (induction es l rule: limiter_run.induct)
  case (2 t es l)
  then show ?case using evict_ok [of l t] by (simp add: same_limits_def evictExpired_def)
next
  case (3 key t es l)
  obtain v l1 where a: "allow key t l = (v, l1)" by (cases "allow key t l")
  with 3 allow_ok [OF 3(2) a] show ?case by (auto simp: same_limits_def split: prod.splits)
qed simp

text \<open>
  C29. Eviction never forgives: as long as no more keys are asked for than the table may hold,
  a run of requests and sweeps gets, verdict by verdict, what a limiter gives that keeps one
  bucket per key for ever. The sweep drops only buckets that are as good as new.
\<close>

theorem eviction_never_forgives:
  assumes "NewRateLimiter cfg = Inr l" and "sorted (map event_time es)"
    and "int (card (asked_keys es)) \<le> rc_MaxKeys cfg"
  shows "fst (limiter_run es l) = ideal_run l es Map.empty"
proof -
  have l: "lm_buckets l = []" "0 \<le> lm_rate l" "0 < sint (lm_ttl l)" "lm_maxKeys l = rc_MaxKeys cfg"
    using assms(1) by (auto simp: NewRateLimiter_def fl_nonneg split: if_splits)
  define t where "t = (case es of [] \<Rightarrow> 0 | e # _ \<Rightarrow> event_time e)"
  have "covers t l Map.empty" using l(1) by (simp add: covers_def)
  moreover have "sorted (t # map event_time es)" using assms(2) by (cases es) (auto simp: t_def)
  ultimately show ?thesis
    using l assms(3) by (intro limiter_run_ideal [of t l Map.empty es "asked_keys es"]) simp_all
qed

theorem eviction_never_forgives_witness:
  "fst (limiter_run [Arrive ''a'' 1, Arrive ''a'' 1, Sweeps 200, Arrive ''a'' 300] (demo_limiter [])) =
     ideal_run (demo_limiter []) [Arrive ''a'' 1, Arrive ''a'' 1, Sweeps 200, Arrive ''a'' 300] Map.empty"
  by (rule eviction_never_forgives [OF demo_limiter_new]) (simp_all add: demo_limits_def)

text \<open>
  The limiter stays within its bounds: whatever the clock reads and whoever asks, it tracks
  each key once and at most \<open>max_keys\<close> of them, every bucket holds between zero and burst tokens,
  and a burst from one key at one instant is admitted exactly up to the whole part of burst.
\<close>

theorem limiter_bounded:
  assumes "NewRateLimiter cfg = Inr l" and "is_float (rc_Burst cfg)" and "rc_Burst cfg \<le> 2 ^ 53"
  shows "distinct (map fst (lm_buckets (snd (limiter_run es l)))) \<and>
    int (length (lm_buckets (snd (limiter_run es l)))) \<le> rc_MaxKeys cfg \<and>
    (\<forall>(key, b) \<in> set (lm_buckets (snd (limiter_run es l))). 0 \<le> bk_tokens b \<and> bk_tokens b \<le> rc_Burst cfg) \<and>
    map admits (fst (limiter_run (replicate n (Arrive key t)) l)) = map (\<lambda>i. int i < \<lfloor>rc_Burst cfg\<rfloor>) [0..<n]"
proof -
  have l: "lm_buckets l = []" "lm_burst l = rc_Burst cfg" "lm_maxKeys l = rc_MaxKeys cfg" "0 < rc_Burst cfg" "0 < lm_maxKeys l"
    using assms(1) by (auto simp: NewRateLimiter_def split: if_splits)
  have limits: "same_limits (snd (limiter_run es l)) l" 
    by (rule limiter_run_limits [OF NewRateLimiter_ok [OF assms(1,2)]])
  have ok: "limiter_ok (snd (limiter_run es l))"
    by (rule limiter_run_ok [OF NewRateLimiter_ok [OF assms(1,2)]])
  let ?l = "l\<lparr>lm_buckets := [(key, \<lparr>bk_tokens = rc_Burst cfg, bk_last = t\<rparr>)]\<rparr>"
  have "allow key t l = allow key t ?l"
    using l by (simp add: allow_def take_token_limits [OF same_limits_refl(2)] split: prod.splits)
  then have "fst (limiter_run (replicate n (Arrive key t)) l) = fst (limiter_run (replicate n (Arrive key t)) ?l)"
    by (cases n) simp_all
  moreover have "map admits (fst (limiter_run (replicate n (Arrive key t)) ?l)) = map (\<lambda>i. int i < \<lfloor>rc_Burst cfg\<rfloor>) [0..<n]"
    using assms(2,3) l(4) by (intro same_instant) simp_all
  ultimately show ?thesis
    using ok l same_limits_sel [OF limits] by (simp add: limiter_ok_def)
qed

theorem limiter_bounded_witness:
  "map admits (fst (limiter_run (replicate 3 (Arrive ''a'' 1)) (demo_limiter []))) = [True, True, False]"
proof -
  have "is_float (rc_Burst demo_limits)" using is_float_int [of 2] by (simp add: demo_limits_def)
  from limiter_bounded [OF demo_limiter_new this, of "[]" 3 "''a''" 1] show ?thesis
    by (simp add: demo_limits_def upt_rec)
qed

section \<open>Cross-origin grants\<close>

text \<open>
  CORS grants exactly the allowlist. Below the middleware, and in the answer to a preflight,
  an origin has been granted access only if it is listed (its case aside) or the wildcard is
  listed; what is granted is that origin or the wildcard; credentials are granted only to a
  listed origin, never with the wildcard; and the answer varies by origin.
\<close>

theorem cors_grants_allowlist:
  assumes "wb_Writer w = fresh_writer" and "get_first (rq_Header r) ''Origin'' = origin"
  shows "\<exists>g. (CORS unicode cfg nxt r w = nxt r (set_fields g w) \<or>
       (\<exists>w'. CORS unicode cfg nxt r w = (Ret (), w') \<and> is_preflight r \<and> wb_World w' = wb_World w \<and>
          hfields w' ''Access-Control-Allow-Origin'' = g ''Access-Control-Allow-Origin'' \<and>
          hfields w' ''Access-Control-Allow-Credentials'' = g ''Access-Control-Allow-Credentials'')) \<and>
      (g ''Access-Control-Allow-Origin'' = [] \<or>
       g ''Access-Control-Allow-Origin'' = [''*''] \<and> ''*'' \<in> set (cc_AllowedOrigins cfg) \<or>
       g ''Access-Control-Allow-Origin'' = [origin] \<and> ''*'' \<notin> set (cc_AllowedOrigins cfg) \<and>
         ToLower unicode origin \<in> ToLower unicode ` set (cc_AllowedOrigins cfg)) \<and>
      (g ''Access-Control-Allow-Credentials'' \<noteq> [] \<longrightarrow>
         cc_AllowCredentials cfg \<and> g ''Access-Control-Allow-Origin'' = [origin] \<and>
         ''*'' \<notin> set (cc_AllowedOrigins cfg)) \<and>
      ''Origin'' \<in> set (g ''Vary'')"
proof -
  let ?g = "cors_grants unicode cfg origin (hfields w)"
  have h: "hfields w = (\<lambda>_. [])" using assms(1) by (simp add: hfields_def fresh_writer_def)
  have "CORS unicode cfg nxt r w = nxt r (set_fields ?g w) \<or>
      (\<exists>w'. CORS unicode cfg nxt r w = (Ret (), w') \<and> is_preflight r \<and> wb_World w' = wb_World w \<and>
        hfields w' ''Access-Control-Allow-Origin'' = ?g ''Access-Control-Allow-Origin'' \<and>
        hfields w' ''Access-Control-Allow-Credentials'' = ?g ''Access-Control-Allow-Credentials'')"
  proof (cases "is_preflight r \<and> origin \<noteq> []")
    case True
    then show ?thesis using CORS_preflight [of r unicode cfg nxt w] assms(2) by blast
  qed (simp add: CORS_grants assms(2))
  moreover have "(?g ''Access-Control-Allow-Origin'' = [] \<or>
       ?g ''Access-Control-Allow-Origin'' = [''*''] \<and> ''*'' \<in> set (cc_AllowedOrigins cfg) \<or>
       ?g ''Access-Control-Allow-Origin'' = [origin] \<and> ''*'' \<notin> set (cc_AllowedOrigins cfg) \<and>
         ToLower unicode origin \<in> ToLower unicode ` set (cc_AllowedOrigins cfg)) \<and>
      (?g ''Access-Control-Allow-Credentials'' \<noteq> [] \<longrightarrow>
         cc_AllowCredentials cfg \<and> ?g ''Access-Control-Allow-Origin'' = [origin] \<and>
         ''*'' \<notin> set (cc_AllowedOrigins cfg)) \<and> ''Origin'' \<in> set (?g ''Vary'')"
    by (auto simp: cors_grants_def h Let_def)
  ultimately show ?thesis by blast
qed

theorem cors_grants_allowlist_witness:
  "\<exists>g. CORS (\<lambda>s. s) demo_cors (\<lambda>r. retp ()) demo_request (demo_web []) = (Ret (), set_fields g (demo_web [])) \<and>
    g ''Access-Control-Allow-Origin'' \<in> {[], [''https://app'']}"
proof -
  have "get_first (rq_Header demo_request) ''Origin'' = ''https://app''" by code_simp
  moreover have "''*'' \<notin> set (cc_AllowedOrigins demo_cors)" by (simp add: demo_cors_def)
  moreover have "wb_Writer (demo_web []) = fresh_writer" by (simp add: demo_web_def)
  ultimately show ?thesis
    using cors_grants_allowlist [of "demo_web []" demo_request "''https://app''" "\<lambda>s. s" demo_cors "\<lambda>r. retp ()"]
      demo_preflight
    by auto
qed

section \<open>Configuration\<close>

text \<open>
  A configuration that passes \<open>Validate\<close> runs: the router builds from it, its CORS section
  never grants credentials to a wildcard, its pool, timeouts and token lifetimes are coherent and
  the database password is no placeholder; and \<open>Load\<close> returns no other configuration.
\<close>

theorem loaded_config_runs:
  assumes "Load unicode V path w = (Ret (Inr c), w')"
  shows "(\<exists>chain built. NewRouter E (cf_Server c) (cf_Security c) metrics mw = Inr (chain, built)) \<and>
    \<not> (cc_AllowCredentials (se_CORS (cf_Security c)) \<and> ''*'' \<in> set (cc_AllowedOrigins (se_CORS (cf_Security c)))) \<and>
    0 < sint (dc_MaxConns (cf_DB c)) \<and> sint (dc_MinConns (cf_DB c)) \<le> sint (dc_MaxConns (cf_DB c)) \<and>
    0 < sint (dc_ConnectTimeout (cf_DB c)) \<and> sint (dc_ConnectTimeout (cf_DB c)) \<le> sint (dc_StartupTimeout (cf_DB c)) \<and>
    \<not> isPlaceholderSecret unicode (Reveal (dc_Password (cf_DB c))) \<and>
    0 < sv_Port (cf_Server c) \<and> sv_Port (cf_Server c) \<le> 65535 \<and>
    sint (sv_RequestTimeout (cf_Server c)) \<le> sint (sv_WriteTimeout (cf_Server c)) \<and>
    sint (sv_RequestTimeout (cf_Server c)) \<le> sint (sv_ShutdownTimeout (cf_Server c)) \<and>
    0 < sint (as_AccessTokenTTL (cf_Auth c)) \<and> sint (as_AccessTokenTTL (cf_Auth c)) < sint (as_RefreshTokenTTL (cf_Auth c)) \<and>
    0 < as_MaxFailedAttempts (cf_Auth c) \<and> 0 \<le> sint (as_TokenLeeway (cf_Auth c))"
proof -
  note valid = Load_valid [OF assms, unfolded config_Validate_None]
  have "\<exists>chain built. NewRouter E (cf_Server c) (cf_Security c) metrics mw = Inr (chain, built)"
    using NewRateLimiter_valid [of "se_RateLimit (cf_Security c)"] valid
    by (cases "rc_Enabled (se_RateLimit (cf_Security c))") (auto simp: NewRouter_def Let_def)
  with valid show ?thesis
    by (auto simp: validate_cors_def validate_db_def validate_server_def validate_auth_def not_le not_less)
qed

definition demo_config :: app_config where
  "demo_config =
     \<lparr>cf_Server = demo_srv,
      cf_DB = \<lparr>dc_Host = ''h'', dc_Port = 5432, dc_User = ''u'', dc_Password = Secret ''s3cret'', dc_Name = ''n'',
        dc_SSLMode = ''disable'', dc_MaxConns = 10, dc_MinConns = 2, dc_ConnMaxLifetime = 9, dc_ConnMaxIdleTime = 8,
        dc_HealthCheckPeriod = 1, dc_ConnectTimeout = 1, dc_StartupTimeout = 2\<rparr>,
      cf_Log = \<lparr>lc_Level = ''info'', lc_Format = ''json''\<rparr>,
      cf_Auth = \<lparr>as_PrivateKeyPath = ''k'', as_PublicKeyPath = ''p'', as_PreviousPublicKeyPath = [], as_Issuer = ''i'',
        as_ClientID = ''c'', as_AccessTokenTTL = 1, as_RefreshTokenTTL = 2, as_MFATemporaryTTL = 1,
        as_MaxFailedAttempts = 5, as_LockDuration = 1, as_TokenLeeway = 0\<rparr>,
      cf_Security = demo_security,
      cf_Metrics = \<lparr>me_Enabled = True, me_Addr = ''h:9'', me_Path = ''/m''\<rparr>,
      cf_Notification = \<lparr>ns_Enabled = False,
        ns_Dispatcher = \<lparr>ds_PollInterval = 1, ds_BatchSize = 1, ds_Workers = 1, ds_MaxAttempts = 1,
          ds_BackoffBase = 1, ds_BackoffCap = 1, ds_StalledAfter = 1, ds_DrainTimeout = 1\<rparr>,
        ns_Email = \<lparr>es_Enabled = False, es_SMTPHost = [], es_SMTPPort = 587, es_From = [], es_Username = [],
          es_Timeout = 1, es_Password = Secret []\<rparr>,
        ns_LogSender = \<lparr>ls_Enabled = False, ls_Channel = ''email''\<rparr>\<rparr>\<rparr>"

definition demo_viper :: "unit viper_pkg" where
  "demo_viper =
     \<lparr>vp_BindEnv = (\<lambda>k v. retp None), vp_ReadInConfig = (\<lambda>p. retp None), vp_NotFound = (\<lambda>e. False),
      vp_Unmarshal = (\<lambda>d. retp (Inr demo_config))\<rparr>"

lemma demo_loads: "Load (\<lambda>s. s) demo_viper ''f'' () = (Ret (Inr demo_config), ())"
  by code_simp

theorem loaded_config_runs_witness:
  "(\<exists>chain built. NewRouter demo_edge (cf_Server demo_config) (cf_Security demo_config) True [] = Inr (chain, built)) \<and>
     sint (as_AccessTokenTTL (cf_Auth demo_config)) < sint (as_RefreshTokenTTL (cf_Auth demo_config))"
  using loaded_config_runs [OF demo_loads, of demo_edge True "[]"] by blast

end
