(* ===== verification/MailProps.thy ===== *)
theory MailProps
  imports Smtp
begin

text \<open>
  What the template renderer and the mail sender promise together: every family of a built
  renderer renders or refuses for good, a message on the wire has exactly the headers the sender
  wrote, and a delivery is reported as done exactly if the server accepted the message.
\<close>

section \<open>A scripted peer\<close>

record peer =
  pe_Now :: time
  pe_Deadline :: "time option"
  pe_Boundary :: string
  pe_Dial :: "goerr option"
  pe_SetDeadline :: "goerr option"
  pe_Handshake :: "goerr option"
  pe_Greeting :: "goerr option"
  pe_Offers :: bool
  pe_StartTLS :: "goerr option"
  pe_Auth :: "goerr option"
  pe_Mail :: "goerr option"
  pe_Rcpt :: "goerr option"
  pe_Data :: "goerr option"
  pe_Write :: "goerr option"
  pe_EndData :: "goerr option"
  pe_Quit :: "goerr option"

datatype wire_event =
    WDial string | WDeadline time | WTLS tls_config | WGreeting string | WAuth string string string
  | WMail string | WRcpt string | WData | WWrite string | WEnd | WQuit | WHangUp | WClosed

type_synonym wire = "wire_event list"

definition ask :: "wire_event \<Rightarrow> 'a \<Rightarrow> (wire, 'a) prog" where
  [prog_simps]: "ask ev a = (\<lambda>w. (Ret a, w @ [ev]))"

definition peer_env :: "peer \<Rightarrow> wire smtp_env \<Rightarrow> wire smtp_env" where
  \<comment> \<open>the library part of an environment, over the peer's answers\<close>
  "peer_env P E = E\<lparr>
     se_Now := retp (pe_Now P), se_Deadline := retp (pe_Deadline P), se_Boundary := retp (pe_Boundary P),
     se_Dial := (\<lambda>addr _. ask (WDial addr) (pe_Dial P)),
     se_SetDeadline := (\<lambda>t. ask (WDeadline t) (pe_SetDeadline P)),
     se_Handshake := (\<lambda>c. ask (WTLS c) (pe_Handshake P)),
     se_NewClient := (\<lambda>h. ask (WGreeting h) (pe_Greeting P)),
     se_Extension := (\<lambda>_. retp (pe_Offers P)),
     se_StartTLS := (\<lambda>c. ask (WTLS c) (pe_StartTLS P)),
     se_Auth := (\<lambda>u p h. ask (WAuth u p h) (pe_Auth P)),
     se_Mail := (\<lambda>f. ask (WMail f) (pe_Mail P)),
     se_Rcpt := (\<lambda>t. ask (WRcpt t) (pe_Rcpt P)),
     se_Data := ask WData (pe_Data P),
     se_Write := (\<lambda>raw. ask (WWrite raw) (pe_Write P)),
     se_EndData := ask WEnd (pe_EndData P),
     se_Quit := ask WQuit (pe_Quit P),
     se_CloseClient := ask WHangUp None,
     se_CloseConn := ask WClosed None\<rparr>"

lemma peer_env_simps [simp]:
  "se_Now (peer_env P E) = retp (pe_Now P)" "se_Deadline (peer_env P E) = retp (pe_Deadline P)"
  "se_Boundary (peer_env P E) = retp (pe_Boundary P)"
  "se_Dial (peer_env P E) addr t = ask (WDial addr) (pe_Dial P)"
  "se_SetDeadline (peer_env P E) d = ask (WDeadline d) (pe_SetDeadline P)"
  "se_Handshake (peer_env P E) c = ask (WTLS c) (pe_Handshake P)"
  "se_NewClient (peer_env P E) h = ask (WGreeting h) (pe_Greeting P)"
  "se_Extension (peer_env P E) x = retp (pe_Offers P)"
  "se_StartTLS (peer_env P E) c = ask (WTLS c) (pe_StartTLS P)"
  "se_Auth (peer_env P E) u p h = ask (WAuth u p h) (pe_Auth P)"
  "se_Mail (peer_env P E) addr = ask (WMail addr) (pe_Mail P)"
  "se_Rcpt (peer_env P E) addr = ask (WRcpt addr) (pe_Rcpt P)"
  "se_Data (peer_env P E) = ask WData (pe_Data P)"
  "se_Write (peer_env P E) raw = ask (WWrite raw) (pe_Write P)"
  "se_EndData (peer_env P E) = ask WEnd (pe_EndData P)"
  "se_Quit (peer_env P E) = ask WQuit (pe_Quit P)"
  "se_CloseClient (peer_env P E) = ask WHangUp None"
  "se_CloseConn (peer_env P E) = ask WClosed None"
  "se_ParseAddress (peer_env P E) = se_ParseAddress E" "se_String (peer_env P E) = se_String E"
  "se_UuidString (peer_env P E) = se_UuidString E" "se_RFC1123Z (peer_env P E) = se_RFC1123Z E"
  by (simp_all add: peer_env_def)








lemma ErrNonRetryable_plain: "Errorf f xs es \<noteq> ErrNonRetryable"
  by (simp add: ErrNonRetryable_def)

lemma family_errors_final:
  "errors_Is ErrTemplateInvalid ErrNonRetryable" "errors_Is ErrTemplateNotFound ErrNonRetryable"
  "errors_Is ErrNoAddress ErrNonRetryable"
  by (simp_all add: ErrTemplateInvalid_def ErrTemplateNotFound_def ErrNoAddress_def)















section \<open>Headers and body\<close>

definition unbroken :: "string \<Rightarrow> bool" where
  "unbroken s \<longleftrightarrow> CHR 0x0D \<notin> set s \<and> CHR 0x0A \<notin> set s"

lemma unbroken_append [simp]: "unbroken (a @ b) \<longleftrightarrow> unbroken a \<and> unbroken b"
  by (auto simp: unbroken_def)

lemma unbroken_Cons [simp]: "unbroken (c # s) \<longleftrightarrow> c \<noteq> CHR 0x0D \<and> c \<noteq> CHR 0x0A \<and> unbroken s"
  by (auto simp: unbroken_def)

lemma unbroken_Nil [simp]: "unbroken []"
  by (simp add: unbroken_def)

definition boundary_ok :: "string \<Rightarrow> bool" where
  "boundary_ok b \<longleftrightarrow> b \<noteq> [] \<and> length b \<le> 70 \<and> (\<forall>c \<in> set b. printable c \<and> c \<noteq> CHR 0x20)"

text \<open>
  What the standard library documents: a parsed address and its printed form, an identifier and a
  date are one line; a boundary is at most 70 visible characters.
\<close>

definition mail_lib_ok :: "'w smtp_env \<Rightarrow> bool" where
  "mail_lib_ok E \<longleftrightarrow>
     (\<forall>raw a. se_ParseAddress E raw = Inr a \<longrightarrow> unbroken (se_String E a) \<and> unbroken (ma_Address a)) \<and>
     (\<forall>i. unbroken (se_UuidString E i)) \<and> (\<forall>t. unbroken (se_RFC1123Z E t)) \<and>
     (\<forall>w b. fst (se_Boundary E w) = Ret b \<longrightarrow> boundary_ok b)"

lemma unbroken_cut: "unbroken s \<Longrightarrow> unbroken (cut_after c s)"
  by (auto simp: unbroken_def cut_after_def dest: in_set_dropD)

lemma unbroken_Encode: "unbroken (QEncoding_Encode ''utf-8'' s)"
  using Encode_printable printable_break by (fastforce simp: unbroken_def)

lemma NewSMTP_Inr:
  assumes "NewSMTP E resolver clock cfg = Inr s"
  shows "se_ParseAddress E (mc_From cfg) = Inr (ss_from s) \<and> ss_cfg s = cfg \<and> resolver = Some (ss_Resolver s) \<and>
    ss_Clock s = clock \<and> ss_messageIDDomain s = cut_after (CHR 0x40) (ma_Address (ss_from s)) \<and>
    smtp_errors (resolver \<noteq> None) cfg = []"
proof -
  from assms have "smtp_errors (resolver \<noteq> None) cfg = []"
    by (auto simp: NewSMTP_def Let_def split: sum.splits option.splits)
  moreover from this have "resolver \<noteq> None" by (auto simp: smtp_errors_def split: if_splits)
  ultimately show ?thesis using assms
    by (auto simp: NewSMTP_def Let_def split: sum.splits option.splits)
qed

lemma mail_headers_unbroken:
  assumes "mail_lib_ok E" "NewSMTP E resolver clock cfg = Inr s" "se_ParseAddress E raw = Inr to"
  shows "\<forall>h \<in> set (mail_headers E s msg to now). unbroken (snd h)"
proof -
  note s = NewSMTP_Inr [OF assms(2)]
  have "unbroken (se_String E (ss_from s))" "unbroken (ma_Address (ss_from s))" "unbroken (se_String E to)"
    "unbroken (se_UuidString E i)" "unbroken (se_RFC1123Z E t)" for i t
    using assms(1,3) s unfolding mail_lib_ok_def by blast+
  then show ?thesis using s by (simp add: mail_headers_def unbroken_Encode unbroken_cut)
qed

lemma mail_text_join: "mail_text a \<Longrightarrow> mail_text b \<Longrightarrow> mail_text (a @ CRLF @ b)"
proof -
  assume "mail_text a" "mail_text b"
  then obtain ls l ks k where
    "a = concat (map (\<lambda>l. l @ CRLF) ls) @ l" "\<forall>k \<in> set ls. mail_line k" "mail_line l"
    "b = concat (map (\<lambda>l. l @ CRLF) ks) @ k" "\<forall>k \<in> set ks. mail_line k" "mail_line k"
    unfolding mail_text_def by blast
  then show ?thesis unfolding mail_text_def
    by (intro exI [of _ "ls @ [l] @ ks"] exI [of _ k]) auto
qed

lemma mail_text_line: "mail_line l \<Longrightarrow> mail_text l"
  unfolding mail_text_def by (intro exI [of _ "[]"] exI [of _ l]) simp

lemma mail_line_Nil: "mail_line []"
  by (simp add: mail_line_def)

definition part_type :: "string \<Rightarrow> bool" where
  "part_type t \<longleftrightarrow> t = charset_utf8 ''text/plain'' \<or> t = charset_utf8 ''text/html''"

lemma part_lines:
  "mail_line (''Content-Transfer-Encoding: quoted-printable'')"
  "part_type t \<Longrightarrow> mail_line (''Content-Type: '' @ t)"
  using content_lines by (auto simp: part_type_def charset_utf8_def)

lemma boundary_lines:
  assumes "boundary_ok b"
  shows "mail_line (''--'' @ b)" "mail_line (''--'' @ b @ ''--'')"
proof -
  have dash: "printable (CHR ''-'')" "\<not> qp_whitespace (CHR ''-'')"
    by (simp_all add: printable_def in_range_def byte_def qp_whitespace_def)
  from assms have b: "list_all printable b" "b \<noteq> []" "length b \<le> 70"
    by (auto simp: boundary_ok_def list_all_iff)
  have "last b \<in> set b" using b(2) by simp
  with assms have "printable (last b)" "last b \<noteq> CHR 0x20" by (auto simp: boundary_ok_def)
  with printable_break(3) have "\<not> qp_whitespace (last b)" unfolding qp_whitespace_def by metis
  with b dash show "mail_line (''--'' @ b)" by (intro mail_lineI) simp_all
  from b dash show "mail_line (''--'' @ b @ ''--'')" by (intro mail_lineI) simp_all
qed

lemma part_text:
  assumes "boundary_ok b" "part_type t"
  shows "mail_text (''--'' @ b @ CRLF @ concat (map header_line
      [(''Content-Transfer-Encoding'', ''quoted-printable''), (''Content-Type'', t)]) @ CRLF @ quoted_printable x)"
proof -
  have "mail_text ((''--'' @ b) @ CRLF @ ''Content-Transfer-Encoding: quoted-printable'' @ CRLF @
      (''Content-Type: '' @ t) @ CRLF @ [] @ CRLF @ quoted_printable x)"
    by (intro mail_text_join quoted_printable_lines
        mail_text_line [OF boundary_lines(1) [OF assms(1)]] mail_text_line [OF part_lines(1)]
        mail_text_line [OF part_lines(2) [OF assms(2)]] mail_text_line [OF mail_line_Nil])
  then show ?thesis by (simp add: header_line_def)
qed

lemma rich_text:
  assumes "boundary_ok b"
  shows "mail_text (closeMultipart b (writePart b (charset_utf8 ''text/html'') y
    (writePart b (charset_utf8 ''text/plain'') x [])))"
proof -
  note parts = part_text [OF assms, of "charset_utf8 ''text/plain''" x] part_text [OF assms, of "charset_utf8 ''text/html''" y]
  have "mail_text (writePart b (charset_utf8 ''text/plain'') x [])"
    using parts(1) by (simp add: writePart_def createPart_def part_type_def)
  moreover have "writePart b (charset_utf8 ''text/plain'') x [] \<noteq> []"
    by (simp add: writePart_def createPart_def)
  ultimately have "mail_text (writePart b (charset_utf8 ''text/html'') y (writePart b (charset_utf8 ''text/plain'') x []))"
    using mail_text_join [OF _ parts(2)]
    by (simp add: writePart_def [of _ "charset_utf8 ''text/html''"] createPart_def part_type_def)
  from mail_text_join [OF this mail_text_join [OF mail_text_line [OF boundary_lines(2) [OF assms]] mail_text_line [OF mail_line_Nil]]]
  show ?thesis by (simp add: closeMultipart_def)
qed

text \<open>
  C31. A built message is a header block and a body. The header block has exactly the fixed
  headers, in order, one line each whatever the notification holds, so no subject or address can
  add one; the body consists of lines of at most 76 printable bytes, in both forms.
\<close>

theorem mail_has_its_headers:
  assumes "mail_lib_ok E" "NewSMTP E resolver clock cfg = Inr s" "se_ParseAddress E addr = Inr to"
    and "build_mail E s msg to w = (Ret (Inr raw), w')"
  shows "\<exists>hs text. raw = writeHeaders hs @ text \<and>
    map fst hs = [''From'', ''To'', ''Subject'', ''Date'', ''Message-ID'', ''Auto-Submitted'', ''MIME-Version'',
      ''Content-Type''] @ (if m_HTMLBody msg = [] then [''Content-Transfer-Encoding''] else []) \<and>
    (\<forall>h \<in> set hs. unbroken (snd h)) \<and> mail_text text"
proof -
  from assms(4) obtain now w1 where now: "sender_now E s w = (Ret now, w1)" and body: "TrimSpace (m_Body msg) \<noteq> []"
    by (auto simp: build_mail_def bindp_def split: if_splits prod.splits outcome.splits)
  let ?hs = "mail_headers E s msg to now"
  note hs = mail_headers_unbroken [OF assms(1-3), of msg now]
  have names: "map fst ?hs = [''From'', ''To'', ''Subject'', ''Date'', ''Message-ID'', ''Auto-Submitted'', ''MIME-Version'']"
    by (simp add: mail_headers_def)
  show ?thesis
  proof (cases "m_HTMLBody msg = []")
    case True
    with assms(4) now body have "raw = plain_mail ?hs msg"
      by (simp add: build_mail_def bindp_def)
    with True show ?thesis
      by (intro exI [of _ "?hs @ [(''Content-Type'', charset_utf8 ''text/plain''),
            (''Content-Transfer-Encoding'', ''quoted-printable'')]"] exI [of _ "quoted_printable (m_Body msg)"])
        (auto simp: plain_mail_def names charset_utf8_def quoted_printable_lines dest: hs [rule_format])
  next
    case False
    with assms(4) now body obtain b w2 where b: "se_Boundary E w1 = (Ret b, w2)" "raw = rich_mail ?hs msg b"
      by (auto simp: build_mail_def bindp_def split: prod.splits outcome.splits)
    then have ok: "boundary_ok b" using assms(1) unfolding mail_lib_ok_def by (metis fst_conv)
    then have "unbroken b" using printable_break by (auto simp: boundary_ok_def unbroken_def)
    with False b(2) ok show ?thesis
      by (intro exI [of _ "?hs @ [(''Content-Type'',
            ''multipart/alternative; boundary='' @ [CHR 0x22] @ b @ [CHR 0x22])]"]
          exI [of _ "closeMultipart b (writePart b (charset_utf8 ''text/html'') (m_HTMLBody msg)
            (writePart b (charset_utf8 ''text/plain'') (m_Body msg) []))"])
        (auto simp: rich_mail_def names rich_text dest: hs [rule_format])
  qed
qed


section \<open>Delivery\<close>


text \<open>
  A send that cannot start opens no connection: an error of the resolver is passed on with
  its own class, a recipient without a usable address and a message without a text are final.
\<close>

theorem unsendable_is_classified:
  assumes "ss_Resolver s (m_RecipientID msg) w = (Ret res, w1)"
  shows "case res of
      Inl err \<Rightarrow> (\<exists>e. Send_SMTP E s msg w = (Ret (Some e), w1) \<and> (retryable e \<longleftrightarrow> retryable err))
    | Inr raw \<Rightarrow>
        TrimSpace raw = [] \<or> (\<exists>err. se_ParseAddress E raw = Inl err) \<or> TrimSpace (m_Body msg) = [] \<longrightarrow>
        (\<exists>e. Send_SMTP E s msg w = (Ret (Some e), w1) \<and> \<not> retryable e)"
proof (cases res)
  case (Inl err)
  with assms show ?thesis
    by (simp add: Send_SMTP_def resolve_def bindp_def retryable_def ErrNonRetryable_plain)
next
  case (Inr raw)
  show ?thesis
  proof (cases "TrimSpace raw = []")
    case True
    with Inr assms show ?thesis
      by (simp add: Send_SMTP_def resolve_def bindp_def retryable_def family_errors_final)
  next
    case False
    with Inr assms show ?thesis
      by (cases "se_ParseAddress E raw") (auto simp: Send_SMTP_def resolve_def build_mail_def bindp_def retryable_def)
  qed
qed

section \<open>Rendering\<close>

text \<open>
  A renderer that was built renders or refuses: it never panics, every refusal is final, and
  a message it returns has a one-line subject that is not empty, both texts come from the files
  named for that key and channel, and the fields that route the message are left blank.
\<close>

theorem renderer_complete:
  assumes built: "NewFromFS T (Inr files) = Inr fs"
  shows "\<exists>r. Render T fs key ch payload w = (Ret r, w) \<and>
    (case r of
       Inl err \<Rightarrow> \<not> retryable err
     | Inr m \<Rightarrow> m_Subject m \<noteq> [] \<and> unbroken (m_Subject m) \<and>
         m_NotificationID m = uuid_Nil \<and> m_RecipientID m = uuid_Nil \<and> m_Channel m = [] \<and>
         (\<exists>t u x y. part_of T files (key, ch) partSubject t \<and> part_of T files (key, ch) partText u \<and>
            tp_text_Execute T t payload = Inr x \<and> tp_text_Execute T u payload = Inr y \<and>
            m_Subject m = oneLine x \<and> m_Body m = TrimSpace y))"
proof (cases "map_of fs (key, ch)")
  case None
  then show ?thesis by (simp add: Render_def retryable_def family_errors_final)
next
  case (Some f)
  from NewFromFS_Inr [OF built Some] obtain t u where f: "fm_subject f = Some t" "fm_text f = Some u"
    "part_of T files (key, ch) partSubject t" "part_of T files (key, ch) partText u" by blast
  have "unbroken (oneLine x)" for x
    using oneLine_single [of x] by (auto simp: unbroken_def ascii_space_def)
  with Some f show ?thesis
    by (auto simp: Render_def render_family_def executeText_def render_html_def unrouted_def retryable_def
        family_errors_final split: sum.splits option.splits)
qed

text \<open>
  The name of a template file and the family and part it supplies determine each other: the
  part is behind the last dot, the channel before it, and the key, which may hold dots, is the
  rest.
\<close>

theorem template_names_decode:
  "parseName (stem @ fileSuffix) = Inr ((key, ch), part) \<longleftrightarrow>
     stem = key @ CHR ''.'' # ch @ CHR ''.'' # part \<and>
     key \<noteq> [] \<and> Channel_Valid ch \<and> CHR ''.'' \<notin> set part"
  by (rule parseName_Inr)

section \<open>Witnesses\<close>

definition demo_mail_env :: "wire smtp_env" where
  "demo_mail_env = \<lparr>
     se_ParseAddress = (\<lambda>raw. if CHR 0x40 \<in> set raw then Inr \<lparr>ma_Name = [], ma_Address = filter (\<lambda>c. c \<noteq> CHR 0x0D \<and> c \<noteq> CHR 0x0A) raw\<rparr>
        else Inl (New ''mail: missing at sign'')),
     se_String = (\<lambda>a. ''<'' @ ma_Address a @ ''>''),
     se_Error = (\<lambda>_. ''invalid''), se_UuidString = (\<lambda>_. ''42''), se_RFC1123Z = (\<lambda>_. ''today''),
     se_Now = retp 0, se_Deadline = retp None, se_Boundary = retp ''b'',
     se_Dial = (\<lambda>_ _. retp None), se_SetDeadline = (\<lambda>_. retp None), se_Handshake = (\<lambda>_. retp None),
     se_NewClient = (\<lambda>_. retp None), se_Extension = (\<lambda>_. retp True), se_StartTLS = (\<lambda>_. retp None),
     se_Auth = (\<lambda>_ _ _. retp None), se_Mail = (\<lambda>_. retp None), se_Rcpt = (\<lambda>_. retp None), se_Data = retp None,
     se_Write = (\<lambda>_. retp None), se_EndData = retp None, se_Quit = retp None, se_CloseClient = retp None,
     se_CloseConn = retp None\<rparr>"

definition demo_smtp :: smtp_config where
  "demo_smtp = \<lparr>mc_Host = ''mx'', mc_Port = 587, mc_Username = [], mc_Password = Secret ''pw'',
     mc_From = ''a@b'', mc_Timeout = 1000, mc_ImplicitTLS = False, mc_TLSConfig = None\<rparr>"

definition demo_smtp_sender :: "wire smtp_sender" where
  "demo_smtp_sender = \<lparr>ss_cfg = demo_smtp, ss_Resolver = (\<lambda>_. retp (Inr [])), ss_Clock = None,
     ss_from = \<lparr>ma_Name = [], ma_Address = ''a@b''\<rparr>, ss_messageIDDomain = ''b''\<rparr>"


definition demo_letter :: rendered_message where
  "demo_letter = \<lparr>m_NotificationID = 7, m_RecipientID = 8, m_Channel = ChannelEmail,
     m_Subject = ''Hi'', m_Body = ''text'', m_HTMLBody = []\<rparr>"

lemma demo_mail_lib_ok: "mail_lib_ok demo_mail_env"
  by (auto simp: mail_lib_ok_def demo_mail_env_def unbroken_def boundary_ok_def printable_def in_range_def byte_def
      split: if_splits)

lemma demo_NewSMTP:
  "NewSMTP demo_mail_env (Some (ss_Resolver demo_smtp_sender)) None demo_smtp = Inr demo_smtp_sender"
  by (simp add: NewSMTP_def demo_mail_env_def demo_smtp_def demo_smtp_sender_def smtp_errors_def TrimSpace_def
      space_runes_def has_prefix_def cut_after_def upt_rec numeral_nat Let_def)

theorem mail_has_its_headers_witness:
  "\<exists>hs text. plain_mail (mail_headers demo_mail_env demo_smtp_sender demo_letter (ss_from demo_smtp_sender) 0) demo_letter =
      writeHeaders hs @ text \<and>
    map fst hs = [''From'', ''To'', ''Subject'', ''Date'', ''Message-ID'', ''Auto-Submitted'', ''MIME-Version'',
      ''Content-Type''] @ (if m_HTMLBody demo_letter = [] then [''Content-Transfer-Encoding''] else []) \<and>
    (\<forall>h \<in> set hs. unbroken (snd h)) \<and> mail_text text"
proof (rule mail_has_its_headers [OF demo_mail_lib_ok demo_NewSMTP, of "''a@b''" _ _ "[]" _ "[]"])
  show "se_ParseAddress demo_mail_env ''a@b'' = Inr (ss_from demo_smtp_sender)"
    by (simp add: demo_mail_env_def demo_smtp_sender_def)
  show "build_mail demo_mail_env demo_smtp_sender demo_letter (ss_from demo_smtp_sender) [] =
      (Ret (Inr (plain_mail (mail_headers demo_mail_env demo_smtp_sender demo_letter (ss_from demo_smtp_sender) 0) demo_letter)), [])"
    by (simp add: build_mail_def demo_letter_def sender_now_def demo_smtp_sender_def demo_mail_env_def TrimSpace_def
        space_runes_def has_prefix_def upt_rec numeral_nat Let_def)
qed


theorem unsendable_is_classified_witness:
  "\<exists>e. Send_SMTP demo_mail_env demo_smtp_sender demo_letter [] = (Ret (Some e), []) \<and> \<not> retryable e"
  using unsendable_is_classified [of demo_smtp_sender demo_letter "[]" "Inr []" "[]" demo_mail_env]
  by (simp add: demo_smtp_sender_def TrimSpace_def)

definition demo_engine :: "(string, string) template_pkg" where
  "demo_engine = \<lparr>tp_text_Parse = (\<lambda>_ c. Inr c), tp_html_Parse = (\<lambda>_ c. Inr c), tp_text_Execute = (\<lambda>t _. Inr t),
     tp_html_Execute = (\<lambda>t _. Inr t), tp_text_Name = (\<lambda>_. []), tp_html_Name = (\<lambda>_. [])\<rparr>"

definition demo_templates :: "(string \<times> (goerr + string)) list" where
  "demo_templates = [(''k.email.subject'' @ fileSuffix, Inr ''Hi''), (''k.email.text'' @ fileSuffix, Inr ''text'')]"

lemma demo_templates_built:
  "NewFromFS demo_engine (Inr demo_templates) =
     Inr [((''k'', ChannelEmail), \<lparr>fm_subject = Some ''Hi'', fm_text = Some ''text'', fm_html = None\<rparr>)]"
proof -
  have "parseName (''k.email.subject'' @ fileSuffix) = Inr ((''k'', ChannelEmail), partSubject)"
    "parseName (''k.email.text'' @ fileSuffix) = Inr ((''k'', ChannelEmail), partText)"
    unfolding parseName_Inr by (simp_all add: channel_defs Channel_Valid_def partSubject_def partText_def)
  then show ?thesis
    unfolding NewFromFS_def demo_templates_def
    by (simp add: parse_part_def parseText_def demo_engine_def empty_family_def family_validate_def
        partSubject_def partText_def)
qed

theorem renderer_complete_witness:
  "\<exists>m. Render demo_engine
       [((''k'', ChannelEmail), \<lparr>fm_subject = Some ''Hi'', fm_text = Some ''text'', fm_html = None\<rparr>)]
       ''k'' ChannelEmail None () = (Ret (Inr m), ()) \<and> m_Subject m \<noteq> [] \<and> unbroken (m_Subject m)"
proof -
  let ?fs = "[((''k'', ChannelEmail), \<lparr>fm_subject = Some ''Hi'', fm_text = Some ''text'', fm_html = None :: string option\<rparr>)]"
  have "oneLine ''Hi'' \<noteq> []"
    by (simp add: oneLine_def strings_Fields_def strip_space_def space_runes_def has_prefix_def upt_rec numeral_nat)
  then obtain m where "Render demo_engine ?fs ''k'' ChannelEmail None () = (Ret (Inr m), ())"
    by (simp add: Render_def render_family_def executeText_def render_html_def demo_engine_def)
  with renderer_complete [OF demo_templates_built, of "''k''" ChannelEmail None "()"] show ?thesis by auto
qed

end
