(* ===== verification/Demo.thy ===== *)
theory Demo
  imports NotificationModule
begin

text \<open>
  Concrete values the properties are applied to: one in-app security notification, a store
  that holds it, and a service over the stored outbox whose sender accepts everything.
\<close>

definition demo_params :: notification_params where
  "demo_params =
     \<lparr>np_ID = 1, np_RecipientID = 2, np_Channel = ChannelInApp, np_Category = CategorySecurity,
      np_TemplateKey = ''k'', np_Payload = None, np_IdempotencyKey = ''e:1''\<rparr>"

definition demo_note :: notification where
  "demo_note =
     \<lparr>n_ID = 1, n_RecipientID = 2, n_Channel = ChannelInApp, n_Category = CategorySecurity,
      n_TemplateKey = ''k'', n_Payload = Some Map.empty, n_Status = StatusPending,
      n_Attempts = 0, n_NextAttemptAt = 10, n_IdempotencyKey = ''e:1'', n_ReadAt = None,
      n_LastError = '''', n_CreatedAt = 10, n_SentAt = None\<rparr>"

lemma demo_note_new: "NewNotification demo_params 10 = Inr demo_note"
  by (simp add: NewNotification_def demo_params_def demo_note_def uuid_Nil_def Channel_Valid_def
      Category_Valid_def)

definition demo_db :: outbox_db where
  "demo_db = \<lparr>d_notifications = [toNotificationRow demo_note], d_preferences = [], d_env = []\<rparr>"

definition demo_message :: rendered_message where
  "demo_message =
     \<lparr>m_NotificationID = 0, m_RecipientID = 0, m_Channel = '''', m_Subject = ''s'',
      m_Body = ''b'', m_HTMLBody = ''''\<rparr>"

definition demo_sender :: "outbox_db channel_sender" where
  "demo_sender = \<lparr>cs_Channel = ChannelInApp, cs_Send = (\<lambda>m. retp None)\<rparr>"

definition demo_service :: "outbox_db service" where
  "demo_service =
     \<lparr>sv_notifications = outbox_repo, sv_preferences = prefs_repo,
      sv_renderer = (\<lambda>k c p. retp (Inr demo_message)),
      sv_senders = [ChannelInApp \<mapsto> demo_sender], sv_clock = retp 20, sv_jitter = None,
      sv_observer = None,
      sv_cfg = \<lparr>dc_BatchSize = 5, dc_MaxAttempts = 3, dc_BackoffBase = 100, dc_BackoffCap = 1000\<rparr>\<rparr>"

lemma demo_service_sel [simp]:
  "sv_notifications demo_service = outbox_repo" "sv_preferences demo_service = prefs_repo"
  "sv_clock demo_service = retp 20" "sv_senders demo_service = [ChannelInApp \<mapsto> demo_sender]"
  by (simp_all add: demo_service_def)

lemma demo_frame: "dispatch_frame J obs demo_service"
  by (auto simp: dispatch_frame_def demo_service_def demo_sender_def split: if_splits)

lemma demo_ok: "store_ok demo_db"
  by (simp add: store_ok_def outbox_inv_def prefs_inv_def script_ok_def outbox_wf_def demo_db_def
      toNotificationRow_def demo_note_def nullString_def)

definition demo_dispatcher :: "outbox_db dispatcher" where
  "demo_dispatcher =
     \<lparr>di_Batcher = DispatchBatch demo_service (\<lambda>_. ''''), di_Notifications = outbox_repo,
      di_Clock = retp 1000, di_Jitter = None,
      di_cfg = \<lparr>cf_PollInterval = 1, cf_Workers = 1, cf_BatchSize = 5, cf_StalledAfter = 300,
        cf_MaxAttempts = 3, cf_BackoffBase = 100, cf_BackoffCap = 1000, cf_DrainTimeout = 1\<rparr>\<rparr>"

text \<open>The store after a claim whose worker died.\<close>

definition demo_stalled_db :: outbox_db where
  "demo_stalled_db =
     demo_db\<lparr>d_notifications :=
       [(toNotificationRow demo_note)\<lparr>nr_Status := StatusSending, nr_ClaimedAt := Some 20\<rparr>]\<rparr>"

lemma demo_stalled_ok: "store_ok demo_stalled_db"
  by (simp add: store_ok_def outbox_inv_def prefs_inv_def script_ok_def outbox_wf_def
      demo_stalled_db_def demo_db_def toNotificationRow_def demo_note_def nullString_def)

end
