(* ===== verification/AppProps.thy ===== *)
theory AppProps
  imports Container AccessProps EdgeProps MailProps Demo
begin

text \<open>
  Properties that span the modules as the composition root assembles them: the keys and the rows of
  security events, what a key rotation does to the modules' routes, the guards on the routes, the
  mailbox and the profile behind HTTP.
\<close>

section \<open>Security events\<close>

lemma split_at:
  assumes "a @ x # r = a' @ x # r'" and "x \<notin> set a" "x \<notin> set a'"
  shows "a = a' \<and> r = r'"
proof -
  have "takeWhile (\<lambda>y. y \<noteq> x) (a @ x # r) = a" if "x \<notin> set a" for a r
    using that by (induction a) auto
  with assms have "a = a'" by metis
  with assms(1) show ?thesis by simp
qed

lemma not_in_digits: "list_all is_digit ds \<Longrightarrow> \<not> is_digit c \<Longrightarrow> c \<notin> set ds"
  by (auto simp: list_all_iff)

lemma RFC3339Nano_ends:
  assumes "0 \<le> t"
  obtains s where "RFC3339Nano t = s @ ''Z''" "CHR ''Z'' \<notin> set s"
proof -
  obtain y m d where c: "civil (time_days t) = (y, m, d)" by (metis prod_cases3)
  have days: "0 \<le> time_days t" using assms by (simp add: time_days_def pos_imp_zdiv_nonneg_iff)
  have Z: "\<not> is_digit (CHR ''Z'')" by (simp add: is_digit_def)
  have pads: "CHR ''Z'' \<notin> set (pad k n)" if "0 \<le> n" for k n
    by (rule not_in_digits [OF pad_digits [OF that] Z])
  have "CHR ''Z'' \<notin> set (fraction (time_nanos t))"
    using fraction_digits [OF time_part_bounds(2) [of t]] not_in_digits [OF _ Z] by auto
  moreover have "0 \<le> time_seconds t div 3600" "0 \<le> time_seconds t div 60 mod 60" "0 \<le> time_seconds t mod 60"
    using time_part_bounds(1) [of t] by (simp_all add: pos_imp_zdiv_nonneg_iff)
  ultimately show thesis
    using civil_fields [OF days c]
    by (intro that [of "pad 4 y @ ''-'' @ pad 2 m @ ''-'' @ pad 2 d @ ''T'' @ hour_minute (time_seconds t) @ '':'' @
        pad 2 (time_seconds t mod 60) @ fraction (time_nanos t)"]) (simp_all add: RFC3339Nano_def c pads hour_minute_def)
qed

text \<open>
  C32. The idempotency key of a security event tells events apart: two keys are equal only for the
  same event, the same user, the same instant to the nanosecond and the same channel, so the outbox
  drops nothing but the repetition of an event on a channel.
\<close>

theorem event_keys_distinct:
  assumes "event_key event userID t ch = event_key event' userID' t' ch'"
    and "CHR '':'' \<notin> set event" "CHR '':'' \<notin> set event'" "CHR '':'' \<notin> set userID" "CHR '':'' \<notin> set userID'"
    and "0 \<le> t" "0 \<le> t'"
  shows "event = event' \<and> userID = userID' \<and> t = t' \<and> ch = ch'"
proof -
  obtain s s' where s: "RFC3339Nano t = s @ ''Z''" "CHR ''Z'' \<notin> set s" "RFC3339Nano t' = s' @ ''Z''" "CHR ''Z'' \<notin> set s'"
    using RFC3339Nano_ends [OF assms(6)] RFC3339Nano_ends [OF assms(7)] by metis
  from assms(1) have key: "event @ CHR '':'' # userID @ CHR '':'' # s @ CHR ''Z'' # CHR '':'' # ch =
      event' @ CHR '':'' # userID' @ CHR '':'' # s' @ CHR ''Z'' # CHR '':'' # ch'"
    by (simp add: event_key_def s)
  from split_at [OF key assms(2,3)] have "event = event'" and key: "userID @ CHR '':'' # s @ CHR ''Z'' # CHR '':'' # ch =
      userID' @ CHR '':'' # s' @ CHR ''Z'' # CHR '':'' # ch'" by simp_all
  moreover from split_at [OF key assms(4,5)] have "userID = userID'" and key: "s @ CHR ''Z'' # CHR '':'' # ch =
      s' @ CHR ''Z'' # CHR '':'' # ch'" by simp_all
  moreover from split_at [OF key s(2,4)] have "s = s'" "ch = ch'" by simp_all
  ultimately show ?thesis using RFC3339Nano_inj [OF assms(6,7)] s by simp
qed

theorem event_keys_distinct_witness:
  "event_key ''mfa_enabled'' ''u'' 5 ChannelEmail \<noteq> event_key ''mfa_enabled'' ''u'' 5 ChannelInApp"
  using event_keys_distinct [of "''mfa_enabled''" "''u''" 5 ChannelEmail "''mfa_enabled''" "''u''" 5 ChannelInApp]
  by (auto simp: channel_defs)

text \<open>One channel of an event: its row is in the outbox, or the failure is in the log.\<close>

definition event_told :: "string \<Rightarrow> string \<Rightarrow> enqueue_request \<Rightarrow> 'e app_world \<Rightarrow> bool" where
  "event_told event userID req w \<longleftrightarrow>
     (\<exists>i n. entities (get_outbox w) i = Some n \<and> n_IdempotencyKey n = er_IdempotencyKey req) \<or>
     (\<exists>e. EnqueueFailed e event (er_Channel req) userID \<in> set (ap_log (snd w)))"

definition outbox_grows :: "'e app_world \<Rightarrow> 'e app_world \<Rightarrow> bool" where
  "outbox_grows w w' \<longleftrightarrow>
     (\<forall>i n. entities (get_outbox w) i = Some n \<longrightarrow> entities (get_outbox w') i = Some n) \<and>
     set (ap_log (snd w)) \<subseteq> set (ap_log (snd w'))"

lemma event_told_grows: "event_told event userID req w \<Longrightarrow> outbox_grows w w' \<Longrightarrow> event_told event userID req w'"
  unfolding event_told_def outbox_grows_def by blast

text \<open>A clock or an id generator: it returns and touches neither the store nor the log.\<close>

definition reads_only :: "('e app_world, 'a) prog \<Rightarrow> bool" where
  "reads_only p \<longleftrightarrow>
     (\<forall>w. \<exists>x w'. p w = (Ret x, w') \<and> get_outbox w' = get_outbox w \<and> ap_log (snd w') = ap_log (snd w))"

definition over_app_store :: "'e app_world service \<Rightarrow> bool" where
  "over_app_store s \<longleftrightarrow>
     sv_notifications s = app_notifications \<and> sv_preferences s = app_preferences \<and> reads_only (sv_clock s) \<and>
     (\<forall>w t w'. sv_clock s w = (Ret t, w') \<longrightarrow> t \<noteq> 0)"

lemma reads_only_preserves:
  assumes "reads_only p"
  shows "preserves (\<lambda>w. store_ok (get_outbox w)) (\<lambda>w. (entities (get_outbox w), decision_at (get_outbox w))) p"
    and "returns (\<lambda>w. store_ok (get_outbox w)) p"
  using assms unfolding reads_only_def preserves_def returns_def by (metis snd_conv)+

text \<open>An enqueue writes neither the log nor the stored preferences.\<close>

definition aside :: "'e app_world \<Rightarrow> app_line list \<times> preference_row list" where
  "aside w = (ap_log (snd w), d_preferences (get_outbox w))"

lemma reads_only_aside: "reads_only p \<Longrightarrow> p w = (r, w') \<Longrightarrow> aside w' = aside w"
  unfolding reads_only_def aside_def by (metis prod.inject)

lemma zoom_outbox_aside:
  "zoom get_outbox put_outbox (repo_Enqueue n) w = (r, w') \<Longrightarrow> aside w' = aside w"
  "zoom get_outbox put_outbox (prefs_ListForUser u) w = (q, w') \<Longrightarrow> aside w' = aside w"
  using repo_ops_preferences(1) [of n "get_outbox w"] prefs_ListForUser_same [of u "get_outbox w"]
  by (auto simp: zoom_run aside_def put_outbox_def get_outbox_def)

lemma Enqueue_aside:
  assumes "over_app_store s" "reads_only uuid_New" and run: "Enqueue s uuid_New req w = (r, w')"
  shows "aside w' = aside w"
proof -
  note s = assms(1) [unfolded over_app_store_def]
  obtain i w1 where new: "uuid_New w = (Ret i, w1)" using assms(2) unfolding reads_only_def by blast
  obtain now w2 where clk: "sv_clock s w1 = (Ret now, w2)" using s unfolding reads_only_def by blast
  have same: "aside w2 = aside w"
    using reads_only_aside [OF assms(2) new] reads_only_aside [of "sv_clock s", OF _ clk] s by simp
  have gated: "aside w' = aside w2" if "enqueue_gated s n w2 = (r, w')" for n
    using that s
    by (auto simp: enqueue_gated_def app_notifications_def app_preferences_def bindp_def
        split: if_splits prod.splits outcome.splits sum.splits option.splits dest!: zoom_outbox_aside)
  from run new clk same gated show ?thesis
    by (auto simp: Enqueue_def bindp_def split: sum.splits)
qed

lemma decision_aside:
  assumes "aside w' = aside w"
  shows "decision_at (get_outbox w') = decision_at (get_outbox w)"
proof -
  have "d_preferences (get_outbox w') = d_preferences (get_outbox w)" using assms by (simp add: aside_def)
  then show ?thesis by (simp add: decision_at_def fun_eq_iff)
qed

definition switched_off :: "enqueue_request \<Rightarrow> 'e app_world \<Rightarrow> bool" where
  "switched_off req w \<longleftrightarrow> \<not> protected (er_Channel req) (er_Category req) \<and>
     decision_at (get_outbox w) (er_RecipientID req) (er_Channel req) (er_Category req) = Some False"

lemma Enqueue_told:
  assumes s: "over_app_store s" "reads_only uuid_New" and ok: "store_ok (get_outbox w)"
  shows "\<exists>w'. bindp (Enqueue s uuid_New req) (\<lambda>err. case err of None \<Rightarrow> retp ()
      | Some e \<Rightarrow> log_line (EnqueueFailed e event (er_Channel req) userID)) w = (Ret (), w') \<and>
    store_ok (get_outbox w') \<and> outbox_grows w w' \<and> decision_at (get_outbox w') = decision_at (get_outbox w) \<and>
    (event_told event userID req w' \<or> switched_off req w)"
proof -
  note c = s(1) [unfolded over_app_store_def app_notifications_def app_preferences_def]
  have clock: "reads_only (sv_clock s)" using c by blast
  note keeps = app.whole.Enqueue_keeps [of s uuid_New w req, OF _ _ reads_only_preserves(1) [OF clock]
      reads_only_preserves(1) [OF s(2)] reads_only_preserves(2) [OF clock] reads_only_preserves(2) [OF s(2)] ok]
  obtain r w1 where run: "Enqueue s uuid_New req w = (Ret r, w1)" and w1: "store_ok (get_outbox w1)"
      "\<forall>i m. entities (get_outbox w) i = Some m \<longrightarrow> entities (get_outbox w1) i = Some m"
    using keeps c by blast
  have log: "ap_log (snd w1) = ap_log (snd w)" and dec: "decision_at (get_outbox w1) = decision_at (get_outbox w)"
    using Enqueue_aside [OF s run] decision_aside [OF Enqueue_aside [OF s run]] by (simp_all add: aside_def)
  show ?thesis
  proof (cases r)
    case None
    have key: "n_IdempotencyKey n = er_IdempotencyKey req"
      if "NewNotification (enqueue_params i req) now = Inr n" for i now n
      using that by (auto simp: NewNotification_def enqueue_params_def split: if_splits)
    have nonzero: "\<And>w t w'. sv_clock s w = (Ret t, w') \<Longrightarrow> t \<noteq> 0" using c by blast
    have ports: "sv_notifications s = zoom_notifications get_outbox put_outbox outbox_repo"
      "sv_preferences s = zoom_preferences get_outbox put_outbox prefs_repo" using c by blast+
    have out: "(entities (get_outbox w1) = entities (get_outbox w) \<and> \<not> protected (er_Channel req) (er_Category req) \<and>
          decision_at (get_outbox w) (er_RecipientID req) (er_Channel req) (er_Category req) = Some False) \<or>
        (entities (get_outbox w1) = entities (get_outbox w) \<and> er_IdempotencyKey req \<noteq> [] \<and>
          (\<exists>i m. entities (get_outbox w) i = Some m \<and> n_IdempotencyKey m = er_IdempotencyKey req)) \<or>
        (\<exists>n now. entities (get_outbox w) (n_ID n) = None \<and>
          entities (get_outbox w1) = (entities (get_outbox w))(n_ID n \<mapsto> n) \<and>
          NewNotification (enqueue_params (n_ID n) req) now = Inr n)"
      by (rule app.whole.Enqueue_outcomes [of s uuid_New w req w1, OF ports reads_only_preserves(1) [OF clock]
        reads_only_preserves(1) [OF s(2)] _ ok run [unfolded None]]) (rule nonzero)
    have told: "event_told event userID req w1 \<or> switched_off req w"
      using out
    proof (elim disjE exE conjE)
      fix n now
      assume "entities (get_outbox w1) = (entities (get_outbox w))(n_ID n \<mapsto> n)"
        and "NewNotification (enqueue_params (n_ID n) req) now = Inr n"
      then have "entities (get_outbox w1) (n_ID n) = Some n" "n_IdempotencyKey n = er_IdempotencyKey req"
        using key by simp_all
      then show ?thesis unfolding event_told_def by blast
    next
      fix i m
      assume "entities (get_outbox w1) = entities (get_outbox w)" "entities (get_outbox w) i = Some m"
        "n_IdempotencyKey m = er_IdempotencyKey req"
      then show ?thesis unfolding event_told_def by auto
    qed (simp_all add: switched_off_def)
    with None run w1 log dec show ?thesis
      by (intro exI [of _ w1]) (simp add: bindp_def outbox_grows_def)
  next
    case (Some e)
    let ?w = "(fst w1, (snd w1)\<lparr>ap_log := ap_log (snd w1) @ [EnqueueFailed e event (er_Channel req) userID]\<rparr>)"
    have "event_told event userID req ?w" by (auto simp: event_told_def)
    with Some run w1 log dec show ?thesis
      by (intro exI [of _ ?w]) (auto simp: bindp_def log_line_def outbox_grows_def)
  qed
qed

lemma notify_channels_Cons:
  "notify_channels enq warn req event userID (ch # chs) =
     bindp (bindp (enq (req ch)) (\<lambda>err. case err of None \<Rightarrow> retp () | Some e \<Rightarrow> warn (EnqueueFailed e event ch userID)))
       (\<lambda>_. notify_channels enq warn req event userID chs)"
  by (simp add: bindp_def fun_eq_iff split: prod.split outcome.split)

lemma notify_channels_told:
  assumes s: "over_app_store s" "reads_only uuid_New" and "store_ok (get_outbox w)"
    and req: "\<And>ch. er_Channel (req ch) = ch"
  shows "\<exists>w'. notify_channels (Enqueue s uuid_New) log_line req event userID chs w = (Ret (), w') \<and>
    store_ok (get_outbox w') \<and> outbox_grows w w' \<and>
    (\<forall>ch \<in> set chs. event_told event userID (req ch) w' \<or> switched_off (req ch) w)"
  using assms(3)
proof (induction chs arbitrary: w)
  case Nil
  then show ?case by (simp add: outbox_grows_def)
next
  case (Cons ch chs)
  obtain w1 where w1: "bindp (Enqueue s uuid_New (req ch)) (\<lambda>err. case err of None \<Rightarrow> retp ()
      | Some e \<Rightarrow> log_line (EnqueueFailed e event ch userID)) w = (Ret (), w1)"
    "store_ok (get_outbox w1)" "outbox_grows w w1" "decision_at (get_outbox w1) = decision_at (get_outbox w)"
    "event_told event userID (req ch) w1 \<or> switched_off (req ch) w"
    using Enqueue_told [OF s Cons.prems, of "req ch" event userID] unfolding req by blast
  from Cons.IH [OF w1(2)] obtain w2 where w2:
    "notify_channels (Enqueue s uuid_New) log_line req event userID chs w1 = (Ret (), w2)"
    "store_ok (get_outbox w2)" "outbox_grows w1 w2"
    "\<forall>ch \<in> set chs. event_told event userID (req ch) w2 \<or> switched_off (req ch) w1" by blast
  have "switched_off q w1 = switched_off q w" for q by (simp add: switched_off_def w1(4))
  moreover have "outbox_grows w w2" using w1(3) w2(3) by (auto simp: outbox_grows_def)
  moreover have "notify_channels (Enqueue s uuid_New) log_line req event userID (ch # chs) w = (Ret (), w2)"
    using w2(1)
    by (simp only: notify_channels_Cons bindp_def [of "bindp _ _"] w1(1) prod.case outcome.case)
  ultimately show ?case using w1(5) w2 event_told_grows [OF _ w2(3)] by auto
qed

text \<open>
  C10. A security event never disappears in silence and never fails the request it belongs to: for
  each of the two channels its row is in the outbox under the key of the event, or a warning with
  the channel is in the log, or the recipient has switched that channel off, which is impossible for
  email; no row and no earlier line is lost.
\<close>

theorem security_event_recorded:
  assumes "over_app_store s" and "reads_only uuid_New" and "store_ok (get_outbox w)"
    and "uuid_Parse U userID = Inr recipient"
  shows "\<exists>w'. notify U (Enqueue s uuid_New) log_line userID event template t p w = (Ret (), w') \<and>
    store_ok (get_outbox w') \<and> outbox_grows w w' \<and>
    (\<forall>ch \<in> set securityChannels.
       event_told event userID (event_request userID event template t p recipient ch) w' \<or>
       (ch = ChannelInApp \<and> decision_at (get_outbox w) recipient ch CategorySecurity = Some False))"
  using notify_channels_told [OF assms(1,2,3), of "event_request userID event template t p recipient" event userID
      securityChannels] assms(4)
  by (auto simp: notify_def switched_off_def protected_def event_request_def securityChannels_def)

definition demo_app :: "unit app_world" where
  "demo_app =
     (\<lparr>it_users = [], it_tokens = [], it_codes = []\<rparr>,
      \<lparr>is_env = [], is_uuids = [], is_lower = (\<lambda>s. s), ap_outbox = demo_db, ap_profiles = [],
       ap_profile_env = [], ap_log = [], \<dots> = ()\<rparr>)"

definition demo_app_service :: "unit app_world service" where
  "demo_app_service =
     \<lparr>sv_notifications = app_notifications, sv_preferences = app_preferences,
      sv_renderer = (\<lambda>k c p. retp (Inr demo_message)),
      sv_senders = [ChannelInApp \<mapsto> \<lparr>cs_Channel = ChannelInApp, cs_Send = (\<lambda>m. retp None)\<rparr>],
      sv_clock = retp 20, sv_jitter = None, sv_observer = None, sv_cfg = sv_cfg demo_service\<rparr>"

lemma demo_over_app_store: "over_app_store demo_app_service" "reads_only (retp i)"
  by (simp_all add: over_app_store_def demo_app_service_def reads_only_def)

theorem security_event_recorded_witness:
  "\<exists>w'. notify demo_uuid (Enqueue demo_app_service (retp 7)) log_line ''0000'' ''mfa_enabled'' ''k'' 5 None demo_app =
      (Ret (), w') \<and>
     event_told ''mfa_enabled'' ''0000'' (event_request ''0000'' ''mfa_enabled'' ''k'' 5 None 3 ChannelInApp) w'"
proof -
  have "store_ok (get_outbox demo_app)" using demo_ok by (simp add: get_outbox_def demo_app_def)
  moreover have "uuid_Parse demo_uuid ''0000'' = Inr 3" by (simp add: demo_uuid_def)
  moreover have "decision_at (get_outbox demo_app) 3 ChannelInApp CategorySecurity = None"
    by (simp add: decision_at_def get_outbox_def demo_app_def demo_db_def)
  ultimately show ?thesis
    using security_event_recorded [OF demo_over_app_store(1) demo_over_app_store(2),
        of demo_app demo_uuid "''0000''" 3 7 "''mfa_enabled''" "''k''" 5 None]
    by (simp add: securityChannels_def) blast
qed

section \<open>Keys in rotation\<close>

text \<open>The key files of a rotation: the pair that signs and the key that signed before.\<close>

definition rotating ::
  "('priv \<Rightarrow> rsa_public) \<Rightarrow> ('w, 'priv) key_files \<Rightarrow> auth_section \<Rightarrow> 'priv \<Rightarrow> rsa_public \<Rightarrow> bool" where
  "rotating public_half F a priv retired \<longleftrightarrow>
     as_PreviousPublicKeyPath a \<noteq> [] \<and> Kid retired \<noteq> Kid (public_half priv) \<and>
     (\<forall>w. loadRSAPrivateKey F (as_PrivateKeyPath a) w = (Ret (Inr priv), w)) \<and>
     (\<forall>w. loadRSAPublicKey F (as_PublicKeyPath a) w = (Ret (Inr (public_half priv)), w)) \<and>
     (\<forall>w. loadRSAPublicKey F (as_PreviousPublicKeyPath a) w = (Ret (Inr retired), w))"

definition current_keys :: "('priv \<Rightarrow> rsa_public) \<Rightarrow> auth_section \<Rightarrow> 'priv \<Rightarrow> 'priv jwt_service" where
  "current_keys public_half a priv =
     \<lparr>js_privateKey = priv, js_publicKey = public_half priv, js_issuer = as_Issuer a, js_audience = as_ClientID a,
      js_leeway = (if sint (as_TokenLeeway a) \<le> 0 then defaultLeeway else as_TokenLeeway a),
      js_signingKid = Kid (public_half priv), js_verificationKeys = [(Kid (public_half priv), public_half priv)]\<rparr>"

lemma rotating_verifier:
  assumes "rotating public_half (ae_files E) (cf_Auth cfg) priv retired"
  shows "newAuthMiddleware E cfg w =
    (Ret (Inr (AuthRequired (JWTService (rn_Now (ae_rt E)) (rn_uuid (ae_rt E)) (ae_jwt E)
      (current_keys public_half (cf_Auth cfg) priv)))), w)"
  using assms by (simp add: newAuthMiddleware_def NewJWTService_def rotating_def current_keys_def bindp_def Let_def)

lemma rotating_issuer:
  assumes "rotating public_half F a priv retired"
  shows "NewTokens F (identity_of a n) w =
    (Ret (Inr ((current_keys public_half a priv)\<lparr>js_verificationKeys :=
       [(Kid (public_half priv), public_half priv), (Kid retired, retired)]\<rparr>)), w)"
proof -
  have "Kid (public_half priv) \<noteq> Kid retired" using assms by (metis rotating_def)
  with assms show ?thesis
    by (simp add: NewTokens_def NewJWTService_def WithPreviousKey_def rotating_def current_keys_def identity_of_def
        bindp_def Let_def)
qed

lemma AuthRequired_bearer:
  assumes "get_first (rq_Header r) ''Authorization'' = ''Bearer '' @ tok"
    and "Validate J s tok ClassAccess (wb_World w) = (Ret x, wb_World w)"
  shows "AuthRequired (JWTService Now U J s) nxt r w =
    (case x of Inl e \<Rightarrow> Unauthorized r
     | Inr c \<Rightarrow> if cl_Subject c = [] then Unauthorized r
         else nxt (WithPrincipal r \<lparr>pl_Subject = cl_Subject c, pl_Scopes = None, pl_Extra = None\<rparr>)) w"
  using assms
  by (simp add: AuthRequired_def Let_def has_prefix_def trim_prefix_def JWTService_def bindp_def in_world_def)

lemma issued_opens:
  assumes "jwt_pkg_ok Now public_half J" and "service_ok public_half s" and "service_ok public_half s'"
    and "utf8_user U u" and "issued Now U J s u cls ending tok"
    and "map_of (js_verificationKeys s') (js_signingKid s) = Some (js_publicKey s)"
    and "js_issuer s' = js_issuer s" and "js_audience s' = js_audience s"
    and "\<bar>Unix ending\<bar> < 2 ^ 53" and "1000000000 \<le> sint (js_leeway s')"
    and "Now w = (Ret now, w)" and "now < ending"
  shows "\<exists>c. Validate J s' tok cls w = (Ret (Inr c), w) \<and> cl_Subject c = uuid_String U (u_ID u)"
  using issued_validates [OF assms, of cls] by auto

text \<open>
  C15. While a key rotation is under way the service is of two minds: an access token of the retired
  key opens identity's own routes, as the configuration promises, and the routes of the user and
  notification modules answer it with a 401, because the middleware the composition root builds for
  them never learns of the previous key.
\<close>

theorem rotation_splits_the_service:
  assumes "rotating public_half (ae_files E) (cf_Auth cfg) priv (js_publicKey old)"
    and "jwt_pkg_ok (rn_Now (ae_rt E)) public_half (ae_jwt E)" and "service_ok public_half old"
    and "js_issuer old = as_Issuer (cf_Auth cfg)" and "js_audience old = as_ClientID (cf_Auth cfg)"
    and "utf8_user (rn_uuid (ae_rt E)) u" and "uuid_pkg_ok (rn_uuid (ae_rt E))"
    and "issued (rn_Now (ae_rt E)) (rn_uuid (ae_rt E)) (ae_jwt E) old u ClassAccess ending tok"
    and "\<bar>Unix ending\<bar> < 2 ^ 53" and "sint (as_TokenLeeway (cf_Auth cfg)) \<le> 0 \<or> 1000000000 \<le> sint (as_TokenLeeway (cf_Auth cfg))"
    and "rn_Now (ae_rt E) (wb_World w) = (Ret now, wb_World w)" and "now < ending"
    and "get_first (rq_Header r) ''Authorization'' = ''Bearer '' @ tok"
  shows "\<exists>s mw. NewTokens (ae_files E) (identity_of (cf_Auth cfg) n) w0 = (Ret (Inr s), w0) \<and>
    newAuthMiddleware E cfg w0 = (Ret (Inr mw), w0) \<and>
    AuthRequired (JWTService (rn_Now (ae_rt E)) (rn_uuid (ae_rt E)) (ae_jwt E) s) nxt r w =
      nxt (WithPrincipal r \<lparr>pl_Subject = uuid_String (rn_uuid (ae_rt E)) (u_ID u), pl_Scopes = None, pl_Extra = None\<rparr>) w \<and>
    mw nxt r w = Unauthorized r w"
proof -
  let ?a = "cf_Auth cfg" and ?J = "ae_jwt E" and ?U = "rn_uuid (ae_rt E)"
  let ?cur = "current_keys public_half ?a priv"
  let ?both = "?cur\<lparr>js_verificationKeys := [(Kid (public_half priv), public_half priv), (Kid (js_publicKey old), js_publicKey old)]\<rparr>"
  note old = assms(3) [unfolded service_ok_def]
  have kids: "Kid (js_publicKey old) \<noteq> Kid (public_half priv)" using assms(1) by (simp add: rotating_def)
  have lee: "1000000000 \<le> sint (js_leeway ?cur)" using assms(10) by (auto simp: current_keys_def defaultLeeway_def)
  have ok: "service_ok public_half ?cur" "service_ok public_half ?both"
    using old assms(4,5) kids lee by (auto simp: service_ok_def current_keys_def)
  have known: "map_of (js_verificationKeys ?both) (js_signingKid old) = Some (js_publicKey old)"
    "js_issuer ?both = js_issuer old" "js_audience ?both = js_audience old" "1000000000 \<le> sint (js_leeway ?both)"
    using old kids lee assms(4,5) by (simp_all add: current_keys_def)
  obtain c where c: "Validate ?J ?both tok ClassAccess (wb_World w) = (Ret (Inr c), wb_World w) \<and>
      cl_Subject c = uuid_String ?U (u_ID u)"
    using issued_opens [OF assms(2,3) ok(2) assms(6,8) known(1,2,3) assms(9) known(4) assms(11,12)] by (rule exE)
  have subject: "cl_Subject c \<noteq> []" unfolding conjunct2 [OF c] using assms(7) unfolding uuid_pkg_ok_def by blast
  from issued_minted [OF assms(2,3,6,8)] obtain cl where "minted ?J old cl tok" .
  from Validate_unknown_key [OF assms(2) ok(1) assms(11) this] kids old
  have "\<And>c w'. Validate ?J ?cur tok ClassAccess (wb_World w) \<noteq> (Ret (Inr c), w')" by (simp add: current_keys_def)
  moreover obtain x where x: "Validate ?J ?cur tok ClassAccess (wb_World w) = (Ret x, wb_World w)"
    using Validate_returns [OF assms(2) ok(1) assms(11)] by blast
  ultimately obtain e where e: "x = Inl e" by (cases x) auto
  have "AuthRequired (JWTService (rn_Now (ae_rt E)) ?U ?J ?cur) nxt r w = Unauthorized r w"
    using AuthRequired_bearer [OF assms(13) x] by (simp add: e)
  moreover have "AuthRequired (JWTService (rn_Now (ae_rt E)) ?U ?J ?both) nxt r w =
      nxt (WithPrincipal r \<lparr>pl_Subject = uuid_String ?U (u_ID u), pl_Scopes = None, pl_Extra = None\<rparr>) w"
    using AuthRequired_bearer [OF assms(13) conjunct1 [OF c]] subject by (simp add: conjunct2 [OF c])
  ultimately show ?thesis using rotating_verifier [OF assms(1)] rotating_issuer [OF assms(1)] by blast
qed

text \<open>An application whose key files are told apart by path, for any set of notification dependencies.\<close>

definition demo_key_files :: "('w, rsa_public) key_files" where
  "demo_key_files =
     \<lparr>kf_ReadFile = (\<lambda>path. retp (Inr (if path = ''old'' then [0] else []))), kf_pem_Decode = Some,
      kf_ParsePKCS1PrivateKey = (\<lambda>b. Inr demo_new),
      kf_ParsePKIXPublicKey = (\<lambda>b. Inr (Some (if b = [0] then demo_old else demo_new)))\<rparr>"

definition demo_env :: "('w, 't, 'h) module_deps \<Rightarrow> ('w, rsa_public, 't, 'h) app_env" where
  "demo_env N =
     \<lparr>ae_rt = \<lparr>rn_Now = retp 3, rn_RandRead = (\<lambda>_. retp (Inr [])), rn_bcrypt = (\<lambda>s. retp (Inr s)), rn_uuid = demo_uuid\<rparr>,
      ae_identity = \<lparr>ip_bcrypt_Compare = (\<lambda>_ _. None), ip_totp_Generate = (\<lambda>_ _. retp (Inr ([], []))),
        ip_totp_Validate = (\<lambda>_ _. retp True)\<rparr>,
      ae_files = demo_key_files, ae_jwt = demo_jwt, ae_bodies = demo_bodies, ae_audit = (\<lambda>_. retp ()),
      ae_err_text = (\<lambda>_. []), ae_request_id = [], ae_uuid_New = retp 7, ae_notification = N, ae_time_json = RFC3339Nano\<rparr>"

definition demo_rotation :: app_config where
  "demo_rotation = demo_config\<lparr>cf_Auth := (cf_Auth demo_config)\<lparr>as_Issuer := ''kopiochi'', as_ClientID := ''cli'',
     as_PreviousPublicKeyPath := ''old''\<rparr>\<rparr>"

lemma demo_rotating: "rotating id (ae_files (demo_env N)) (cf_Auth demo_rotation) demo_new (js_publicKey (demo_keys demo_old))"
  by (simp add: rotating_def demo_rotation_def demo_config_def demo_env_def demo_key_files_def loadRSAPrivateKey_def
      loadRSAPublicKey_def bindp_def)

theorem rotation_splits_the_service_witness:
  "\<forall>N :: (unit, unit, unit) module_deps. \<exists>s mw. newAuthMiddleware (demo_env N) demo_rotation () = (Ret (Inr mw), ()) \<and>
     NewTokens demo_key_files (identity_of (cf_Auth demo_rotation) NopNotifier) () = (Ret (Inr s), ()) \<and>
     mw (\<lambda>r. WriteHeader 204) (demo_get (''Bearer t'')) \<lparr>wb_Writer = fresh_writer, wb_World = ()\<rparr> =
       Unauthorized (demo_get (''Bearer t'')) \<lparr>wb_Writer = fresh_writer, wb_World = ()\<rparr> \<and>
     AuthRequired (JWTService (retp 3) demo_uuid demo_jwt s) (\<lambda>r. WriteHeader 204) (demo_get (''Bearer t''))
       \<lparr>wb_Writer = fresh_writer, wb_World = ()\<rparr> = WriteHeader 204 \<lparr>wb_Writer = fresh_writer, wb_World = ()\<rparr>"
proof
  fix N :: "(unit, unit, unit) module_deps"
  have E: "rn_Now (ae_rt (demo_env N)) = retp 3" "rn_uuid (ae_rt (demo_env N)) = demo_uuid" "ae_jwt (demo_env N) = demo_jwt"
    "ae_files (demo_env N) = demo_key_files"
    by (simp_all add: demo_env_def)
  have a: "js_issuer (demo_keys demo_old) = as_Issuer (cf_Auth demo_rotation)"
    "js_audience (demo_keys demo_old) = as_ClientID (cf_Auth demo_rotation)" "sint (as_TokenLeeway (cf_Auth demo_rotation)) \<le> 0"
    by (simp_all add: demo_rotation_def demo_config_def)
  have h: "get_first (rq_Header (demo_get (''Bearer t''))) ''Authorization'' = ''Bearer '' @ ''t''"
    by (simp add: demo_get_def get_first_def)
  show "\<exists>s mw. newAuthMiddleware (demo_env N) demo_rotation () = (Ret (Inr mw), ()) \<and>
     NewTokens demo_key_files (identity_of (cf_Auth demo_rotation) NopNotifier) () = (Ret (Inr s), ()) \<and>
     mw (\<lambda>r. WriteHeader 204) (demo_get (''Bearer t'')) \<lparr>wb_Writer = fresh_writer, wb_World = ()\<rparr> =
       Unauthorized (demo_get (''Bearer t'')) \<lparr>wb_Writer = fresh_writer, wb_World = ()\<rparr> \<and>
     AuthRequired (JWTService (retp 3) demo_uuid demo_jwt s) (\<lambda>r. WriteHeader 204) (demo_get (''Bearer t''))
       \<lparr>wb_Writer = fresh_writer, wb_World = ()\<rparr> = WriteHeader 204 \<lparr>wb_Writer = fresh_writer, wb_World = ()\<rparr>"
    using rotation_splits_the_service [OF demo_rotating, of N, unfolded E, OF demo_jwt_ok demo_keys_ok a(1,2) demo_user_utf8
        demo_uuid_ok demo_issued demo_ending(1) disjI1 [OF a(3)] _ _ h,
        of "\<lparr>wb_Writer = fresh_writer, wb_World = ()\<rparr>" 3 NopNotifier "()" "\<lambda>r. WriteHeader 204"]
    by auto
qed

section \<open>Every route of the modules is guarded\<close>

definition behind :: "'w middleware \<Rightarrow> 'w handler \<Rightarrow> bool" where
  "behind mw h \<longleftrightarrow> (\<exists>inner. h = mw inner)"

lemma behind_self [simp]: "behind mw (mw inner)"
  by (auto simp: behind_def)

definition guarded :: "('w, 'priv, 't, 'h) app_env \<Rightarrow> 'priv jwt_service \<Rightarrow> 'w handler \<Rightarrow> bool" where
  "guarded E s h \<longleftrightarrow> behind (AuthRequired (JWTService (rn_Now (ae_rt E)) (rn_uuid (ae_rt E)) (ae_jwt E) s)) h"

lemma newAuthMiddleware_built:
  assumes "newAuthMiddleware E cfg w = (Ret (Inr mw), w')"
  shows "\<exists>s. mw = AuthRequired (JWTService (rn_Now (ae_rt E)) (rn_uuid (ae_rt E)) (ae_jwt E) s) \<and>
    js_issuer s = as_Issuer (cf_Auth cfg) \<and> js_audience s = as_ClientID (cf_Auth cfg)"
proof -
  from assms obtain s where s: "NewJWTService (ae_files E) (as_PrivateKeyPath (cf_Auth cfg)) (as_PublicKeyPath (cf_Auth cfg))
      (as_Issuer (cf_Auth cfg)) (as_ClientID (cf_Auth cfg)) (as_TokenLeeway (cf_Auth cfg)) w = (Ret (Inr s), w')"
    "mw = AuthRequired (JWTService (rn_Now (ae_rt E)) (rn_uuid (ae_rt E)) (ae_jwt E) s)"
    by (auto simp: newAuthMiddleware_def Let_def elim!: runE)
  moreover have "js_issuer s = as_Issuer (cf_Auth cfg) \<and> js_audience s = as_ClientID (cf_Auth cfg)"
    using s(1) by (auto simp: NewJWTService_def Let_def elim!: runE)
  ultimately show ?thesis by blast
qed

lemma map_sum_Inr: "map_sum f g x = Inr y \<longleftrightarrow> (\<exists>z. x = Inr z \<and> y = g z)"
  by (cases x) auto

lemma newUserModule_built:
  assumes "newUserModule E cfg w = (Ret (Inr um), w')"
  shows "\<exists>mw w1. newAuthMiddleware E cfg w = (Ret (Inr mw), w1) \<and> am_Name um = ''user'' \<and> am_Close um = None \<and>
    (\<forall>r \<in> set (am_Routes um). behind mw (snd (snd r)))"
proof -
  from assms obtain mw w1 h where mw: "newAuthMiddleware E cfg w = (Ret (Inr mw), w1)" "uh_authMW h = mw"
    and um: "am_Routes um = UserRoutes h" "am_Name um = ''user''" "am_Close um = None"
    by (auto simp: newUserModule_def NewUserModule_def user_Validate_def elim!: runE)
      (metis user_handler.select_convs(2))
  then show ?thesis by (auto simp: UserRoutes_def)
qed

lemma notificationConfig_built:
  assumes "notificationConfig E cfg w = (Ret (Inr ncfg), w')"
  shows "mo_Enabled ncfg = ns_Enabled (cf_Notification cfg) \<and>
    (mo_Enabled ncfg \<longrightarrow> (\<exists>mw w1. newAuthMiddleware E cfg w = (Ret (Inr mw), w1) \<and> mo_Auth ncfg = Some mw))"
proof (cases "ns_Enabled (cf_Notification cfg)")
  case True
  with assms show ?thesis
    by (cases "newAuthMiddleware E cfg w" rule: prod.exhaust)
      (auto simp: notificationConfig_def Let_def bindp_def map_sum_Inr split: outcome.splits sum.splits)
next
  case False
  with assms show ?thesis by (auto simp: notificationConfig_def Let_def)
qed

lemma NewNotificationModule_built:
  assumes "NewNotificationModule deps ncfg w = (Ret (Inr nm), w')"
  shows "am_Name nm = ''notification'' \<and> am_Close nm \<noteq> None \<and>
    (\<not> mo_Enabled ncfg \<longrightarrow> am_Routes nm = []) \<and>
    (\<forall>r \<in> set (am_Routes nm). behind (the (mo_Auth ncfg)) (snd (snd r)))"
  using assms
  by (cases "mo_Enabled ncfg")
    (auto simp: NewNotificationModule_def disabled_module_def module_Name_def NotificationRoutes_def elim!: runE)

text \<open>
  C14. An application that is built has the three modules, in this order, and no route of the user or
  the notification module is reachable but through the token check of the configured issuer and
  audience; a disabled notification module has no route at all, and only this module has something to
  close.
\<close>

theorem built_routes_are_guarded:
  assumes "BuildApp E cfg w = (Ret (Inr mods), w')"
  shows "\<exists>idm um nm s s'. mods = [idm, um, nm] \<and> map am_Name mods = [''identity'', ''user'', ''notification''] \<and>
    (\<forall>r \<in> set (am_Routes um). guarded E s (snd (snd r))) \<and> (\<forall>r \<in> set (am_Routes nm). guarded E s' (snd (snd r))) \<and>
    (\<forall>k \<in> {s, s'}. js_issuer k = as_Issuer (cf_Auth cfg) \<and> js_audience k = as_ClientID (cf_Auth cfg)) \<and>
    (\<not> ns_Enabled (cf_Notification cfg) \<longrightarrow> am_Routes nm = []) \<and>
    am_Close idm = None \<and> am_Close um = None \<and> am_Close nm \<noteq> None"
proof -
  from assms obtain ncfg w1 notifier idm w2 um w3 nm w4 where
    ncfg: "notificationConfig E cfg w = (Ret (Inr ncfg), w1)"
    and idm: "identity_module E cfg notifier w1 = (Ret (Inr idm), w2)"
    and um: "newUserModule E cfg w2 = (Ret (Inr um), w3)"
    and nm: "NewNotificationModule (app_deps E) ncfg w3 = (Ret (Inr nm), w4)" and mods: "mods = [idm, um, nm]"
    by (auto simp: BuildApp_def Let_def elim!: runE)
  have ident: "am_Name idm = ''identity'' \<and> am_Close idm = None"
    using idm by (auto simp: identity_module_def map_sum_Inr elim!: runE)
  obtain s where s: "js_issuer s = as_Issuer (cf_Auth cfg)" "js_audience s = as_ClientID (cf_Auth cfg)"
      "am_Name um = ''user''" "am_Close um = None" "\<forall>r \<in> set (am_Routes um). guarded E s (snd (snd r))"
    using newUserModule_built [OF um] newAuthMiddleware_built unfolding guarded_def by metis
  obtain s' where s': "js_issuer s' = as_Issuer (cf_Auth cfg)" "js_audience s' = as_ClientID (cf_Auth cfg)"
      "\<forall>r \<in> set (am_Routes nm). guarded E s' (snd (snd r))"
  proof (cases "mo_Enabled ncfg")
    case True
    with notificationConfig_built [OF ncfg] newAuthMiddleware_built obtain s' where
      s': "mo_Auth ncfg = Some (AuthRequired (JWTService (rn_Now (ae_rt E)) (rn_uuid (ae_rt E)) (ae_jwt E) s'))"
        "js_issuer s' = as_Issuer (cf_Auth cfg)" "js_audience s' = as_ClientID (cf_Auth cfg)" by metis
    with NewNotificationModule_built [OF nm] show thesis
      by (intro that [of s']) (auto simp: guarded_def)
  next
    case False
    with NewNotificationModule_built [OF nm] s show thesis by (intro that [of s]) auto
  qed
  have "mo_Enabled ncfg = ns_Enabled (cf_Notification cfg)" using notificationConfig_built [OF ncfg] by simp
  with NewNotificationModule_built [OF nm]
  have nm': "am_Name nm = ''notification''" "am_Close nm \<noteq> None" "\<not> ns_Enabled (cf_Notification cfg) \<longrightarrow> am_Routes nm = []"
    by simp_all
  show ?thesis
    by (rule exI [of _ idm], rule exI [of _ um], rule exI [of _ nm], rule exI [of _ s], rule exI [of _ s'])
      (simp add: mods ident s s' nm' del: split_paired_All split_paired_Ex)
qed

lemma demo_builds: "\<exists>mods w'. BuildApp (demo_env N) demo_rotation demo_app = (Ret (Inr mods), w')"
proof -
  obtain ncfg where n: "notificationConfig (demo_env N) demo_rotation demo_app = (Ret (Inr ncfg), demo_app)" "\<not> mo_Enabled ncfg"
    by (simp add: notificationConfig_def Let_def demo_rotation_def demo_config_def)
  have valid: "identity_Validate (identity_of (cf_Auth demo_rotation) NopNotifier) = None"
    by (simp add: identity_Validate_def identity_of_def demo_rotation_def demo_config_def)
  note tokens = rotating_issuer [OF demo_rotating, of N NopNotifier demo_app]
  have "\<exists>idm. identity_module (demo_env N) demo_rotation NopNotifier demo_app = (Ret (Inr idm), demo_app)"
    by (simp add: identity_module_def NewIdentity_def valid tokens bindp_def Let_def)
  then obtain idm where i: "identity_module (demo_env N) demo_rotation NopNotifier demo_app = (Ret (Inr idm), demo_app)" ..
  obtain um where u: "newUserModule (demo_env N) demo_rotation demo_app = (Ret (Inr um), demo_app)"
    using rotating_verifier [OF demo_rotating, of N demo_app]
    by (simp add: newUserModule_def NewUserModule_def user_Validate_def bindp_def)
  have "NewNotificationModule (app_deps (demo_env N)) ncfg demo_app = (Ret (Inr disabled_module), demo_app)"
    using n(2) module_Validate_None [of ncfg] by (simp add: NewNotificationModule_def)
  then show ?thesis
    using n i u by (simp add: BuildApp_def newSecurityNotifier_def bindp_def log_line_def)
qed

theorem built_routes_are_guarded_witness:
  "\<forall>N :: (unit app_world, unit, unit) module_deps.
     \<exists>idm um nm s. fst (BuildApp (demo_env N) demo_rotation demo_app) = Ret (Inr [idm, um, nm]) \<and> am_Name um = ''user'' \<and>
       (\<forall>r \<in> set (am_Routes um). guarded (demo_env N) s (snd (snd r))) \<and> am_Routes nm = []"
proof
  fix N :: "(unit app_world, unit, unit) module_deps"
  obtain mods w' where run: "BuildApp (demo_env N) demo_rotation demo_app = (Ret (Inr mods), w')"
    using demo_builds by blast
  have off: "\<not> ns_Enabled (cf_Notification demo_rotation)" by (simp add: demo_rotation_def demo_config_def)
  from built_routes_are_guarded [OF run] obtain idm um nm s where
    "mods = [idm, um, nm]" "map am_Name mods = [''identity'', ''user'', ''notification'']"
    "\<forall>r \<in> set (am_Routes um). guarded (demo_env N) s (snd (snd r))"
    "\<not> ns_Enabled (cf_Notification demo_rotation) \<longrightarrow> am_Routes nm = []"
    by (elim exE conjE) (rule that, assumption+)
  with run off show "\<exists>idm um nm s. fst (BuildApp (demo_env N) demo_rotation demo_app) = Ret (Inr [idm, um, nm]) \<and>
      am_Name um = ''user'' \<and> (\<forall>r \<in> set (am_Routes um). guarded (demo_env N) s (snd (snd r))) \<and> am_Routes nm = []"
    by (intro exI [of _ idm] exI [of _ um] exI [of _ nm] exI [of _ s]) simp
qed

section \<open>Paging\<close>

definition cursor_codec_ok :: "notif_codec \<Rightarrow> bool" where
  \<comment> \<open>the binary form of a position is not empty and is read back\<close>
  "cursor_codec_ok K \<longleftrightarrow> (\<forall>t i. nc_Marshal K t i \<noteq> [] \<and> nc_Unmarshal K (nc_Marshal K t i) = Some (t, i))"

text \<open>
  The cursor of a page is its own way back: sent as the \<open>cursor\<close> parameter of the same query it
  is read as the position it was made from, with every other parameter unchanged.
\<close>

theorem cursor_round_trip:
  assumes "cursor_codec_ok K" and "t \<noteq> 0" "i \<noteq> uuid_Nil" and "parseListFilter K q = Inr f"
  shows "parseListFilter K (q(''cursor'' := [encodeCursor K (Cursor t i)])) = Inr (f\<lparr>lf_Before := Some (Cursor t i)\<rparr>)"
proof -
  have "decodeCursor K (encodeCursor K (Cursor t i)) = Inr (Cursor t i)"
    using assms(1-3) by (simp add: decodeCursor_def encodeCursor_def cursor_codec_ok_def)
  moreover have "encodeCursor K (Cursor t i) \<noteq> []"
    using assms(1) by (simp add: encodeCursor_def base64url_Encode_eq_Nil cursor_codec_ok_def)
  ultimately have "query_cursor K (get_first (q(''cursor'' := [encodeCursor K (Cursor t i)])) ''cursor'') =
      Inr (Some (Cursor t i))"
    by (simp add: query_cursor_def get_first_def)
  moreover have "get_first (q(''cursor'' := x)) ''unread'' = get_first q ''unread''"
    "get_first (q(''cursor'' := x)) ''limit'' = get_first q ''limit''" for x
    by (simp_all add: get_first_def)
  ultimately show ?thesis
    using assms(4) by (auto simp: parseListFilter_def Normalize_def Let_def split: sum.splits)
qed

text \<open>A codec in unary.\<close>

definition demo_codec :: notif_codec where
  "demo_codec =
     \<lparr>nc_uuid = demo_uuid, nc_time = RFC3339Nano, nc_payload = (\<lambda>_. JNull),
      nc_Marshal = (\<lambda>t i. replicate (nat t) 1 @ 0 # replicate (nat (- t)) 1 @ 0 # replicate (unat i) 1),
      nc_Unmarshal = (\<lambda>b. let ones = takeWhile (\<lambda>x. x = 1); rest = (\<lambda>b. tl (dropWhile (\<lambda>x. x = 1) b)) in
        Some (int (length (ones b)) - int (length (ones (rest b))), of_nat (length (ones (rest (rest b)))))),
      nc_Body = (\<lambda>b. ([], None))\<rparr>"

lemma demo_codec_ok: "cursor_codec_ok demo_codec"
proof -
  have run: "takeWhile (\<lambda>x. x = 1) (replicate n 1 @ 0 # b) = replicate n 1" "dropWhile (\<lambda>x. x = 1) (replicate n 1 @ 0 # b) = 0 # b"
    "takeWhile (\<lambda>x. x = 1) (replicate n 1) = replicate n 1" for n and b :: "byte8 list"
    by (induction n) simp_all
  show ?thesis by (simp add: cursor_codec_ok_def demo_codec_def Let_def run)
qed

theorem cursor_round_trip_witness:
  "parseListFilter demo_codec (\<lambda>k. if k = ''cursor'' then [encodeCursor demo_codec (Cursor 20 1)] else []) =
     Inr (Normalize \<lparr>lf_UnreadOnly = False, lf_Limit = 0, lf_Before = Some (Cursor 20 1)\<rparr>)"
proof -
  have "parseListFilter demo_codec (\<lambda>_. []) = Inr (Normalize \<lparr>lf_UnreadOnly = False, lf_Limit = 0, lf_Before = None\<rparr>)"
    by (simp add: parseListFilter_def get_first_def query_unread_def query_limit_def query_cursor_def)
  from cursor_round_trip [OF demo_codec_ok _ _ this, of 20 1] show ?thesis
    by (simp add: uuid_Nil_def Normalize_def fun_upd_def Let_def)
qed

section \<open>The mailbox and the profile behind HTTP\<close>

text \<open>
  C33. Marking a notification read is answered with 204 exactly when it is an in-app row of the
  caller's own, and then only the read mark of this row is set; an id of somebody else's row, of no
  row and one that is no uuid get the one same 404, and nothing changes.
\<close>

theorem mark_read_no_oracle:
  assumes "nh_svc h = notification_api s" and "sv_notifications s = outbox_repo" and "sv_clock s = retp now"
    and "wb_Writer w = fresh_writer" and "d_env (wb_World w) = []"
    and "FromContext r = Some p" "pl_Subject p \<noteq> []" "uuid_Parse (nc_uuid (nh_codec h)) (pl_Subject p) = Inr u"
  shows "HandleMarkRead h r w =
    (case uuid_Parse (nc_uuid (nh_codec h)) (rq_URLParam r ''id'') of
       Inl _ \<Rightarrow> writeNotFound r w
     | Inr i \<Rightarrow>
         if \<exists>row \<in> set (d_notifications (wb_World w)). nr_ID row = i \<and> in_mailbox u row
         then WriteHeader 204 (w\<lparr>wb_World := (wb_World w)\<lparr>d_notifications := map (\<lambda>row. if nr_ID row = i \<and> in_mailbox u row
             then row\<lparr>nr_ReadAt := Some (case nr_ReadAt row of None \<Rightarrow> now | Some t \<Rightarrow> t)\<rparr> else row)
             (d_notifications (wb_World w))\<rparr>\<rparr>)
         else writeNotFound r w)"
proof -
  have "for_caller (nh_codec h) act r w = act u r w" for act
    using assms(6-8) by (simp add: for_caller_def caller_def MustFromContext_def bindp_def)
  then show ?thesis
    unfolding HandleMarkRead_def
    by (auto simp: assms(1-3) notification_api_def in_world_def MarkRead_def bindp_def repo_MarkRead_eq [OF assms(5)]
        err_simps split: sum.split)
qed

lemma EnsureOwnProfile_effect:
  assumes "profiles_inv db"
  shows "\<exists>res db'. EnsureOwnProfile profile_repo i db = (Ret res, db') \<and> profiles_inv db' \<and>
    (\<forall>j. j \<noteq> i \<or> profile_at db i \<noteq> None \<longrightarrow> profile_at db' j = profile_at db j) \<and>
    (\<forall>u. res = Inr u \<longrightarrow> (\<exists>p. profile_at db' i = Some p \<and> u = ToUserResponse p))"
proof -
  obtain r db1 where ens: "profiles_EnsureExists i db = (r, db1)" by fastforce
  have inv1: "profiles_inv db1" by (rule profiles_inv_EnsureExists [OF assms ens])
  have keep: "\<forall>j. j \<noteq> i \<or> profile_at db i \<noteq> None \<longrightarrow> profile_at db1 j = profile_at db j"
    using profiles_EnsureExists_cases [OF ens] by auto
  obtain q db2 where got: "profiles_GetByID i db1 = (q, db2)" by fastforce
  note read = profiles_GetByID_cases [OF got]
  have inv2: "profiles_inv db2" using inv1 read by (simp add: profiles_inv_def)
  have "(\<exists>e. r = Ret (Some e)) \<or> r = Ret None" using profiles_EnsureExists_cases [OF ens] by auto
  then show ?thesis
  proof
    assume "\<exists>e. r = Ret (Some e)"
    then show ?thesis using ens inv1 keep by (auto simp: EnsureOwnProfile_def profile_repo_def bindp_def)
  next
    assume "r = Ret None"
    then show ?thesis using ens got inv2 keep read
      by (auto simp: EnsureOwnProfile_def GetOwnProfile_def profile_repo_def bindp_def)
  qed
qed

text \<open>
  C34. The profile endpoint serves the caller and nobody else: without a parsable principal it is a
  401 and nothing happens; otherwise it answers 200 with the stored profile of the caller or a bare
  500, never changes another's profile nor one that exists, and keeps the table one profile per id,
  each of an account.
\<close>

theorem own_profile_only:
  assumes "NewUserModule profile_repo U fmt (Some mw) = Inr h" and "wb_Writer w = fresh_writer"
    and "profiles_inv (wb_World w)"
  shows "\<exists>w' status hdr b. HandleEnsureOwnProfile h r w = (Ret (), w') \<and> answered (wb_Writer w') = (status, hdr, [b]) \<and>
    profiles_inv (wb_World w') \<and>
    (case profile_caller U r of
       None \<Rightarrow> status = 401 \<and> wb_World w' = wb_World w
     | Some i \<Rightarrow>
         (\<forall>j. j \<noteq> i \<or> profile_at (wb_World w) i \<noteq> None \<longrightarrow> profile_at (wb_World w') j = profile_at (wb_World w) j) \<and>
         (status = 500 \<or> status = 200 \<and> (\<exists>p. profile_at (wb_World w') i = Some p \<and> pf_ID p = i \<and>
            b = BJson (user_response_json h (ToUserResponse p)))))"
proof -
  have h: "uh_uuid h = U" "ua_EnsureOwnProfile (uh_svc h) = EnsureOwnProfile profile_repo"
    using assms(1) by (auto simp: NewUserModule_def user_Validate_def NewUserService_def)
  show ?thesis
  proof (cases "profile_caller U r")
    case None
    then show ?thesis using assms(2,3)
      by (simp add: HandleEnsureOwnProfile_def h Unauthorized_def WriteProblem_def web_ops bindp_def Let_def
          fresh_writer_def answered_def)
  next
    case (Some i)
    obtain res db' where run: "EnsureOwnProfile profile_repo i (wb_World w) = (Ret res, db')" "profiles_inv db'"
      "\<forall>j. j \<noteq> i \<or> profile_at (wb_World w) i \<noteq> None \<longrightarrow> profile_at db' j = profile_at (wb_World w) j"
      "\<forall>u. res = Inr u \<longrightarrow> (\<exists>p. profile_at db' i = Some p \<and> u = ToUserResponse p)"
      using EnsureOwnProfile_effect [OF assms(3)] by blast
    show ?thesis
    proof (cases res)
      case (Inl e)
      with Some run assms(2) show ?thesis
        by (simp add: HandleEnsureOwnProfile_def h in_world_def bindp_def WriteProblem_def web_ops Let_def
            fresh_writer_def answered_def)
    next
      case (Inr u)
      with run(4) obtain p where p: "profile_at db' i = Some p" "u = ToUserResponse p" by blast
      with Inr Some run assms(2) profile_at_ID [OF p(1)] show ?thesis
        by (simp add: HandleEnsureOwnProfile_def h in_world_def bindp_def write_profile_def web_ops
            fresh_writer_def answered_def)
    qed
  qed
qed

definition demo_reader :: "outbox_db notif_handler" where
  "demo_reader = \<lparr>nh_svc = notification_api demo_service, nh_authMW = (\<lambda>nxt. nxt), nh_codec = demo_codec\<rparr>"

definition demo_as :: "string \<Rightarrow> string \<Rightarrow> http_request" where
  "demo_as subject i = (demo_get [])\<lparr>rq_Principal := Some \<lparr>pl_Subject = subject, pl_Scopes = None, pl_Extra = None\<rparr>,
     rq_URLParam := (\<lambda>_. i)\<rparr>"

text \<open>The recipient of the stored row has the id 2; a third party asks for the same row.\<close>

theorem mark_read_no_oracle_witness:
  "HandleMarkRead demo_reader (demo_as ''000'' ''00'') \<lparr>wb_Writer = fresh_writer, wb_World = demo_db\<rparr> \<noteq>
     writeNotFound (demo_as ''000'' ''00'') \<lparr>wb_Writer = fresh_writer, wb_World = demo_db\<rparr> \<and>
   HandleMarkRead demo_reader (demo_as ''0000'' ''00'') \<lparr>wb_Writer = fresh_writer, wb_World = demo_db\<rparr> =
     writeNotFound (demo_as ''0000'' ''00'') \<lparr>wb_Writer = fresh_writer, wb_World = demo_db\<rparr>"
proof -
  let ?w = "\<lparr>wb_Writer = fresh_writer, wb_World = demo_db\<rparr>"
  have h: "nh_svc demo_reader = notification_api demo_service" "uuid_Parse (nc_uuid (nh_codec demo_reader)) ''00'' = Inr 1"
    "uuid_Parse (nc_uuid (nh_codec demo_reader)) ''000'' = Inr 2" "uuid_Parse (nc_uuid (nh_codec demo_reader)) ''0000'' = Inr 3"
    by (simp_all add: demo_reader_def demo_codec_def demo_uuid_def)
  have p: "FromContext (demo_as s i) = Some \<lparr>pl_Subject = s, pl_Scopes = None, pl_Extra = None\<rparr>" "rq_URLParam (demo_as s i) k = i" for s i k
    by (simp_all add: FromContext_def demo_as_def)
  have db: "wb_Writer ?w = fresh_writer" "d_env (wb_World ?w) = []" by (simp_all add: demo_db_def)
  have row: "(\<exists>row \<in> set (d_notifications demo_db). nr_ID row = 1 \<and> in_mailbox u row) \<longleftrightarrow> u = 2" for u
    by (auto simp: demo_db_def toNotificationRow_def demo_note_def in_mailbox_def)
  note step = mark_read_no_oracle [OF h(1) demo_service_sel(1,3) db p(1), unfolded principal.select_convs]
  have other: "WriteHeader 204 (?w\<lparr>wb_World := x\<rparr>) \<noteq> writeNotFound r ?w" for x r
    by (simp add: writeNotFound_def WriteProblem_def web_ops bindp_def Let_def fresh_writer_def)
  have "\<exists>x. HandleMarkRead demo_reader (demo_as ''000'' ''00'') ?w = WriteHeader 204 (?w\<lparr>wb_World := x\<rparr>)"
    using step [OF _ h(3), of "''00''"] h(2) row by (simp add: p) blast
  moreover have "HandleMarkRead demo_reader (demo_as ''0000'' ''00'') ?w = writeNotFound (demo_as ''0000'' ''00'') ?w"
    using step [OF _ h(4), of "''00''"] h(2) row by (simp add: p)
  ultimately show ?thesis using other by metis
qed

definition demo_profiles :: profile_db where
  "demo_profiles = \<lparr>pd_users = [], pd_identities = [2], pd_env = []\<rparr>"

theorem own_profile_only_witness:
  "\<exists>h w'. NewUserModule profile_repo demo_uuid RFC3339Nano (Some (\<lambda>nxt. nxt)) = Inr h \<and>
     HandleEnsureOwnProfile h (demo_as ''000'' []) \<lparr>wb_Writer = fresh_writer, wb_World = demo_profiles\<rparr> = (Ret (), w') \<and>
     profile_at (wb_World w') 7 = None"
proof -
  obtain h where h: "NewUserModule profile_repo demo_uuid RFC3339Nano (Some (\<lambda>nxt. nxt)) = Inr (h :: profile_db user_handler)"
    by (simp add: NewUserModule_def user_Validate_def)
  have "profile_caller demo_uuid (demo_as ''000'' []) = Some 2"
    by (simp add: profile_caller_def FromContext_def demo_as_def demo_uuid_def)
  moreover have "profiles_inv demo_profiles" "profile_at demo_profiles 7 = None"
    by (simp_all add: profiles_inv_def demo_profiles_def profile_at_def)
  ultimately show ?thesis
    using own_profile_only [OF h, of "\<lparr>wb_Writer = fresh_writer, wb_World = demo_profiles\<rparr>" "demo_as ''000'' []"] h by fastforce
qed

section \<open>What a valid configuration builds\<close>

text \<open>
  C35. An enabled notification module with a configuration that \<open>Validate\<close> accepts, a database and
  readable templates is built and its dispatcher started: a sender for exactly the channels the
  configuration asks for, the retry schedule, the batch and the deadlines as configured, over the
  repositories of the handle, and a way to close it. There is one exception: with email enabled
  \<open>Validate\<close> only looks for an at sign in \<open>email.from\<close>, and a sender address that \<open>net/mail\<close> does
  not parse is refused by name, before anything is started.
\<close>

theorem valid_configuration_builds:
  assumes "module_Validate cfg = None" and "mo_Enabled cfg" and "dp_DB deps = Some (repo, prefs)"
    and "template_New (dp_engine deps) (dp_templates deps) = Inr fams"
    and "\<And>disp w. \<exists>w'. dp_Start deps disp w = (Ret (), w')"
  shows "case (mm_Enabled (mo_Email cfg), se_ParseAddress (dp_smtp deps) (mm_From (mo_Email cfg))) of
      (True, Inl err) \<Rightarrow>
        NewNotificationModule deps cfg w =
          (Ret (Inl (Errorf ''notification: build smtp sender: %w'' []
            [Join [Errorf ''smtp sender: from address %q: %w'' [OStr (mm_From (mo_Email cfg))] [err]]])), w)
    | _ \<Rightarrow>
        (\<exists>svc disp m w1. module_service deps cfg = Inr svc \<and> module_dispatcher_New deps cfg svc = Inr disp \<and>
          dp_Start deps disp w = (Ret (), w1) \<and> NewNotificationModule deps cfg w = (Ret (Inr m), w1) \<and>
          dom (sv_senders svc) = routed_channels cfg \<and> sv_notifications svc = repo \<and> sv_preferences svc = prefs \<and>
          sv_cfg svc = dispatch_settings (mo_Dispatcher cfg) \<and> di_cfg disp = worker_settings (mo_Dispatcher cfg) \<and>
          di_Batcher disp = DispatchBatch svc (dp_err_text deps) \<and> am_Close m = Some (dp_Stop deps disp) \<and> am_Routes m \<noteq> [])"
    (is "case ?outcome of (True, Inl err) \<Rightarrow> ?refused err | _ \<Rightarrow> ?built")
proof (cases "\<exists>err. ?outcome = (True, Inl err)")
  case True
  then obtain err where "mm_Enabled (mo_Email cfg)" "se_ParseAddress (dp_smtp deps) (mm_From (mo_Email cfg)) = Inl err"
    by blast
  with module_service_unparsable [OF assms(1-4) this] assms(1,2) show ?thesis
    by (simp add: NewNotificationModule_def)
next
  case False
  then have "mm_Enabled (mo_Email cfg) \<longrightarrow> (\<exists>a. se_ParseAddress (dp_smtp deps) (mm_From (mo_Email cfg)) = Inr a)"
    by (cases "se_ParseAddress (dp_smtp deps) (mm_From (mo_Email cfg))") auto
  from module_service_ok [OF assms(1-4) this] obtain svc where svc: "module_service deps cfg = Inr svc"
    "dom (sv_senders svc) = routed_channels cfg" "sv_notifications svc = repo" "sv_preferences svc = prefs"
    "sv_cfg svc = dispatch_settings (mo_Dispatcher cfg)" by blast
  have "dispatcher_complaints (mo_Dispatcher cfg) = []" using assms(1,2) by (simp add: module_Validate_None)
  from module_dispatcher_ok [OF this, of deps svc] obtain disp where disp: "module_dispatcher_New deps cfg svc = Inr disp"
    "di_cfg disp = worker_settings (mo_Dispatcher cfg)" "di_Batcher disp = DispatchBatch svc (dp_err_text deps)" by blast
  obtain w1 where start: "dp_Start deps disp w = (Ret (), w1)" using assms(5) by blast
  with svc disp assms(1,2) have "?built"
    by (simp add: NewNotificationModule_def bindp_def NotificationRoutes_def)
  with False show ?thesis by (auto split: bool.split sum.split)
qed

text \<open>Email is on; the mail library takes the sender address in one case and not in the other.\<close>

definition demo_module_config :: "outbox_db module_config" where
  "demo_module_config =
     \<lparr>mo_Enabled = True,
      mo_Dispatcher = \<lparr>md_PollInterval = 1, md_BatchSize = 1, md_Workers = 1, md_MaxAttempts = 1, md_BackoffBase = 1,
        md_BackoffCap = 1, md_StalledAfter = 1, md_DrainTimeout = 1\<rparr>,
      mo_Email = \<lparr>mm_Enabled = True, mm_SMTPHost = ''mx'', mm_SMTPPort = 587, mm_From = ''a@b'', mm_Username = [],
        mm_Timeout = 1, mm_Password = Secret ''pw''\<rparr>,
      mo_LogSender = \<lparr>ml_Enabled = False, ml_Channel = ChannelEmail\<rparr>, mo_Auth = Some (\<lambda>nxt. nxt),
      mo_EmailAddressResolver = Some (\<lambda>_. retp (Inr ''c@d''))\<rparr>"

definition demo_deps :: "outbox_db smtp_env \<Rightarrow> (outbox_db, string, string) module_deps" where
  "demo_deps S =
     \<lparr>dp_DB = Some (outbox_repo, prefs_repo), dp_engine = demo_engine, dp_templates = Inr (Inr demo_templates),
      dp_smtp = S, dp_info = (\<lambda>_. retp ()), dp_debug = (\<lambda>_. retp ()), dp_Now = retp 20, dp_Float64 = retp (Float 0 0),
      dp_err_text = (\<lambda>_. []), dp_codec = demo_codec, dp_Start = (\<lambda>_. retp ()), dp_Stop = (\<lambda>_. retp None)\<rparr>"

theorem valid_configuration_builds_witness:
  "\<forall>S.
     (\<exists>svc m. module_service (demo_deps (S\<lparr>se_ParseAddress := \<lambda>raw. Inr \<lparr>ma_Name = [], ma_Address = raw\<rparr>\<rparr>))
          demo_module_config = Inr svc \<and>
        dom (sv_senders svc) = {ChannelInApp, ChannelEmail} \<and>
        NewNotificationModule (demo_deps (S\<lparr>se_ParseAddress := \<lambda>raw. Inr \<lparr>ma_Name = [], ma_Address = raw\<rparr>\<rparr>))
          demo_module_config demo_db = (Ret (Inr m), demo_db)) \<and>
     (\<exists>err. NewNotificationModule (demo_deps (S\<lparr>se_ParseAddress := \<lambda>_. Inl (New ''mail: no angle-addr'')\<rparr>))
        demo_module_config demo_db = (Ret (Inl err), demo_db))"
proof
  fix S
  let ?good = "demo_deps (S\<lparr>se_ParseAddress := \<lambda>raw. Inr \<lparr>ma_Name = [], ma_Address = raw\<rparr>\<rparr>)"
  let ?bad = "demo_deps (S\<lparr>se_ParseAddress := \<lambda>_. Inl (New ''mail: no angle-addr'')\<rparr>)"
  have valid: "module_Validate demo_module_config = None"
    by (simp add: module_Validate_None demo_module_config_def dispatcher_complaints_Nil email_complaints_def
        log_sender_complaints_def Channel_Valid_def channel_defs complain_def TrimSpace_def space_runes_def
        has_prefix_def upt_rec numeral_nat Let_def)
  have on: "mo_Enabled demo_module_config" by (simp add: demo_module_config_def)
  have deps: "dp_DB (demo_deps E) = Some (outbox_repo, prefs_repo)"
    "\<exists>fams. template_New (dp_engine (demo_deps E)) (dp_templates (demo_deps E)) = Inr fams"
    "\<And>disp w. \<exists>w'. dp_Start (demo_deps E) disp w = (Ret (), w')" "\<And>disp w. dp_Start (demo_deps E) disp w = (Ret (), w)"
    for E using demo_templates_built by (simp_all add: demo_deps_def template_New_def)
  have "routed_channels demo_module_config = {ChannelInApp, ChannelEmail}"
    by (auto simp: routed_channels_def demo_module_config_def)
  moreover obtain f where "template_New (dp_engine ?good) (dp_templates ?good) = Inr f" using deps(2) by blast
  note valid_configuration_builds [OF valid on deps(1) this deps(3), of demo_db]
  moreover obtain f' where "template_New (dp_engine ?bad) (dp_templates ?bad) = Inr f'" using deps(2) by blast
  note valid_configuration_builds [OF valid on deps(1) this deps(3), of demo_db]
  moreover have "mm_Enabled (mo_Email demo_module_config)" by (simp add: demo_module_config_def)
  moreover have "se_ParseAddress (dp_smtp ?good) raw = Inr \<lparr>ma_Name = [], ma_Address = raw\<rparr>"
    "se_ParseAddress (dp_smtp ?bad) raw = Inl (New ''mail: no angle-addr'')" for raw
    by (simp_all add: demo_deps_def)
  ultimately show "(\<exists>svc m. module_service ?good demo_module_config = Inr svc \<and>
        dom (sv_senders svc) = {ChannelInApp, ChannelEmail} \<and>
        NewNotificationModule ?good demo_module_config demo_db = (Ret (Inr m), demo_db)) \<and>
     (\<exists>err. NewNotificationModule ?bad demo_module_config demo_db = (Ret (Inl err), demo_db))"
    using deps(4) by auto
qed

section \<open>Stored rows\<close>

text \<open>The columns that hold an enumeration hold one of its values.\<close>

definition row_typed :: "notification_row \<Rightarrow> bool" where
  "row_typed r \<longleftrightarrow> status_chk (nr_Status r) \<and> Channel_Valid (nr_Channel r) \<and> Category_Valid (nr_Category r)"

definition rows_typed :: "'e outbox_db_scheme \<Rightarrow> bool" where
  "rows_typed db \<longleftrightarrow> (\<forall>r \<in> set (d_notifications db). row_typed r)"

text \<open>
  C36. The rows keep their types: whatever a statement of the repository is given and however it
  fares, the status, the channel and the category of every stored row remain values of their
  enumerations, a new row being one \<open>NewNotification\<close> accepts.
\<close>

theorem stored_rows_typed:
  assumes "rows_typed db"
  shows "(\<forall>ps now n. NewNotification ps now = Inr n \<longrightarrow> rows_typed (snd (repo_Enqueue (Some n) db))) \<and>
    rows_typed (snd (repo_ClaimBatch k now db)) \<and> rows_typed (snd (repo_ClaimStalled k t now db)) \<and>
    rows_typed (snd (repo_Save n db)) \<and> rows_typed (snd (repo_MarkRead u i now db)) \<and>
    rows_typed (snd (repo_MarkAllRead u now db))"
proof (intro conjI allI impI)
  fix ps now n
  assume new: "NewNotification ps now = Inr n"
  then have typed: "Channel_Valid (n_Channel n)" "Category_Valid (n_Category n)"
    by (auto simp: NewNotification_def split: if_splits)
  obtain env db1 where e: "next_env db = (env, db1)" by (cases "next_env db")
  have "d_notifications (snd (repo_Enqueue (Some n) db)) = d_notifications db \<or>
    (\<exists>r. d_notifications (snd (repo_Enqueue (Some n) db)) = d_notifications db @ [r] \<and> row_typed r)"
    using next_env_split [OF e] typed
    by (auto simp: repo_Enqueue_def Let_def e insert_notification_def row_typed_def insert_defaults_def
        toNotificationRow_def split: option.splits)
  with assms show "rows_typed (snd (repo_Enqueue (Some n) db))" by (auto simp: rows_typed_def)
next
  have upd: "update_rows ids f rows = map (\<lambda>r. if nr_ID r \<in> set ids then f r else r) rows" for ids f rows
    by (simp add: update_rows_def)
  show "rows_typed (snd (repo_ClaimBatch k now db))"
    using repo_ClaimBatch_table [of k now db] assms by (auto simp: rows_typed_def upd row_typed_def status_chk_def)
  show "rows_typed (snd (repo_ClaimStalled k t now db))"
    using repo_ClaimStalled_table [of k t now db] assms by (auto simp: rows_typed_def upd row_typed_def)
  show "rows_typed (snd (repo_Save n db))"
    using repo_Save_table [of n db] assms by (auto simp: rows_typed_def upd row_typed_def save_columns_def)
  show "rows_typed (snd (repo_MarkRead u i now db))"
    using repo_MarkRead_table [of u i now db] assms by (auto simp: rows_typed_def row_typed_def)
  show "rows_typed (snd (repo_MarkAllRead u now db))"
    using repo_MarkAllRead_table [of u now db] assms by (auto simp: rows_typed_def row_typed_def)
qed

theorem stored_rows_typed_witness:
  "rows_typed (snd (repo_ClaimBatch 1 50 demo_db)) \<and> rows_typed (snd (repo_MarkAllRead 2 50 demo_db))"
proof -
  have "rows_typed demo_db"
    by (simp add: rows_typed_def demo_db_def row_typed_def toNotificationRow_def demo_note_def status_chk_def
        Channel_Valid_def Category_Valid_def)
  from stored_rows_typed [OF this] show ?thesis by blast
qed

end
