(* ===== verification/CoverageGate.thy ===== *)
theory CoverageGate
  imports NotificationHttp Renderer RateLimit
begin

text \<open>
  The coverage gate, \<open>tools/coverage/main.go\<close>: the patterns of the policy, the coverage profile,
  the floors, the ratchet and its update. A percentage is a float64 of theory GoReal; a Go map is an
  association list whose order stands for the unspecified order of iteration. Reading and writing
  files, the JSON of the policy and the lines printed are parameters.
\<close>

section \<open>path.Match\<close>

text \<open>
  A pattern is parsed once; \<open>None\<close> is \<open>ErrBadPattern\<close>, which the gate treats like a mismatch. The
  match follows the algorithm of the library: after a star the first position at which the next
  chunk matches is taken for good.
\<close>

datatype glob_item = Star | ByteIs char | AnyRune | RuneIn bool "(nat \<times> nat) list"

definition decode_rune :: "string \<Rightarrow> nat \<times> nat" where
  \<comment> \<open>the rune a non-empty text starts with and its width\<close>
  "decode_rune s =
     (case rune_len s of
        0 \<Rightarrow> (0xFFFD, 1)
      | k \<Rightarrow> (foldl (\<lambda>a c. 64 * a + (byte c - 128))
               (byte (hd s) mod (if k = 1 then 128 else if k = 2 then 32 else if k = 3 then 16 else 8))
               (take (k - 1) (tl s)), k))"

definition get_esc :: "string \<Rightarrow> (nat \<times> string) option" where
  "get_esc chunk =
     (if chunk = [] \<or> hd chunk = CHR ''-'' \<or> hd chunk = CHR '']'' then None
      else let c = (if hd chunk = CHR 0x5C then tl chunk else chunk) in
        if c = [] then None
        else case decode_rune c of (r, n) \<Rightarrow>
          if r = 0xFFFD \<and> n = 1 \<or> drop n c = [] then None else Some (r, drop n c))"

fun parse_ranges :: "nat \<Rightarrow> (nat \<times> nat) list \<Rightarrow> string \<Rightarrow> ((nat \<times> nat) list \<times> string) option" where
  \<comment> \<open>the fuel is the length of the text\<close>
  "parse_ranges 0 acc chunk = None"
| "parse_ranges (Suc fuel) acc chunk =
     (if chunk \<noteq> [] \<and> hd chunk = CHR '']'' \<and> acc \<noteq> [] then Some (rev acc, tl chunk)
      else case get_esc chunk of
          None \<Rightarrow> None
        | Some (lo, c) \<Rightarrow>
            if hd c = CHR ''-'' then
              (case get_esc (tl c) of
                 None \<Rightarrow> None
               | Some (hi, c') \<Rightarrow> parse_ranges fuel ((lo, hi) # acc) c')
            else parse_ranges fuel ((lo, lo) # acc) c)"

fun parse_glob :: "nat \<Rightarrow> string \<Rightarrow> glob_item list option" where
  "parse_glob 0 p = (if p = [] then Some [] else None)"
| "parse_glob (Suc fuel) p =
     (case p of
        [] \<Rightarrow> Some []
      | c # cs \<Rightarrow>
          if c = CHR ''*'' then map_option ((#) Star) (parse_glob fuel cs)
          else if c = CHR ''?'' then map_option ((#) AnyRune) (parse_glob fuel cs)
          else if c = CHR ''['' then
            (let negated = (cs \<noteq> [] \<and> hd cs = CHR ''^'') in
             case parse_ranges (length p) [] (if negated then tl cs else cs) of
               None \<Rightarrow> None
             | Some (rs, rest) \<Rightarrow> map_option ((#) (RuneIn negated rs)) (parse_glob fuel rest))
          else if c = CHR 0x5C then
            (case cs of [] \<Rightarrow> None | d # ds \<Rightarrow> map_option ((#) (ByteIs d)) (parse_glob fuel ds))
          else map_option ((#) (ByteIs c)) (parse_glob fuel cs))"

definition glob_items :: "string \<Rightarrow> glob_item list option" where
  "glob_items p = parse_glob (length p) p"

definition eat :: "glob_item \<Rightarrow> string \<Rightarrow> string option" where
  \<comment> \<open>what is left after one item that is no star\<close>
  "eat i s =
     (if s = [] then None
      else case i of
          Star \<Rightarrow> None
        | ByteIs c \<Rightarrow> if hd s = c then Some (tl s) else None
        | AnyRune \<Rightarrow> if hd s = CHR ''/'' then None else Some (drop (snd (decode_rune s)) s)
        | RuneIn negated rs \<Rightarrow>
            (case decode_rune s of (r, n) \<Rightarrow>
               if list_ex (\<lambda>(lo, hi). lo \<le> r \<and> r \<le> hi) rs = negated then None else Some (drop n s)))"

fun match_chunk :: "glob_item list \<Rightarrow> string \<Rightarrow> string option" where
  "match_chunk [] s = Some s"
| "match_chunk (i # is) s = (case eat i s of None \<Rightarrow> None | Some t \<Rightarrow> match_chunk is t)"

fun skips :: "string \<Rightarrow> string list" where
  \<comment> \<open>the positions a star may move on to\<close>
  "skips [] = []"
| "skips (c # cs) = (if c = CHR ''/'' then [] else cs # skips cs)"

definition first_match :: "bool \<Rightarrow> glob_item list \<Rightarrow> bool \<Rightarrow> string \<Rightarrow> string option" where
  \<comment> \<open>the last chunk has to exhaust the name\<close>
  "first_match star chunk goes_on name =
     (case List.find (\<lambda>s. \<exists>t \<in> set_option (match_chunk chunk s). t = [] \<or> goes_on)
         (name # (if star then skips name else [])) of
        None \<Rightarrow> None
      | Some s \<Rightarrow> match_chunk chunk s)"

lemma rest_shorter:
  assumes "pat \<noteq> []" and "\<not> (hd pat = Star \<and> takeWhile (\<lambda>i. i \<noteq> Star) (dropWhile (\<lambda>i. i = Star) pat) = [])"
  shows "length (dropWhile (\<lambda>i. i \<noteq> Star) (dropWhile (\<lambda>i. i = Star) pat)) < length pat"
proof -
  let ?q = "dropWhile (\<lambda>i. i = Star) pat"
  have "takeWhile (\<lambda>i. i \<noteq> Star) ?q \<noteq> []" using assms by (cases pat) auto
  then have "length (dropWhile (\<lambda>i. i \<noteq> Star) ?q) < length ?q"
    by (metis length_append length_greater_0_conv less_add_same_cancel2 takeWhile_dropWhile_id)
  also have "\<dots> \<le> length pat" by (rule length_dropWhile_le)
  finally show ?thesis .
qed

function match_items :: "glob_item list \<Rightarrow> string \<Rightarrow> bool" where
  "match_items pat name =
     (if pat = [] then name = []
      else
        let star = (hd pat = Star);
            pat1 = dropWhile (\<lambda>i. i = Star) pat;
            chunk = takeWhile (\<lambda>i. i \<noteq> Star) pat1;
            rest = dropWhile (\<lambda>i. i \<noteq> Star) pat1 in
        if star \<and> chunk = [] then CHR ''/'' \<notin> set name
        else case first_match star chunk (rest \<noteq> []) name of
            None \<Rightarrow> False
          | Some t \<Rightarrow> match_items rest t)"
  by pat_completeness auto

termination
  by (relation "measure (\<lambda>(pat, name). length pat)") (use rest_shorter in auto)

declare match_items.simps [simp del]

definition path_Match :: "string \<Rightarrow> string \<Rightarrow> bool" where
  "path_Match pattern name = (case glob_items pattern of None \<Rightarrow> False | Some is \<Rightarrow> match_items is name)"

definition matchPattern :: "string \<Rightarrow> string \<Rightarrow> bool" where
  "matchPattern pattern pkg =
     (let pre = trim_suffix pattern ''/...'';
          recursive = (pre \<noteq> pattern);
          patSegs = strings_Split (CHR ''/'') pre;
          pkgSegs = strings_Split (CHR ''/'') pkg in
      if recursive then
        \<not> length pkgSegs < length patSegs \<and> list_all2 path_Match patSegs (take (length patSegs) pkgSegs)
      else length patSegs = length pkgSegs \<and> list_all2 path_Match patSegs pkgSegs)"

section \<open>The policy\<close>

record cov_floor =
  gf_Pattern :: string
  gf_Min :: rat
  gf_Why :: string

record cov_policy =
  gp_Floors :: "cov_floor list"
  gp_Exempt :: "string list"
  gp_RequiresDatabase :: "string list"
  gp_Baseline :: "(string \<times> rat) list"

definition isExempt :: "cov_policy \<Rightarrow> string \<Rightarrow> bool" where
  "isExempt p pkg = list_ex (\<lambda>pattern. matchPattern pattern pkg) (gp_Exempt p)"

definition requiresDatabase :: "cov_policy \<Rightarrow> string \<Rightarrow> bool" where
  "requiresDatabase p pkg = list_ex (\<lambda>pattern. matchPattern pattern pkg) (gp_RequiresDatabase p)"

definition floorFor :: "cov_policy \<Rightarrow> string \<Rightarrow> cov_floor option" where
  "floorFor p pkg = List.find (\<lambda>f. matchPattern (gf_Pattern f) pkg) (gp_Floors p)"

section \<open>The profile\<close>

fun clean_segs :: "bool \<Rightarrow> string list \<Rightarrow> string list \<Rightarrow> string list" where
  \<comment> \<open>the segments \<open>path.Clean\<close> keeps, the last first\<close>
  "clean_segs rooted acc [] = acc"
| "clean_segs rooted acc (s # ss) =
     (if s = [] \<or> s = ''.'' then clean_segs rooted acc ss
      else if s = ''..'' then
        (if acc \<noteq> [] \<and> hd acc \<noteq> ''..'' then clean_segs rooted (tl acc) ss
         else if rooted then clean_segs rooted acc ss
         else clean_segs rooted (s # acc) ss)
      else clean_segs rooted (s # acc) ss)"

definition path_Clean :: "string \<Rightarrow> string" where
  "path_Clean p =
     (let rooted = has_prefix p ''/'';
          out = (if rooted then ''/'' else []) @
            strings_Join ''/'' (rev (clean_segs rooted [] (strings_Split (CHR ''/'') p))) in
      if out = [] then ''.'' else out)"

definition path_Dir :: "string \<Rightarrow> string" where
  "path_Dir p = path_Clean (strings_Join ''/'' (butlast (strings_Split (CHR ''/'') p) @ [[]]))"

definition modulePrefix :: string where
  "modulePrefix = ''github.com/sujanto-gaws/kopiochi/''"

definition Atoi_error :: "string \<Rightarrow> goerr" where
  "Atoi_error s =
     Errorf ''strconv.Atoi: parsing %q: %w'' [OStr s]
       [if signed_digits s = None then New ''invalid syntax'' else New ''value out of range'']"

definition parseProfileLine :: "string \<Rightarrow> goerr + string \<times> int \<times> int" where
  "parseProfileLine line =
     (case strings_Fields line of
        [place, stmts, execCount] \<Rightarrow>
          (let parts = strings_Split (CHR '':'') place in
           if length parts = 1 then Inl (Errorf ''malformed profile line %q: no file:range separator'' [OStr line] [])
           else let filePart = strings_Join '':'' (butlast parts) in
             (case Atoi stmts of
                None \<Rightarrow> Inl (Errorf ''malformed statement count in %q: %w'' [OStr line] [Atoi_error stmts])
              | Some n \<Rightarrow>
             (case Atoi execCount of
                None \<Rightarrow> Inl (Errorf ''malformed execution count in %q: %w'' [OStr line] [Atoi_error execCount])
              | Some k \<Rightarrow> Inr (trim_prefix (path_Dir filePart) modulePrefix, n, k))))
      | _ \<Rightarrow> Inl (Errorf ''malformed profile line %q'' [OStr line] []))"

text \<open>The two counters of a package are 64-bit and wrap.\<close>

record cov_counts =
  cc_total :: "64 word"
  cc_covered :: "64 word"

definition count_line :: "string \<Rightarrow> int \<Rightarrow> int \<Rightarrow> (string \<times> cov_counts) list \<Rightarrow> (string \<times> cov_counts) list" where
  "count_line pkg stmts execCount perPkg =
     (let c = (case map_of perPkg pkg of None \<Rightarrow> \<lparr>cc_total = 0, cc_covered = 0\<rparr> | Some c \<Rightarrow> c);
          c = c\<lparr>cc_total := cc_total c + word_of_int stmts\<rparr>;
          c = (if 0 < execCount then c\<lparr>cc_covered := cc_covered c + word_of_int stmts\<rparr> else c) in
      AList.update pkg c perPkg)"

fun parse_lines ::
  "string \<Rightarrow> bool \<Rightarrow> string list \<Rightarrow> (string \<times> cov_counts) list \<Rightarrow> goerr + (string \<times> cov_counts) list" where
  "parse_lines profilePath first [] perPkg = Inr perPkg"
| "parse_lines profilePath first (text # texts) perPkg =
     (let line = TrimSpace text in
      if line = [] then parse_lines profilePath first texts perPkg
      else if first then
        (if has_prefix line ''mode:'' then parse_lines profilePath False texts perPkg
         else Inl (Errorf ''%s does not start with a mode line; is it a coverage profile?'' [OStr profilePath] []))
      else case parseProfileLine line of
          Inl err \<Rightarrow> Inl (Errorf ''%s: %w'' [OStr profilePath] [err])
        | Inr (pkg, stmts, execCount) \<Rightarrow>
            parse_lines profilePath first texts (count_line pkg stmts execCount perPkg))"

definition percentage :: "cov_counts \<Rightarrow> rat" where
  "percentage c =
     (if cc_total c = 0 then 100
      else fl (fl (fl (of_int (sint (cc_covered c))) / fl (of_int (sint (cc_total c)))) * 100))"

definition parseProfile ::
  "string \<Rightarrow> goerr + string list \<times> goerr option \<Rightarrow> goerr + (string \<times> rat) list" where
  \<comment> \<open>from the lines the scanner yields and the error it stops with\<close>
  "parseProfile profilePath opened =
     (case opened of
        Inl err \<Rightarrow> Inl (Errorf ''open profile: %w'' [] [err])
      | Inr (texts, scanErr) \<Rightarrow>
     (case parse_lines profilePath True texts [] of
        Inl err \<Rightarrow> Inl err
      | Inr perPkg \<Rightarrow>
     (case scanErr of
        Some err \<Rightarrow> Inl (Errorf ''read profile: %w'' [] [err])
      | None \<Rightarrow> Inr (map (\<lambda>(pkg, c). (pkg, percentage c)) perPkg))))"

section \<open>The check\<close>

text \<open>
  A line of the output and of the error, by what its verbs are given; how \<open>fmt\<close> lays the numbers out is a
  parameter (\<open>ge_text\<close>), as are the files and the JSON of the policy.
\<close>

datatype row_note = ExemptNote | DatabaseNote | FloorNote rat | NoNote

datatype gate_line =
    PackageCoverage
  | PackageRow string rat row_note
  | NotChecked "string list"
  | AllFloorsMet
  | EmptyProfile
  | BaselineUpdated string nat
  | BelowFloor string rat rat string string
  | BelowBaseline string rat rat rat
  | Absent string
  | Lowered string rat rat

record 'w gate_env =
  ge_ReadFile :: "string \<Rightarrow> ('w, goerr + string) prog"
  ge_Unmarshal :: "string \<Rightarrow> goerr + cov_policy"
  ge_Open :: "string \<Rightarrow> ('w, goerr + string list \<times> goerr option) prog"
  ge_Marshal :: "cov_policy \<Rightarrow> goerr + string"
  ge_WriteFile :: "string \<Rightarrow> string \<Rightarrow> ('w, goerr option) prog"
  ge_Print :: "gate_line \<Rightarrow> ('w, unit) prog"
  ge_text :: "gate_line list list \<Rightarrow> string"

definition tolerance :: rat where
  "tolerance = fl (5 / 100)"

definition round1 :: "rat \<Rightarrow> rat" where
  "round1 v = fl (of_int (trunc_int64 (fl (fl (v * 10) + 1 / 2))) / 10)"

definition sortedKeys :: "(string \<times> 'a) list \<Rightarrow> string list" where
  "sortedKeys m = sort (map fst m)"

definition floor_failure :: "cov_policy \<Rightarrow> string \<Rightarrow> rat \<Rightarrow> gate_line list" where
  "floor_failure policy pkg pct =
     (case floorFor policy pkg of
        None \<Rightarrow> []
      | Some f \<Rightarrow>
          if fl (pct + tolerance) < gf_Min f then [BelowFloor pkg pct (gf_Min f) (gf_Pattern f) (gf_Why f)] else [])"

definition ratchet_failure :: "cov_policy \<Rightarrow> string \<Rightarrow> rat \<Rightarrow> gate_line list" where
  "ratchet_failure policy pkg pct =
     (case map_of (gp_Baseline policy) pkg of
        None \<Rightarrow> []
      | Some base \<Rightarrow> if fl (pct + tolerance) < base then [BelowBaseline pkg pct base (fl (base - pct))] else [])"

definition skipped :: "cov_policy \<Rightarrow> bool \<Rightarrow> string \<Rightarrow> bool" where
  "skipped policy withDatabase pkg \<longleftrightarrow> \<not> withDatabase \<and> requiresDatabase policy pkg"

definition measured :: "cov_policy \<Rightarrow> bool \<Rightarrow> string \<Rightarrow> bool" where
  \<comment> \<open>the packages the loops of \<open>check\<close> and \<open>updateBaseline\<close> do not \<open>continue\<close> on\<close>
  "measured policy withDatabase pkg \<longleftrightarrow> \<not> isExempt policy pkg \<and> \<not> skipped policy withDatabase pkg"

definition failures_of ::
  "(cov_policy \<Rightarrow> string \<Rightarrow> rat \<Rightarrow> gate_line list) \<Rightarrow> cov_policy \<Rightarrow> (string \<times> rat) list \<Rightarrow> bool \<Rightarrow> gate_line list" where
  "failures_of failure policy cov withDatabase =
     concat (map (\<lambda>pkg. failure policy pkg (the (map_of cov pkg)))
       (filter (measured policy withDatabase) (sortedKeys cov)))"

definition unchecked_packages :: "cov_policy \<Rightarrow> (string \<times> rat) list \<Rightarrow> bool \<Rightarrow> string list" where
  "unchecked_packages policy cov withDatabase =
     filter (\<lambda>pkg. \<not> isExempt policy pkg \<and> skipped policy withDatabase pkg) (sortedKeys cov)"

definition missing_packages :: "cov_policy \<Rightarrow> (string \<times> rat) list \<Rightarrow> bool \<Rightarrow> string list" where
  "missing_packages policy cov withDatabase =
     sort (filter (\<lambda>pkg. map_of cov pkg = None \<and> \<not> isExempt policy pkg \<and> \<not> skipped policy withDatabase pkg)
       (map fst (gp_Baseline policy)))"

definition row_note_of :: "cov_policy \<Rightarrow> bool \<Rightarrow> string \<Rightarrow> row_note" where
  "row_note_of policy withDatabase pkg =
     (if isExempt policy pkg then ExemptNote
      else if skipped policy withDatabase pkg then DatabaseNote
      else case floorFor policy pkg of None \<Rightarrow> NoNote | Some f \<Rightarrow> FloorNote (gf_Min f))"

fun print_all :: "(gate_line \<Rightarrow> ('w, unit) prog) \<Rightarrow> gate_line list \<Rightarrow> ('w, unit) prog" where
  "print_all print [] = retp ()"
| "print_all print (l # ls) = bindp (print l) (\<lambda>_. print_all print ls)"

definition report_gate :: "(gate_line \<Rightarrow> ('w, unit) prog) \<Rightarrow> (string \<times> rat) list \<Rightarrow> cov_policy \<Rightarrow> bool \<Rightarrow> ('w, unit) prog" where
  "report_gate print cov policy withDatabase =
     print_all print (PackageCoverage #
       map (\<lambda>pkg. PackageRow pkg (the (map_of cov pkg)) (row_note_of policy withDatabase pkg)) (sortedKeys cov))"

definition check_gate :: "'w gate_env \<Rightarrow> cov_policy \<Rightarrow> (string \<times> rat) list \<Rightarrow> bool \<Rightarrow> ('w, goerr option) prog" where
  "check_gate G policy cov withDatabase =
     (let floorFailures = failures_of floor_failure policy cov withDatabase;
          ratchetFailures = failures_of ratchet_failure policy cov withDatabase;
          unchecked = unchecked_packages policy cov withDatabase;
          missing = missing_packages policy cov withDatabase;
          problems = filter (\<lambda>ps. ps \<noteq> []) [floorFailures, ratchetFailures, map Absent missing] in
      bindp (report_gate (ge_Print G) cov policy withDatabase) (\<lambda>_.
      bindp (if unchecked \<noteq> [] then ge_Print G (NotChecked unchecked) else retp ()) (\<lambda>_.
      if problems \<noteq> [] then retp (Some (New (ge_text G problems)))
      else bindp (ge_Print G AllFloorsMet) (\<lambda>_. retp None))))"

section \<open>The update\<close>

fun update_loop ::
  "cov_policy \<Rightarrow> bool \<Rightarrow> bool \<Rightarrow> (string \<times> rat) list \<Rightarrow> (string \<times> rat) list \<Rightarrow>
   (string \<times> rat) list \<times> (string \<times> rat \<times> rat) list" where
  \<comment> \<open>the baseline written so far and the packages that would be lowered\<close>
  "update_loop policy allowDecrease withDatabase baseline [] = (baseline, [])"
| "update_loop policy allowDecrease withDatabase baseline ((pkg, pct) # cov) =
     (if \<not> measured policy withDatabase pkg then update_loop policy allowDecrease withDatabase baseline cov
      else case (case map_of baseline pkg of
                   None \<Rightarrow> None
                 | Some old \<Rightarrow> if fl (pct + tolerance) < old \<and> \<not> allowDecrease then Some old else None) of
          Some old \<Rightarrow>
            (case update_loop policy allowDecrease withDatabase baseline cov of
               (b, lowered) \<Rightarrow> (b, (pkg, pct, old) # lowered))
        | None \<Rightarrow> update_loop policy allowDecrease withDatabase (AList.update pkg (round1 pct) baseline) cov)"

definition write_policy :: "'w gate_env \<Rightarrow> cov_policy \<Rightarrow> string \<Rightarrow> ('w, goerr option) prog" where
  "write_policy G policy policyPath =
     (case ge_Marshal G policy of
        Inl err \<Rightarrow> retp (Some (Errorf ''encode policy: %w'' [] [err]))
      | Inr encoded \<Rightarrow>
          bindp (ge_WriteFile G policyPath (encoded @ [CHR 0x0A])) (\<lambda>r.
          case r of
            Some err \<Rightarrow> retp (Some (Errorf ''write %s: %w'' [OStr policyPath] [err]))
          | None \<Rightarrow>
              bindp (ge_Print G (BaselineUpdated policyPath (length (gp_Baseline policy)))) (\<lambda>_. retp None)))"

definition updateBaseline ::
  "'w gate_env \<Rightarrow> cov_policy \<Rightarrow> string \<Rightarrow> (string \<times> rat) list \<Rightarrow> bool \<Rightarrow> bool \<Rightarrow> ('w, goerr option) prog" where
  \<comment> \<open>the refusal sorts the lines, which begin with the package and a colon\<close>
  "updateBaseline G policy policyPath cov allowDecrease withDatabase =
     (case update_loop policy allowDecrease withDatabase (gp_Baseline policy) cov of (baseline, lowered) \<Rightarrow>
      if lowered \<noteq> [] then
        retp (Some (New (ge_text G
          [map (\<lambda>(pkg, pct, old). Lowered pkg pct old) (sort_key (\<lambda>(pkg, _). pkg @ '': '') lowered)])))
      else write_policy G (policy\<lparr>gp_Baseline := baseline\<rparr>) policyPath)"

section \<open>The command\<close>

definition loadPolicy :: "'w gate_env \<Rightarrow> string \<Rightarrow> ('w, goerr + cov_policy) prog" where
  "loadPolicy G policyPath =
     bindp (ge_ReadFile G policyPath) (\<lambda>r.
     case r of
       Inl err \<Rightarrow> retp (Inl (Errorf ''read policy: %w'' [] [err]))
     | Inr raw \<Rightarrow>
         (case ge_Unmarshal G raw of
            Inl err \<Rightarrow> retp (Inl (Errorf ''parse %s: %w'' [OStr policyPath] [err]))
          | Inr p \<Rightarrow> retp (Inr p)))"

definition run_gate ::
  "'w gate_env \<Rightarrow> string \<Rightarrow> string \<Rightarrow> bool \<Rightarrow> bool \<Rightarrow> bool \<Rightarrow> bool \<Rightarrow> ('w, goerr option) prog" where
  "run_gate G profilePath policyPath update allowDecrease requireProfile withDatabase =
     bindp (loadPolicy G policyPath) (\<lambda>r.
     case r of
       Inl err \<Rightarrow> retp (Some err)
     | Inr policy \<Rightarrow>
     bindp (ge_Open G profilePath) (\<lambda>opened.
     case parseProfile profilePath opened of
       Inl err \<Rightarrow> retp (Some err)
     | Inr cov \<Rightarrow>
         if cov = [] then
           (if requireProfile
            then retp (Some (Errorf ''%s contains no packages; did `go test -coverprofile` run?'' [OStr profilePath] []))
            else bindp (ge_Print G EmptyProfile) (\<lambda>_. retp None))
         else if update then updateBaseline G policy policyPath cov allowDecrease withDatabase
         else check_gate G policy cov withDatabase))"

section \<open>What a pattern means\<close>

text \<open>
  The relation a pattern is meant to denote: a star stands for any text, every other item for what it
  eats. On a segment of ASCII bytes the greedy algorithm decides it.
\<close>

inductive globs :: "glob_item list \<Rightarrow> string \<Rightarrow> bool" where
  globs_Nil: "globs [] []"
| globs_Star: "globs is s \<Longrightarrow> globs (Star # is) (r @ s)"
| globs_Item: "eat i s = Some t \<Longrightarrow> globs is t \<Longrightarrow> globs (i # is) s"

inductive_simps globs_NilI [simp]: "globs [] s"
inductive_simps globs_ConsI: "globs (i # is) s"

lemma eat_Star [simp]: "eat Star s = None"
  by (simp add: eat_def)

lemma globs_item: "i \<noteq> Star \<Longrightarrow> globs (i # is) s \<longleftrightarrow> (\<exists>t. eat i s = Some t \<and> globs is t)"
  by (auto simp: globs_ConsI)

lemma globs_star: "globs (Star # is) s \<longleftrightarrow> (\<exists>r t. s = r @ t \<and> globs is t)"
  by (auto simp: globs_ConsI)

lemma globs_star_append: "globs (Star # is) s \<Longrightarrow> globs (Star # is) (r @ s)"
  unfolding globs_star by (metis append_assoc)

lemma globs_stars:
  "pat \<noteq> [] \<Longrightarrow> hd pat = Star \<Longrightarrow>
   globs pat s \<longleftrightarrow> (\<exists>r t. s = r @ t \<and> globs (dropWhile (\<lambda>i. i = Star) pat) t)"
proof (induction pat arbitrary: s)
  case (Cons i pat)
  then have i: "i = Star" by simp
  show ?case
  proof (cases "pat \<noteq> [] \<and> hd pat = Star")
    case True
    with Cons.IH have "globs pat t \<longleftrightarrow> (\<exists>r u. t = r @ u \<and> globs (dropWhile (\<lambda>i. i = Star) pat) u)" for t by simp
    then show ?thesis by (simp add: i globs_star) (metis append_assoc append_Nil)
  next
    case False
    then have "dropWhile (\<lambda>i. i = Star) pat = pat" by (cases pat) auto
    with i show ?thesis by (simp add: globs_star)
  qed
qed simp

lemma globs_chunk:
  "Star \<notin> set ch \<Longrightarrow> globs (ch @ rest) s \<longleftrightarrow> (\<exists>t. match_chunk ch s = Some t \<and> globs rest t)"
  by (induction ch arbitrary: s) (auto simp: globs_item split: option.split)

abbreviation segment_ok :: "string \<Rightarrow> bool" where
  "segment_ok s \<equiv> list_all (\<lambda>c. byte c < 128) s \<and> CHR ''/'' \<notin> set s"

lemma decode_ascii: "s \<noteq> [] \<Longrightarrow> byte (hd s) < 128 \<Longrightarrow> snd (decode_rune s) = 1"
  by (cases s) (auto simp: decode_rune_def rune_len_def first_size_def)

lemma eat_one: "segment_ok s \<Longrightarrow> eat i s = Some t \<Longrightarrow> s \<noteq> [] \<and> t = tl s"
  using decode_ascii [of s]
  by (cases s) (auto simp: eat_def drop_Suc split: if_splits glob_item.splits prod.splits)

lemma match_chunk_drop:
  "segment_ok s \<Longrightarrow> match_chunk ch s = Some t \<Longrightarrow> t = drop (length ch) s \<and> length ch \<le> length s"
proof (induction ch s rule: match_chunk.induct)
  case (2 i "is" s)
  from 2(3) obtain u where u: "eat i s = Some u" "match_chunk is u = Some t" by (auto split: option.splits)
  with eat_one [OF 2(2)] have s: "s \<noteq> []" "u = tl s" by simp_all
  then have "segment_ok u" using 2(2) by (cases s) auto
  from 2(1) [OF u(1) this u(2)] s show ?case by (cases s) (auto simp: drop_Suc)
qed simp

lemma skips_nth:
  assumes "CHR ''/'' \<notin> set s"
  shows "length (skips s) = length s" and "i < Suc (length s) \<Longrightarrow> (s # skips s) ! i = drop i s"
proof -
  show len: "length (skips s) = length s" using assms by (induction s) auto
  show "i < Suc (length s) \<Longrightarrow> (s # skips s) ! i = drop i s" using assms
  proof (induction s arbitrary: i)
    case (Cons c s)
    then show ?case by (cases i) auto
  qed simp
qed

lemma first_match_plain:
  "first_match False chunk goes_on s =
     (case match_chunk chunk s of Some t \<Rightarrow> if t = [] \<or> goes_on then Some t else None | None \<Rightarrow> None)"
  by (auto simp: first_match_def split: option.splits)

lemma first_match_star:
  assumes "CHR ''/'' \<notin> set s"
  shows "first_match True chunk goes_on s = None \<Longrightarrow>
      match_chunk chunk (drop i s) = Some t \<Longrightarrow> \<not> (t = [] \<or> goes_on)"
    and "first_match True chunk goes_on s = Some t \<Longrightarrow>
      \<exists>i \<le> length s. match_chunk chunk (drop i s) = Some t \<and> (t = [] \<or> goes_on) \<and>
        (\<forall>j u. match_chunk chunk (drop j s) = Some u \<and> (u = [] \<or> goes_on) \<longrightarrow> i \<le> j)"
proof -
  let ?P = "\<lambda>s. \<exists>t \<in> set_option (match_chunk chunk s). t = [] \<or> goes_on"
  have nth: "(s # skips s) ! i = drop i s" if "i < length (s # skips s)" for i
    using that skips_nth [OF assms] by simp
  have len: "length (s # skips s) = Suc (length s)" using skips_nth(1) [OF assms] by simp
  show "\<not> (t = [] \<or> goes_on)" if "first_match True chunk goes_on s = None" "match_chunk chunk (drop i s) = Some t"
  proof -
    have "drop i s = (s # skips s) ! min i (length s)" using nth [of "min i (length s)"] len by (simp add: min_def)
    then have "drop i s \<in> set (s # skips s)" using len by (metis less_Suc_eq_le min.cobounded2 nth_mem)
    moreover have "List.find ?P (s # skips s) = None"
      using that(1) by (auto simp: first_match_def find_Some_iff split: option.splits)
    ultimately show ?thesis using that(2) by (auto simp: find_None_iff simp del: find.simps)
  qed
  show "\<exists>i \<le> length s. match_chunk chunk (drop i s) = Some t \<and> (t = [] \<or> goes_on) \<and>
        (\<forall>j u. match_chunk chunk (drop j s) = Some u \<and> (u = [] \<or> goes_on) \<longrightarrow> i \<le> j)"
    if "first_match True chunk goes_on s = Some t"
  proof -
    from that obtain x where x: "List.find ?P (s # skips s) = Some x" "match_chunk chunk x = Some t"
      by (auto simp: first_match_def split: option.splits if_splits)
    then obtain i where i: "i < length (s # skips s)" "?P ((s # skips s) ! i)" "x = (s # skips s) ! i"
      "\<And>j. j < i \<Longrightarrow> \<not> ?P ((s # skips s) ! j)" by (auto simp: find_Some_iff simp del: find.simps)
    have "i \<le> j" if "match_chunk chunk (drop j s) = Some u" "u = [] \<or> goes_on" for j u
    proof (rule ccontr)
      assume "\<not> i \<le> j"
      with i(1) have "(s # skips s) ! j = drop j s" "j < i" using nth [of j] by simp_all
      with i(4) [of j] that show False by auto
    qed
    with i x(2) nth [OF i(1)] len show ?thesis by (intro exI [of _ i]) auto
  qed
qed

lemma match_items_globs: "segment_ok s \<Longrightarrow> match_items pat s \<longleftrightarrow> globs pat s"
proof (induction pat s rule: match_items.induct)
  case (1 pat s)
  let ?star = "hd pat = Star" and ?q = "dropWhile (\<lambda>i. i = Star) pat"
  let ?chunk = "takeWhile (\<lambda>i. i \<noteq> Star) ?q" and ?rest = "dropWhile (\<lambda>i. i \<noteq> Star) ?q"
  have slash: "CHR ''/'' \<notin> set s" using 1(2) by simp
  have ok: "segment_ok (drop k s)" for k using 1(2) by (auto simp: list_all_iff dest: in_set_dropD)
  have split: "globs ?q u \<longleftrightarrow> (\<exists>t. match_chunk ?chunk u = Some t \<and> globs ?rest t)" for u
    using globs_chunk [of ?chunk ?rest u] set_takeWhileD [of Star "\<lambda>i. i \<noteq> Star" ?q] by (auto simp: takeWhile_dropWhile_id)
  show ?case
  proof (cases "pat = []")
    case True
    then show ?thesis by (simp add: match_items.simps)
  next
    case pat: False
    show ?thesis
    proof (cases "?star \<and> ?chunk = []")
      case True
      moreover have "?q \<noteq> [] \<Longrightarrow> hd ?q \<noteq> Star" by (rule hd_dropWhile)
      ultimately have "?q = []" by (cases ?q) (auto split: if_splits)
      with True pat have "globs pat s" using globs_stars [OF pat, of s] globs_Nil by (metis append_Nil2)
      with True pat slash show ?thesis by (subst match_items.simps) (simp add: Let_def)
    next
      case False
      have unfold: "match_items pat s = (case first_match ?star ?chunk (?rest \<noteq> []) s of None \<Rightarrow> False | Some t \<Rightarrow> match_items ?rest t)"
        by (subst match_items.simps) (simp only: Let_def pat False if_False)
      have IH: "match_items ?rest t = globs ?rest t" if "first_match ?star ?chunk (?rest \<noteq> []) s = Some t" "segment_ok t" for t
        using 1(1) [OF pat refl refl refl refl False that] .
      show ?thesis
      proof (cases ?star)
        case nostar: False
        then have q: "?q = pat" using pat by (cases pat) auto
        show ?thesis
        proof (cases "match_chunk ?chunk s")
          case None
          then show ?thesis using split [of s] nostar q by (simp add: unfold first_match_plain)
        next
          case (Some t)
          then have t: "segment_ok t" using match_chunk_drop [OF 1(2) Some] ok by simp
          show ?thesis
          proof (cases "?rest = []")
            case True
            then show ?thesis using split [of s] nostar q Some IH [OF _ t]
              by (cases "t = []") (simp_all add: unfold first_match_plain del: dropWhile_eq_Nil_conv)
          next
            case False
            then show ?thesis using split [of s] nostar q Some IH [OF _ t]
              by (simp add: unfold first_match_plain del: dropWhile_eq_Nil_conv)
          qed
        qed
      next
        case star: True
        have glob: "globs pat s \<longleftrightarrow> (\<exists>j t. match_chunk ?chunk (drop j s) = Some t \<and> globs ?rest t)"
          using globs_stars [OF pat star, of s] split by (metis append_eq_conv_conj append_take_drop_id)
        show ?thesis
        proof (cases "first_match True ?chunk (?rest \<noteq> []) s")
          case None
          have "\<not> globs ?rest t" if "match_chunk ?chunk (drop j s) = Some t" for j t
            using first_match_star(1) [OF slash None that] globs_NilI by fastforce
          with None star glob show ?thesis by (auto simp: unfold)
        next
          case (Some t)
          then obtain i where i: "i \<le> length s" "match_chunk ?chunk (drop i s) = Some t" "t = [] \<or> ?rest \<noteq> []"
            "\<And>j u. match_chunk ?chunk (drop j s) = Some u \<Longrightarrow> u = [] \<or> ?rest \<noteq> [] \<Longrightarrow> i \<le> j"
            using first_match_star(2) [OF slash Some] by blast
          have t: "t = drop (length ?chunk) (drop i s)" using match_chunk_drop [OF ok i(2)] by simp
          have "globs ?rest t" if u: "match_chunk ?chunk (drop j s) = Some u" "globs ?rest u" for j u
          proof (cases "?rest = []")
            case True
            with i(3) have "t = []" by blast
            then show ?thesis unfolding True by (simp only: globs_Nil)
          next
            case False
            then obtain x r where "?rest = x # r" by (auto simp only: neq_Nil_conv)
            with hd_dropWhile [OF False] have r: "?rest = Star # r" by simp
            have "i \<le> j" using i(4) [OF u(1)] False by simp
            moreover have "u = drop (length ?chunk) (drop j s)" using match_chunk_drop [OF ok u(1)] by simp
            ultimately have "u = drop (j - i) t" using t by (simp add: add.commute)
            then have "t = take (j - i) t @ u" by simp
            with u(2) r globs_star_append show ?thesis by metis
          qed
          then have "globs pat s \<longleftrightarrow> globs ?rest t" using glob i(2) by blast
          moreover have "segment_ok t" unfolding t drop_drop by (rule ok)
          ultimately show ?thesis using IH [of t] Some star by (simp add: unfold)
        qed
      qed
    qed
  qed
qed

lemma Split_no_sep: "s \<in> set (strings_Split c p) \<Longrightarrow> c \<notin> set s"
  by (induction c p arbitrary: s rule: strings_Split.induct) (auto split: if_splits list.splits)

lemma Split_bytes: "s \<in> set (strings_Split c p) \<Longrightarrow> set s \<subseteq> set p"
  by (induction c p arbitrary: s rule: strings_Split.induct) (fastforce split: if_splits list.splits)+

definition seg_matches :: "string \<Rightarrow> string \<Rightarrow> bool" where
  "seg_matches pattern name \<longleftrightarrow> (\<exists>is. glob_items pattern = Some is \<and> globs is name)"

lemma path_Match_segments:
  assumes "ascii pkg" and "length ps = length ss" and "set ss \<subseteq> set (strings_Split (CHR ''/'') pkg)"
  shows "list_all2 path_Match ps ss \<longleftrightarrow> list_all2 seg_matches ps ss"
proof (rule list.rel_cong [OF refl refl])
  fix p s
  assume "s \<in> set ss"
  with assms(3) have s: "s \<in> set (strings_Split (CHR ''/'') pkg)" by auto
  have "segment_ok s" using Split_no_sep [OF s] Split_bytes [OF s] assms(1) by (auto simp: ascii_def list_all_iff byte_def)
  then show "path_Match p s = seg_matches p s"
    by (simp add: path_Match_def seg_matches_def match_items_globs split: option.split)
qed

lemma matchPattern_exact:
  assumes "ascii pkg" and "\<not> (\<exists>q. pattern = q @ ''/...'')"
  shows "matchPattern pattern pkg \<longleftrightarrow>
    list_all2 seg_matches (strings_Split (CHR ''/'') pattern) (strings_Split (CHR ''/'') pkg)"
proof -
  have "trim_suffix pattern ''/...'' = pattern"
  proof -
    have "\<not> has_prefix (rev pattern) (rev ''/...'')"
    proof
      assume "has_prefix (rev pattern) (rev ''/...'')"
      then obtain r where "rev pattern = rev ''/...'' @ r"
        unfolding has_prefix_def by (metis append_take_drop_id)
      then have "pattern = rev r @ ''/...''" by (metis rev_append rev_rev_ident)
      with assms(2) show False by blast
    qed
    then show ?thesis by (simp add: trim_suffix_def trim_prefix_def)
  qed
  then have "matchPattern pattern pkg \<longleftrightarrow> length (strings_Split (CHR ''/'') pattern) = length (strings_Split (CHR ''/'') pkg) \<and>
      list_all2 path_Match (strings_Split (CHR ''/'') pattern) (strings_Split (CHR ''/'') pkg)"
    by (simp add: matchPattern_def Let_def)
  with path_Match_segments [OF assms(1), of "strings_Split (CHR ''/'') pattern" "strings_Split (CHR ''/'') pkg"]
  show ?thesis by (metis list_all2_lengthD order_refl)
qed

lemma matchPattern_below:
  assumes "ascii pkg"
  shows "matchPattern (q @ ''/...'') pkg \<longleftrightarrow>
    (\<exists>front after. strings_Split (CHR ''/'') pkg = front @ after \<and> list_all2 seg_matches (strings_Split (CHR ''/'') q) front)"
    (is "_ \<longleftrightarrow> (\<exists>front after. ?segs = _ \<and> list_all2 _ ?ps _)")
proof -
  have cut: "trim_suffix (q @ ''/...'') ''/...'' = q" by (rule trim_suffix_append)
  have "matchPattern (q @ ''/...'') pkg \<longleftrightarrow> \<not> length ?segs < length ?ps \<and> list_all2 path_Match ?ps (take (length ?ps) ?segs)"
    unfolding matchPattern_def cut by (simp add: Let_def)
  also have "\<dots> \<longleftrightarrow> length ?ps \<le> length ?segs \<and> list_all2 seg_matches ?ps (take (length ?ps) ?segs)"
    using path_Match_segments [OF assms, of ?ps "take (length ?ps) ?segs"] set_take_subset [of "length ?ps" ?segs] by auto
  also have "\<dots> \<longleftrightarrow> (\<exists>front after. ?segs = front @ after \<and> list_all2 seg_matches ?ps front)"
  proof
    assume "length ?ps \<le> length ?segs \<and> list_all2 seg_matches ?ps (take (length ?ps) ?segs)"
    then show "\<exists>front after. ?segs = front @ after \<and> list_all2 seg_matches ?ps front"
      by (metis append_take_drop_id)
  next
    assume "\<exists>front after. ?segs = front @ after \<and> list_all2 seg_matches ?ps front"
    then obtain front after where f: "?segs = front @ after" "list_all2 seg_matches ?ps front" by blast
    then have "length front = length ?ps" by (simp add: list_all2_lengthD)
    with f show "length ?ps \<le> length ?segs \<and> list_all2 seg_matches ?ps (take (length ?ps) ?segs)" by simp
  qed
  finally show ?thesis .
qed

section \<open>The verdict\<close>

lemma print_all_total:
  assumes "\<And>l w. \<exists>w'. print l w = (Ret (), w')"
  shows "\<exists>w'. print_all print ls w = (Ret (), w')"
proof (induction ls arbitrary: w)
  case (Cons l ls)
  obtain w1 where "print l w = (Ret (), w1)" using assms by blast
  with Cons show ?case by (simp add: bindp_def)
qed simp

lemma set_sortedKeys [simp]: "set (sortedKeys m) = dom (map_of m)"
  by (simp add: sortedKeys_def dom_map_of_conv_image_fst)

definition accepted :: "cov_policy \<Rightarrow> string \<Rightarrow> rat \<Rightarrow> bool" where
  \<comment> \<open>what the policy asks of one measured package\<close>
  "accepted policy pkg pct \<longleftrightarrow>
     (\<forall>f. floorFor policy pkg = Some f \<longrightarrow> gf_Min f \<le> fl (pct + tolerance)) \<and>
     (\<forall>base. map_of (gp_Baseline policy) pkg = Some base \<longrightarrow> base \<le> fl (pct + tolerance))"

lemma failures_Nil:
  "failures_of failure policy cov db = [] \<longleftrightarrow>
     (\<forall>pkg pct. map_of cov pkg = Some pct \<and> measured policy db pkg \<longrightarrow> failure policy pkg pct = [])"
  by (fastforce simp: failures_of_def)

lemma failure_Nil:
  "floor_failure policy pkg pct = [] \<longleftrightarrow> (\<forall>f. floorFor policy pkg = Some f \<longrightarrow> gf_Min f \<le> fl (pct + tolerance))"
  "ratchet_failure policy pkg pct = [] \<longleftrightarrow>
     (\<forall>base. map_of (gp_Baseline policy) pkg = Some base \<longrightarrow> base \<le> fl (pct + tolerance))"
  by (auto simp: floor_failure_def ratchet_failure_def not_less split: option.split)

lemma missing_Nil:
  "missing_packages policy cov db = [] \<longleftrightarrow>
     (\<forall>pkg. pkg \<in> dom (map_of (gp_Baseline policy)) \<and> measured policy db pkg \<longrightarrow> pkg \<in> dom (map_of cov))"
proof -
  have "missing_packages policy cov db = [] \<longleftrightarrow> set (missing_packages policy cov db) = {}" by simp
  also have "\<dots> \<longleftrightarrow> (\<forall>pkg. pkg \<in> dom (map_of (gp_Baseline policy)) \<and> measured policy db pkg \<longrightarrow> pkg \<in> dom (map_of cov))"
    unfolding missing_packages_def set_sort set_filter set_map
    by (auto simp: dom_map_of_conv_image_fst measured_def map_of_eq_None_iff image_iff)
  finally show ?thesis .
qed

section \<open>The ratchet\<close>

definition fallen :: "cov_policy \<Rightarrow> bool \<Rightarrow> (string \<times> rat) list \<Rightarrow> string \<Rightarrow> bool" where
  "fallen policy db cov pkg \<longleftrightarrow>
     (\<exists>pct old. map_of cov pkg = Some pct \<and> measured policy db pkg \<and>
        map_of (gp_Baseline policy) pkg = Some old \<and> fl (pct + tolerance) < old)"

definition recorded :: "cov_policy \<Rightarrow> bool \<Rightarrow> (string \<times> rat) list \<Rightarrow> (string \<rightharpoonup> rat) \<Rightarrow> string \<rightharpoonup> rat" where
  \<comment> \<open>the baseline an accepted update is meant to leave\<close>
  "recorded policy db cov base pkg =
     (case map_of cov pkg of
        Some pct \<Rightarrow> if measured policy db pkg then Some (round1 pct) else base pkg
      | None \<Rightarrow> base pkg)"

lemma update_loop_baseline:
  assumes "distinct (map fst cov)" and "update_loop policy down db base cov = (b, [])"
  shows "map_of b = recorded policy db cov (map_of base)"
  using assms
proof (induction cov arbitrary: base)
  case Nil
  then show ?case by (simp add: recorded_def fun_eq_iff)
next
  case (Cons x cov)
  obtain pkg pct where x: "x = (pkg, pct)" by force
  from Cons.prems(1) x have fresh: "map_of cov pkg = None" by (auto simp: map_of_eq_None_iff)
  show ?case
  proof (cases "measured policy db pkg")
    case False
    with Cons.IH [of base] Cons.prems x fresh show ?thesis by (auto simp: recorded_def fun_eq_iff)
  next
    case True
    with Cons.prems(2) x have "update_loop policy down db (AList.update pkg (round1 pct) base) cov = (b, [])"
      by (auto split: option.splits prod.splits if_splits)
    with Cons.IH [OF _ this] Cons.prems(1) True x fresh show ?thesis
      by (auto simp: recorded_def fun_eq_iff update_conv')
  qed
qed

lemma update_loop_lowered:
  assumes "distinct (map fst cov)"
  shows "set (snd (update_loop policy down db base cov)) =
    {(pkg, pct, old). \<not> down \<and> map_of cov pkg = Some pct \<and> measured policy db pkg \<and>
       map_of base pkg = Some old \<and> fl (pct + tolerance) < old}"
    (is "_ = ?fell cov base")
  using assms
proof (induction cov arbitrary: base)
  case (Cons x cov)
  obtain pkg pct where x: "x = (pkg, pct)" by force
  from Cons.prems x have fresh: "map_of cov pkg = None" by (auto simp: map_of_eq_None_iff)
  have IH: "set (snd (update_loop policy down db b cov)) = ?fell cov b" for b
    using Cons by simp
  have same: "?fell cov (AList.update pkg v base) = ?fell cov base" for v
    using fresh by (auto simp: update_conv' split: if_splits)
  show ?case
  proof (cases "\<not> down \<and> measured policy db pkg \<and> (\<exists>old. map_of base pkg = Some old \<and> fl (pct + tolerance) < old)")
    case True
    then obtain old where old: "map_of base pkg = Some old" "fl (pct + tolerance) < old" by blast
    with True x have "set (snd (update_loop policy down db base (x # cov))) =
        insert (pkg, pct, old) (set (snd (update_loop policy down db base cov)))"
      by (cases "update_loop policy down db base cov") auto
    moreover have "?fell (x # cov) base = insert (pkg, pct, old) (?fell cov base)"
      using True old x fresh by (auto split: if_splits)
    ultimately show ?thesis using IH by simp
  next
    case False
    then have "snd (update_loop policy down db base (x # cov)) =
        snd (update_loop policy down db (if measured policy db pkg then AList.update pkg (round1 pct) base else base) cov)"
      using x by (auto split: option.split)
    moreover have "?fell (x # cov) base = ?fell cov base" using False x fresh by (auto split: if_splits)
    ultimately show ?thesis using IH same by simp
  qed
qed simp

lemma count_line_distinct: "distinct (map fst m) \<Longrightarrow> distinct (map fst (count_line pkg n k m))"
  by (simp add: count_line_def Let_def distinct_update)

lemma parse_lines_distinct:
  "parse_lines path first texts m = Inr m' \<Longrightarrow> distinct (map fst m) \<Longrightarrow> distinct (map fst m')"
  by (induction path first texts m rule: parse_lines.induct)
    (auto simp: Let_def count_line_distinct split: if_splits sum.splits)

lemma parseProfile_distinct:
  assumes "parseProfile path opened = Inr cov"
  shows "distinct (map fst cov)"
proof -
  obtain texts e m where "opened = Inr (texts, e)" "parse_lines path True texts [] = Inr m"
    "cov = map (\<lambda>(pkg, c). (pkg, percentage c)) m"
    using assms by (auto simp: parseProfile_def split: sum.splits option.splits)
  with parse_lines_distinct [of path True texts "[]" m] show ?thesis
    by (simp add: comp_def case_prod_unfold)
qed

section \<open>Concrete profiles\<close>

lemma round_even_near:
  assumes "\<bar>y - of_int k\<bar> < 1 / 2"
  shows "round_even y = k"
proof (cases "of_int k \<le> y")
  case True
  with assms have "\<lfloor>y\<rfloor> = k" by (simp add: floor_eq_iff)
  with True assms show ?thesis by (simp add: round_even_def)
next
  case False
  with assms have "\<lfloor>y\<rfloor> = k - 1" by (simp add: floor_eq_iff abs_less_iff)
  with False assms show ?thesis by (simp add: round_even_def abs_less_iff)
qed

lemma fl_near:
  assumes "2 powi m = p" and "2 powi (m - 52) = q" and "p \<le> x" and "x < 2 * p" and "2 * \<bar>x - of_int k * q\<bar> < q"
  shows "fl x = of_int k * q"
proof -
  have q: "0 < q" using powi_pos [of "m - 52"] assms(2) by simp
  have "x < 2 powi (m + 1)" using assms(1,4) by (simp add: power_int_add)
  then have "magnitude x = m" by (intro magnitude_unique) (use assms(1,3) powi_pos [of m] in auto)
  moreover have "0 < x" using assms(1,3) powi_pos [of m] by linarith
  moreover have "round_even (x / q) = k"
  proof (rule round_even_near)
    have "\<bar>x / q - of_int k\<bar> * q = \<bar>x - of_int k * q\<bar>"
    proof -
      have "(x / q - of_int k) * q = x - of_int k * q" using q by (simp add: field_simps)
      then show ?thesis using q by (metis abs_mult abs_of_pos)
    qed
    with assms(5) have "(2 * \<bar>x / q - of_int k\<bar>) * q < 1 * q" by (simp add: algebra_simps)
    then show "\<bar>x / q - of_int k\<bar> < 1 / 2" using q by (simp only: mult_less_cancel_right_pos) simp
  qed
  ultimately show ?thesis using assms(2) by (simp add: fl_def fl_pos_def fl_at_def)
qed

definition demo_counts :: cov_counts where
  "demo_counts = \<lparr>cc_total = 2000, cc_covered = 173\<rparr>"

definition demo_profile :: "string list" where
  "demo_profile = [''mode: set'', ''m/a.go:1.1,2.2 173 1'', ''m/a.go:3.1,9.2 1827 0'']"

definition demo_policy :: cov_policy where
  "demo_policy =
     \<lparr>gp_Floors = [], gp_Exempt = [], gp_RequiresDatabase = [], gp_Baseline = [(''m'', fl (87 / 10))]\<rparr>"

lemma demo_fl:
  "fl (173 / 2000) = 3116490942140383 / 36028797018963968"
  "fl (3116490942140383 / 36028797018963968 * 100) = 1217379274273587 / 140737488355328"
  "fl (5 / 100) = 3602879701896397 / 72057594037927936"
  "fl (1217379274273587 / 140737488355328 + 3602879701896397 / 72057594037927936) = 2448832297382707 / 281474976710656"
  "fl (87 / 10) = 2448832297382707 / 281474976710656"
  "fl (1217379274273587 / 140737488355328 * 10) = 6086896371367935 / 70368744177664"
  "fl (6086896371367935 / 70368744177664 + 1 / 2) = 6122080743456767 / 70368744177664"
  "fl (86 / 10) = 4841369599423283 / 562949953421312"
  subgoal using fl_near [of "-4" "1 / 16" "1 / 72057594037927936" "173 / 2000" 6232981884280766] by (simp add: power_int_def power_one_over)
  subgoal using fl_near [of "3" "8" "1 / 562949953421312" "3116490942140383 / 36028797018963968 * 100" 4869517097094348] by (simp add: power_int_def power_one_over)
  subgoal using fl_near [of "-5" "1 / 32" "1 / 144115188075855872" "5 / 100" 7205759403792794] by (simp add: power_int_def power_one_over)
  subgoal using fl_near [of "3" "8" "1 / 562949953421312" "1217379274273587 / 140737488355328 + 3602879701896397 / 72057594037927936" 4897664594765414] by (simp add: power_int_def power_one_over)
  subgoal using fl_near [of "3" "8" "1 / 562949953421312" "87 / 10" 4897664594765414] by (simp add: power_int_def power_one_over)
  subgoal using fl_near [of "6" "64" "1 / 70368744177664" "1217379274273587 / 140737488355328 * 10" 6086896371367935] by (simp add: power_int_def power_one_over)
  subgoal using fl_near [of "6" "64" "1 / 70368744177664" "6086896371367935 / 70368744177664 + 1 / 2" 6122080743456767] by (simp add: power_int_def power_one_over)
  subgoal using fl_near [of "3" "8" "1 / 562949953421312" "86 / 10" 4841369599423283] by (simp add: power_int_def power_one_over)
  done

lemma demo_percentage: "percentage demo_counts = 1217379274273587 / 140737488355328"
proof -
  have "percentage demo_counts = fl (fl (173 / 2000) * 100)"
    using fl_int [of 173] fl_int [of 2000] by (simp add: percentage_def demo_counts_def)
  then show ?thesis unfolding demo_fl(1) demo_fl(2) .
qed

lemma demo_round1: "round1 (percentage demo_counts) = fl (86 / 10)"
proof -
  have "\<lfloor>6122080743456767 / 70368744177664 :: rat\<rfloor> = 86" by (simp add: floor_eq_iff)
  then have "trunc_int64 (6122080743456767 / 70368744177664) = 86" by (simp add: trunc_int64_def)
  then show ?thesis unfolding round1_def demo_percentage demo_fl(6) demo_fl(7) by simp
qed

lemma demo_holds: "\<not> fl (percentage demo_counts + tolerance) < fl (87 / 10)"
  unfolding demo_percentage tolerance_def demo_fl(3) unfolding demo_fl(4) demo_fl(5) by simp

lemma demo_lines: "parse_lines ''c'' True demo_profile [] = Inr [(''m'', demo_counts)]"
proof -
  have "TrimSpace ''mode: set'' = ''mode: set''" by code_simp
  moreover have "TrimSpace ''m/a.go:1.1,2.2 173 1'' = ''m/a.go:1.1,2.2 173 1''" by code_simp
  moreover have "TrimSpace ''m/a.go:3.1,9.2 1827 0'' = ''m/a.go:3.1,9.2 1827 0''" by code_simp
  moreover have "parseProfileLine ''m/a.go:1.1,2.2 173 1'' = Inr (''m'', 173, 1)" by code_simp
  moreover have "parseProfileLine ''m/a.go:3.1,9.2 1827 0'' = Inr (''m'', 1827, 0)" by code_simp
  ultimately show ?thesis by (simp add: demo_profile_def count_line_def demo_counts_def has_prefix_def)
qed

lemma demo_parsed: "parseProfile ''c'' (Inr (demo_profile, None)) = Inr [(''m'', percentage demo_counts)]"
  by (simp add: parseProfile_def demo_lines)

section \<open>Properties\<close>

text \<open>
  C38. A pattern of the policy denotes what its comment says: segment by segment a glob, and with a
  trailing \<open>/...\<close> every package at or below a package the rest denotes. The library's greedy matching
  loses nothing on a path of ASCII bytes.
\<close>

theorem pattern_denotes:
  assumes "ascii pkg"
  shows "matchPattern pattern pkg \<longleftrightarrow>
    (\<exists>front after. strings_Split (CHR ''/'') pkg = front @ after \<and>
       ((\<exists>q. pattern = q @ ''/...'' \<and> list_all2 seg_matches (strings_Split (CHR ''/'') q) front) \<or>
        (\<nexists>q. pattern = q @ ''/...'') \<and> after = [] \<and> list_all2 seg_matches (strings_Split (CHR ''/'') pattern) front))"
proof (cases "\<exists>q. pattern = q @ ''/...''")
  case True
  then obtain q where "pattern = q @ ''/...''" by blast
  with matchPattern_below [OF assms, of q] show ?thesis by simp
next
  case False
  with matchPattern_exact [OF assms False] show ?thesis by simp
qed

theorem pattern_denotes_witness:
  "matchPattern ''modules/*/infrastructure/...'' ''modules/user/infrastructure/token''
   \<longleftrightarrow> (\<exists>front after. [''modules'', ''user'', ''infrastructure'', ''token''] = front @ after \<and>
         list_all2 seg_matches [''modules'', ''*'', ''infrastructure''] front)"
proof -
  have split: "strings_Split (CHR ''/'') ''modules/user/infrastructure/token'' = [''modules'', ''user'', ''infrastructure'', ''token'']"
    "strings_Split (CHR ''/'') ''modules/*/infrastructure'' = [''modules'', ''*'', ''infrastructure'']" by simp_all
  have q: "''modules/*/infrastructure/...'' = q @ ''/...'' \<longleftrightarrow> q = ''modules/*/infrastructure''" for q
    using append_same_eq [of "''modules/*/infrastructure''" "''/...''" q] by auto
  have "ascii ''modules/user/infrastructure/token''" by (simp add: ascii_def)
  from pattern_denotes [OF this, of "''modules/*/infrastructure/...''"] show ?thesis
    unfolding q split by auto
qed

text \<open>
  C39. The gate passes exactly if every measured package of the profile meets its floor and has not
  fallen below its baseline, and every measured package of the baseline is in the profile.
\<close>

theorem gate_verdict:
  assumes "\<And>l w. \<exists>w'. ge_Print G l w = (Ret (), w')"
  shows "\<exists>r w'. check_gate G policy cov db w = (Ret r, w') \<and>
    (r = None \<longleftrightarrow>
       (\<forall>pkg pct. map_of cov pkg = Some pct \<and> measured policy db pkg \<longrightarrow> accepted policy pkg pct) \<and>
       (\<forall>pkg. pkg \<in> dom (map_of (gp_Baseline policy)) \<and> measured policy db pkg \<longrightarrow> pkg \<in> dom (map_of cov)))"
    (is "\<exists>r w'. _ \<and> (r = None \<longleftrightarrow> ?passes)")
proof -
  let ?problems = "filter (\<lambda>ps. ps \<noteq> []) [failures_of floor_failure policy cov db,
      failures_of ratchet_failure policy cov db, map Absent (missing_packages policy cov db)]"
  let ?u = "unchecked_packages policy cov db"
  obtain w1 where w1: "report_gate (ge_Print G) cov policy db w = (Ret (), w1)"
    unfolding report_gate_def using print_all_total [of "ge_Print G", OF assms] by blast
  obtain w2 where w2: "(if ?u \<noteq> [] then ge_Print G (NotChecked ?u) else retp ()) w1 = (Ret (), w2)"
    using assms [of "NotChecked ?u" w1] by (cases "?u = []") auto
  obtain w3 where w3: "ge_Print G AllFloorsMet w2 = (Ret (), w3)" using assms by blast
  have none: "?problems = [] \<longleftrightarrow> ?passes"
    by (auto simp: failures_Nil failure_Nil missing_Nil accepted_def simp del: not_None_eq)
  have "check_gate G policy cov db w =
    (if ?problems \<noteq> [] then (Ret (Some (New (ge_text G ?problems))), w2) else (Ret None, w3))"
    unfolding check_gate_def Let_def bindp_def [of "report_gate _ _ _ _"] w1 outcome.case prod.case
    unfolding bindp_def [of "if _ then _ else _"] w2 outcome.case prod.case
    using w3 by (simp add: bindp_def)
  then show ?thesis using none by (cases "?problems = []") auto
qed

text \<open>
  C40. The ratchet. Without \<open>-allow-decrease\<close> an update under which a measured package falls below its
  recorded baseline by more than the tolerance refuses, writes nothing and names exactly those
  packages; any other update writes the policy with, for every measured package of the profile,
  its coverage rounded to one decimal, and every other package as it was.
\<close>

theorem ratchet_update:
  assumes "parseProfile profilePath opened = Inr cov"
  shows "if \<not> allowDecrease \<and> (\<exists>pkg. fallen policy db cov pkg)
    then \<exists>lowered. fst ` set lowered = {pkg. fallen policy db cov pkg} \<and>
      updateBaseline G policy path cov allowDecrease db w =
        (Ret (Some (New (ge_text G [map (\<lambda>(pkg, pct, old). Lowered pkg pct old) lowered]))), w)
    else \<exists>b. map_of b = recorded policy db cov (map_of (gp_Baseline policy)) \<and>
      updateBaseline G policy path cov allowDecrease db w =
        write_policy G (policy\<lparr>gp_Baseline := b\<rparr>) path w"
proof -
  note distinct = parseProfile_distinct [OF assms]
  obtain b lowered where loop:
      "update_loop policy allowDecrease db (gp_Baseline policy) cov = (b, lowered)" by force
  have "set lowered = {(pkg, pct, old). \<not> allowDecrease \<and> map_of cov pkg = Some pct \<and>
      measured policy db pkg \<and> map_of (gp_Baseline policy) pkg = Some old \<and> fl (pct + tolerance) < old}"
    using update_loop_lowered [OF distinct, of policy allowDecrease db "gp_Baseline policy"]
    by (simp add: loop)
  then have fell: "fst ` set lowered = {pkg. \<not> allowDecrease \<and> fallen policy db cov pkg}"
    by (force simp: fallen_def image_iff)
  show ?thesis
  proof (cases "lowered = []")
    case True
    with fell have "\<not> (\<not> allowDecrease \<and> (\<exists>pkg. fallen policy db cov pkg))" by auto
    moreover have "map_of b = recorded policy db cov (map_of (gp_Baseline policy))"
      using update_loop_baseline [OF distinct loop [unfolded True]] .
    ultimately show ?thesis using True by (auto simp: updateBaseline_def loop)
  next
    case False
    then have some: "\<not> allowDecrease \<and> (\<exists>pkg. fallen policy db cov pkg)"
      using fell by (metis (mono_tags, lifting) empty_Collect_eq image_is_empty set_empty)
    let ?sorted = "sort_key (\<lambda>(pkg, _). pkg @ '': '') lowered"
    have "updateBaseline G policy path cov allowDecrease db w =
        (Ret (Some (New (ge_text G [map (\<lambda>(pkg, pct, old). Lowered pkg pct old) ?sorted]))), w)"
      using False by (simp add: updateBaseline_def loop)
    moreover have "fst ` set ?sorted = {pkg. fallen policy db cov pkg}" using fell some by simp
    ultimately have "\<exists>lowered. fst ` set lowered = {pkg. fallen policy db cov pkg} \<and>
        updateBaseline G policy path cov allowDecrease db w =
          (Ret (Some (New (ge_text G [map (\<lambda>(pkg, pct, old). Lowered pkg pct old) lowered]))), w)"
      by blast
    with some show ?thesis by simp
  qed
qed

definition demo_gate :: "unit gate_env" where
  "demo_gate =
     \<lparr>ge_ReadFile = (\<lambda>_. retp (Inr [])), ge_Unmarshal = (\<lambda>_. Inr demo_policy),
      ge_Open = (\<lambda>_. retp (Inr (demo_profile, None))), ge_Marshal = (\<lambda>_. Inr []),
      ge_WriteFile = (\<lambda>_ _. retp None), ge_Print = (\<lambda>_. retp ()), ge_text = (\<lambda>_. [])\<rparr>"

lemma demo_measured: "measured demo_policy True pkg"
  by (simp add: measured_def skipped_def isExempt_def demo_policy_def)

theorem gate_verdict_witness:
  "\<exists>w'. check_gate demo_gate demo_policy [(''m'', percentage demo_counts)] True () = (Ret None, w')"
proof -
  have "\<exists>w'. ge_Print demo_gate l w = (Ret (), w')" for l w by (simp add: demo_gate_def)
  from gate_verdict [OF this, of demo_policy "[(''m'', percentage demo_counts)]" True "()"] demo_holds
  show ?thesis
    by (auto simp: accepted_def demo_policy_def floorFor_def not_less split: if_splits)
qed

theorem ratchet_update_witness:
  "\<forall>(G :: unit gate_env) path w. \<exists>lowered. fst ` set lowered = {''m''} \<and>
     updateBaseline G (demo_policy\<lparr>gp_Baseline := [(''m'', 99)]\<rparr>) path [(''m'', percentage demo_counts)] False True w =
       (Ret (Some (New (ge_text G [map (\<lambda>(pkg, pct, old). Lowered pkg pct old) lowered]))), w)"
proof (intro allI)
  fix G :: "unit gate_env" and path w
  let ?p = "demo_policy\<lparr>gp_Baseline := [(''m'', 99)]\<rparr>"
  let ?cov = "[(''m'', percentage demo_counts)]"
  have "fl (percentage demo_counts + tolerance) < 99"
    unfolding demo_percentage tolerance_def demo_fl(3) unfolding demo_fl(4) by simp
  then have "fallen ?p True ?cov pkg \<longleftrightarrow> pkg = ''m''" for pkg
    by (auto simp: fallen_def measured_def skipped_def isExempt_def demo_policy_def split: if_splits)
  then have "Collect (fallen ?p True ?cov) = {''m''}" "\<exists>pkg. fallen ?p True ?cov pkg" by auto
  with ratchet_update [OF demo_parsed, of False ?p True G path w]
  show "\<exists>lowered. fst ` set lowered = {''m''} \<and> updateBaseline G ?p path ?cov False True w =
      (Ret (Some (New (ge_text G [map (\<lambda>(pkg, pct, old). Lowered pkg pct old) lowered]))), w)"
    by simp
qed

text \<open>
  The ratchet can slip: with 173 of 2000 statements covered and a recorded 8.7, an update
  without \<open>-allow-decrease\<close> is accepted and records 8.6, because the sum with the tolerance rounds up to
  the baseline while the rounding to one decimal goes down.
\<close>

theorem ratchet_slips:
  "parseProfile ''c'' (Inr (demo_profile, None)) = Inr [(''m'', percentage demo_counts)] \<and>
   updateBaseline G demo_policy path [(''m'', percentage demo_counts)] False True w =
     write_policy G (demo_policy\<lparr>gp_Baseline := [(''m'', fl (86 / 10))]\<rparr>) path w \<and>
   map_of (gp_Baseline demo_policy) ''m'' = Some (fl (87 / 10)) \<and> fl (86 / 10) < fl (87 / 10)"
proof (intro conjI)
  have "update_loop demo_policy False True [(''m'', fl (87 / 10))] [(''m'', percentage demo_counts)] =
      ([(''m'', fl (86 / 10))], [])"
    using demo_measured demo_holds demo_round1 by simp
  then show "updateBaseline G demo_policy path [(''m'', percentage demo_counts)] False True w =
      write_policy G (demo_policy\<lparr>gp_Baseline := [(''m'', fl (86 / 10))]\<rparr>) path w"
    by (simp add: updateBaseline_def demo_policy_def)
  show "fl (86 / 10) < fl (87 / 10)" unfolding demo_fl(5) demo_fl(8) by simp
qed (simp_all add: demo_parsed demo_policy_def)

end
