(* ===== verification/Platform.thy ===== *)
theory Platform
  imports Smtp
begin

text \<open>
  What the entry points stand on: the database handle and the connection string of
  \<open>internal/db/database.go\<close>, the level of \<open>internal/logger\<close>, the pool collector of
  \<open>internal/metrics/pool.go\<close>, the \<open>healthcheck\<close> command and the migration commands. The pgx pool,
  \<open>database/sql\<close>, goose, zerolog's writers and the HTTP client are parameters.
\<close>

section \<open>Percent encoding\<close>

text \<open>\<open>net/url\<close>: which bytes each part of a URL may keep, and how the rest is written and read.\<close>

definition unreserved :: "char \<Rightarrow> bool" where
  "unreserved c \<longleftrightarrow>
     in_range 0x61 0x7A c \<or> in_range 0x41 0x5A c \<or> in_range 0x30 0x39 c \<or> c \<in> set ''-_.~''"

definition keeps_userinfo :: "char \<Rightarrow> bool" where
  "keeps_userinfo c \<longleftrightarrow> unreserved c \<or> c \<in> set ''$&+,;=''"

definition keeps_path :: "char \<Rightarrow> bool" where
  "keeps_path c \<longleftrightarrow> unreserved c \<or> c \<in> set ''$&+,/:;=@''"

definition keeps_host :: "char \<Rightarrow> bool" where
  "keeps_host c \<longleftrightarrow> unreserved c \<or> c \<in> set ''!$&()*+,;=:[]<>'' \<or> c = CHR 0x27 \<or> c = CHR 0x22"

definition percent :: "char \<Rightarrow> string" where
  "percent c = [CHR ''%'', upperhex ! (byte c div 16), upperhex ! (byte c mod 16)]"

definition url_escape :: "(char \<Rightarrow> bool) \<Rightarrow> string \<Rightarrow> string" where
  "url_escape keeps s = concat (map (\<lambda>c. if keeps c then [c] else percent c) s)"

definition QueryEscape :: "string \<Rightarrow> string" where
  "QueryEscape s =
     concat (map (\<lambda>c. if unreserved c then [c] else if c = CHR '' '' then ''+'' else percent c) s)"

definition unhex :: "char \<Rightarrow> nat option" where
  "unhex c =
     (if in_range 0x30 0x39 c then Some (byte c - 0x30)
      else if in_range 0x61 0x66 c then Some (byte c - 0x61 + 10)
      else if in_range 0x41 0x46 c then Some (byte c - 0x41 + 10)
      else None)"

fun url_unescape :: "bool \<Rightarrow> string \<Rightarrow> string option" where
  \<comment> \<open>in a query a plus is a space\<close>
  "url_unescape query [] = Some []"
| "url_unescape query (c # cs) =
     (if c = CHR ''%'' then
        (case cs of
           a # b # r \<Rightarrow>
             (case (unhex a, unhex b) of
                (Some h, Some l) \<Rightarrow> map_option ((#) (char_of (16 * h + l))) (url_unescape query r)
              | _ \<Rightarrow> None)
         | _ \<Rightarrow> None)
      else map_option ((#) (if query \<and> c = CHR ''+'' then CHR '' '' else c)) (url_unescape query cs))"

section \<open>The connection string\<close>

definition BuildDSN :: "db_config \<Rightarrow> string" where
  "BuildDSN cfg =
     ''postgres://'' @ url_escape keeps_userinfo (dc_User cfg) @ '':'' @
     url_escape keeps_userinfo (Reveal (dc_Password cfg)) @ ''@'' @
     url_escape keeps_host (JoinHostPort (dc_Host cfg) (Itoa (dc_Port cfg))) @
     url_escape keeps_path (''/'' @ dc_Name cfg) @
     ''?application_name=kopiochi&sslmode='' @ QueryEscape (dc_SSLMode cfg)"

text \<open>
  How \<open>url.Parse\<close>, which reads the string back, takes a URL of the scheme apart and unescapes the
  parts. Its checks of the host can only refuse a URL and are apart from this: \<open>url_host_ok\<close> is the one
  on brackets and port; that a bracketed host is an IPv6 address is not looked at.
\<close>

record dsn_parts =
  du_User :: string
  du_Password :: string
  du_Host :: string
  du_Path :: string
  du_RawQuery :: string

definition cut_at :: "char \<Rightarrow> string \<Rightarrow> string \<times> string" where
  "cut_at c s = (takeWhile (\<lambda>x. x \<noteq> c) s, tl (dropWhile (\<lambda>x. x \<noteq> c) s))"

definition valid_userinfo :: "char \<Rightarrow> bool" where
  "valid_userinfo c \<longleftrightarrow> unreserved c \<or> c \<in> set '':!$&()*+,;=%@'' \<or> c = CHR 0x27"

definition parse_dsn :: "string \<Rightarrow> dsn_parts option" where
  "parse_dsn s =
     (if \<not> has_prefix s ''postgres://'' then None
      else
        let (url, _) = cut_at (CHR ''#'') (drop (length ''postgres://'') s);
            (rest, query) = cut_at (CHR ''?'') url;
            authority = takeWhile (\<lambda>x. x \<noteq> CHR ''/'') rest;
            path = dropWhile (\<lambda>x. x \<noteq> CHR ''/'') rest;
            (hostR, userR) = cut_at (CHR ''@'') (rev authority);
            (user, password) = cut_at (CHR '':'') (rev userR) in
        if \<not> list_all valid_userinfo userR then None
        else case (url_unescape False user, url_unescape False password, url_unescape False path) of
          (Some u, Some p, Some q) \<Rightarrow>
            Some \<lparr>du_User = u, du_Password = p, du_Host = rev hostR, du_Path = q, du_RawQuery = query\<rparr>
        | _ \<Rightarrow> None)"

definition after_last :: "char \<Rightarrow> string \<Rightarrow> string" where
  "after_last c s = rev (takeWhile (\<lambda>x. x \<noteq> c) (rev s))"

definition url_host_ok :: "string \<Rightarrow> bool" where
  \<comment> \<open>a bracket is closed, and a port, if any, is made of digits\<close>
  "url_host_ok h \<longleftrightarrow>
     (if has_prefix h ''['' then
        CHR '']'' \<in> set h \<and>
        (let p = after_last (CHR '']'') h in p = [] \<or> hd p = CHR '':'' \<and> list_all is_digit (tl p))
      else CHR '':'' \<in> set h \<longrightarrow> list_all is_digit (after_last (CHR '':'') h))"

section \<open>The database handle\<close>

datatype sql_limit =
    MaxOpenConns int
  | MaxIdleConns int
  | ConnMaxLifetime duration
  | ConnMaxIdleTime duration

record 'c pool_config =
  pc_Parsed :: 'c
  pc_MaxConns :: "32 word"
  pc_MinConns :: "32 word"
  pc_MaxConnLifetime :: duration
  pc_MaxConnIdleTime :: duration
  pc_HealthCheckPeriod :: duration
  pc_ConnectTimeout :: duration

record ('w, 'c, 'p, 'q) db_pkg =
  dk_ParseConfig :: "string \<Rightarrow> goerr + 'c"
  dk_NewWithConfig :: "'c pool_config \<Rightarrow> ('w, goerr + 'p) prog"
  dk_Ping :: "'p \<Rightarrow> ('w, goerr option) prog"
  dk_ClosePool :: "'p \<Rightarrow> ('w, unit) prog"
  dk_OpenDBFromPool :: "'p \<Rightarrow> ('w, 'q) prog"
  dk_sqlOpen :: "string \<Rightarrow> ('w, goerr + 'q) prog"
  dk_Set :: "'q \<Rightarrow> sql_limit \<Rightarrow> ('w, unit) prog"
  dk_PingContext :: "'q \<Rightarrow> ('w, goerr option) prog"
  dk_CloseSQL :: "'q \<Rightarrow> ('w, goerr option) prog"

text \<open>\<open>DB\<close>; the bun handle is a view of \<open>dh_sqlDB\<close>.\<close>

record ('p, 'q) db_handle =
  dh_Pool :: "'p option"
  dh_sqlDB :: "'q option"

definition Close_db :: "('w, 'c, 'p, 'q) db_pkg \<Rightarrow> ('p, 'q) db_handle \<Rightarrow> ('w, goerr option) prog" where
  "Close_db K d =
     bindp (case dh_sqlDB d of
              None \<Rightarrow> retp None
            | Some q \<Rightarrow>
                bindp (dk_CloseSQL K q) (\<lambda>r. retp (map_option (\<lambda>cerr. Errorf ''close sql.DB: %w'' [] [cerr]) r))) (\<lambda>err.
     bindp (case dh_Pool d of None \<Rightarrow> retp () | Some p \<Rightarrow> dk_ClosePool K p) (\<lambda>_.
     retp err))"

fun set_limits :: "('w, 'c, 'p, 'q) db_pkg \<Rightarrow> 'q \<Rightarrow> sql_limit list \<Rightarrow> ('w, unit) prog" where
  "set_limits K q [] = retp ()"
| "set_limits K q (l # ls) = bindp (dk_Set K q l) (\<lambda>_. set_limits K q ls)"

definition Open_db :: "('w, 'c, 'p, 'q) db_pkg \<Rightarrow> db_config \<Rightarrow> ('w, goerr + ('p, 'q) db_handle) prog" where
  "Open_db K cfg =
     (case dk_ParseConfig K (BuildDSN cfg) of
        Inl err \<Rightarrow> retp (Inl (Errorf ''parse dsn: %w'' [] [err]))
      | Inr c \<Rightarrow>
     bindp (dk_NewWithConfig K
       \<lparr>pc_Parsed = c, pc_MaxConns = dc_MaxConns cfg, pc_MinConns = dc_MinConns cfg,
        pc_MaxConnLifetime = dc_ConnMaxLifetime cfg, pc_MaxConnIdleTime = dc_ConnMaxIdleTime cfg,
        pc_HealthCheckPeriod = dc_HealthCheckPeriod cfg, pc_ConnectTimeout = dc_ConnectTimeout cfg\<rparr>) (\<lambda>r.
     case r of
       Inl err \<Rightarrow> retp (Inl (Errorf ''create pgxpool: %w'' [] [err]))
     | Inr pool \<Rightarrow>
     bindp (dk_Ping K pool) (\<lambda>r.
     case r of
       Some err \<Rightarrow> bindp (dk_ClosePool K pool) (\<lambda>_. retp (Inl (Errorf ''ping database: %w'' [] [err])))
     | None \<Rightarrow>
     bindp (dk_OpenDBFromPool K pool) (\<lambda>sqlDB.
     bindp (set_limits K sqlDB
       [MaxOpenConns (sint (dc_MaxConns cfg)), MaxIdleConns (sint (dc_MaxConns cfg)),
        ConnMaxLifetime (dc_ConnMaxLifetime cfg), ConnMaxIdleTime (dc_ConnMaxIdleTime cfg)]) (\<lambda>_.
     retp (Inr \<lparr>dh_Pool = Some pool, dh_sqlDB = Some sqlDB\<rparr>))))))"

definition OpenSQL :: "('w, 'c, 'p, 'q) db_pkg \<Rightarrow> db_config \<Rightarrow> ('w, goerr + 'q) prog" where
  "OpenSQL K cfg =
     bindp (dk_sqlOpen K (BuildDSN cfg)) (\<lambda>r.
     case r of
       Inl err \<Rightarrow> retp (Inl (Errorf ''open database: %w'' [] [err]))
     | Inr sqlDB \<Rightarrow>
     bindp (dk_Set K sqlDB (MaxOpenConns 1)) (\<lambda>_.
     bindp (dk_PingContext K sqlDB) (\<lambda>r.
     case r of
       Some err \<Rightarrow> bindp (dk_CloseSQL K sqlDB) (\<lambda>_. retp (Inl (Errorf ''ping database: %w'' [] [err])))
     | None \<Rightarrow> retp (Inr sqlDB))))"

section \<open>The logger\<close>

datatype log_level = DebugLevel | InfoLevel | WarnLevel | ErrorLevel
datatype log_writer = ConsoleWriter | JSONWriter

definition logger_Init :: "string \<Rightarrow> string \<Rightarrow> log_level \<times> log_writer" where
  "logger_Init level format =
     ((if level = ''debug'' then DebugLevel
       else if level = ''info'' then InfoLevel
       else if level = ''warn'' then WarnLevel
       else if level = ''error'' then ErrorLevel
       else InfoLevel),
      (if format = ''console'' then ConsoleWriter else JSONWriter))"

section \<open>The pool collector\<close>

record pool_stats =
  ps_AcquiredConns :: "32 word"
  ps_IdleConns :: "32 word"
  ps_TotalConns :: "32 word"
  ps_MaxConns :: "32 word"
  ps_NewConnsCount :: "64 word"
  ps_AcquireCount :: "64 word"
  ps_EmptyAcquireCount :: "64 word"
  ps_CanceledAcquireCount :: "64 word"

datatype value_type = GaugeValue | CounterValue

definition pool_descs :: "string list" where
  \<comment> \<open>the descriptors under the namespace and \<open>db_pool\<close>, as \<open>RegisterPool\<close> builds and \<open>Describe\<close> sends them\<close>
  "pool_descs =
     [''acquired_connections'', ''idle_connections'', ''total_connections'', ''max_connections'',
      ''new_connections_total'', ''acquires_total'', ''empty_acquires_total'', ''canceled_acquires_total'']"

definition Collect :: "('w, pool_stats option) prog option \<Rightarrow> ('w, (string \<times> value_type \<times> rat) list) prog" where
  "Collect stats =
     (case stats of
        None \<Rightarrow> retp []
      | Some read \<Rightarrow>
          bindp read (\<lambda>s.
          case s of
            None \<Rightarrow> retp []
          | Some s \<Rightarrow> retp
              [(''acquired_connections'', GaugeValue, fl (of_int (sint (ps_AcquiredConns s)))),
               (''idle_connections'', GaugeValue, fl (of_int (sint (ps_IdleConns s)))),
               (''total_connections'', GaugeValue, fl (of_int (sint (ps_TotalConns s)))),
               (''max_connections'', GaugeValue, fl (of_int (sint (ps_MaxConns s)))),
               (''new_connections_total'', CounterValue, fl (of_int (sint (ps_NewConnsCount s)))),
               (''acquires_total'', CounterValue, fl (of_int (sint (ps_AcquireCount s)))),
               (''empty_acquires_total'', CounterValue, fl (of_int (sint (ps_EmptyAcquireCount s)))),
               (''canceled_acquires_total'', CounterValue, fl (of_int (sint (ps_CanceledAcquireCount s))))]))"

section \<open>The health check\<close>

record 'w probe_env =
  pe_Load :: "string \<Rightarrow> ('w, goerr + app_config) prog"
  pe_NewRequest :: "string \<Rightarrow> goerr option"
  pe_Do :: "string \<Rightarrow> ('w, goerr + nat) prog"
  pe_CloseBody :: "('w, unit) prog"

definition healthcheck :: "'w probe_env \<Rightarrow> string \<Rightarrow> ('w, goerr option) prog" where
  \<comment> \<open>\<open>pe_Do\<close> sends the GET within the three seconds of the probe and answers its status\<close>
  "healthcheck E cfgPath =
     bindp (pe_Load E cfgPath) (\<lambda>r.
     case r of
       Inl err \<Rightarrow> retp (Some (Errorf ''load config: %w'' [] [err]))
     | Inr cfg \<Rightarrow>
     (let addr = JoinHostPort ''127.0.0.1'' (Itoa (sv_Port (cf_Server cfg)));
          url = ''http://'' @ addr @ ''/healthz'' in
      case pe_NewRequest E url of
        Some err \<Rightarrow> retp (Some (Errorf ''build request: %w'' [] [err]))
      | None \<Rightarrow>
     bindp (pe_Do E url) (\<lambda>r.
     case r of
       Inl err \<Rightarrow> retp (Some (Errorf ''probe %s: %w'' [OStr url] [err]))
     | Inr status \<Rightarrow>
         deferp
           (retp (if status \<noteq> 200 then Some (Errorf ''probe %s: status %d'' [OStr url, OInt (int status)] []) else None))
           (pe_CloseBody E))))"

section \<open>The migration commands\<close>

record ('w, 'c, 'p, 'q) migrate_env =
  mg_Load :: "string \<Rightarrow> ('w, goerr + app_config) prog"
  mg_Init :: "log_level \<times> log_writer \<Rightarrow> ('w, unit) prog"
  mg_db :: "('w, 'c, 'p, 'q) db_pkg"
  mg_Up :: "'q \<Rightarrow> string \<Rightarrow> ('w, goerr option) prog"
  mg_Down :: "'q \<Rightarrow> string \<Rightarrow> ('w, goerr option) prog"
  mg_Status :: "'q \<Rightarrow> string \<Rightarrow> ('w, goerr option) prog"
  mg_Reset :: "'q \<Rightarrow> string \<Rightarrow> ('w, goerr option) prog"
  mg_Create :: "string \<Rightarrow> string \<Rightarrow> string \<Rightarrow> ('w, goerr option) prog"
  mg_Println :: "string \<Rightarrow> ('w, unit) prog"

definition with_database ::
  "('w, 'c, 'p, 'q) migrate_env \<Rightarrow> string \<Rightarrow> ('q \<Rightarrow> ('w, goerr option) prog) \<Rightarrow> ('w, goerr option) prog" where
  \<comment> \<open>the steps the four commands on a database share\<close>
  "with_database M cfgPath body =
     bindp (mg_Load M cfgPath) (\<lambda>r.
     case r of
       Inl err \<Rightarrow> retp (Some (Errorf ''load config: %w'' [] [err]))
     | Inr cfg \<Rightarrow>
     bindp (mg_Init M (logger_Init (lc_Level (cf_Log cfg)) (lc_Format (cf_Log cfg)))) (\<lambda>_.
     bindp (OpenSQL (mg_db M) (cf_DB cfg)) (\<lambda>r.
     case r of
       Inl err \<Rightarrow> retp (Some (Errorf ''open database: %w'' [] [err]))
     | Inr database \<Rightarrow>
         deferp (body database) (bindp (dk_CloseSQL (mg_db M) database) (\<lambda>_. retp ())))))"

definition reported :: "('w, 'c, 'p, 'q) migrate_env \<Rightarrow> string \<Rightarrow> string \<Rightarrow> ('w, goerr option) prog \<Rightarrow> ('w, goerr option) prog" where
  "reported M fmt done step =
     bindp step (\<lambda>r.
     case r of
       Some err \<Rightarrow> retp (Some (Errorf fmt [] [err]))
     | None \<Rightarrow> bindp (if done = [] then retp () else mg_Println M done) (\<lambda>_. retp None))"

definition check_mark :: string where
  "check_mark = [CHR 0xE2, CHR 0x9C, CHR 0x93, CHR '' '']"

definition migrate_up :: "('w, 'c, 'p, 'q) migrate_env \<Rightarrow> string \<Rightarrow> string \<Rightarrow> ('w, goerr option) prog" where
  "migrate_up M dir cfgPath = with_database M cfgPath (\<lambda>d.
     reported M ''run migrations up: %w'' (check_mark @ ''Migrations completed successfully'') (mg_Up M d dir))"

definition migrate_down :: "('w, 'c, 'p, 'q) migrate_env \<Rightarrow> string \<Rightarrow> string \<Rightarrow> ('w, goerr option) prog" where
  "migrate_down M dir cfgPath = with_database M cfgPath (\<lambda>d.
     reported M ''run migrations down: %w'' (check_mark @ ''Rollback completed successfully'') (mg_Down M d dir))"

definition migrate_status :: "('w, 'c, 'p, 'q) migrate_env \<Rightarrow> string \<Rightarrow> string \<Rightarrow> ('w, goerr option) prog" where
  "migrate_status M dir cfgPath = with_database M cfgPath (\<lambda>d.
     reported M ''get migration status: %w'' [] (mg_Status M d dir))"

definition migrate_reset :: "('w, 'c, 'p, 'q) migrate_env \<Rightarrow> string \<Rightarrow> string \<Rightarrow> ('w, goerr option) prog" where
  "migrate_reset M dir cfgPath = with_database M cfgPath (\<lambda>d.
     reported M ''reset migrations: %w'' (check_mark @ ''Reset completed successfully'') (mg_Reset M d dir))"

definition migrate_create :: "('w, 'c, 'p, 'q) migrate_env \<Rightarrow> string \<Rightarrow> string \<Rightarrow> string \<Rightarrow> ('w, goerr option) prog" where
  "migrate_create M dir name migrationType =
     reported M ''create migration: %w'' (check_mark @ ''Created migration file in '' @ dir @ ''/'')
       (mg_Create M dir name migrationType)"

section \<open>Reading the connection string back\<close>

lemma hex_digit: "n < 16 \<Longrightarrow> unhex (upperhex ! n) = Some n \<and> valid_userinfo (upperhex ! n) \<and> unreserved (upperhex ! n)"
proof -
  have "list_all (\<lambda>n. unhex (upperhex ! n) = Some n \<and> valid_userinfo (upperhex ! n) \<and> unreserved (upperhex ! n)) [0..<16]"
    by (simp add: upperhex_def unhex_def valid_userinfo_def unreserved_def in_range_def byte_def upt_rec numeral_nat)
  then show "n < 16 \<Longrightarrow> ?thesis" by (simp add: list_all_iff)
qed

lemma byte_hex: "byte c div 16 < 16" "byte c mod 16 < 16" "char_of (16 * (byte c div 16) + byte c mod 16) = c"
proof -
  have "byte c < 256" by (simp add: byte_def)
  then show "byte c div 16 < 16" "byte c mod 16 < 16" by simp_all
  show "char_of (16 * (byte c div 16) + byte c mod 16) = c" by (simp add: byte_def)
qed

lemma unescape_percent: "url_unescape q (percent c @ s) = map_option ((#) c) (url_unescape q s)"
  using byte_hex [of c] hex_digit [of "byte c div 16"] hex_digit [of "byte c mod 16"] by (simp add: percent_def)

lemma unescape_escape:
  assumes "\<And>c. keeps c \<Longrightarrow> c \<noteq> CHR ''%''"
  shows "url_unescape False (url_escape keeps s) = Some s"
proof (induction s)
  case (Cons c s)
  then show ?case using assms [of c] unescape_percent [of False c] by (simp add: url_escape_def)
qed (simp add: url_escape_def)

lemma unreserved_marks: "c \<in> set ''#?/@:%+ '' \<Longrightarrow> \<not> unreserved c"
  by (auto simp: unreserved_def in_range_def byte_def)

lemma QueryUnescape_Escape: "url_unescape True (QueryEscape s) = Some s"
proof (induction s)
  case (Cons c s)
  then show ?case
    using unreserved_marks [of c] unescape_percent [of True c] by (auto simp: QueryEscape_def)
qed (simp add: QueryEscape_def)

lemma percent_set: "x \<in> set (percent c) \<Longrightarrow> x = CHR ''%'' \<or> unreserved x"
  using byte_hex [of c] hex_digit [of "byte c div 16"] hex_digit [of "byte c mod 16"] by (auto simp: percent_def)

lemma escape_set: "x \<in> set (url_escape keeps s) \<Longrightarrow> keeps x \<or> x = CHR ''%'' \<or> unreserved x"
  using percent_set by (fastforce simp: url_escape_def split: if_splits)

lemma escape_id: "list_all keeps s \<Longrightarrow> url_escape keeps s = s"
  by (induction s) (auto simp: url_escape_def)

lemma Itoa_keeps: "list_all keeps_host (Itoa n)"
proof -
  have "list_all keeps_host (decimal k)" for k
    using decimal_digits [of k] by (auto simp: list_all_iff keeps_host_def unreserved_def in_range_def byte_def is_digit_def)
  moreover have "keeps_host (CHR ''-'')" by (simp add: keeps_host_def unreserved_def)
  ultimately show ?thesis by (simp add: Itoa_def)
qed

lemma hostport_keeps: "list_all keeps_host h \<Longrightarrow> list_all keeps_host (JoinHostPort h (Itoa n))"
  using Itoa_keeps [of n] by (auto simp: JoinHostPort_def keeps_host_def)

lemma after_last_found: "c \<notin> set b \<Longrightarrow> after_last c (a @ c # b) = b"
  by (subst after_last_def, simp, subst takeWhile_append2) auto

lemma Itoa_digits: "0 \<le> n \<Longrightarrow> list_all is_digit (Itoa n)"
  using decimal_digits [of "nat n"] by (simp add: Itoa_def list_all_iff is_digit_def)

text \<open>\<open>net.JoinHostPort\<close> with a port that is not negative makes a host the parser takes.\<close>

lemma JoinHostPort_ok:
  assumes "0 \<le> n" and "CHR ''['' \<notin> set h"
  shows "url_host_ok (JoinHostPort h (Itoa n))"
proof -
  have d: "list_all is_digit (Itoa n)" by (rule Itoa_digits [OF assms(1)])
  then have no: "CHR '':'' \<notin> set (Itoa n)" "CHR '']'' \<notin> set (Itoa n)"
    by (auto simp: list_all_iff is_digit_def)
  show ?thesis
  proof (cases "CHR '':'' \<in> set h")
    case True
    then have j: "JoinHostPort h (Itoa n) = (CHR ''['' # h) @ CHR '']'' # (CHR '':'' # Itoa n)"
      by (simp add: JoinHostPort_def)
    have "after_last (CHR '']'') (JoinHostPort h (Itoa n)) = CHR '':'' # Itoa n"
      unfolding j using no(2) by (intro after_last_found) simp
    with d show ?thesis by (simp add: url_host_ok_def j has_prefix_def)
  next
    case False
    then have j: "JoinHostPort h (Itoa n) = h @ CHR '':'' # Itoa n" by (simp add: JoinHostPort_def)
    have "after_last (CHR '':'') (JoinHostPort h (Itoa n)) = Itoa n"
      unfolding j by (rule after_last_found [OF no(1)])
    moreover have "\<not> has_prefix (JoinHostPort h (Itoa n)) ''[''"
      unfolding j using assms(2) by (cases h) (auto simp: has_prefix_def)
    ultimately show ?thesis using d by (simp add: url_host_ok_def)
  qed
qed

lemma cut_at_found: "c \<notin> set a \<Longrightarrow> cut_at c (a @ c # b) = (a, b)"
proof -
  assume "c \<notin> set a"
  then have "takeWhile (\<lambda>x. x \<noteq> c) (a @ c # b) = a" "dropWhile (\<lambda>x. x \<noteq> c) (a @ c # b) = c # b"
    by (induction a) auto
  then show ?thesis by (simp add: cut_at_def)
qed

lemma cut_at_absent: "c \<notin> set a \<Longrightarrow> fst (cut_at c a) = a"
  by (induction a) (auto simp: cut_at_def)

lemma upto_slash: "c \<notin> set a \<Longrightarrow> takeWhile (\<lambda>x. x \<noteq> c) (a @ c # b) = a \<and> dropWhile (\<lambda>x. x \<noteq> c) (a @ c # b) = c # b"
  by (induction a) auto

lemma kept_marks:
  "keeps_userinfo c \<Longrightarrow> c \<notin> set ''@/?#:%''" "keeps_host c \<Longrightarrow> c \<notin> set ''@/?#%''" "keeps_path c \<Longrightarrow> c \<notin> set ''?#%''"
  using unreserved_marks [of c] by (auto simp: keeps_userinfo_def keeps_host_def keeps_path_def)

lemma escaped_userinfo:
  "c \<in> set ''@/?#:'' \<Longrightarrow> c \<notin> set (url_escape keeps_userinfo s)"
  "list_all valid_userinfo (url_escape keeps_userinfo s)"
proof -
  show "c \<in> set ''@/?#:'' \<Longrightarrow> c \<notin> set (url_escape keeps_userinfo s)"
    using escape_set [of c keeps_userinfo s] kept_marks(1) [of c] unreserved_marks [of c] by auto
  have "valid_userinfo x" if "keeps_userinfo x \<or> x = CHR ''%'' \<or> unreserved x" for x
    using that by (auto simp: valid_userinfo_def keeps_userinfo_def)
  with escape_set [of _ keeps_userinfo s] show "list_all valid_userinfo (url_escape keeps_userinfo s)"
    unfolding list_all_iff by blast
qed

lemma escaped_path: "c \<in> set ''?#'' \<Longrightarrow> c \<notin> set (url_escape keeps_path s)"
  using escape_set [of c keeps_path s] kept_marks(3) [of c] unreserved_marks [of c] by auto

lemma query_no_hash: "CHR ''#'' \<notin> set (QueryEscape s)"
  using percent_set [of "CHR ''#''"] unreserved_marks [of "CHR ''#''"] by (auto simp: QueryEscape_def split: if_splits)

lemma parse_assembled:
  assumes "\<And>c. c \<in> set ''@/?#:'' \<Longrightarrow> c \<notin> set u \<and> c \<notin> set p" and "list_all valid_userinfo u" "list_all valid_userinfo p"
    and "\<And>c. c \<in> set ''@/?#'' \<Longrightarrow> c \<notin> set h" and "CHR ''?'' \<notin> set q" "CHR ''#'' \<notin> set q" "CHR ''#'' \<notin> set r"
  shows "parse_dsn (''postgres://'' @ u @ '':'' @ p @ ''@'' @ h @ CHR ''/'' # q @ CHR ''?'' # r) =
    (case (url_unescape False u, url_unescape False p, url_unescape False (CHR ''/'' # q)) of
       (Some u, Some p, Some q) \<Rightarrow>
         Some \<lparr>du_User = u, du_Password = p, du_Host = h, du_Path = q, du_RawQuery = r\<rparr>
     | _ \<Rightarrow> None)"
proof -
  let ?a = "u @ CHR '':'' # p @ CHR ''@'' # h"
  have hash: "fst (cut_at (CHR ''#'') (?a @ CHR ''/'' # q @ CHR ''?'' # r)) = ?a @ CHR ''/'' # q @ CHR ''?'' # r"
    by (rule cut_at_absent) (use assms(1,4,6,7) in auto)
  have quest: "cut_at (CHR ''?'') (?a @ CHR ''/'' # q @ CHR ''?'' # r) = (?a @ CHR ''/'' # q, r)"
    using cut_at_found [of "CHR ''?''" "?a @ CHR ''/'' # q" r] assms(1,4,5) by auto
  have slash: "takeWhile (\<lambda>x. x \<noteq> CHR ''/'') (?a @ CHR ''/'' # q) = ?a"
    "dropWhile (\<lambda>x. x \<noteq> CHR ''/'') (?a @ CHR ''/'' # q) = CHR ''/'' # q"
    using upto_slash [of "CHR ''/''" ?a q] assms(1,4) by auto
  have at_sign: "cut_at (CHR ''@'') (rev ?a) = (rev h, rev (u @ CHR '':'' # p))"
    using cut_at_found [of "CHR ''@''" "rev h" "rev (u @ CHR '':'' # p)"] assms(4) by simp
  have colon: "cut_at (CHR '':'') (u @ CHR '':'' # p) = (u, p)"
    by (rule cut_at_found) (use assms(1) in auto)
  have valid: "list_all valid_userinfo (rev (u @ CHR '':'' # p))"
    using assms(2,3) by (auto simp: valid_userinfo_def)
  have start: "has_prefix (''postgres://'' @ s) ''postgres://'' = True" "drop (length ''postgres://'') (''postgres://'' @ s) = s" for s
    by (simp_all add: has_prefix_def)
  have assembled: "''postgres://'' @ u @ '':'' @ p @ ''@'' @ h @ CHR ''/'' # q @ CHR ''?'' # r =
      ''postgres://'' @ (?a @ CHR ''/'' # q @ CHR ''?'' # r)" by simp
  obtain z where z: "cut_at (CHR ''#'') (?a @ CHR ''/'' # q @ CHR ''?'' # r) = (?a @ CHR ''/'' # q @ CHR ''?'' # r, z)"
    using hash by (metis prod.collapse)
  show ?thesis
    unfolding assembled parse_dsn_def start not_True_eq_False if_False z Let_def prod.case quest slash at_sign rev_rev_ident colon
    using valid by simp
qed

section \<open>Handles are released\<close>

definition sql_pkg_ok :: "('w, 'c, 'p, 'q) db_pkg \<Rightarrow> ('w \<Rightarrow> 'q set) \<Rightarrow> bool" where
  \<comment> \<open>what \<open>database/sql\<close> documents: opening adds a handle, closing removes it, nothing else does either\<close>
  "sql_pkg_ok K handles \<longleftrightarrow>
     (\<forall>dsn w. \<exists>r w'. dk_sqlOpen K dsn w = (Ret r, w') \<and>
        (case r of Inl _ \<Rightarrow> handles w' = handles w | Inr q \<Rightarrow> q \<notin> handles w \<and> handles w' = insert q (handles w))) \<and>
     (\<forall>q l w. \<exists>w'. dk_Set K q l w = (Ret (), w') \<and> handles w' = handles w) \<and>
     (\<forall>q w. \<exists>r w'. dk_PingContext K q w = (Ret r, w') \<and> handles w' = handles w) \<and>
     (\<forall>q w. \<exists>r w'. dk_CloseSQL K q w = (Ret r, w') \<and> handles w' = handles w - {q})"

lemma OpenSQL_handles:
  assumes "sql_pkg_ok K handles"
  shows "\<exists>r w'. OpenSQL K cfg w = (Ret r, w') \<and>
    (case r of Inl _ \<Rightarrow> handles w' = handles w | Inr q \<Rightarrow> q \<notin> handles w \<and> handles w' = insert q (handles w))"
proof -
  obtain r w1 where o1: "dk_sqlOpen K (BuildDSN cfg) w = (Ret r, w1)"
    "case r of Inl _ \<Rightarrow> handles w1 = handles w | Inr q \<Rightarrow> q \<notin> handles w \<and> handles w1 = insert q (handles w)"
    using assms unfolding sql_pkg_ok_def by meson
  show ?thesis
  proof (cases r)
    case (Inl e)
    with o1 show ?thesis by (simp add: OpenSQL_def bindp_def)
  next
    case (Inr q)
    obtain w2 where w2: "dk_Set K q (MaxOpenConns 1) w1 = (Ret (), w2)" "handles w2 = handles w1"
      using assms unfolding sql_pkg_ok_def by meson
    obtain p w3 where w3: "dk_PingContext K q w2 = (Ret p, w3)" "handles w3 = handles w2"
      using assms unfolding sql_pkg_ok_def by meson
    obtain c w4 where w4: "dk_CloseSQL K q w3 = (Ret c, w4)" "handles w4 = handles w3 - {q}"
      using assms unfolding sql_pkg_ok_def by meson
    show ?thesis
      using o1 Inr w2 w3 w4 by (cases p) (auto simp: OpenSQL_def bindp_def)
  qed
qed

lemma with_database_closes:
  assumes "sql_pkg_ok (mg_db M) handles"
    and "\<And>p w r w'. mg_Load M p w = (r, w') \<Longrightarrow> handles w' = handles w"
    and "\<And>l w. \<exists>w'. mg_Init M l w = (Ret (), w') \<and> handles w' = handles w"
    and "\<And>d w r w'. body d w = (r, w') \<Longrightarrow> handles w' = handles w"
    and "with_database M cfgPath body w = (r, w')"
  shows "handles w' = handles w"
proof -
  obtain l w1 where w1: "mg_Load M cfgPath w = (l, w1)" "handles w1 = handles w" using assms(2) by (metis surj_pair)
  show ?thesis
  proof (cases "\<exists>cfg. l = Ret (Inr cfg)")
    case False
    with w1 assms(5) show ?thesis by (cases l) (auto simp: with_database_def bindp_def split: sum.splits)
  next
    case True
    then obtain cfg where cfg: "l = Ret (Inr cfg)" by blast
    obtain w2 where w2: "mg_Init M (logger_Init (lc_Level (cf_Log cfg)) (lc_Format (cf_Log cfg))) w1 = (Ret (), w2)"
      "handles w2 = handles w1" using assms(3) by blast
    obtain o3 w3 where w3: "OpenSQL (mg_db M) (cf_DB cfg) w2 = (Ret o3, w3)"
      "case o3 of Inl _ \<Rightarrow> handles w3 = handles w2 | Inr q \<Rightarrow> q \<notin> handles w2 \<and> handles w3 = insert q (handles w2)"
      using OpenSQL_handles [OF assms(1)] by blast
    show ?thesis
    proof (cases o3)
      case (Inl e)
      with assms(5) w1 w2 w3 cfg show ?thesis by (simp add: with_database_def bindp_def)
    next
      case (Inr q)
      obtain b w4 where w4: "body q w3 = (b, w4)" "handles w4 = handles w3" using assms(4) by (metis surj_pair)
      obtain c w5 where w5: "dk_CloseSQL (mg_db M) q w4 = (Ret c, w5)" "handles w5 = handles w4 - {q}"
        using assms(1) unfolding sql_pkg_ok_def by meson
      show ?thesis
        using assms(5) w1 w2 w3 cfg Inr w4 w5 by (auto simp: with_database_def bindp_def deferp_def)
    qed
  qed
qed

section \<open>The probe and the collector\<close>

lemma healthcheck_ok:
  assumes "\<And>w. \<exists>w'. pe_CloseBody E w = (Ret (), w')"
    and "pe_Load E path w = (Ret (Inr cfg), w1)"
    and "url = ''http://127.0.0.1:'' @ Itoa (sv_Port (cf_Server cfg)) @ ''/healthz''"
  shows "(\<exists>w'. healthcheck E path w = (Ret None, w')) \<longleftrightarrow>
    pe_NewRequest E url = None \<and> (\<exists>w2. pe_Do E url w1 = (Ret (Inr 200), w2))"
proof -
  have addr: "''http://'' @ JoinHostPort ''127.0.0.1'' (Itoa (sv_Port (cf_Server cfg))) @ ''/healthz'' = url"
    using assms(3) by (simp add: JoinHostPort_def)
  have closed: "\<exists>w'. deferp (retp x) (pe_CloseBody E) w = (Ret x, w')" for w and x :: "goerr option"
    using assms(1) [of w] by (auto simp: deferp_def)
  show ?thesis
    unfolding healthcheck_def bindp_def [of "pe_Load E path"] assms(2) outcome.case prod.case sum.case Let_def append_assoc addr
    using closed by (auto simp: bindp_def split: option.splits outcome.splits prod.splits sum.splits) (metis closed option.distinct(1) outcome.inject(1) prod.inject)+
qed

lemma collects_what_it_describes:
  "Collect (Some (retp (Some s))) w = (Ret ms, w') \<Longrightarrow> map fst ms = pool_descs"
  "Collect None w = (Ret [], w)" "Collect (Some (retp None)) w = (Ret [], w)"
  by (auto simp: Collect_def pool_descs_def)

section \<open>Properties\<close>

text \<open>
  C37. The connection string carries every credential: whatever bytes the user, the password and the
  database name are made of, taking the URL apart yields exactly these values and the configured
  host and port, and the query the escaped SSL mode. The host and port pass \<open>url.Parse\<close>'s check of
  brackets and port unless the port is negative or the configured host has a bracket of its own.
\<close>

theorem dsn_round_trip:
  assumes "list_all keeps_host (dc_Host cfg)"
  shows "parse_dsn (BuildDSN cfg) =
      Some \<lparr>du_User = dc_User cfg, du_Password = Reveal (dc_Password cfg),
        du_Host = JoinHostPort (dc_Host cfg) (Itoa (dc_Port cfg)), du_Path = ''/'' @ dc_Name cfg,
        du_RawQuery = ''application_name=kopiochi&sslmode='' @ QueryEscape (dc_SSLMode cfg)\<rparr> \<and>
    url_unescape True (QueryEscape (dc_SSLMode cfg)) = Some (dc_SSLMode cfg) \<and>
    (0 \<le> dc_Port cfg \<and> CHR ''['' \<notin> set (dc_Host cfg) \<longrightarrow>
      url_host_ok (JoinHostPort (dc_Host cfg) (Itoa (dc_Port cfg))))"
proof -
  let ?h = "JoinHostPort (dc_Host cfg) (Itoa (dc_Port cfg))" and ?q = "url_escape keeps_path (dc_Name cfg)"
  let ?r = "''application_name=kopiochi&sslmode='' @ QueryEscape (dc_SSLMode cfg)"
  have keep: "list_all keeps_host ?h" by (rule hostport_keeps [OF assms])
  have path: "url_escape keeps_path (''/'' @ dc_Name cfg) = CHR ''/'' # ?q"
    by (simp add: url_escape_def keeps_path_def)
  have dsn: "BuildDSN cfg = ''postgres://'' @ url_escape keeps_userinfo (dc_User cfg) @ '':'' @
      url_escape keeps_userinfo (Reveal (dc_Password cfg)) @ ''@'' @ ?h @ CHR ''/'' # ?q @ CHR ''?'' # ?r"
    unfolding BuildDSN_def path escape_id [OF keep] by simp
  have no_percent: "keeps_userinfo c \<Longrightarrow> c \<noteq> CHR ''%''" "keeps_path c \<Longrightarrow> c \<noteq> CHR ''%''" for c
    using kept_marks(1,3) [of c] by auto
  have "url_unescape False (CHR ''/'' # ?q) = Some (''/'' @ dc_Name cfg)"
    using unescape_escape [of keeps_path "dc_Name cfg"] no_percent(2) by simp
  moreover have "url_unescape False (url_escape keeps_userinfo s) = Some s" for s
    by (rule unescape_escape) (rule no_percent(1))
  moreover have "parse_dsn (BuildDSN cfg) =
      (case (url_unescape False (url_escape keeps_userinfo (dc_User cfg)),
             url_unescape False (url_escape keeps_userinfo (Reveal (dc_Password cfg))), url_unescape False (CHR ''/'' # ?q)) of
         (Some u, Some p, Some q) \<Rightarrow> Some \<lparr>du_User = u, du_Password = p, du_Host = ?h, du_Path = q, du_RawQuery = ?r\<rparr>
       | _ \<Rightarrow> None)"
    unfolding dsn
  proof (rule parse_assembled)
    show "c \<in> set ''@/?#'' \<Longrightarrow> c \<notin> set ?h" for c using keep kept_marks(2) [of c] by (auto simp: list_all_iff)
  qed (use escaped_userinfo escaped_path query_no_hash in auto)
  ultimately show ?thesis using QueryUnescape_Escape JoinHostPort_ok by simp
qed

definition demo_db_config :: db_config where
  "demo_db_config =
     \<lparr>dc_Host = ''db'', dc_Port = 5432, dc_User = ''a@b'', dc_Password = Secret ''p/s?#%'', dc_Name = ''k'',
      dc_SSLMode = ''disable'', dc_MaxConns = 10, dc_MinConns = 1, dc_ConnMaxLifetime = 0,
      dc_ConnMaxIdleTime = 0, dc_HealthCheckPeriod = 0, dc_ConnectTimeout = 0, dc_StartupTimeout = 0\<rparr>"

theorem dsn_round_trip_witness:
  "map_option du_Password (parse_dsn (BuildDSN demo_db_config)) = Some ''p/s?#%'' \<and>
   url_host_ok (JoinHostPort ''db'' (Itoa 5432))"
proof -
  have "list_all keeps_host (dc_Host demo_db_config)"
    by (simp add: demo_db_config_def keeps_host_def unreserved_def in_range_def byte_def)
  from dsn_round_trip [OF this] show ?thesis by (simp add: demo_db_config_def)
qed
end
