(* ===== verification/Spec2Isabelle.thy ===== *)
theory Spec2Isabelle
  imports IdentityProps AppProps CoverageGate Platform
begin

text \<open>
  Kopiochi: a Go HTTP service with an identity module (accounts, JWT access tokens, rotating refresh
  tokens, TOTP), a user module (profiles), a notification module (a transactional outbox drained by a
  background dispatcher) and the platform under them (configuration, router, CORS, rate limiter,
  database helpers, process lifecycle). This library is a shallow embedding of the program: a Go
  function is a HOL function with the function's name, a struct is a record, an \<open>error\<close> is
  \<open>goerr option\<close>, a function that fails returns a sum, and code with effects is a \<open>'w prog\<close>, a
  function from the world \<open>'w\<close> to an outcome (a value or a panic) and the next world. Names that
  clash with HOL carry a suffix or a prefix.

  The program's parts, how they interact, and the theories that model them:

  \<^item> Shared ground. \<open>Prelude\<close>: times, durations (64-bit words), uuids, the error values with
    \<open>errors.Is\<close>, \<open>errors.As\<close> and \<open>errors.Join\<close>, the program monad with panic and recover.
    \<open>GoFloat\<close>, \<open>GoSeconds\<close>, \<open>GoReal\<close>: the float64 operations the code uses, on dyadic rationals,
    rounded to 53 bits, ties to even. \<open>GoUtf8\<close>, \<open>GoStrings\<close>, \<open>GoBase64\<close>, \<open>Sha256\<close>, \<open>GoTime\<close>:
    the parts of \<open>unicode/utf8\<close>, \<open>strings\<close>, \<open>strconv\<close>, \<open>encoding/base64\<close>, \<open>crypto/sha256\<close> and
    \<open>time\<close> that decide what the program stores or compares.

  \<^item> \<open>internal/db\<close>. \<open>Db\<close>: \<open>Translate\<close>, \<open>IsRetryable\<close> (errors.go) and \<open>InTx\<close> (tx.go)
    over any driver, whose documented behaviour is the hypotheses \<open>begin_ok\<close> and \<open>tx_ok\<close>. \<open>Sql\<close>: what a statement may meet that its text does not determine (\<open>stmt_env\<close>: a driver error, the order
    of rows, the locks others hold, drawn ids).

  \<^item> \<open>modules/notification\<close>. \<open>Backoff\<close>, \<open>Notification\<close>, \<open>Preference\<close>: domain/ (retry schedule,
    the entity and its transitions, the preferences). \<open>Repository\<close>: domain/repository.go, the ports
    as records of operations, and their contracts as the locales \<open>outbox_port\<close>, \<open>enqueue_port\<close> and
    \<open>preference_port\<close>. \<open>Outbox\<close>: infrastructure/persistence, rows and SQL over lists of rows; it
    interprets the three locales. \<open>Service\<close>, \<open>Dispatch\<close>: application/service.go and dispatch.go over
    abstract ports (locale \<open>service_ports\<close>). \<open>Dispatcher\<close>: infrastructure/dispatcher, the drain and the
    sweep as programs, the goroutines of \<open>Start\<close> and \<open>Stop\<close>, their \<open>select\<close> and the drain loop batch by batch,
    as the step relation \<open>lifecycle_step\<close>.
    \<open>NotificationModule\<close> puts service and store together and interprets \<open>service_ports\<close>.
    \<open>NotificationHttp\<close>: transport/. \<open>Renderer\<close>: infrastructure/template. \<open>Mail\<close>, \<open>Smtp\<close>:
    infrastructure/sender. \<open>NotificationNew\<close>: config.go, module.go, enqueuer.go.

  \<^item> \<open>modules/identity\<close>. \<open>Identity\<close>: domain/. \<open>TokenFamily\<close>: what rotation with reuse detection
    promises, stated over the list of all refresh tokens, and the locale \<open>token_store\<close>. \<open>Auth\<close>:
    application/, one definition per use case; \<open>AuthContract\<close>: every use case changes the tokens only by
    moves of the protocol. \<open>IdentityStore\<close>, \<open>UserStore\<close>: infrastructure/persistence; they interpret
    \<open>token_store\<close> and refine the users table to a map; a rotation runs in \<open>InTx\<close> on a connection
    that satisfies \<open>begin_ok\<close> and \<open>tx_ok\<close>, and its commit may take effect and still report an error. \<open>IdentityModule\<close>: the service over the tables.
    \<open>Token\<close>: infrastructure/token (issue, validate, key rotation, JWKS). \<open>AuthHttp\<close>: transport/.
    \<open>AuditLog\<close>: infrastructure/auditlog and \<open>internal/audit\<close>. \<open>IdentityNew\<close>: module.go.

  \<^item> \<open>modules/user\<close>: \<open>Profile\<close>, all its layers.

  \<^item> The HTTP edge, \<open>internal/httpx\<close> and \<open>internal/middleware\<close>. \<open>Http\<close>: requests, the response
    writer, problems, headers, recovery, probes. \<open>ClientIP\<close>, \<open>RateLimit\<close>, \<open>Cors\<close>: one file each.
    \<open>Router\<close>: \<open>NewRouter\<close> with the whole middleware chain, the request log and the metrics
    middleware. \<open>Config\<close>: \<open>internal/config\<close> and \<open>internal/platform/secret\<close>.

  \<^item> The process, \<open>cmd/api\<close>. \<open>Lifecycle\<close>: \<open>internal/lifecycle\<close>, the servers, \<open>Mount\<close> and \<open>serve\<close>.
    \<open>AppStore\<close>: one database for the three modules; a repository works on its part of it, and the
    locale \<open>zoomed_service\<close> with its \<open>sublocale\<close> carries the contract of the notification service from
    the part to the whole. \<open>Container\<close>: container.go and notifier_adapter.go, up to \<open>BuildApp\<close>.

  \<^item> The tools around it. \<open>Platform\<close>: \<open>internal/db/database.go\<close> (connection string, pool, close),
    \<open>internal/logger\<close>, \<open>internal/metrics/pool.go\<close>, the \<open>healthcheck\<close> command and \<open>cmd/migrate\<close>.
    \<open>CoverageGate\<close>: \<open>tools/coverage\<close>, the policy patterns with \<open>path.Match\<close>, the profile, the floors
    and the ratchet.

  The lemmas come in groups. In each component: totality of its operations, the invariant
  they keep (\<open>row_inv\<close>, \<open>outbox_inv\<close>, \<open>token_inv\<close>, \<open>users_inv\<close>, \<open>profiles_inv\<close>, \<open>limiter_ok\<close>) and the
  behaviour of each branch. Between a port and its store: the laws of the locale, discharged by the
  interpretation. The properties are in this theory (notification and database), in \<open>IdentityProps\<close>,
  \<open>AccessProps\<close> (from an issued token to a guarded handler), \<open>EdgeProps\<close> (limiter, client address, CORS,
  panics), \<open>MailProps\<close> (rendering and SMTP), \<open>Lifecycle\<close> and \<open>AppProps\<close> (the assembled application),
  \<open>Platform\<close> and \<open>CoverageGate\<close>.
  Refinements: identity requests refine the abstract rotation protocol, the evicting rate limiter
  refines an unbounded one, the users table a map, \<open>serve\<close> a plan of what is open when it ends.
  \<open>Demo\<close>, \<open>IdentityDemo\<close> and \<open>TokenDemo\<close> hold the concrete values the properties are applied to.

  Bounds and fuel. Durations and the arithmetic of the retry schedule are 64-bit words, and
  \<open>Backoff\<close> is proved for all inputs; instants are unbounded integers of nanoseconds, as \<open>time.Time\<close>
  does not wrap in the range the program meets. A list index is a \<open>nat\<close>. The one loop whose end is not
  structural, \<open>drain\<close>, is a \<open>partial_function (option)\<close>; it is proved to return on
  every well-formed outbox, by a potential that each full batch lowers, and, whatever arrives, to
  end with the batch in hand once claiming is stopped. The loops over a
  text (\<open>TrimSpace\<close>, \<open>strings.Fields\<close>, the words of a mail header, the parser of a glob) take its length
  as fuel; every step consumes at least one byte, so they never run out.

  Parameters: what the program calls outside this repository. The engines of text/template and
  html/template, golang-jwt (with its documented soundness as the hypothesis \<open>jwt_pkg_ok\<close>), bcrypt, the
  TOTP library, viper, chi's path matching, the parsing of \<open>net\<close>, \<open>net/netip\<close>, \<open>net/mail\<close> and
  \<open>google/uuid\<close>, the SMTP connection, JSON decoding, clocks and random sources. PostgreSQL is
  modelled for the statements the repositories send: a statement is atomic, sees the rows as a list,
  and meets the environment \<open>stmt_env\<close> gives it; two processes that claim at once appear as rows locked
  by others.

  Not modelled: \<open>cmd/generator\<close> (writes Go source for a developer, and refuses to run), the architecture and
  schema tests under \<open>tools/\<close>, \<open>internal/testsupport\<close> and \<open>internal/authn/authntest\<close> (helpers of the
  tests), the Prometheus registry, the cobra command trees, the swagger UI build, and the forced exit on a
  second signal. \<open>serve\<close> takes the opening of the database as a parameter.
\<close>

section \<open>The life of a notification\<close>

text \<open>
  C1. A row created by \<open>NewNotification\<close> and changed only by claims and the entity's
  methods never rests in \<open>failed\<close>, never counts more attempts than the budget, has a
  \<open>SentAt\<close> exactly when it is sent and a reason of at most 512 bytes, and its whole
  remaining life has a bounded number of steps.
\<close>

theorem row_life:
  assumes "row_reachable M n"
  shows "n_Status n \<noteq> StatusFailed \<and> 0 \<le> n_Attempts n \<and> n_Attempts n \<le> max 1 M \<and>
    (n_SentAt n \<noteq> None \<longleftrightarrow> n_Status n = StatusSent) \<and> length (n_LastError n) \<le> 512 \<and>
    (\<forall>ns. row_run M n ns \<longrightarrow> int (length ns) \<le> 2 * (max 1 M - n_Attempts n) + 1)"
proof -
  from row_inv_reachable [OF assms] have inv: "row_inv M n" .
  then have "potential M n \<le> nat (2 * (max 1 M - n_Attempts n) + 1)"
    by (auto simp: potential_def row_inv_def)
  moreover have "n_Attempts n \<le> max 1 M" using inv by (auto simp: row_inv_def)
  ultimately have "\<forall>ns. row_run M n ns \<longrightarrow> int (length ns) \<le> 2 * (max 1 M - n_Attempts n) + 1"
    using row_run_length [OF _ inv] by fastforce
  with inv \<open>n_Attempts n \<le> max 1 M\<close> show ?thesis
    by (auto simp: row_inv_def maxLastErrorLen_def)
qed

theorem row_life_witness:
  "let claimed = demo_note\<lparr>n_Status := StatusSending\<rparr>;
       sent = claimed\<lparr>n_Status := StatusSent, n_SentAt := Some 20, n_LastError := ''''\<rparr>
   in row_run 3 demo_note [claimed, sent] \<and> int (length [claimed, sent]) \<le> 7"
proof -
  let ?claimed = "demo_note\<lparr>n_Status := StatusSending\<rparr>"
  let ?sent = "?claimed\<lparr>n_Status := StatusSent, n_SentAt := Some 20, n_LastError := ''''\<rparr>"
  have "row_step 3 demo_note ?claimed" by (rule row_step.claim) (simp add: demo_note_def)
  moreover have "row_step 3 ?claimed ?sent"
    by (rule row_step.sent [of _ 20]) (simp add: MarkSent_eq)
  ultimately have run: "row_run 3 demo_note [?claimed, ?sent]" by simp
  have "row_reachable 3 demo_note" by (rule row_reachable.fresh [OF demo_note_new])
  from row_life [OF this] run
  have "int (length [?claimed, ?sent]) \<le> 2 * (max 1 3 - n_Attempts demo_note) + 1" by blast
  with run show ?thesis by (simp add: Let_def demo_note_def)
qed

text \<open>
  Sent and dead are final: each of the four state changes refuses such a row with an
  error that wraps \<open>ErrInvalidTransition\<close>, and no step leads out of it.
\<close>

theorem terminal_rows:
  assumes "n_Status n = StatusSent \<or> n_Status n = StatusDead"
  shows "(\<exists>e. MarkSent n now = Inl e \<and> errors_Is e ErrInvalidTransition) \<and>
    (\<exists>e. MarkDead n reason = Inl e \<and> errors_Is e ErrInvalidTransition) \<and>
    (\<exists>e. RecordFailure n now d k reason = Inl e \<and> errors_Is e ErrInvalidTransition) \<and>
    (\<exists>e. RecoverStalled n now d k = Inl e \<and> errors_Is e ErrInvalidTransition) \<and>
    (\<forall>n'. \<not> row_step M n n')"
  using assms terminal_no_step [OF assms] by (auto simp: state_change_eqs)

theorem terminal_rows_witness:
  "\<not> row_step 3 (demo_note\<lparr>n_Status := StatusDead\<rparr>) demo_note \<and>
   (\<exists>e. MarkSent (demo_note\<lparr>n_Status := StatusDead\<rparr>) 20 = Inl e)"
  using terminal_rows [of "demo_note\<lparr>n_Status := StatusDead\<rparr>" 20 "''''" 0 3 3] by auto


section \<open>Dispatching\<close>

text \<open>
  C2. A dispatch cycle over the stored outbox that returns reports the number of rows it
  claimed, at most a batch, all of them pending before; it touches no other row; each
  claimed row ends as its delivery's outcome says or is left sending, and left only if the
  cycle reports an error.
\<close>

theorem dispatch_batch_settles:
  assumes "dispatch_frame store_ok entities s" and "sv_notifications s = outbox_repo"
    and "store_ok db" and "DispatchBatch s err_text db = (Ret (k, e), db')"
  shows "store_ok db' \<and> (\<exists>cs. k = int (length cs) \<and> k \<le> max 0 (dc_BatchSize (sv_cfg s)) \<and>
    distinct (map n_ID cs) \<and>
    (\<forall>c \<in> set cs. n_Status c = StatusSending \<and>
       entities db (n_ID c) = Some (c\<lparr>n_Status := StatusPending\<rparr>)) \<and>
    (\<forall>i. i \<notin> n_ID ` set cs \<longrightarrow> entities db' i = entities db i) \<and>
    (\<forall>c \<in> set cs. entities db' (n_ID c) = Some c \<or>
       (\<exists>m. row_settled s err_text c m \<and> entities db' (n_ID c) = Some m)) \<and>
    (e = None \<longrightarrow> (\<forall>c \<in> set cs. \<exists>m. row_settled s err_text c m \<and> entities db' (n_ID c) = Some m)))"
proof -
  from store.DispatchBatch_effect [OF assms] obtain cs where
    "store_ok db'" "batch_effect s err_text (entities db) (entities db') cs"
    "k = int (length cs) \<and> (e = None \<longrightarrow> all_settled s err_text (entities db') cs)" by blast
  then show ?thesis
    by (intro conjI exI [of _ cs])
      (auto simp: batch_effect_def settled_or_left_def all_settled_def)
qed

theorem dispatch_batch_settles_witness:
  "\<exists>db'. DispatchBatch demo_service (\<lambda>_. '''') demo_db = (Ret (1, None), db') \<and> store_ok db' \<and>
     (\<exists>m. row_settled demo_service (\<lambda>_. '''') (demo_note\<lparr>n_Status := StatusSending\<rparr>) m \<and>
        entities db' 1 = Some m)"
proof -
  let ?db = "snd (DispatchBatch demo_service (\<lambda>_. '''') demo_db)"
  have "fst (DispatchBatch demo_service (\<lambda>_. '''') demo_db) = Ret (1, None)" by code_simp
  then have run: "DispatchBatch demo_service (\<lambda>_. '''') demo_db = (Ret (1, None), ?db)"
    by (metis prod.collapse)
  from dispatch_batch_settles [OF demo_frame _ demo_ok run] obtain cs where
    cs: "store_ok ?db" "length cs = 1"
      "\<forall>c \<in> set cs. n_Status c = StatusSending \<and>
         entities demo_db (n_ID c) = Some (c\<lparr>n_Status := StatusPending\<rparr>)"
      "\<forall>c \<in> set cs. \<exists>m. row_settled demo_service (\<lambda>_. '''') c m \<and> entities ?db (n_ID c) = Some m"
    by auto
  from cs(2) obtain c where c: "cs = [c]" by (cases cs) auto
  have "entities demo_db i = (if i = 1 then Some demo_note else None)" for i
    by (simp add: entities_def entity_at_def demo_db_def from_to_row)
      (simp add: demo_note_def)
  with cs(3) c have "n_ID c = 1" "c\<lparr>n_Status := StatusPending\<rparr> = demo_note" "n_Status c = StatusSending"
    by (auto split: if_splits)
  then have "c = demo_note\<lparr>n_Status := StatusSending\<rparr>"
    by (metis notification.surjective notification.update_convs(7))
  with run cs(1,4) c \<open>n_ID c = 1\<close> show ?thesis by auto
qed

text \<open>
  C16. Nothing is marked sent that was not delivered: when a cycle, even one that panics,
  turns a row into a sent one, the sender registered for the row's channel returned nil on
  the message rendered from the row's template and addressed with the row's own id,
  recipient and channel.
\<close>

theorem sent_only_if_delivered:
  assumes "dispatch_frame store_ok entities s" and "sv_notifications s = outbox_repo"
    and "store_ok db" and "DispatchBatch s err_text db = (r, db')"
    and "entities db i = Some n" "n_Status n \<noteq> StatusSent"
    and "entities db' i = Some m" "n_Status m = StatusSent"
  shows "\<exists>sender msg w w1 w2. sv_senders s (n_Channel n) = Some sender \<and>
    sv_renderer s (n_TemplateKey n) (n_Channel n) (n_Payload n) w = (Ret (Inr msg), w1) \<and>
    cs_Send sender (msg\<lparr>m_NotificationID := n_ID n, m_RecipientID := n_RecipientID n,
      m_Channel := n_Channel n\<rparr>) w1 = (Ret None, w2)"
proof -
  from store.DispatchBatch_effect [OF assms(1-4)] obtain cs where
    eff: "batch_effect s err_text (entities db) (entities db') cs" by blast
  have "i \<in> n_ID ` set cs" using eff assms(5-8) by (auto simp: batch_effect_def)
  then obtain c where c: "c \<in> set cs" "n_ID c = i" by auto
  with eff assms(5) have n: "n = c\<lparr>n_Status := StatusPending\<rparr>" "n_Status c = StatusSending"
    by (auto simp: batch_effect_def)
  from eff c assms(7,8) n(2) have "row_settled s err_text c m"
    by (auto simp: batch_effect_def settled_or_left_def)
  then obtain w w' b f where run: "attemptDelivery s c w = (Ret (b, f), w')"
      "settled_as (dc_MaxAttempts (sv_cfg s)) err_text b f c m"
    by (auto simp: row_settled_def)
  from settled_as_sent [OF run(2) assms(8)] run(1)
  have "attemptDelivery s c w = (Ret (b, None), w')" by simp
  from attemptDelivery_delivered [OF this] show ?thesis by (simp add: n(1)) blast
qed

theorem sent_only_if_delivered_witness:
  "entities (snd (DispatchBatch demo_service (\<lambda>_. '''') demo_db)) 1 \<noteq> entities demo_db 1 \<and>
   (\<exists>sender. sv_senders demo_service (n_Channel demo_note) = Some sender)"
proof -
  let ?run = "DispatchBatch demo_service (\<lambda>_. '''') demo_db"
  have before: "entities demo_db 1 = Some demo_note"
    by (simp add: entities_def entity_at_def demo_db_def from_to_row) (simp add: demo_note_def)
  have pending: "n_Status demo_note \<noteq> StatusSent" by (simp add: demo_note_def)
  have "map_option n_Status (entities (snd ?run) 1) = Some StatusSent" by code_simp
  then obtain m where m: "entities (snd ?run) 1 = Some m" "n_Status m = StatusSent" by auto
  from sent_only_if_delivered
    [OF demo_frame demo_service_sel(1) demo_ok prod.collapse [symmetric] before pending m]
  have "\<exists>sender. sv_senders demo_service (n_Channel demo_note) = Some sender"
    by blast
  with before m pending show ?thesis by auto
qed

text \<open>
  C11. The drain loop ends: over a well-formed outbox, with no rows arriving and whatever the
  ports, the clock and shutdown do, calling the use case until it claims a short batch
  returns, because every cycle that goes on spends part of the bounded lives of the rows.
\<close>

theorem drain_terminates:
  assumes "dispatch_frame store_ok entities s" and "sv_notifications s = outbox_repo"
    and "store_ok db"
    and "\<forall>i n. entities db i = Some n \<longrightarrow> row_inv (dc_MaxAttempts (sv_cfg s)) n"
  shows "\<exists>r db'. drain (DispatchBatch s err_text) batchSize stopped db = Some (r, db') \<and>
    store_ok db' \<and> dom (entities db') = dom (entities db) \<and>
    (\<forall>i n. entities db' i = Some n \<longrightarrow> row_inv (dc_MaxAttempts (sv_cfg s)) n)"
proof -
  have "store_inv (dc_MaxAttempts (sv_cfg s)) (entities db)"
    using assms(4) finite_entities by (simp add: store_inv_def)
  from store.drain_ends [OF assms(1-3) this] show ?thesis unfolding store_inv_def by metis
qed

theorem drain_terminates_witness:
  "\<exists>r db'. drain (DispatchBatch demo_service (\<lambda>_. '''')) 1 (\<lambda>_. False) demo_db = Some (r, db')"
proof -
  have ent: "entities demo_db i = (if i = 1 then Some demo_note else None)" for i
    by (simp add: entities_def entity_at_def demo_db_def from_to_row) (simp add: demo_note_def)
  have "row_inv (dc_MaxAttempts (sv_cfg demo_service)) demo_note"
    by (rule row_inv_fresh [OF demo_note_new])
  then have "\<forall>i n. entities demo_db i = Some n \<longrightarrow>
      row_inv (dc_MaxAttempts (sv_cfg demo_service)) n"
    by (auto simp: ent split: if_splits)
  from drain_terminates [OF demo_frame demo_service_sel(1) demo_ok this] show ?thesis by blast
qed

section \<open>Claims and sweeps\<close>

text \<open>
  C5. Claims are exclusive: two claims in a row, with any batch sizes and clock readings and
  whatever other sessions hold locked, hand out no nil row, only rows that are sending, and
  no row twice.
\<close>

theorem claims_exclusive:
  assumes "store_ok db" and "repo_ClaimBatch k now db = (Ret (Inr ns), db1)"
    and "repo_ClaimBatch k' now' db1 = (Ret (Inr ms), db2)"
  shows "\<exists>cs ds. ns = map Some cs \<and> ms = map Some ds \<and> distinct (map n_ID (cs @ ds)) \<and>
    (\<forall>c \<in> set (cs @ ds). n_Status c = StatusSending)"
proof -
  have ok1: "store_ok db1"
    using store.claim_total [OF assms(1), of k now] assms(2) by auto
  obtain cs ds where cs: "ns = map Some cs" "claimed_from (entities db) (entities db1) k now cs"
    and ds: "ms = map Some ds" "claimed_from (entities db1) (entities db2) k' now' ds"
    using store.claim_ok [OF assms(1), of k now ns db1] store.claim_ok [OF ok1, of k' now' ms db2]
      assms(2,3) by auto
  from claims_disjoint [OF cs(2) ds(2)] cs ds show ?thesis
    by (intro exI [of _ cs] exI [of _ ds]) (auto simp: claimed_from_def)
qed

theorem claims_exclusive_witness:
  "\<exists>c. fst (repo_ClaimBatch 5 20 demo_db) = Ret (Inr [Some c]) \<and> n_Status c = StatusSending \<and>
     fst (repo_ClaimBatch 5 20 (snd (repo_ClaimBatch 5 20 demo_db))) = Ret (Inr [])"
proof -
  let ?db1 = "snd (repo_ClaimBatch 5 20 demo_db)"
  have "(case fst (repo_ClaimBatch 5 20 demo_db) of Ret (Inr ns) \<Rightarrow> length ns = 1 | _ \<Rightarrow> False)"
    by code_simp
  then obtain ns where ns: "repo_ClaimBatch 5 20 demo_db = (Ret (Inr ns), ?db1)" "length ns = 1"
    by (cases "repo_ClaimBatch 5 20 demo_db") (auto split: outcome.splits sum.splits)
  have "(case fst (repo_ClaimBatch 5 20 ?db1) of Ret (Inr ns) \<Rightarrow> ns = [] | _ \<Rightarrow> False)"
    by code_simp
  then have ms: "repo_ClaimBatch 5 20 ?db1 = (Ret (Inr []), snd (repo_ClaimBatch 5 20 ?db1))"
    by (cases "repo_ClaimBatch 5 20 ?db1") (auto split: outcome.splits sum.splits)
  from claims_exclusive [OF demo_ok ns(1) ms] obtain cs where
    "ns = map Some cs" "\<forall>c \<in> set cs. n_Status c = StatusSending" by auto
  with ns(2) obtain c where "ns = [Some c]" "n_Status c = StatusSending"
    by (auto simp: length_Suc_conv map_eq_Cons_conv)
  moreover have "fst (repo_ClaimBatch 5 20 demo_db) = Ret (Inr ns)"
    using ns(1) by (metis fst_conv)
  moreover have "fst (repo_ClaimBatch 5 20 ?db1) = Ret (Inr [])"
    using ms by (metis fst_conv)
  ultimately show ?thesis by blast
qed


text \<open>
  A claim is fair: when a pending row that is due and not locked is left unclaimed, the
  batch is full and every claimed row was due no later than it.
\<close>

theorem claim_takes_oldest:
  assumes "wf_db db" and "0 < k" and "repo_ClaimBatch k now db = (Ret (Inr ns), db')"
    and "r \<in> set (d_notifications db)" "nr_Status r = StatusPending" "nr_NextAttemptAt r \<le> now"
    and "nr_ID r \<notin> set (se_locked (fst (next_env db)))"
    and "Some (nr_ID r) \<notin> map_option n_ID ` set ns"
  shows "int (length ns) = k \<and>
    (\<forall>s \<in> set (d_notifications db). Some (nr_ID s) \<in> map_option n_ID ` set ns \<longrightarrow>
       nr_NextAttemptAt s \<le> nr_NextAttemptAt r)"
proof -
  let ?ids = "claimable k now (se_locked (fst (next_env db))) (d_notifications db)"
  note ids = claimed_ids [OF assms(1-3)]
  have dist: "distinct (map nr_ID (d_notifications db))" using assms(1) by (simp add: outbox_wf_def)
  have out: "nr_ID r \<notin> set ?ids" using assms(8) ids(1) by (auto simp: image_iff)
  note old = claimable_oldest [OF dist assms(4-7) out]
  have "int (length ns) = k" using old(1) ids(2) assms(2) by simp
  moreover have "nr_ID s \<in> set ?ids" if "Some (nr_ID s) \<in> map_option n_ID ` set ns" for s
    using that ids(1) by auto
  ultimately show ?thesis using old(2) by blast
qed

definition demo_queue :: outbox_db where
  "demo_queue = demo_db\<lparr>d_notifications :=
     [(toNotificationRow demo_note)\<lparr>nr_NextAttemptAt := 12\<rparr>,
      (toNotificationRow demo_note)\<lparr>nr_ID := 3, nr_IdempotencyKey := None\<rparr>]\<rparr>"

theorem claim_takes_oldest_witness:
  "\<exists>ns db'. repo_ClaimBatch 1 20 demo_queue = (Ret (Inr ns), db') \<and> length ns = 1 \<and>
     map_option n_ID ` set ns = {Some 3} \<and>
     (\<forall>s \<in> set (d_notifications demo_queue). nr_ID s = 3 \<longrightarrow> nr_NextAttemptAt s \<le> 12)"
proof -
  let ?q = demo_queue and ?db' = "snd (repo_ClaimBatch 1 20 demo_queue)"
  let ?r = "(toNotificationRow demo_note)\<lparr>nr_NextAttemptAt := 12\<rparr>"
  have wf: "wf_db ?q"
    by (simp add: outbox_wf_def demo_queue_def demo_db_def toNotificationRow_def demo_note_def
        nullString_def)
  have "(case fst (repo_ClaimBatch 1 20 ?q) of
      Ret (Inr ns) \<Rightarrow> map (map_option n_ID) ns = [Some 3] | _ \<Rightarrow> False)" by code_simp
  then obtain ns where run: "repo_ClaimBatch 1 20 ?q = (Ret (Inr ns), ?db')"
      and ns: "map (map_option n_ID) ns = [Some 3]"
    by (cases "repo_ClaimBatch 1 20 ?q") (auto split: outcome.splits sum.splits)
  have img: "map_option n_ID ` set ns = {Some 3}" using ns by (metis list.set_map list.simps(15) set_empty)
  have r: "?r \<in> set (d_notifications ?q)" "nr_Status ?r = StatusPending" "nr_NextAttemptAt ?r \<le> 20"
      "nr_ID ?r \<notin> set (se_locked (fst (next_env ?q)))" "Some (nr_ID ?r) \<notin> map_option n_ID ` set ns"
    unfolding img
    by (simp_all add: demo_queue_def demo_db_def next_env_def toNotificationRow_def demo_note_def)
  from claim_takes_oldest [OF wf _ run r] have
    "int (length ns) = 1"
    "\<forall>s \<in> set (d_notifications ?q). Some (nr_ID s) \<in> map_option n_ID ` set ns \<longrightarrow>
       nr_NextAttemptAt s \<le> 12" by simp_all
  with run img show ?thesis by (intro exI [of _ ns] exI [of _ ?db']) auto
qed

text \<open>
  A sweep recovers rows at the price of an attempt: every row it claimed was sending and
  ends, with one attempt more, dead when that exhausts the budget and pending otherwise, or
  stays as it was; no other row changes; the count is of rows claimed, and without an error
  it is all of them.
\<close>

theorem sweep_costs_attempt:
  assumes "sweep_frame store_ok entities d" and "di_Notifications d = outbox_repo"
    and "store_ok db" and "Sweep d db = (Ret (k, e), db')"
  shows "\<exists>cs. 0 \<le> k \<and> k \<le> int (length cs) \<and> length cs \<le> nat (cf_BatchSize (di_cfg d)) \<and>
    (\<forall>c \<in> set cs. n_Status c = StatusSending \<and> entities db (n_ID c) = Some c) \<and>
    (\<forall>i. i \<notin> n_ID ` set cs \<longrightarrow> entities db' i = entities db i) \<and>
    (\<forall>c \<in> set cs. entities db' (n_ID c) = Some c \<or>
       (\<exists>m. entities db' (n_ID c) = Some m \<and> n_Attempts m = n_Attempts c + 1 \<and>
          n_Status m = (if cf_MaxAttempts (di_cfg d) \<le> n_Attempts m then StatusDead
                        else StatusPending))) \<and>
    (e = None \<longrightarrow> k = int (length cs) \<and>
       (\<forall>c \<in> set cs. \<exists>m. entities db' (n_ID c) = Some m \<and> n_Attempts m = n_Attempts c + 1))"
proof -
  from store.Sweep_effect [OF assms] obtain cs where
    cs: "sweep_effect (cf_MaxAttempts (di_cfg d)) (entities db) (entities db') cs"
      "length cs \<le> nat (cf_BatchSize (di_cfg d))" "0 \<le> k" "k \<le> int (length cs)"
      "e = None \<longrightarrow> k = int (length cs) \<and>
         all_recovered (cf_MaxAttempts (di_cfg d)) (entities db') cs" by blast
  let ?M = "cf_MaxAttempts (di_cfg d)"
  have rec: "n_Attempts m = n_Attempts c + 1 \<and>
      n_Status m = (if ?M \<le> n_Attempts m then StatusDead else StatusPending)"
    if "recovered_as ?M c m" for c m
    using recovered_asD(4,5) [OF that] by simp
  have "\<forall>c \<in> set cs. entities db' (n_ID c) = Some c \<or>
       (\<exists>m. entities db' (n_ID c) = Some m \<and> n_Attempts m = n_Attempts c + 1 \<and>
          n_Status m = (if ?M \<le> n_Attempts m then StatusDead else StatusPending))"
    using cs(1) rec unfolding sweep_effect_def by blast
  moreover have "e = None \<longrightarrow> k = int (length cs) \<and>
       (\<forall>c \<in> set cs. \<exists>m. entities db' (n_ID c) = Some m \<and> n_Attempts m = n_Attempts c + 1)"
    using cs(5) rec unfolding all_recovered_def by blast
  moreover have "\<forall>c \<in> set cs. n_Status c = StatusSending \<and> entities db (n_ID c) = Some c"
    "\<forall>i. i \<notin> n_ID ` set cs \<longrightarrow> entities db' i = entities db i"
    using cs(1) unfolding sweep_effect_def by blast+
  ultimately show ?thesis using cs(2-4) by blast
qed

theorem sweep_costs_attempt_witness:
  "\<exists>db' m. Sweep demo_dispatcher demo_stalled_db = (Ret (1, None), db') \<and>
     entities db' 1 = Some m \<and> n_Attempts m = 1"
proof -
  let ?db' = "snd (Sweep demo_dispatcher demo_stalled_db)"
  have "fst (Sweep demo_dispatcher demo_stalled_db) = Ret (1, None)" by code_simp
  then have run: "Sweep demo_dispatcher demo_stalled_db = (Ret (1, None), ?db')"
    by (metis prod.collapse)
  have frame: "sweep_frame store_ok entities demo_dispatcher"
    by (simp add: sweep_frame_def demo_dispatcher_def)
  have repo: "di_Notifications demo_dispatcher = outbox_repo" by (simp add: demo_dispatcher_def)
  from sweep_costs_attempt [OF frame repo demo_stalled_ok run] obtain cs where
    cs: "length cs = 1" "\<forall>c \<in> set cs. entities demo_stalled_db (n_ID c) = Some c"
      "\<forall>c \<in> set cs. \<exists>m. entities ?db' (n_ID c) = Some m \<and> n_Attempts m = n_Attempts c + 1"
    by auto
  from cs(1) obtain c where c: "cs = [c]" by (cases cs) auto
  have "entities demo_stalled_db i =
      (if i = 1 then Some (demo_note\<lparr>n_Status := StatusSending\<rparr>) else None)" for i
    by (simp add: entities_def entity_at_def demo_stalled_db_def demo_db_def demo_note_def
        toNotificationRow_def fromNotificationRow_def nullString_def stringValue_def)
  with cs(2) c have "n_ID c = 1" "n_Attempts c = 0"
    by (auto simp: demo_note_def split: if_splits)
  with run cs(3) c show ?thesis by auto
qed

text \<open>
  A stalled row goes to one sweeper: after a claim of stalled rows, a second one whose
  cut-off lies no later than the first claim's clock returns none of the same rows, so a
  sweeper that dies before saving leaves its rows out of reach for a stall window.
\<close>

theorem stalled_claims_exclusive:
  assumes "store_ok db" and "repo_ClaimStalled k before now db = (Ret (Inr ns), db1)"
    and "repo_ClaimStalled k' before' now' db1 = (Ret (Inr ms), db2)" and "before' \<le> now"
  shows "map_option n_ID ` set ns \<inter> map_option n_ID ` set ms = {}"
proof -
  have wf: "wf_db db" using assms(1) by (simp add: store_ok_def outbox_inv_def)
  have wf1: "wf_db db1" using repo_ClaimStalled_wf [OF wf, of k before now] assms(2) by simp
  obtain ids where ids: "map_option n_ID ` set ns = Some ` set ids"
      "ids \<noteq> [] \<longrightarrow> d_notifications db1 =
         update_rows ids (\<lambda>r. r\<lparr>nr_ClaimedAt := Some now\<rparr>) (d_notifications db)"
    using stalled_claims_ids [OF wf assms(2)] by auto
  obtain ids' where ids': "map_option n_ID ` set ms = Some ` set ids'"
      "\<forall>i \<in> set ids'. i \<in> set (stalled_ids k' before' (se_locked (fst (next_env db1)))
         (d_notifications db1))"
    using stalled_claims_ids [OF wf1 assms(3)] by auto
  have "i \<notin> set ids'" if i: "i \<in> set ids" for i
  proof
    assume "i \<in> set ids'"
    moreover have "d_notifications db1 =
        update_rows ids (\<lambda>r. r\<lparr>nr_ClaimedAt := Some now\<rparr>) (d_notifications db)"
      using ids(2) i by auto
    ultimately show False using ids'(2) stalled_ids_after_claim [OF assms(4) i] by metis
  qed
  then show ?thesis unfolding ids(1) ids'(1) by auto
qed

theorem stalled_claims_exclusive_witness:
  "\<exists>ns ms db1 db2. repo_ClaimStalled 5 700 1000 demo_stalled_db = (Ret (Inr ns), db1) \<and>
     length ns = 1 \<and> repo_ClaimStalled 5 700 1000 db1 = (Ret (Inr ms), db2) \<and>
     map_option n_ID ` set ns \<inter> map_option n_ID ` set ms = {}"
proof -
  let ?run1 = "repo_ClaimStalled 5 700 1000 demo_stalled_db"
  let ?run2 = "repo_ClaimStalled 5 700 1000 (snd ?run1)"
  have "(case fst ?run1 of Ret (Inr ns) \<Rightarrow> length ns = 1 | _ \<Rightarrow> False)" by code_simp
  then obtain ns where ns: "?run1 = (Ret (Inr ns), snd ?run1)" "length ns = 1"
    by (cases ?run1) (auto split: outcome.splits sum.splits)
  have "(case fst ?run2 of Ret (Inr ms) \<Rightarrow> ms = [] | _ \<Rightarrow> False)" by code_simp
  then obtain ms where ms: "?run2 = (Ret (Inr ms), snd ?run2)"
    by (cases ?run2) (auto split: outcome.splits sum.splits)
  from stalled_claims_exclusive [OF demo_stalled_ok ns(1) ms] ns ms show ?thesis by fastforce
qed


section \<open>Enqueueing\<close>

text \<open>
  C17. A successful enqueue is exactly one of three things: the recipient has stored the
  pair as switched off (never possible for security mail) and nothing changed; the
  idempotency key is already in the outbox and nothing changed; or one fresh row, the one
  \<open>NewNotification\<close> builds from the request, was added under an unused id.
\<close>

theorem enqueue_outcomes:
  assumes "sv_notifications s = outbox_repo" "sv_preferences s = prefs_repo"
    and "preserves store_ok (\<lambda>db. (entities db, decision_at db)) (sv_clock s)"
    and "preserves store_ok (\<lambda>db. (entities db, decision_at db)) uuid_New"
    and "\<forall>db t db'. sv_clock s db = (Ret t, db') \<longrightarrow> t \<noteq> 0"
    and "store_ok db" and "Enqueue s uuid_New req db = (Ret None, db')"
  shows "(entities db' = entities db \<and> \<not> protected (er_Channel req) (er_Category req) \<and>
          decision_at db (er_RecipientID req) (er_Channel req) (er_Category req) = Some False) \<or>
    (entities db' = entities db \<and> er_IdempotencyKey req \<noteq> [] \<and>
       (\<exists>i m. entities db i = Some m \<and> n_IdempotencyKey m = er_IdempotencyKey req)) \<or>
    (\<exists>n now. entities db (n_ID n) = None \<and> entities db' = (entities db)(n_ID n \<mapsto> n) \<and>
       NewNotification (enqueue_params (n_ID n) req) now = Inr n)"
  by (rule module.Enqueue_outcomes [OF assms(1-4) _ assms(6,7)]) (use assms(5) in blast)

definition demo_request :: enqueue_request where
  "demo_request =
     \<lparr>er_RecipientID = 2, er_Channel = ChannelInApp, er_Category = CategorySecurity,
      er_TemplateKey = ''k'', er_Payload = None, er_IdempotencyKey = ''e:1''\<rparr>"

theorem enqueue_outcomes_witness:
  "\<exists>db'. Enqueue demo_service (retp 7) demo_request demo_db = (Ret None, db') \<and>
     entities db' = entities demo_db"
proof -
  let ?db' = "snd (Enqueue demo_service (retp 7) demo_request demo_db)"
  have "fst (Enqueue demo_service (retp 7) demo_request demo_db) = Ret None" by code_simp
  then have run: "Enqueue demo_service (retp 7) demo_request demo_db = (Ret None, ?db')"
    by (metis prod.collapse)
  have clock: "preserves store_ok (\<lambda>db. (entities db, decision_at db)) (sv_clock demo_service)"
    by simp
  have nonzero: "\<forall>db t db'. sv_clock demo_service db = (Ret t, db') \<longrightarrow> t \<noteq> 0" by auto
  have others: "entities ?db' i = None" if "i \<noteq> 1" for i
  proof -
    have "map nr_ID (d_notifications ?db') = [1]" by code_simp
    then have "\<forall>r \<in> set (d_notifications ?db'). nr_ID r = 1" by auto
    with that show ?thesis by (auto simp: entities_def entity_at_def find_None_iff)
  qed
  have "entities demo_db 1 \<noteq> None"
    by (simp add: entities_def entity_at_def demo_db_def toNotificationRow_def demo_note_def)
  then have fresh: "\<not> (entities demo_db (n_ID n) = None \<and>
      entities ?db' = (entities demo_db)(n_ID n \<mapsto> n))" for n
    using others [of "n_ID n"] by (cases "n_ID n = 1") auto
  from enqueue_outcomes [OF demo_service_sel(1,2) clock preserves_retp nonzero demo_ok run] fresh
  have "entities ?db' = entities demo_db" by blast
  with run show ?thesis by blast
qed

section \<open>The mailbox\<close>

text \<open>
  C18. Keyset pagination reads the mailbox once: the pages a client gets by passing the
  position of the last row it saw, whatever limit it asks for, are together the whole
  mailbox, newest first, with no row repeated and none skipped.
\<close>

theorem paging_reads_mailbox:
  assumes "distinct (map nr_ID rows)" and "lf_Before f = None"
    and "length (mailbox u (lf_UnreadOnly f) rows) \<le> k"
  shows "concat (read_pages k u f rows) = mailbox u (lf_UnreadOnly f) rows \<and>
    distinct (mailbox u (lf_UnreadOnly f) rows) \<and>
    set (mailbox u (lf_UnreadOnly f) rows) =
      {r \<in> set rows. nr_RecipientID r = u \<and> nr_Channel r = ChannelInApp \<and>
         (lf_UnreadOnly f \<longrightarrow> nr_ReadAt r = None)} \<and>
    sorted_wrt (\<lambda>r s. row_cursor s < row_cursor r) (mailbox u (lf_UnreadOnly f) rows)"
proof -
  have "filter (before_ok (lf_Before f)) (mailbox u (lf_UnreadOnly f) rows) =
      mailbox u (lf_UnreadOnly f) rows"
    by (simp add: assms(2) before_ok_def filter_id_conv)
  with read_pages_concat [OF assms(1), of f u k] assms(3)
  have "concat (read_pages k u f rows) = mailbox u (lf_UnreadOnly f) rows" by simp
  moreover have "distinct (mailbox u (lf_UnreadOnly f) rows)"
    using assms(1) by (simp add: mailbox_def distinct_map)
  ultimately show ?thesis
    using mailbox_descending [OF assms(1)] by (auto simp: mailbox_def in_mailbox_def)
qed

definition demo_mail :: "notification_row list" where
  "demo_mail = map (\<lambda>(i, t). (toNotificationRow demo_note)
     \<lparr>nr_ID := i, nr_CreatedAt := t, nr_IdempotencyKey := None\<rparr>) [(4, 10), (5, 10), (6, 11)]"

theorem paging_reads_mailbox_witness:
  "map (map nr_ID) (read_pages 3 2 \<lparr>lf_UnreadOnly = False, lf_Limit = 2, lf_Before = None\<rparr> demo_mail)
     = [[6, 5], [4]] \<and>
   concat (read_pages 3 2 \<lparr>lf_UnreadOnly = False, lf_Limit = 2, lf_Before = None\<rparr> demo_mail)
     = mailbox 2 False demo_mail"
proof -
  let ?f = "\<lparr>lf_UnreadOnly = False, lf_Limit = 2, lf_Before = None\<rparr>"
  have "map (map nr_ID) (read_pages 3 2 ?f demo_mail) = [[6, 5], [4]]" by code_simp
  moreover have "distinct (map nr_ID demo_mail)" by code_simp
  moreover have "length (mailbox 2 (lf_UnreadOnly ?f) demo_mail) \<le> 3" by code_simp
  ultimately show ?thesis using paging_reads_mailbox [of demo_mail ?f 2 3] by simp
qed

text \<open>
  Arrivals do not disturb a reader: a page past a cursor is the same whatever rows are
  added that do not sort after the cursor, so newer notifications make no row repeat or
  vanish between pages.
\<close>

theorem page_ignores_arrivals:
  assumes "lf_Before f = Some c" and "\<forall>r \<in> set arrived. \<not> row_cursor r < c"
  shows "mailbox_page u (Normalize f) (rows @ arrived) = mailbox_page u (Normalize f) rows"
  using assms by (intro mailbox_page_insert) simp_all

theorem page_ignores_arrivals_witness:
  "mailbox_page 2 (Normalize \<lparr>lf_UnreadOnly = False, lf_Limit = 0, lf_Before = Some (Cursor 11 6)\<rparr>)
     (demo_mail @ [(toNotificationRow demo_note)\<lparr>nr_ID := 9, nr_CreatedAt := 12\<rparr>]) =
   mailbox_page 2 (Normalize \<lparr>lf_UnreadOnly = False, lf_Limit = 0, lf_Before = Some (Cursor 11 6)\<rparr>)
     demo_mail"
  by (rule page_ignores_arrivals [of _ "Cursor 11 6"])
    (simp_all add: row_cursor_def less_cursor_def)

text \<open>
  Marking read is scoped and keeps the first reading: on a healthy database the call
  succeeds exactly when the id is an in-app row of the caller's, changes only that row, only
  its \<open>read_at\<close>, and only if it was unread; otherwise the answer is \<open>ErrNotFound\<close>, the same
  for a missing row, somebody else's and one of another channel.
\<close>

theorem mark_read_scoped:
  assumes "d_env db = []"
  shows "fst (repo_MarkRead u i now db) =
      Ret (if \<exists>r \<in> set (d_notifications db). nr_ID r = i \<and> nr_RecipientID r = u \<and>
             nr_Channel r = ChannelInApp then None else Some ErrNotFound) \<and>
    d_notifications (snd (repo_MarkRead u i now db)) =
      map (\<lambda>r. if nr_ID r = i \<and> nr_RecipientID r = u \<and> nr_Channel r = ChannelInApp \<and>
             nr_ReadAt r = None then r\<lparr>nr_ReadAt := Some now\<rparr> else r) (d_notifications db)"
proof -
  have same: "(if nr_ID r = i \<and> in_mailbox u r
        then r\<lparr>nr_ReadAt := Some (case nr_ReadAt r of None \<Rightarrow> now | Some t \<Rightarrow> t)\<rparr> else r) =
      (if nr_ID r = i \<and> nr_RecipientID r = u \<and> nr_Channel r = ChannelInApp \<and> nr_ReadAt r = None
        then r\<lparr>nr_ReadAt := Some now\<rparr> else r)" for r
    by (cases "nr_ReadAt r") (auto simp: in_mailbox_def)
  show ?thesis
    unfolding repo_MarkRead_eq [OF assms] same
    by (auto simp: in_mailbox_def intro!: map_idI [symmetric])
qed

theorem mark_read_scoped_witness:
  "fst (repo_MarkRead 2 1 50 demo_db) = Ret None \<and> fst (repo_MarkRead 3 1 50 demo_db) = Ret (Some ErrNotFound)"
  using mark_read_scoped [of demo_db 2 1 50] mark_read_scoped [of demo_db 3 1 50]
  by (simp add: demo_db_def toNotificationRow_def demo_note_def)


section \<open>Preferences\<close>

text \<open>
  The preference matrix answers for every pair once, and truthfully: its pairs are the
  nine channel and category pairs in order, each enabled exactly when it is the protected
  pair or the user has not stored it as switched off.
\<close>

theorem preference_matrix_truthful:
  assumes "sv_preferences s = prefs_repo" and "store_ok db"
    and "GetPreferences s u db = (Ret (Inr vs), db')"
  shows "map (\<lambda>v. (pv_Channel v, pv_Category v)) vs = List.product Channels Categories \<and>
    length vs = 9 \<and>
    (\<forall>v \<in> set vs. pv_Enabled v \<longleftrightarrow>
       (pv_Channel v = ChannelEmail \<and> pv_Category v = CategorySecurity) \<or>
       decision_at db u (pv_Channel v) (pv_Category v) \<noteq> Some False)"
proof -
  note matrix = module.GetPreferences_answers [OF assms]
  then have pairs: "map (\<lambda>v. (pv_Channel v, pv_Category v)) vs = List.product Channels Categories"
    by blast
  then have "length vs = length (List.product Channels Categories)" by (metis length_map)
  then have "length vs = 9" by (simp add: Channels_def Categories_def)
  with matrix pairs show ?thesis by (simp add: protected_def)
qed

definition demo_prefs_db :: outbox_db where
  "demo_prefs_db = demo_db\<lparr>d_preferences :=
     [\<lparr>pr_UserID = 2, pr_Channel = ChannelEmail, pr_Category = CategorySecurity,
       pr_Enabled = False, pr_UpdatedAt = 1\<rparr>,
      \<lparr>pr_UserID = 2, pr_Channel = ChannelInApp, pr_Category = CategoryAccount,
       pr_Enabled = False, pr_UpdatedAt = 1\<rparr>]\<rparr>"

lemma demo_prefs_ok: "store_ok demo_prefs_db"
  by (simp add: store_ok_def outbox_inv_def prefs_inv_def script_ok_def outbox_wf_def demo_db_def
      demo_prefs_db_def toNotificationRow_def demo_note_def nullString_def pref_pkey_def
      channel_defs category_defs)

theorem preference_matrix_truthful_witness:
  "\<exists>vs db'. GetPreferences demo_service 2 demo_prefs_db = (Ret (Inr vs), db') \<and> length vs = 9"
proof -
  let ?run = "GetPreferences demo_service 2 demo_prefs_db"
  have "(case fst ?run of Ret (Inr vs) \<Rightarrow> True | _ \<Rightarrow> False)" by code_simp
  then obtain vs where run: "?run = (Ret (Inr vs), snd ?run)"
    by (cases ?run) (auto split: outcome.splits sum.splits)
  from preference_matrix_truthful [OF demo_service_sel(2) demo_prefs_ok run] run
  show ?thesis by blast
qed

text \<open>
  A successful update is applied whole and reported truthfully: no pair is named twice
  and none switches the protected pair off; afterwards the named pairs hold the requested
  decisions, every other pair and every other user is as before, and the answer is the
  matrix of the new state.
\<close>

theorem update_preferences_applies:
  assumes "sv_preferences s = prefs_repo"
    and "preserves store_ok (\<lambda>db. (entities db, decision_at db)) (sv_clock s)"
    and "store_ok db" and "UpdatePreferences s u us db = (Ret (Inr vs), db')"
  shows "distinct (map (\<lambda>x. (pu_Channel x, pu_Category x)) us) \<and>
    (\<forall>x \<in> set us. pu_Enabled x \<or> \<not> protected (pu_Channel x) (pu_Category x)) \<and>
    (\<forall>ch cat. decision_at db' u ch cat =
       (case find (\<lambda>x. pu_Channel x = ch \<and> pu_Category x = cat) us of
          Some x \<Rightarrow> Some (pu_Enabled x) | None \<Rightarrow> decision_at db u ch cat)) \<and>
    (\<forall>v ch cat. v \<noteq> u \<longrightarrow> decision_at db' v ch cat = decision_at db v ch cat) \<and>
    (\<forall>v \<in> set vs. pv_Enabled v \<longleftrightarrow> protected (pv_Channel v) (pv_Category v) \<or>
       decision_at db' u (pv_Channel v) (pv_Category v) \<noteq> Some False)"
  by (rule module.UpdatePreferences_applies [OF assms])

definition demo_update :: preference_update where
  "demo_update = \<lparr>pu_Channel = ChannelInApp, pu_Category = CategoryAccount, pu_Enabled = True\<rparr>"

theorem update_preferences_applies_witness:
  "decision_at demo_prefs_db 2 ChannelInApp CategoryAccount = Some False \<and>
   decision_at (snd (UpdatePreferences demo_service 2 [demo_update] demo_prefs_db))
     2 ChannelInApp CategoryAccount = Some True"
proof -
  let ?run = "UpdatePreferences demo_service 2 [demo_update] demo_prefs_db"
  have "(case fst ?run of Ret (Inr vs) \<Rightarrow> True | _ \<Rightarrow> False)" by code_simp
  then obtain vs where run: "?run = (Ret (Inr vs), snd ?run)"
    by (cases ?run) (auto split: outcome.splits sum.splits)
  have clock: "preserves store_ok (\<lambda>db. (entities db, decision_at db)) (sv_clock demo_service)"
    by simp
  have "decision_at demo_prefs_db 2 ChannelInApp CategoryAccount = Some False" by code_simp
  with update_preferences_applies [OF demo_service_sel(2) clock demo_prefs_ok run]
  show ?thesis by (simp add: demo_update_def)
qed

text \<open>
  A request with an illegal update is refused before anything is touched: if any
  update of the list is invalid, repeats a pair or switches the protected pair off, the
  call reads the clock and returns that refusal, calling no repository, and the refusal
  wraps \<open>ErrInvalidPreference\<close> or \<open>ErrPreferenceProtected\<close>.
\<close>

theorem update_preferences_refused:
  assumes "validate_updates u now [] us = Inl e"
  shows "UpdatePreferences s u us = bindp (sv_clock s) (\<lambda>_. retp (Inl e)) \<and>
    (errors_Is e ErrInvalidPreference \<or> errors_Is e ErrPreferenceProtected)"
  using UpdatePreferences_refused [OF assms] validate_updates_Inl [OF assms] by blast

theorem update_preferences_refused_witness:
  "\<exists>e. errors_Is e ErrPreferenceProtected \<and>
     UpdatePreferences demo_service 2
       [demo_update, \<lparr>pu_Channel = ChannelEmail, pu_Category = CategorySecurity, pu_Enabled = False\<rparr>]
       demo_db = (Ret (Inl e), demo_db)"
proof -
  let ?bad = "\<lparr>pu_Channel = ChannelEmail, pu_Category = CategorySecurity, pu_Enabled = False\<rparr>"
  let ?e = "Errorf ''%w: %s/%s'' [OStr ChannelEmail, OStr CategorySecurity] [ErrPreferenceProtected]"
  have "validate_updates 2 20 [] [demo_update, ?bad] = Inl ?e"
    by (simp add: demo_update_def NewPreference_def uuid_Nil_def protected_def Channel_Valid_def
        Category_Valid_def channel_defs category_defs)
  from update_preferences_refused [OF this, of demo_service] show ?thesis by force
qed

section \<open>The retry schedule\<close>

text \<open>
  C19. The backoff is the exact clamped exponential: over all 64-bit bases and caps and all
  attempt counts, \<open>Backoff\<close> is \<open>base * 2^attempt\<close> computed without overflow, at most the
  cap, never negative, and zero for a base that is not positive.
\<close>

theorem backoff_exact:
  "sint (Backoff attempt base cap) =
     (if sint base \<le> 0 then 0 else max 0 (min (sint cap) (sint base * 2 ^ nat attempt)))"
  by (rule sint_Backoff)

text \<open>
  Jitter stays in the top half: whatever a well-formed float source draws, the delay
  lies between half the backoff and the backoff, and strictly below it when a source is
  present and there is a delay to spread; rounding never reaches the bound.
\<close>

theorem jitter_in_top_half:
  assumes "BackoffWithJitter attempt base cap src w = (Ret r, w')"
    and "\<forall>draw. src = Some draw \<longrightarrow> (\<forall>v f v'. draw v = (Ret f, v') \<longrightarrow> float_wf f)"
  shows "sint (Backoff attempt base cap) div 2 \<le> sint r \<and>
    sint r \<le> sint (Backoff attempt base cap) \<and>
    (src \<noteq> None \<and> 0 < sint (Backoff attempt base cap) \<longrightarrow>
       sint r < sint (Backoff attempt base cap))"
  using assms(2) by (intro BackoffWithJitter_bounds [OF assms(1) _ refl]) blast

theorem jitter_in_top_half_witness:
  "\<exists>r. BackoffWithJitter 2 100 1000 (Some (retp float_below_one)) () = (Ret r, ()) \<and>
     200 \<le> sint r \<and> sint r < 400"
proof -
  let ?run = "BackoffWithJitter 2 100 1000 (Some (retp float_below_one)) ()"
  obtain r where run: "?run = (Ret r, ())"
    by (cases "sint (Backoff 2 100 1000) \<le> 0") (simp_all add: BackoffWithJitter_def Let_def)
  have "\<forall>draw. Some (retp float_below_one) = Some draw \<longrightarrow>
      (\<forall>v f v'. draw v = (Ret f, v') \<longrightarrow> float_wf f)"
    using float_below_one_wf(1) by auto
  from jitter_in_top_half [OF run this] run show ?thesis
    by (auto simp: sint_Backoff)
qed

section \<open>What a row stores\<close>

text \<open>
  A stored failure reason is a prefix of the reason of at most 512 bytes; a reason that
  is valid UTF-8 stays valid, is kept whole when it fits, and otherwise loses at most the
  three bytes of a cut character.
\<close>

theorem reason_truncated:
  "length (truncateReason reason) \<le> 512 \<and> (\<exists>k. truncateReason reason = take k reason) \<and>
   (ValidString reason \<longrightarrow> ValidString (truncateReason reason) \<and>
      (if length reason \<le> 512 then truncateReason reason = reason
       else 509 \<le> length (truncateReason reason)))"
proof -
  have "509 \<le> length (truncateReason reason) \<and> ValidString (truncateReason reason)"
    if "ValidString reason" "\<not> length reason \<le> 512"
    using truncateReason_valid_long [OF that(1)] that(2) by (simp add: maxLastErrorLen_def)
  then show ?thesis
    using truncateReason_length [of reason] truncateReason_prefix [of reason]
    by (auto simp: truncateReason_def maxLastErrorLen_def)
qed

theorem reason_truncated_witness:
  "length (truncateReason (replicate 600 CHR ''a'')) \<le> 512 \<and> truncateReason ''boom'' = ''boom''"
proof -
  have "ValidString ''boom''" by code_simp
  with reason_truncated [of "''boom''"] reason_truncated [of "replicate 600 CHR ''a''"]
  show ?thesis by simp
qed


text \<open>
  \<open>NewNotification\<close> accepts exactly the complete parameters: it succeeds iff both ids are
  present, channel and category are known and a template is named; a refusal wraps
  \<open>ErrInvalidNotification\<close>; what it builds is pending, unread, unsent, without attempts, due
  now, with a payload that is never nil.
\<close>

theorem new_notification_accepts:
  "((\<exists>n. NewNotification p now = Inr n) \<longleftrightarrow>
     np_ID p \<noteq> uuid_Nil \<and> np_RecipientID p \<noteq> uuid_Nil \<and> np_Channel p \<in> set Channels \<and>
     np_Category p \<in> set Categories \<and> np_TemplateKey p \<noteq> []) \<and>
   (\<forall>e. NewNotification p now = Inl e \<longrightarrow> errors_Is e ErrInvalidNotification) \<and>
   (\<forall>n. NewNotification p now = Inr n \<longrightarrow>
     n_Status n = StatusPending \<and> n_Attempts n = 0 \<and> n_NextAttemptAt n = now \<and>
     n_CreatedAt n = now \<and> n_ReadAt n = None \<and> n_SentAt n = None \<and> n_LastError n = [] \<and>
     n_Payload n \<noteq> None \<and> n_ID n = np_ID p \<and> n_RecipientID n = np_RecipientID p)"
proof (intro conjI allI impI)
  show "(\<exists>n. NewNotification p now = Inr n) \<longleftrightarrow>
     np_ID p \<noteq> uuid_Nil \<and> np_RecipientID p \<noteq> uuid_Nil \<and> np_Channel p \<in> set Channels \<and>
     np_Category p \<in> set Categories \<and> np_TemplateKey p \<noteq> []"
    by (simp add: NewNotification_def Channel_Valid_iff Category_Valid_iff)
  show "errors_Is e ErrInvalidNotification" if "NewNotification p now = Inl e" for e
    using that by (auto simp: NewNotification_def split: if_splits)
qed (simp_all add: NewNotification_Inr)

theorem new_notification_accepts_witness:
  "NewNotification demo_params 10 = Inr demo_note \<and> n_Status demo_note = StatusPending \<and>
   (\<exists>e. NewNotification (demo_params\<lparr>np_TemplateKey := []\<rparr>) 10 = Inl e \<and>
      errors_Is e ErrInvalidNotification)"
proof -
  have "\<not> (\<exists>n. NewNotification (demo_params\<lparr>np_TemplateKey := []\<rparr>) 10 = Inr n)"
    using new_notification_accepts [of "demo_params\<lparr>np_TemplateKey := []\<rparr>" 10] by simp
  then obtain e where "NewNotification (demo_params\<lparr>np_TemplateKey := []\<rparr>) 10 = Inl e"
    by (cases "NewNotification (demo_params\<lparr>np_TemplateKey := []\<rparr>) 10") auto
  with new_notification_accepts [of demo_params 10] demo_note_new
    new_notification_accepts [of "demo_params\<lparr>np_TemplateKey := []\<rparr>" 10]
  show ?thesis by blast
qed

text \<open>
  Rows and entities convert faithfully: reading back a stored entity gives it again,
  with a nil payload become an empty one and every other field as it was, and storing an
  entity read from a well-formed row gives that row again without its claim stamp.
\<close>

theorem row_round_trip:
  "fromNotificationRow (toNotificationRow n) = n\<lparr>n_Payload := or_empty (n_Payload n)\<rparr> \<and>
   (n_Payload n \<noteq> None \<longrightarrow> fromNotificationRow (toNotificationRow n) = n) \<and>
   (nr_IdempotencyKey r \<noteq> Some '''' \<and> nr_LastError r \<noteq> Some '''' \<and> nr_Payload r \<noteq> None \<longrightarrow>
      toNotificationRow (fromNotificationRow r) = r\<lparr>nr_ClaimedAt := None\<rparr>)"
proof -
  have "n_Payload n \<noteq> None \<Longrightarrow> n\<lparr>n_Payload := or_empty (n_Payload n)\<rparr> = n"
    by (auto simp: or_empty_def)
  then show ?thesis using from_to_row [of n] to_from_row [of r] by simp
qed

theorem row_round_trip_witness:
  "fromNotificationRow (toNotificationRow demo_note) = demo_note"
  using row_round_trip [of demo_note "toNotificationRow demo_note"] by (simp add: demo_note_def)

section \<open>The worker's life\<close>

text \<open>
  C20. Work is never cancelled under a running goroutine unless the drain timed out: in
  every reachable state of the dispatcher in which the work context is cancelled, either
  every goroutine has returned or \<open>Stop\<close> holds its timeout error; and goroutines return only
  after claiming was stopped.
\<close>

theorem stop_waits_for_work:
  assumes "lifecycle_reachable cfg s"
  shows "(lc_abortWork s \<longrightarrow> all_returned s \<or> lc_stopErr s \<noteq> None) \<and>
    (lc_stopOnce s \<and> lc_stopClaiming s \<and> \<not> lc_stopping s \<and> lc_stopErr s = None \<longrightarrow> all_returned s) \<and>
    (Returned \<in> set (lc_tasks s) \<longrightarrow> lc_stopClaiming s)"
  using lifecycle_inv_reachable [OF assms] by (auto simp: lifecycle_inv_def)

definition demo_stopping :: lifecycle where
  "demo_stopping =
     \<lparr>lc_started = True, lc_stopOnce = True, lc_stopClaiming = True, lc_abortWork = False,
      lc_stopping = True, lc_tasks = [Selecting, Selecting], lc_stopErr = None\<rparr>"

lemma demo_stopping_reachable: "lifecycle_reachable (di_cfg demo_dispatcher) demo_stopping"
proof -
  let ?cfg = "di_cfg demo_dispatcher"
  let ?s1 = "lifecycle_init\<lparr>lc_started := True,
      lc_tasks := replicate (nat (cf_Workers ?cfg) + 1) Selecting\<rparr>"
  have "lifecycle_reachable ?cfg ?s1"
    by (rule lifecycle_reachable.step [OF lifecycle_reachable.init lifecycle_step.start])
      (simp add: lifecycle_init_def)
  then have "lifecycle_reachable ?cfg
      (?s1\<lparr>lc_stopOnce := True, lc_stopClaiming := True, lc_stopping := True\<rparr>)"
    by (rule lifecycle_reachable.step [OF _ lifecycle_step.stop_begin])
      (simp_all add: lifecycle_init_def)
  then show ?thesis
    by (simp add: lifecycle_init_def demo_stopping_def demo_dispatcher_def numeral_2_eq_2)
qed

definition demo_drained :: lifecycle where
  "demo_drained = demo_stopping
     \<lparr>lc_tasks := [Returned, Returned], lc_stopping := False, lc_abortWork := True\<rparr>"

lemma demo_drained_reachable: "lifecycle_reachable (di_cfg demo_dispatcher) demo_drained"
proof -
  let ?cfg = "di_cfg demo_dispatcher"
  have "lifecycle_step ?cfg (ClaimDone 0) demo_stopping (goroutine_to 0 Returned demo_stopping)"
    by (rule lifecycle_step.claim_done) (simp_all add: demo_stopping_def goroutine_at_def)
  then have one: "lifecycle_reachable ?cfg (demo_stopping\<lparr>lc_tasks := [Returned, Selecting]\<rparr>)"
    using lifecycle_reachable.step [OF demo_stopping_reachable]
    by (simp add: demo_stopping_def goroutine_to_def)
  have "lifecycle_step ?cfg (ClaimDone 1) (demo_stopping\<lparr>lc_tasks := [Returned, Selecting]\<rparr>)
      (goroutine_to 1 Returned (demo_stopping\<lparr>lc_tasks := [Returned, Selecting]\<rparr>))"
    by (rule lifecycle_step.claim_done) (simp_all add: demo_stopping_def goroutine_at_def)
  then have two: "lifecycle_reachable ?cfg (demo_stopping\<lparr>lc_tasks := [Returned, Returned]\<rparr>)"
    using lifecycle_reachable.step [OF one] by (simp add: goroutine_to_def)
  have "lifecycle_step ?cfg StopReturns (demo_stopping\<lparr>lc_tasks := [Returned, Returned]\<rparr>)
      demo_drained"
    using lifecycle_step.stop_drained [of "demo_stopping\<lparr>lc_tasks := [Returned, Returned]\<rparr>" ?cfg]
    by (simp add: demo_drained_def demo_stopping_def all_returned_def)
  with two show ?thesis by (rule lifecycle_reachable.step)
qed

theorem stop_waits_for_work_witness:
  "lc_abortWork demo_drained \<and> all_returned demo_drained"
  using stop_waits_for_work [OF demo_drained_reachable]
  by (simp add: demo_drained_def demo_stopping_def)

text \<open>
  C21. A stop drains, however many rows are waiting: on every run after claiming was stopped a
  goroutine ends the batch or sweep it was in and one more for each tick that still wins its
  \<open>select\<close>, and no other, be the batches full or not; without such a tick the run makes at most
  two steps per goroutine towards their return; and as long as one has not returned, a step
  that is no tick is possible. That the calls inside a step return is not part of the claim.
\<close>

theorem stop_drains:
  assumes "lifecycle_reachable cfg s" and "lc_stopClaiming s" and "lifecycle_run cfg s es s'"
  shows "length (filter (ends_work i) es) + in_flight i s' =
      length (filter (\<lambda>e. e = Tick i) es) + in_flight i s \<and>
    length (filter progress es) + unfinished s' = length (filter is_tick es) + unfinished s \<and>
    unfinished s \<le> 2 * (nat (cf_Workers cfg) + 1) \<and>
    (\<not> all_returned s' \<longrightarrow> (\<exists>e s''. progress e \<and> lifecycle_step cfg e s' s''))"
proof -
  have inv: "lifecycle_inv cfg s" by (rule lifecycle_inv_reachable [OF assms(1)])
  with assms(2) have "lc_started s" "length (lc_tasks s) = nat (cf_Workers cfg) + 1"
    by (auto simp: lifecycle_inv_def)
  moreover from stop_balance_run [OF assms(3) this(1) assms(2), of i]
  have "lc_stopClaiming s'" "stop_balance i es s s'" by simp_all
  ultimately show ?thesis
    using unfinished_le [of s] stop_not_stuck [of s'] by (simp add: stop_balance_def)
qed

text \<open>One worker is in a batch when \<open>Stop\<close> is called; the batch turns out full.\<close>

definition demo_busy :: lifecycle where
  "demo_busy = demo_stopping\<lparr>lc_tasks := [Dispatching, Selecting]\<rparr>"

lemma demo_busy_reachable: "lifecycle_reachable (di_cfg demo_dispatcher) demo_busy"
proof -
  let ?cfg = "di_cfg demo_dispatcher"
  let ?s1 = "lifecycle_init\<lparr>lc_started := True, lc_tasks := [Selecting, Selecting]\<rparr>"
  let ?s2 = "?s1\<lparr>lc_tasks := [Dispatching, Selecting]\<rparr>"
  have "lifecycle_step ?cfg StartCalled lifecycle_init ?s1"
    using lifecycle_step.start [of lifecycle_init ?cfg]
    by (simp add: lifecycle_init_def demo_dispatcher_def numeral_2_eq_2)
  moreover have "lifecycle_step ?cfg (Tick 0) ?s1 ?s2"
    using lifecycle_step.tick [of 0 ?s1 ?cfg]
    by (simp add: goroutine_at_def goroutine_to_def demo_dispatcher_def)
  moreover have "lifecycle_step ?cfg StopCalled ?s2 demo_busy"
    using lifecycle_step.stop_begin [of ?s2 ?cfg]
    by (simp add: lifecycle_init_def demo_busy_def demo_stopping_def)
  ultimately show ?thesis
    by (meson lifecycle_reachable.init lifecycle_reachable.step)
qed

theorem stop_drains_witness:
  "\<exists>s'. lifecycle_run (di_cfg demo_dispatcher) demo_busy
       [BatchDone 0 5, ClaimDone 0, ClaimDone 1] s' \<and> in_flight 0 s' = 0 \<and> unfinished s' = 0"
proof -
  let ?cfg = "di_cfg demo_dispatcher"
  let ?s1 = "goroutine_to 0 Selecting demo_busy"
  let ?s2 = "goroutine_to 0 Returned ?s1"
  let ?s3 = "goroutine_to 1 Returned ?s2"
  have "lifecycle_step ?cfg (BatchDone 0 5) demo_busy ?s1"
    using lifecycle_step.batch_done [of 0 demo_busy ?cfg 5]
    by (simp add: demo_busy_def demo_stopping_def goroutine_at_def drain_over_def)
  moreover have "lifecycle_step ?cfg (ClaimDone 0) ?s1 ?s2" "lifecycle_step ?cfg (ClaimDone 1) ?s2 ?s3"
    by (rule lifecycle_step.claim_done;
        simp add: demo_busy_def demo_stopping_def goroutine_at_def goroutine_to_def)+
  ultimately have run: "lifecycle_run ?cfg demo_busy [BatchDone 0 5, ClaimDone 0, ClaimDone 1] ?s3"
    by (blast intro: lifecycle_run.intros)
  have "lc_stopClaiming demo_busy" "in_flight 0 demo_busy = 1" "unfinished demo_busy = 3"
    by (simp_all add: demo_busy_def demo_stopping_def in_flight_def goroutine_at_def unfinished_def)
  with stop_drains [OF demo_busy_reachable _ run, of 0] have "in_flight 0 ?s3 = 0" "unfinished ?s3 = 0"
    by simp_all
  with run show ?thesis by blast
qed

section \<open>The database layer\<close>

text \<open>
  Translation keeps the cause and adds the meaning: nil stays nil; a missing row becomes
  \<open>db.ErrNotFound\<close>; any other error still wraps the driver's, with the same Postgres code,
  and is retryable exactly when it already was or the code is a serialization failure or a
  deadlock.
\<close>

theorem translate_keeps_cause:
  "Translate None = None \<and>
   (errors_Is err sql_ErrNoRows \<longrightarrow> Translate (Some err) = Some db_ErrNotFound) \<and>
   (\<not> errors_Is err sql_ErrNoRows \<longrightarrow>
     (\<exists>e. Translate (Some err) = Some e \<and> errors_Is e err \<and> errors_As_pg e = errors_As_pg err \<and>
        (IsRetryable (Some e) \<longleftrightarrow> errors_Is err ErrSerialization \<or>
           errors_As_pg err \<in> {Some ''40001'', Some ''40P01''})))"
  using Translate_err_wraps [of err] Translate_err_As_pg [of err]
  by (auto simp: Translate_def Translate_err_def IsRetryable_def joinSentinel_def
      code_sentinel_def pg_codes db_sentinels split: option.splits if_splits)

theorem translate_keeps_cause_witness:
  "IsRetryable (Translate (Some (PgError ''40P01'' ''deadlock''))) \<and>
   \<not> IsRetryable (Translate (Some (PgError ''23505'' ''dup'')))"
proof -
  have "\<not> errors_Is (PgError c m) sql_ErrNoRows" for c m by (simp add: sql_ErrNoRows_def)
  with translate_keeps_cause [of "PgError ''40P01'' ''deadlock''"]
    translate_keeps_cause [of "PgError ''23505'' ''dup''"]
  show ?thesis by (auto simp: ErrSerialization_def)
qed

text \<open>
  C22. What a transaction leaves, on every branch, over any driver that behaves as
  \<open>database/sql\<close> documents and any function that does not end the transaction itself. An error
  or a panic of the function is passed on as it is and nothing of its work stays; a function
  that returns nil is committed as it left the database, and the deferred rollback that still
  runs undoes nothing; a failed commit is wrapped and leaves the work as a whole or not at all,
  which of the two is not known; the transaction is never left open.
\<close>

theorem transaction_atomic:
  assumes "begin_ok db opened BeginTx" and "tx_ok db opened ended"
    and "leaves_open opened fn" and "InTx BeginTx fn w = (r, w')"
  shows "case BeginTx w of
      (Panics m, w0) \<Rightarrow> r = Panics m \<and> db w' = db w
    | (Ret (Inl err), w0) \<Rightarrow> r = Ret (Some (Errorf ''begin tx: %w'' [] [err])) \<and> db w' = db w
    | (Ret (Inr tx), w0) \<Rightarrow>
        ended tx w' \<and>
        (case fn tx w0 of
           (Panics m, w1) \<Rightarrow> r = Panics m \<and> db w' = db w
         | (Ret (Some err), w1) \<Rightarrow> r = Ret (Some err) \<and> db w' = db w
         | (Ret None, w1) \<Rightarrow>
             w' = snd (tx_Commit tx w1) \<and>
             (case fst (tx_Commit tx w1) of
                Ret None \<Rightarrow> r = Ret None \<and> db w' = db w1
              | Ret (Some err) \<Rightarrow>
                  r = Ret (Some (Errorf ''commit tx: %w'' [] [err])) \<and> db w' \<in> {db w, db w1}
              | Panics m \<Rightarrow> r = Panics m \<and> db w' \<in> {db w, db w1}))"
  by (rule InTx_outcome [OF assms])

text \<open>
  On the connection of the identity store: a function that deletes every token and panics, and
  one that deletes them and returns, under a commit whose answer is lost.
\<close>

definition demo_wipe :: "goerr option outcome \<Rightarrow> (unit id_world, goerr option) prog" where
  "demo_wipe r = (\<lambda>w. (r, ((fst w)\<lparr>it_tokens := []\<rparr>, snd w)))"

definition demo_lossy :: "unit id_world" where
  "demo_lossy =
     (fst demo_world, demo_script\<lparr>is_env := [quiet, quiet\<lparr>se_affected := Some (New ''conn closed'')\<rparr>]\<rparr>)"

theorem transaction_atomic_witness:
  "(\<exists>c. InTx conn_BeginTx (\<lambda>tx. on_conn (demo_wipe (Panics ''boom''))) (None, demo_world) =
       (Panics ''boom'', c) \<and> conn_db c = fst demo_world) \<and>
   (\<exists>c. InTx conn_BeginTx (\<lambda>tx. on_conn (demo_wipe (Ret None))) (None, demo_lossy) =
       (Ret (Some (Errorf ''commit tx: %w'' [] [New ''conn closed''])), c) \<and>
     it_tokens (conn_db c) = [])"
proof (intro conjI)
  note out = transaction_atomic [OF conn_begin_ok conn_tx_ok conn_leaves_open]
  have b: "conn_BeginTx (None, demo_world) = (Ret (Inr conn_tx), (Some (fst demo_world), demo_world))"
    by (simp add: conn_BeginTx_def next_stmt_def demo_world_def demo_script_def quiet_def)
  obtain r c where run:
      "InTx conn_BeginTx (\<lambda>tx. on_conn (demo_wipe (Panics ''boom''))) (None, demo_world) = (r, c)"
    by (meson surj_pair)
  from out [OF run] b have "r = Panics ''boom'' \<and> conn_db c = fst demo_world"
    by (simp add: on_conn_def demo_wipe_def conn_db_def)
  with run show "\<exists>c. InTx conn_BeginTx (\<lambda>tx. on_conn (demo_wipe (Panics ''boom'')))
      (None, demo_world) = (Panics ''boom'', c) \<and> conn_db c = fst demo_world" by blast
next
  show "\<exists>c. InTx conn_BeginTx (\<lambda>tx. on_conn (demo_wipe (Ret None))) (None, demo_lossy) =
       (Ret (Some (Errorf ''commit tx: %w'' [] [New ''conn closed''])), c) \<and>
     it_tokens (conn_db c) = []"
    by (simp add: InTx_def bindp_def deferp_def conn_BeginTx_def conn_tx_def conn_Commit_def
        conn_Rollback_def on_conn_def demo_wipe_def next_stmt_def demo_lossy_def demo_script_def
        quiet_def conn_db_def)
qed

section \<open>Wiring\<close>

text \<open>
  The routing table never lies: a service is built only when every dependency is
  present, no sender is nil, every sender's channel is known and no channel is claimed
  twice; then each channel is routed to exactly the sender that declares it.
\<close>

theorem routing_table_faithful:
  assumes "NewService repo prefs rend senders clock jitter observer cfg = Inr s"
  shows "repo \<noteq> None \<and> prefs \<noteq> None \<and> rend \<noteq> None \<and> clock \<noteq> None \<and> None \<notin> set senders \<and>
    distinct (map (\<lambda>x. cs_Channel (the x)) senders) \<and>
    (\<forall>ch sender. sv_senders s ch = Some sender \<longleftrightarrow>
       Some sender \<in> set senders \<and> cs_Channel sender = ch) \<and>
    (\<forall>ch. sv_senders s ch \<noteq> None \<longrightarrow> ch \<in> set Channels)"
proof -
  from NewService_Inr [OF assms] have deps: "repo \<noteq> None" "prefs \<noteq> None" "rend \<noteq> None" "clock \<noteq> None"
    and reg: "registered senders (sv_senders s)" by auto
  then have none: "None \<notin> set senders" and dist: "distinct (map (\<lambda>x. cs_Channel (the x)) senders)"
    and look: "sv_senders s ch = find (\<lambda>sd. cs_Channel sd = ch) (map the senders)"
    and valid: "Some sd \<in> set senders \<Longrightarrow> Channel_Valid (cs_Channel sd)" for ch sd
    by (auto simp: registered_def)
  have mem: "sd \<in> set (map the senders) \<longleftrightarrow> Some sd \<in> set senders" for sd
  proof
    assume "sd \<in> set (map the senders)"
    then obtain x where "x \<in> set senders" "sd = the x" by auto
    with none show "Some sd \<in> set senders" by (cases x) auto
  qed (force simp: image_iff)
  have iff: "sv_senders s ch = Some sd \<longleftrightarrow> Some sd \<in> set senders \<and> cs_Channel sd = ch" for ch sd
  proof
    assume "sv_senders s ch = Some sd"
    then show "Some sd \<in> set senders \<and> cs_Channel sd = ch"
      using find_Some_mem [of "\<lambda>sd. cs_Channel sd = ch" "map the senders" sd] mem [of sd]
      by (simp add: look)
  next
    assume "Some sd \<in> set senders \<and> cs_Channel sd = ch"
    moreover have "distinct (map cs_Channel (map the senders))" using dist by (simp add: o_def)
    ultimately show "sv_senders s ch = Some sd"
      using find_distinct_id [of cs_Channel "map the senders" sd] mem [of sd] by (simp add: look)
  qed
  have "ch \<in> set Channels" if "sv_senders s ch \<noteq> None" for ch
  proof -
    from that obtain sd where "sv_senders s ch = Some sd" by auto
    with iff have "Some sd \<in> set senders" "cs_Channel sd = ch" by simp_all
    with valid [of sd] show ?thesis by (simp add: Channel_Valid_iff)
  qed
  with deps none dist iff show ?thesis by blast
qed

theorem routing_table_faithful_witness:
  "\<exists>s. NewService (Some outbox_repo) (Some prefs_repo) (Some (\<lambda>k c p. retp (Inr demo_message)))
     [Some demo_sender] (Some (retp 20)) None None (sv_cfg demo_service) = Inr s \<and>
     sv_senders s ChannelInApp = Some demo_sender"
proof -
  let ?new = "NewService (Some outbox_repo) (Some prefs_repo)
     (Some (\<lambda>k c p. retp (Inr demo_message))) [Some demo_sender] (Some (retp 20)) None None
     (sv_cfg demo_service)"
  obtain s where s: "?new = Inr s"
    by (simp add: NewService_def demo_sender_def Channel_Valid_def)
  have "cs_Channel demo_sender = ChannelInApp" by (simp add: demo_sender_def)
  with routing_table_faithful [OF s] s show ?thesis by auto
qed

end
